(* ===== verification/Prelude.thy ===== *)
theory Prelude
  imports Main "HOL-Library.Char_ord" "HOL-Library.List_Lexorder" "HOL-Library.Multiset"
begin

text \<open>
  The vocabulary every component theory shares.

  \<^item> A TypeScript method that awaits a database, a broker or another service and may throw is
    an action: a function from the state it can change to a result (\<open>Inl\<close> the thrown value,
    \<open>Inr\<close> the resolved one) and the state left behind. \<open>and_then\<close> is sequencing by
    \<^verbatim>\<open>await\<close>, \<open>catching\<close> is \<^verbatim>\<open>try/catch\<close>, \<open>transaction\<close> is
    \<^verbatim>\<open>prisma.$transaction\<close>: the state is rolled back when the body throws or when the
    database itself refuses.
  \<^item> \<open>keeps P m\<close> says that action \<open>m\<close> preserves the state predicate \<open>P\<close> on every outcome;
    its rules are collected in \<open>keeps_intros\<close>, so that invariant proofs follow the structure
    of the code.
  \<^item> A table is the list of its rows in insertion order. \<open>update_rows\<close> and \<open>find_row\<close> are the
    primary-key update and lookup.
  \<^item> The JavaScript conversions the sources rely on: \<open>String(n)\<close> and \<open>Number(s)\<close>.
\<close>

named_theorems act_simps \<open>unfolding rules of the action combinators\<close>
named_theorems keeps_intros \<open>structural rules for state invariants\<close>
named_theorems row_simps \<open>rewriting for primary-key lookups and updates\<close>

section \<open>Actions: state, exceptions, transactions\<close>

type_synonym ('s, 'e, 'a) act = "'s \<Rightarrow> ('e + 'a) \<times> 's"

definition ret :: "'a \<Rightarrow> ('s, 'e, 'a) act" where
  "ret a = (\<lambda>s. (Inr a, s))"

definition throw :: "'e \<Rightarrow> ('s, 'e, 'a) act" where
  "throw e = (\<lambda>s. (Inl e, s))"

definition lift :: "'e + 'a \<Rightarrow> ('s, 'e, 'a) act" where
  "lift r = (\<lambda>s. (r, s))"

definition gets :: "('s \<Rightarrow> 'a) \<Rightarrow> ('s, 'e, 'a) act" where
  "gets f = (\<lambda>s. (Inr (f s), s))"

definition modify :: "('s \<Rightarrow> 's) \<Rightarrow> ('s, 'e, unit) act" where
  "modify f = (\<lambda>s. (Inr (), f s))"

definition and_then :: "('s, 'e, 'a) act \<Rightarrow> ('a \<Rightarrow> ('s, 'e, 'b) act) \<Rightarrow> ('s, 'e, 'b) act" where
  "and_then m f = (\<lambda>s. case m s of (Inl e, s') \<Rightarrow> (Inl e, s') | (Inr a, s') \<Rightarrow> f a s')"

definition catching :: "('s, 'e, 'a) act \<Rightarrow> ('e \<Rightarrow> ('s, 'e, 'a) act) \<Rightarrow> ('s, 'e, 'a) act" where
  "catching m h = (\<lambda>s. case m s of (Inl e, s') \<Rightarrow> h e s' | (Inr a, s') \<Rightarrow> (Inr a, s'))"

text \<open>
  A database transaction. \<open>fault\<close> is the database's own verdict: \<open>None\<close> when every statement
  and the commit are accepted, \<open>Some e\<close> when the connection, a serialization conflict, a column
  type or the commit makes it fail with \<open>e\<close>. Both a refusal and a throw inside the body leave
  the tables as they were.
\<close>

definition transaction :: "'e option \<Rightarrow> ('s, 'e, 'a) act \<Rightarrow> ('s, 'e, 'a) act" where
  "transaction fault m = (\<lambda>s. case fault of
     Some e \<Rightarrow> (Inl e, s)
   | None \<Rightarrow> (case m s of (Inl e, _) \<Rightarrow> (Inl e, s) | (Inr a, s') \<Rightarrow> (Inr a, s')))"

text \<open>A \<^verbatim>\<open>for\<close> loop that awaits one action per element and collects the results.\<close>

primrec map_act :: "('a \<Rightarrow> ('s, 'e, 'b) act) \<Rightarrow> 'a list \<Rightarrow> ('s, 'e, 'b list) act" where
  "map_act f [] = ret []"
| "map_act f (x # xs) = and_then (f x) (\<lambda>y. and_then (map_act f xs) (\<lambda>ys. ret (y # ys)))"

lemma ret_apply [simp, act_simps]: "ret a s = (Inr a, s)"
  by (simp add: ret_def)

lemma throw_apply [simp, act_simps]: "throw e s = (Inl e, s)"
  by (simp add: throw_def)

lemma lift_apply [simp, act_simps]: "lift r s = (r, s)"
  by (simp add: lift_def)

lemma gets_apply [simp, act_simps]: "gets f s = (Inr (f s), s)"
  by (simp add: gets_def)

lemma modify_apply [simp, act_simps]: "modify f s = (Inr (), f s)"
  by (simp add: modify_def)

lemma and_then_Inr_iff:
  "and_then m f s = (Inr b, t) \<longleftrightarrow> (\<exists>a u. m s = (Inr a, u) \<and> f a u = (Inr b, t))"
  by (auto simp: and_then_def split: prod.splits sum.splits)

lemma and_then_Inl_iff:
  "and_then m f s = (Inl e, t) \<longleftrightarrow>
     m s = (Inl e, t) \<or> (\<exists>a u. m s = (Inr a, u) \<and> f a u = (Inl e, t))"
  by (auto simp: and_then_def split: prod.splits sum.splits)

lemma and_then_step:
  "m s = (Inr a, u) \<Longrightarrow> and_then m f s = f a u"
  "m s = (Inl e, u) \<Longrightarrow> and_then m f s = (Inl e, u)"
  by (simp_all add: and_then_def)

lemma and_then_simps [simp, act_simps]:
  "and_then (ret a) f s = f a s"
  "and_then (throw e) f s = (Inl e, s)"
  "and_then (lift (Inl e)) f s = (Inl e, s)"
  "and_then (lift (Inr a)) f s = f a s"
  "and_then (gets g) f s = f (g s) s"
  "and_then (modify h) k s = k () (h s)"
  by (simp_all add: and_then_def)

lemma catching_step:
  "m s = (Inr a, u) \<Longrightarrow> catching m h s = (Inr a, u)"
  "m s = (Inl e, u) \<Longrightarrow> catching m h s = h e u"
  by (simp_all add: catching_def)

lemma transaction_None_Inr_iff [act_simps]:
  "transaction flt m s = (Inr a, t) \<longleftrightarrow> flt = None \<and> m s = (Inr a, t)"
  by (auto simp: transaction_def split: prod.splits sum.splits option.splits)

lemma transaction_Inl_unchanged:
  "transaction flt m s = (Inl e, t) \<Longrightarrow> t = s"
  by (auto simp: transaction_def split: prod.splits sum.splits option.splits)

lemma transaction_Inl_iff:
  "transaction flt m s = (Inl e, t) \<longleftrightarrow>
     t = s \<and> (flt = Some e \<or> (flt = None \<and> fst (m s) = Inl e))"
  by (auto simp: transaction_def split: prod.splits sum.splits option.splits)

lemma transaction_fault [simp]: "transaction (Some e) m s = (Inl e, s)"
  by (simp add: transaction_def)

lemma transaction_body_throws: "m s = (Inl e, t) \<Longrightarrow> transaction None m s = (Inl e, s)"
  by (simp add: transaction_def)

lemma transaction_body_commits: "m s = (Inr a, t) \<Longrightarrow> transaction None m s = (Inr a, t)"
  by (simp add: transaction_def)

lemma Inr_result:
  assumes "\<not> isl (fst r)"
  obtains a where "r = (Inr a, snd r)"
  using assms by (cases r; cases "fst r") auto

text \<open>What becomes of a request to another service: answered, never carried out, or carried out with the answer lost.\<close>

datatype net_verdict = Delivered | Unreachable | ReplyLost

section \<open>State invariants of actions\<close>

definition keeps :: "('s \<Rightarrow> bool) \<Rightarrow> ('s, 'e, 'a) act \<Rightarrow> bool" where
  "keeps P m \<longleftrightarrow> (\<forall>s. P s \<longrightarrow> P (snd (m s)))"

definition reads_only :: "('s, 'e, 'a) act \<Rightarrow> bool" where
  "reads_only m \<longleftrightarrow> (\<forall>s. snd (m s) = s)"

lemma keepsI: "(\<And>s. P s \<Longrightarrow> P (snd (m s))) \<Longrightarrow> keeps P m"
  by (simp add: keeps_def)

lemma keepsD: "keeps P m \<Longrightarrow> P s \<Longrightarrow> P (snd (m s))"
  by (simp add: keeps_def)

lemma keeps_result: "keeps P m \<Longrightarrow> P s \<Longrightarrow> m s = (r, t) \<Longrightarrow> P t"
  by (metis keepsD snd_conv)

lemma reads_only_keeps: "reads_only m \<Longrightarrow> keeps P m"
  by (simp add: keeps_def reads_only_def)

lemma keeps_basic [keeps_intros]:
  "keeps P (ret a)" "keeps P (throw e)" "keeps P (lift r)" "keeps P (gets f)"
  by (simp_all add: keeps_def)

lemma keeps_modify: "(\<And>s. P s \<Longrightarrow> P (f s)) \<Longrightarrow> keeps P (modify f)"
  by (simp add: keeps_def)

lemma keeps_and_then [keeps_intros]:
  "keeps P m \<Longrightarrow> (\<And>a. keeps P (f a)) \<Longrightarrow> keeps P (and_then m f)"
  unfolding keeps_def and_then_def by (fastforce split: prod.splits sum.splits)

lemma keeps_catching [keeps_intros]:
  "keeps P m \<Longrightarrow> (\<And>e. keeps P (h e)) \<Longrightarrow> keeps P (catching m h)"
  unfolding keeps_def catching_def by (fastforce split: prod.splits sum.splits)

lemma keeps_transaction [keeps_intros]: "keeps P m \<Longrightarrow> keeps P (transaction flt m)"
  unfolding keeps_def transaction_def by (fastforce split: prod.splits sum.splits option.splits)

text \<open>A transaction only has to keep the predicate when it commits: every throw rolls back.\<close>

lemma keeps_transaction_commit:
  "(\<And>s a t. P s \<Longrightarrow> m s = (Inr a, t) \<Longrightarrow> P t) \<Longrightarrow> keeps P (transaction flt m)"
  unfolding keeps_def transaction_def by (auto split: prod.splits sum.splits option.splits)

lemma keeps_map_act [keeps_intros]: "(\<And>x. keeps P (f x)) \<Longrightarrow> keeps P (map_act f xs)"
  by (induction xs) (auto intro!: keeps_intros)

lemma keeps_if [keeps_intros]:
  "(c \<Longrightarrow> keeps P m) \<Longrightarrow> (\<not> c \<Longrightarrow> keeps P n) \<Longrightarrow> keeps P (if c then m else n)"
  by simp

lemma keeps_option [keeps_intros]:
  "keeps P m \<Longrightarrow> (\<And>a. keeps P (f a)) \<Longrightarrow> keeps P (case x of None \<Rightarrow> m | Some a \<Rightarrow> f a)"
  by (cases x) simp_all

section \<open>Tables\<close>

definition find_row :: "('r \<Rightarrow> 'k) \<Rightarrow> 'k \<Rightarrow> 'r list \<Rightarrow> 'r option" where
  "find_row key k rows = find (\<lambda>r. key r = k) rows"

definition update_rows :: "('r \<Rightarrow> 'k) \<Rightarrow> 'k \<Rightarrow> ('r \<Rightarrow> 'r) \<Rightarrow> 'r list \<Rightarrow> 'r list" where
  "update_rows key k f rows = map (\<lambda>r. if key r = k then f r else r) rows"

definition delete_rows :: "('r \<Rightarrow> 'k) \<Rightarrow> 'k \<Rightarrow> 'r list \<Rightarrow> 'r list" where
  "delete_rows key k rows = filter (\<lambda>r. key r \<noteq> k) rows"

lemma find_Some_mem: "find P xs = Some x \<Longrightarrow> x \<in> set xs \<and> P x"
  by (induction xs) (auto split: if_splits)

lemma find_row_Nil [simp]: "find_row key k [] = None"
  by (simp add: find_row_def)

lemma find_row_Cons [simp]:
  "find_row key k (r # rs) = (if key r = k then Some r else find_row key k rs)"
  by (simp add: find_row_def)

lemma find_row_Some [row_simps]:
  "find_row key k rows = Some r \<Longrightarrow> r \<in> set rows \<and> key r = k"
  by (induction rows) (auto split: if_splits)

lemma find_row_SomeD:
  assumes "find_row key k rows = Some r"
  shows "r \<in> set rows" "key r = k"
  using find_row_Some [OF assms] by simp_all

lemma find_row_None_iff: "find_row key k rows = None \<longleftrightarrow> k \<notin> key ` set rows"
  by (induction rows) auto

lemma find_row_distinct:
  "distinct (map key rows) \<Longrightarrow> r \<in> set rows \<Longrightarrow> find_row key (key r) rows = Some r"
  by (induction rows) (auto simp: image_iff)

lemma find_row_append:
  "find_row key k (xs @ ys) =
     (case find_row key k xs of Some r \<Rightarrow> Some r | None \<Rightarrow> find_row key k ys)"
  by (induction xs) auto

lemma update_rows_simps [simp]:
  "update_rows key k f [] = []"
  "update_rows key k f (r # rs) = (if key r = k then f r else r) # update_rows key k f rs"
  by (simp_all add: update_rows_def)

lemma find_row_update [row_simps]:
  assumes "\<And>r. key (f r) = key r"
  shows "find_row key j (update_rows key k f rows) =
           (if j = k then map_option f (find_row key k rows) else find_row key j rows)"
  by (induction rows) (auto simp: assms)

lemma find_row_map:
  "(\<And>r. key (f r) = key r) \<Longrightarrow> find_row key k (map f rows) = map_option f (find_row key k rows)"
  by (induction rows) auto

lemma map_key_update_rows [row_simps]:
  "(\<And>r. key' (f r) = key' r) \<Longrightarrow> map key' (update_rows key k f rows) = map key' rows"
  by (simp add: update_rows_def)

lemma set_update_rows:
  "r \<in> set (update_rows key k f rows) \<longleftrightarrow>
     (\<exists>r0 \<in> set rows. r = (if key r0 = k then f r0 else r0))"
  unfolding update_rows_def by (simp only: set_map image_iff)

lemma update_rows_absent: "k \<notin> key ` set rows \<Longrightarrow> update_rows key k f rows = rows"
  by (induction rows) auto

lemma delete_rows_simps [simp]:
  "delete_rows key k [] = []"
  "delete_rows key k (r # rs) = (if key r = k then delete_rows key k rs else r # delete_rows key k rs)"
  by (simp_all add: delete_rows_def)

lemma find_row_delete [row_simps]:
  "find_row key j (delete_rows key k rows) = (if j = k then None else find_row key j rows)"
  by (induction rows) auto

lemma set_delete_rows [simp]: "set (delete_rows key k rows) = {r \<in> set rows. key r \<noteq> k}"
  by (auto simp: delete_rows_def)

lemma delete_rows_append: "delete_rows key k (xs @ ys) = delete_rows key k xs @ delete_rows key k ys"
  by (simp add: delete_rows_def)

lemma delete_rows_absent: "k \<notin> key ` set rows \<Longrightarrow> delete_rows key k rows = rows"
  by (induction rows) auto

lemma distinct_map_delete_rows:
  "distinct (map f rows) \<Longrightarrow> distinct (map f (delete_rows key k rows))"
  by (induction rows) auto

lemma list_all2_mem2: "list_all2 P xs ys \<Longrightarrow> y \<in> set ys \<Longrightarrow> \<exists>x \<in> set xs. P x y"
  by (induction rule: list_all2_induct) auto

lemma list_all2_mem1: "list_all2 P xs ys \<Longrightarrow> x \<in> set xs \<Longrightarrow> \<exists>y \<in> set ys. P x y"
  by (induction rule: list_all2_induct) auto

lemma distinct_map_sort_key: "distinct (map f (sort_key g xs)) \<longleftrightarrow> distinct (map f xs)"
  by (rule mset_eq_imp_distinct_iff) (simp add: mset_map)

text \<open>A column stays unique when the new value of the one row that changes is free.\<close>

lemma distinct_update_other:
  assumes "distinct (map col rows)" and "col (f u) \<notin> col ` {r \<in> set rows. key r \<noteq> i}"
    and "distinct (map key rows)" and "\<And>r. r \<in> set rows \<Longrightarrow> key r = i \<Longrightarrow> r = u"
  shows "distinct (map col (update_rows key i f rows))"
  using assms
proof (induction rows)
  case (Cons r rows)
  then have "distinct (map col (update_rows key i f rows))" by auto
  moreover have "col (if key r = i then f r else r) \<notin> col ` set (update_rows key i f rows)"
  proof (cases "key r = i")
    case True
    then have "i \<notin> key ` set rows" "r = u" using Cons.prems(3,4) by auto
    then show ?thesis using Cons.prems(2) True by (force simp: update_rows_absent image_iff)
  next
    case False
    have "col r0 \<noteq> col r" if "r0 \<in> set rows" for r0 using that Cons.prems(1) by (auto simp: image_iff)
    moreover have "col (f r0) \<noteq> col r" if "r0 \<in> set rows" "key r0 = i" for r0
      using that Cons.prems(2) Cons.prems(4) [of r0] False by auto
    ultimately have "\<forall>x \<in> set (update_rows key i f rows). col x \<noteq> col r"
      unfolding set_update_rows Ball_def by metis
    then show ?thesis using False by force
  qed
  ultimately show ?case by simp
qed simp

section \<open>Pages\<close>

text \<open>\<^verbatim>\<open>skip\<close> and \<^verbatim>\<open>take\<close> of a listing, and the envelope \<^verbatim>\<open>sendPaginated\<close> of \<^verbatim>\<open>utils/api-response.ts\<close> puts around a page.\<close>

definition page_rows :: "nat \<Rightarrow> nat \<Rightarrow> 'a list \<Rightarrow> 'a list" where
  "page_rows page limit rows = take limit (drop ((page - 1) * limit) rows)"

record 'a paginated =
  pg_items :: "'a list"
  pg_page :: nat
  pg_limit :: nat
  pg_total :: nat
  pg_totalPages :: nat
  pg_hasNextPage :: bool
  pg_hasPreviousPage :: bool

definition sendPaginated :: "'a list \<Rightarrow> nat \<Rightarrow> nat \<Rightarrow> nat \<Rightarrow> 'a paginated" where
  "sendPaginated items page limit number =
     (let totalPages = (if limit > 0 then (number + limit - 1) div limit else 0)
      in \<lparr>pg_items = items, pg_page = page, pg_limit = limit, pg_total = number, pg_totalPages = totalPages,
          pg_hasNextPage = (page < totalPages), pg_hasPreviousPage = (page > 1 \<and> number > 0)\<rparr>)"

lemma pages_prefix: "concat (map (\<lambda>p. page_rows (Suc p) limit rows) [0..<n]) = take (n * limit) rows"
proof (induction n)
  case (Suc n)
  have "take (Suc n * limit) rows = take (n * limit) rows @ take limit (drop (n * limit) rows)"
    by (simp add: take_add [symmetric] add.commute)
  with Suc show ?case by (simp add: page_rows_def)
qed simp

lemma total_pages_cover:
  fixes limit n :: nat assumes "0 < limit" shows "n \<le> ((n + limit - 1) div limit) * limit"
proof -
  have "n + limit - 1 < limit + ((n + limit - 1) div limit) * limit"
    using dividend_less_div_times [OF assms] .
  then show ?thesis using assms by linarith
qed

text \<open>The pages up to the last one hold every row once, in order.\<close>

lemma pages_complete:
  "0 < limit \<Longrightarrow> concat (map (\<lambda>p. page_rows (Suc p) limit rows) [0..<pg_totalPages (sendPaginated xs q limit (length rows))]) = rows"
  using total_pages_cover [of limit "length rows"] by (simp add: sendPaginated_def Let_def pages_prefix del: upt_Suc)

text \<open>
  \<^verbatim>\<open>orderBy\<close>: the database reads the rows in an order of its own (\<open>scan\<close> ranks the positions of the
  table, differently for every statement if it likes) and sorts them by the key; rows with equal keys come in
  whatever order that leaves them in.
\<close>

datatype SortOrder = Ascending | Descending

definition scanned :: "(nat \<Rightarrow> nat) \<Rightarrow> 'a list \<Rightarrow> 'a list" where
  "scanned scan rows = map snd (sort_key (\<lambda>(i, _). scan i) (zip [0..<length rows] rows))"

definition order_by :: "('a \<Rightarrow> 'k :: linorder) \<Rightarrow> SortOrder \<Rightarrow> 'a list \<Rightarrow> 'a list" where
  "order_by key d rows = (case d of Ascending \<Rightarrow> sort_key key rows | Descending \<Rightarrow> rev (sort_key key rows))"

definition in_order :: "('a \<Rightarrow> 'k :: linorder) \<Rightarrow> SortOrder \<Rightarrow> 'a list \<Rightarrow> bool" where
  "in_order key d rows = (case d of Ascending \<Rightarrow> sorted (map key rows) | Descending \<Rightarrow> sorted (rev (map key rows)))"

lemma mset_scanned [simp]: "mset (scanned scan rows) = mset rows"
  by (simp add: scanned_def mset_map) (metis length_upt map_snd_zip minus_nat.diff_0 mset_map)

lemma mset_order_by [simp]: "mset (order_by key d rows) = mset rows"
  by (cases d) (simp_all add: order_by_def)

lemma set_scanned [simp]: "set (scanned scan rows) = set rows"
  by (rule mset_eq_setD) simp

lemma set_order_by [simp]: "set (order_by key d rows) = set rows"
  by (rule mset_eq_setD) simp

lemma length_order_by [simp]: "length (order_by key d rows) = length rows" "length (scanned scan rows) = length rows"
  by (rule mset_eq_length, simp)+

lemma in_order_order_by [simp]: "in_order key d (order_by key d rows)"
  by (cases d) (simp_all add: in_order_def order_by_def rev_map)

text \<open>Where no two rows share a key, the order of the scan does not show.\<close>

lemma order_by_scanned:
  assumes "distinct (map key rows)"
  shows "order_by key d (scanned scan rows) = order_by key d rows"
proof -
  have "sort_key key (scanned scan rows) = sort_key key rows"
    by (rule sort_key_inj_key_eq) (use assms in \<open>simp_all add: distinct_map\<close>)
  then show ?thesis by (cases d) (simp_all add: order_by_def)
qed

section \<open>JavaScript conversions\<close>

text \<open>A template literal's \<^verbatim>\<open>'${s}'\<close>: the text between single quotes.\<close>

definition quote :: "string \<Rightarrow> string" where
  "quote s = [CHR 0x27] @ s @ [CHR 0x27]"

text \<open>\<open>String(n)\<close> for a whole number.\<close>

fun nat_digits :: "nat \<Rightarrow> string" where
  "nat_digits n = (if n < 10 then [char_of (48 + n)] else nat_digits (n div 10) @ [char_of (48 + n mod 10)])"

declare nat_digits.simps [simp del]

definition int_str :: "int \<Rightarrow> string" where
  "int_str i = (if i < 0 then ''-'' @ nat_digits (nat (- i)) else nat_digits (nat i))"

definition is_digit :: "char \<Rightarrow> bool" where
  "is_digit c \<longleftrightarrow> 48 \<le> (of_char c :: nat) \<and> (of_char c :: nat) \<le> 57"

definition digit_val :: "char \<Rightarrow> nat" where
  "digit_val c = of_char c - 48"

definition digits_val :: "string \<Rightarrow> nat" where
  "digits_val cs = foldl (\<lambda>acc c. 10 * acc + digit_val c) 0 cs"

lemma of_char_digit: "d < 10 \<Longrightarrow> of_char (char_of (48 + d) :: char) = (48 + d :: nat)"
  by (simp add: of_char_of)

lemma is_digit_char_of [simp]: "d < 10 \<Longrightarrow> is_digit (char_of (48 + d :: nat))"
  by (simp add: is_digit_def of_char_digit)

lemma digit_val_char_of [simp]: "d < 10 \<Longrightarrow> digit_val (char_of (48 + d :: nat)) = d"
  by (simp add: digit_val_def of_char_digit)

lemma nat_digits_nonempty [simp]: "nat_digits n \<noteq> []"
  by (subst nat_digits.simps) simp

lemma nat_digits_all_digits: "\<forall>c \<in> set (nat_digits n). is_digit c"
proof (induction n rule: nat_digits.induct)
  case (1 n)
  then show ?case
    by (subst nat_digits.simps) auto
qed

lemma digits_val_snoc [simp]: "digits_val (cs @ [c]) = 10 * digits_val cs + digit_val c"
  by (simp add: digits_val_def)

lemma digits_val_Nil [simp]: "digits_val [] = 0"
  by (simp add: digits_val_def)

lemma digits_val_single [simp]: "digits_val [c] = digit_val c"
  by (simp add: digits_val_def)

lemma digits_val_nat_digits: "digits_val (nat_digits n) = n"
proof (induction n rule: nat_digits.induct)
  case (1 n)
  then show ?case
    by (subst nat_digits.simps) simp
qed

definition is_blank :: "char \<Rightarrow> bool" where
  "is_blank c \<longleftrightarrow> c \<in> {CHR '' '', CHR 0x09, CHR 0x0A, CHR 0x0B, CHR 0x0C, CHR 0x0D}"

definition js_trim :: "string \<Rightarrow> string" where
  "js_trim s = rev (dropWhile is_blank (rev (dropWhile is_blank s)))"

definition js_toUpperCase :: "string \<Rightarrow> string" where
  "js_toUpperCase s = map (\<lambda>c. if 97 \<le> (of_char c :: nat) \<and> (of_char c :: nat) \<le> 122
                              then char_of ((of_char c :: nat) - 32) else c) s"

definition js_toLowerCase :: "string \<Rightarrow> string" where
  "js_toLowerCase s = map (\<lambda>c. if 65 \<le> (of_char c :: nat) \<and> (of_char c :: nat) \<le> 90
                              then char_of ((of_char c :: nat) + 32) else c) s"

text \<open>
  \<open>js_Number s\<close> is \<open>Some n\<close> when \<open>Number(s)\<close> is the whole number \<open>n\<close>, and \<open>None\<close> when it is
  fractional, infinite or \<open>NaN\<close>: the empty text is zero, then come the radix literals
  \<^verbatim>\<open>0x..\<close>, \<^verbatim>\<open>0o..\<close>, \<^verbatim>\<open>0b..\<close>, and signed decimals with an optional fraction and
  exponent. Rounding beyond \<open>2^53\<close> is not represented.
\<close>

definition radix_digit :: "char \<Rightarrow> nat" where
  "radix_digit c = (let v = of_char c :: nat in
     if 48 \<le> v \<and> v \<le> 57 then v - 48
     else if 97 \<le> v \<and> v \<le> 102 then v - 87
     else if 65 \<le> v \<and> v \<le> 70 then v - 55
     else 99)"

definition radix_val :: "nat \<Rightarrow> string \<Rightarrow> int option" where
  "radix_val r cs = (if cs \<noteq> [] \<and> list_all (\<lambda>c. radix_digit c < r) cs
     then Some (int (foldl (\<lambda>acc c. r * acc + radix_digit c) 0 cs)) else None)"

definition signed_digits :: "string \<Rightarrow> int option" where
  "signed_digits cs = (case cs of
     [] \<Rightarrow> None
   | c # ds \<Rightarrow>
       (let neg = (c = CHR ''-''); body = (if c = CHR ''-'' \<or> c = CHR ''+'' then ds else cs) in
        if body \<noteq> [] \<and> list_all is_digit body
        then Some (if neg then - int (digits_val body) else int (digits_val body)) else None))"

definition scaled :: "nat \<Rightarrow> int \<Rightarrow> int option" where
  "scaled m e =
     (if 0 \<le> e then Some (int m * 10 ^ nat e)
      else if m mod 10 ^ nat (- e) = 0 then Some (int (m div 10 ^ nat (- e))) else None)"

definition decimal_val :: "string \<Rightarrow> int option" where
  "decimal_val cs =
     (let ip = takeWhile is_digit cs; rest = dropWhile is_digit cs;
          fp = (case rest of c # r \<Rightarrow> if c = CHR ''.'' then takeWhile is_digit r else [] | [] \<Rightarrow> []);
          tail = (case rest of c # r \<Rightarrow> if c = CHR ''.'' then dropWhile is_digit r else rest | [] \<Rightarrow> [])
      in if ip @ fp = [] then None
         else case tail of
           [] \<Rightarrow> scaled (digits_val (ip @ fp)) (- int (length fp))
         | c # ds \<Rightarrow>
             (if c = CHR ''e'' \<or> c = CHR ''E'' then
                (case signed_digits ds of
                   None \<Rightarrow> None
                 | Some e \<Rightarrow> scaled (digits_val (ip @ fp)) (e - int (length fp)))
              else None))"

definition js_Number :: "string \<Rightarrow> int option" where
  "js_Number s = (case js_trim s of
     [] \<Rightarrow> Some 0
   | c # cs \<Rightarrow>
       (if c = CHR ''0'' \<and> cs \<noteq> [] \<and> (hd cs = CHR ''x'' \<or> hd cs = CHR ''X'') then radix_val 16 (tl cs)
        else if c = CHR ''0'' \<and> cs \<noteq> [] \<and> (hd cs = CHR ''o'' \<or> hd cs = CHR ''O'') then radix_val 8 (tl cs)
        else if c = CHR ''0'' \<and> cs \<noteq> [] \<and> (hd cs = CHR ''b'' \<or> hd cs = CHR ''B'') then radix_val 2 (tl cs)
        else if c = CHR ''-'' then map_option uminus (decimal_val cs)
        else if c = CHR ''+'' then decimal_val cs
        else decimal_val (c # cs)))"

lemma decimal_val_digits:
  "cs \<noteq> [] \<Longrightarrow> \<forall>c \<in> set cs. is_digit c \<Longrightarrow> decimal_val cs = Some (int (digits_val cs))"
  by (simp add: decimal_val_def scaled_def takeWhile_eq_all_conv [THEN iffD2] dropWhile_eq_Nil_conv [THEN iffD2])

lemma is_digit_not_blank: "is_digit c \<Longrightarrow> \<not> is_blank c"
  by (auto simp: is_digit_def is_blank_def)

lemma is_digit_not_sign: "is_digit c \<Longrightarrow> c \<noteq> CHR ''-'' \<and> c \<noteq> CHR ''+''"
  by (auto simp: is_digit_def)

lemma is_digit_not_radix:
  "is_digit c \<Longrightarrow> c \<notin> {CHR ''x'', CHR ''X'', CHR ''o'', CHR ''O'', CHR ''b'', CHR ''B''}"
  by (auto simp: is_digit_def)

lemma dropWhile_blank_digits:
  "\<forall>c \<in> set cs. is_digit c \<Longrightarrow> dropWhile is_blank cs = cs"
  by (cases cs) (auto simp: is_digit_not_blank)

lemma js_trim_digits: "\<forall>c \<in> set cs. is_digit c \<Longrightarrow> js_trim cs = cs"
  by (simp add: js_trim_def dropWhile_blank_digits)

lemma dropWhile_hd: "xs = [] \<or> \<not> P (hd xs) \<Longrightarrow> dropWhile P xs = xs"
  by (cases xs) auto

lemma js_trim_idem [simp]: "js_trim (js_trim s) = js_trim s"
proof -
  let ?t = "dropWhile is_blank s"
  let ?r = "dropWhile is_blank (rev ?t)"
  have "rev ?t = takeWhile is_blank (rev ?t) @ ?r" by simp
  then have t: "?t = rev ?r @ rev (takeWhile is_blank (rev ?t))" by (metis rev_append rev_rev_ident)
  have "rev ?r = [] \<or> \<not> is_blank (hd (rev ?r))"
  proof (cases "rev ?r = []")
    case False
    then have "?t \<noteq> []" "hd ?t = hd (rev ?r)" using t by (metis append_is_Nil_conv, metis hd_append2)
    then show ?thesis using hd_dropWhile [of is_blank s] by metis
  qed simp
  then have "dropWhile is_blank (rev ?r) = rev ?r" by (rule dropWhile_hd)
  then show ?thesis by (simp add: js_trim_def)
qed

lemma js_trim_plain:
  assumes "\<forall>c \<in> set s. \<not> is_blank c"
  shows "js_trim s = s"
proof -
  have "dropWhile is_blank s = s" using assms by (intro dropWhile_hd) (auto simp: hd_in_set)
  moreover have "dropWhile is_blank (rev s) = rev s" using assms hd_in_set [of "rev s"] by (intro dropWhile_hd) auto
  ultimately show ?thesis by (simp add: js_trim_def)
qed

lemma js_Number_int_str: "0 \<le> n \<Longrightarrow> js_Number (int_str n) = Some n"
proof -
  assume n: "0 \<le> n"
  obtain c cs where ds: "nat_digits (nat n) = c # cs"
    by (cases "nat_digits (nat n)") auto
  have dig: "\<forall>d \<in> set (c # cs). is_digit d"
    using nat_digits_all_digits [of "nat n"] ds by simp
  then have "js_trim (c # cs) = c # cs" by (rule js_trim_digits)
  moreover have "c \<noteq> CHR ''-''" "c \<noteq> CHR ''+''"
    using dig is_digit_not_sign by auto
  moreover have "cs \<noteq> [] \<Longrightarrow> hd cs \<notin> {CHR ''x'', CHR ''X'', CHR ''o'', CHR ''O'', CHR ''b'', CHR ''B''}"
    using dig by (intro is_digit_not_radix) simp
  moreover have "decimal_val (c # cs) = Some n"
    using digits_val_nat_digits [of "nat n"] ds n decimal_val_digits [OF _ dig] by simp
  moreover have "int_str n = c # cs" using n ds by (simp add: int_str_def)
  ultimately show ?thesis
    by (cases "cs = []") (simp_all add: js_Number_def)
qed

end
