(* ===== verification/AppError.thy ===== *)
theory AppError
  imports Prelude
begin

text \<open>
  The error hierarchy (\<^verbatim>\<open>errors/app-error.ts\<close>) and the terminal error middleware
  (\<^verbatim>\<open>middlewares/error-handler.ts\<close>): what a service may throw, how anything thrown is
  normalised into an \<open>AppError\<close>, and the status and body a client receives.
\<close>

section \<open>The AppError hierarchy\<close>

datatype ErrorCode =
  BAD_REQUEST | VALIDATION_ERROR | UNAUTHORIZED | FORBIDDEN | NOT_FOUND | CONFLICT
| UNPROCESSABLE_ENTITY | TOO_MANY_REQUESTS | INTERNAL_SERVER_ERROR | SERVICE_UNAVAILABLE

fun error_code_text :: "ErrorCode \<Rightarrow> string" where
  "error_code_text BAD_REQUEST = ''BAD_REQUEST''"
| "error_code_text VALIDATION_ERROR = ''VALIDATION_ERROR''"
| "error_code_text UNAUTHORIZED = ''UNAUTHORIZED''"
| "error_code_text FORBIDDEN = ''FORBIDDEN''"
| "error_code_text NOT_FOUND = ''NOT_FOUND''"
| "error_code_text CONFLICT = ''CONFLICT''"
| "error_code_text UNPROCESSABLE_ENTITY = ''UNPROCESSABLE_ENTITY''"
| "error_code_text TOO_MANY_REQUESTS = ''TOO_MANY_REQUESTS''"
| "error_code_text INTERNAL_SERVER_ERROR = ''INTERNAL_SERVER_ERROR''"
| "error_code_text SERVICE_UNAVAILABLE = ''SERVICE_UNAVAILABLE''"

text \<open>
  \<open>ErrorDetail\<close> is an open interface; the fields below are the ones the service fills in.
\<close>

record ErrorDetail =
  field :: "string option"
  detail_message :: string
  detail_productId :: "string option"
  detail_code :: "string option"
  requested :: "int option"
  detail_available :: "int option"
  detail_reserved :: "int option"

text \<open>\<open>errname\<close> is \<^verbatim>\<open>this.name = new.target.name\<close>, which is what \<open>instanceof\<close> tests on a leaf class.\<close>

record AppError =
  errname :: string
  message :: string
  statusCode :: int
  code :: ErrorCode
  isOperational :: bool
  details :: "ErrorDetail list option"

definition mkAppError ::
  "string \<Rightarrow> string \<Rightarrow> int \<Rightarrow> ErrorCode \<Rightarrow> ErrorDetail list option \<Rightarrow> bool option \<Rightarrow> AppError" where
  "mkAppError nm msg status cd dets operational =
     \<lparr>errname = nm, message = msg, statusCode = status, code = cd,
      isOperational = (case operational of None \<Rightarrow> True | Some b \<Rightarrow> b), details = dets\<rparr>"

definition BadRequestError :: "string \<Rightarrow> ErrorDetail list option \<Rightarrow> AppError" where
  "BadRequestError msg dets = mkAppError ''BadRequestError'' msg 400 BAD_REQUEST dets None"

definition ValidationError :: "string \<Rightarrow> ErrorDetail list option \<Rightarrow> AppError" where
  "ValidationError msg dets = mkAppError ''ValidationError'' msg 422 VALIDATION_ERROR dets None"

definition UnauthorizedError :: "string \<Rightarrow> AppError" where
  "UnauthorizedError msg = mkAppError ''UnauthorizedError'' msg 401 UNAUTHORIZED None None"

definition ForbiddenError :: "string \<Rightarrow> AppError" where
  "ForbiddenError msg = mkAppError ''ForbiddenError'' msg 403 FORBIDDEN None None"

definition NotFoundError :: "string \<Rightarrow> AppError" where
  "NotFoundError msg = mkAppError ''NotFoundError'' msg 404 NOT_FOUND None None"

definition ConflictError :: "string \<Rightarrow> ErrorDetail list option \<Rightarrow> AppError" where
  "ConflictError msg dets = mkAppError ''ConflictError'' msg 409 CONFLICT dets None"

definition DuplicateOperationError :: "string \<Rightarrow> AppError" where
  "DuplicateOperationError idempotencyKey =
     mkAppError ''DuplicateOperationError''
       (''Operation '' @ quote idempotencyKey @ '' has already been applied'')
       409 CONFLICT None None"

definition UnprocessableEntityError :: "string \<Rightarrow> ErrorDetail list option \<Rightarrow> AppError" where
  "UnprocessableEntityError msg dets =
     mkAppError ''UnprocessableEntityError'' msg 422 UNPROCESSABLE_ENTITY dets None"

definition TooManyRequestsError :: "string \<Rightarrow> AppError" where
  "TooManyRequestsError msg = mkAppError ''TooManyRequestsError'' msg 429 TOO_MANY_REQUESTS None None"

definition ServiceUnavailableError :: "string \<Rightarrow> AppError" where
  "ServiceUnavailableError msg =
     mkAppError ''ServiceUnavailableError'' msg 503 SERVICE_UNAVAILABLE None None"

definition InternalServerError :: "string \<Rightarrow> AppError" where
  "InternalServerError msg =
     mkAppError ''InternalServerError'' msg 500 INTERNAL_SERVER_ERROR None (Some False)"

lemmas app_error_defs =
  mkAppError_def BadRequestError_def ValidationError_def UnauthorizedError_def ForbiddenError_def
  NotFoundError_def ConflictError_def DuplicateOperationError_def UnprocessableEntityError_def
  TooManyRequestsError_def ServiceUnavailableError_def InternalServerError_def

section \<open>What can be thrown\<close>

text \<open>
  A value reaching a \<^verbatim>\<open>catch\<close>: an \<open>AppError\<close>, a Zod failure (path, message and code per issue), a
  Prisma known-request error with its code, \<open>meta.target\<close> and message, any other \<open>Error\<close> (its name, its optional
  body-parser \<open>type\<close>, whether it is a \<open>SyntaxError\<close>, its message), or a value that is no \<open>Error\<close>.
\<close>

record ZodIssue =
  issue_path :: "string list"
  issue_message :: string
  issue_code :: string

datatype thrown =
  ThrownApp AppError
| ThrownZod "ZodIssue list"
| ThrownPrisma string "string list" string
| ThrownError string "string option" bool string
| ThrownValue "string option"

definition isAppError :: "thrown \<Rightarrow> bool" where
  "isAppError e = (case e of ThrownApp _ \<Rightarrow> True | _ \<Rightarrow> False)"

definition isDuplicateOperationError :: "thrown \<Rightarrow> bool" where
  "isDuplicateOperationError e =
     (case e of ThrownApp a \<Rightarrow> errname a = ''DuplicateOperationError'' | _ \<Rightarrow> False)"

definition isUniqueViolation :: "thrown \<Rightarrow> bool" where
  "isUniqueViolation e = (case e of ThrownPrisma c _ _ \<Rightarrow> c = ''P2002'' | _ \<Rightarrow> False)"

section \<open>The error middleware\<close>

fun join_with :: "string \<Rightarrow> string list \<Rightarrow> string" where
  "join_with sep [] = ''''"
| "join_with sep [x] = x"
| "join_with sep (x # xs) = x @ sep @ join_with sep xs"

definition plain_detail :: "string \<Rightarrow> string \<Rightarrow> string option \<Rightarrow> ErrorDetail" where
  "plain_detail f msg c =
     \<lparr>field = Some f, detail_message = msg, detail_productId = None, detail_code = c,
      requested = None, detail_available = None, detail_reserved = None\<rparr>"

definition zodIssuesToDetails :: "ZodIssue list \<Rightarrow> ErrorDetail list" where
  "zodIssuesToDetails issues =
     map (\<lambda>i. let path = join_with ''.'' (issue_path i) in
                plain_detail (if path = '''' then ''(root)'' else path) (issue_message i)
                  (Some (issue_code i))) issues"

definition isPrismaCode :: "string \<Rightarrow> bool" where
  "isPrismaCode c \<longleftrightarrow> length c = 5 \<and> hd c = CHR ''P'' \<and> list_all is_digit (tl c)"

definition fromPrismaError :: "string \<Rightarrow> string list \<Rightarrow> AppError" where
  "fromPrismaError c target =
     (let dets = (if target = [] then None
                  else Some (map (\<lambda>f. plain_detail f
                         (''Constraint violated on '' @ quote f) None) target))
      in if c = ''P2002'' then
           mkAppError ''AppError''
             (if target = [] then ''Unique constraint violation''
              else ''A record with this '' @ join_with '', '' target @ '' already exists'')
             409 CONFLICT dets None
         else if c = ''P2003'' then
           mkAppError ''AppError'' ''Related record does not exist'' 409 CONFLICT dets None
         else if c = ''P2025'' then
           mkAppError ''AppError'' ''Requested record does not exist'' 404 NOT_FOUND None None
         else if c = ''P2000'' then
           mkAppError ''AppError'' ''Value too long for the target column'' 400 BAD_REQUEST dets None
         else if c = ''P2011'' then
           mkAppError ''AppError'' ''Missing required value'' 400 BAD_REQUEST dets None
         else if c \<in> set [''P1001'', ''P1002'', ''P1008'', ''P1017''] then
           mkAppError ''AppError'' ''Database is unavailable'' 503 SERVICE_UNAVAILABLE None (Some False)
         else InternalServerError ''Unexpected database error'')"

fun toAppError :: "thrown \<Rightarrow> AppError" where
  "toAppError (ThrownApp a) = a"
| "toAppError (ThrownZod issues) =
     ValidationError ''Request validation failed'' (Some (zodIssuesToDetails issues))"
| "toAppError (ThrownPrisma c target msg) =
     (if isPrismaCode c then fromPrismaError c target else InternalServerError msg)"
| "toAppError (ThrownError nm typ is_syntax msg) =
     (if nm = ''PrismaClientValidationError'' then InternalServerError ''Invalid database query''
      else if nm = ''PrismaClientInitializationError'' then
        mkAppError ''AppError'' ''Database is unavailable'' 503 SERVICE_UNAVAILABLE None (Some False)
      else if is_syntax \<and> typ = Some ''entity.parse.failed'' then
        mkAppError ''AppError'' ''Malformed JSON in request body'' 400 BAD_REQUEST None None
      else if typ = Some ''entity.too.large'' then
        mkAppError ''AppError'' ''Request body too large'' 413 BAD_REQUEST None None
      else InternalServerError msg)"
| "toAppError (ThrownValue typ) =
     (if typ = Some ''entity.too.large'' then
        mkAppError ''AppError'' ''Request body too large'' 413 BAD_REQUEST None None
      else InternalServerError ''Internal server error'')"

record ErrorBody =
  body_code :: ErrorCode
  body_message :: string
  body_details :: "ErrorDetail list option"
  body_requestId :: "string option"
  body_has_stack :: bool

datatype LogLevel = LogWarn | LogError

text \<open>The level logged, and the response: \<open>None\<close> when the headers are already flushed.\<close>

definition errorHandler ::
  "bool \<Rightarrow> bool \<Rightarrow> string option \<Rightarrow> thrown \<Rightarrow> LogLevel \<times> (int \<times> ErrorBody) option" where
  "errorHandler isProduction headersSent reqId err =
     (let appError = toAppError err;
          level = (if isOperational appError \<and> statusCode appError < 500 then LogWarn else LogError);
          exposeMessage = (isOperational appError \<or> \<not> isProduction)
      in (level,
          if headersSent then None
          else Some (statusCode appError,
            \<lparr>body_code = code appError,
             body_message = (if exposeMessage then message appError else ''Internal server error''),
             body_details = details appError,
             body_requestId = reqId,
             body_has_stack = (\<not> isProduction)\<rparr>)))"

section \<open>Lemmas\<close>

lemma app_error_status [simp]:
  "statusCode (BadRequestError m d) = 400" "statusCode (ValidationError m d) = 422"
  "statusCode (UnauthorizedError m) = 401" "statusCode (ForbiddenError m) = 403"
  "statusCode (NotFoundError m) = 404" "statusCode (ConflictError m d) = 409"
  "statusCode (DuplicateOperationError k) = 409" "statusCode (UnprocessableEntityError m d) = 422"
  "statusCode (TooManyRequestsError m) = 429" "statusCode (ServiceUnavailableError m) = 503"
  "statusCode (InternalServerError m) = 500"
  by (simp_all add: app_error_defs)

lemma app_error_code [simp]:
  "code (NotFoundError m) = NOT_FOUND" "code (ConflictError m d) = CONFLICT"
  "code (DuplicateOperationError k) = CONFLICT"
  "code (UnprocessableEntityError m d) = UNPROCESSABLE_ENTITY"
  "code (InternalServerError m) = INTERNAL_SERVER_ERROR"
  by (simp_all add: app_error_defs)

lemma app_error_name [simp]:
  "errname (NotFoundError m) = ''NotFoundError''" "errname (ConflictError m d) = ''ConflictError''"
  "errname (DuplicateOperationError k) = ''DuplicateOperationError''"
  "errname (UnprocessableEntityError m d) = ''UnprocessableEntityError''"
  "errname (InternalServerError m) = ''InternalServerError''"
  by (simp_all add: app_error_defs)

lemma isAppError_simps [simp]:
  "isAppError (ThrownApp a)" "\<not> isAppError (ThrownPrisma c fs m)"
  "\<not> isAppError (ThrownError n t b m)" "\<not> isAppError (ThrownZod z)" "\<not> isAppError (ThrownValue t)"
  by (simp_all add: isAppError_def)

text \<open>Every error the middleware can be handed maps to a 4xx or 5xx response.\<close>

lemma fromPrismaError_status: "400 \<le> statusCode (fromPrismaError c fs) \<and> statusCode (fromPrismaError c fs) \<le> 599"
  by (simp add: fromPrismaError_def Let_def mkAppError_def)

lemma toAppError_foreign_status:
  "\<not> isAppError e \<Longrightarrow> 400 \<le> statusCode (toAppError e) \<and> statusCode (toAppError e) \<le> 599"
  by (cases e) (use fromPrismaError_status in \<open>auto simp: mkAppError_def\<close>)

text \<open>
  An error that is not operational never has its own message shown in production.
\<close>

lemma fromPrismaError_unavailable:
  "statusCode (fromPrismaError c fs) \<ge> 500 \<Longrightarrow> \<not> isOperational (fromPrismaError c fs)"
  by (auto simp: fromPrismaError_def Let_def app_error_defs split: if_splits)

lemma toAppError_server_fault_not_operational:
  assumes "\<not> isAppError e" and "500 \<le> statusCode (toAppError e)"
  shows "\<not> isOperational (toAppError e)"
  using assms fromPrismaError_unavailable
  by (cases e) (auto simp: app_error_defs split: if_splits)

text \<open>
  No internals leak: in production, when something that is not a deliberate
  \<open>AppError\<close> (a database error, a bug, a thrown value) ends in a 5xx response, the client is told
  "Internal server error" and no stack, whatever the original message was.
\<close>

theorem errorHandler_hides_internals:
  assumes "\<not> isAppError e"
    and "errorHandler True hs rid e = (lvl, Some (status, body))"
    and "500 \<le> status"
  shows "body_message body = ''Internal server error'' \<and> \<not> body_has_stack body \<and> lvl = LogError"
proof -
  have st: "status = statusCode (toAppError e)"
    using assms(2) by (auto simp: errorHandler_def Let_def split: if_splits)
  then have "\<not> isOperational (toAppError e)"
    using assms(1,3) toAppError_server_fault_not_operational by simp
  then show ?thesis
    using assms(2) by (auto simp: errorHandler_def Let_def split: if_splits)
qed

theorem errorHandler_hides_internals_witness:
  "body_message (snd (the (snd (errorHandler True False (Some ''r1'')
      (ThrownError ''TypeError'' None False ''secret at 0x1''))))) = ''Internal server error''"
proof -
  let ?e = "ThrownError ''TypeError'' None False ''secret at 0x1''"
  obtain lvl status body where h: "errorHandler True False (Some ''r1'') ?e = (lvl, Some (status, body))"
    by (simp add: errorHandler_def Let_def)
  have "500 \<le> status"
    using h by (auto simp: errorHandler_def Let_def app_error_defs)
  from errorHandler_hides_internals [OF _ h this] h show ?thesis
    by simp
qed

end
