(* ===== verification/InventoryRules.thy ===== *)
theory InventoryRules
  imports AppError
begin

text \<open>
  The stock rules (\<^verbatim>\<open>modules/inventory/inventory.rules.ts\<close>): pure checks and calculations on
  stock levels. A rule returns the next levels or throws.
\<close>

record StockLevels =
  quantity :: int
  reserved :: int

record ReorderLevels = StockLevels +
  reorderLevel :: int

definition availableStock :: "'a StockLevels_scheme \<Rightarrow> int" where
  "availableStock item = quantity item - reserved item"

definition isLowStock :: "'a ReorderLevels_scheme \<Rightarrow> bool" where
  "isLowStock item \<longleftrightarrow> availableStock item \<le> reorderLevel item"

definition assertInvariants :: "'a StockLevels_scheme \<Rightarrow> thrown + unit" where
  "assertInvariants nxt =
     (if quantity nxt < 0 then
        Inl (ThrownApp (UnprocessableEntityError ''On-hand quantity cannot go negative'' None))
      else if reserved nxt < 0 then
        Inl (ThrownApp (UnprocessableEntityError ''Reserved quantity cannot go negative'' None))
      else if reserved nxt > quantity nxt then
        Inl (ThrownApp (ConflictError
          (''Cannot leave '' @ int_str (reserved nxt) @ '' units reserved against ''
             @ int_str (quantity nxt) @ '' on hand'') None))
      else Inr ())"

definition insufficientStock :: "int \<Rightarrow> int \<Rightarrow> thrown" where
  "insufficientStock req available =
     ThrownApp (ConflictError (''Insufficient stock: requested '' @ int_str req @ '', only ''
       @ int_str available @ '' available'') None)"

definition planReservation :: "'a StockLevels_scheme \<Rightarrow> int \<Rightarrow> thrown + StockLevels" where
  "planReservation item n =
     (let available = availableStock item
      in if n > available then Inl (insufficientStock n available)
         else Inr \<lparr>quantity = quantity item, reserved = reserved item + n\<rparr>)"

definition planRelease :: "'a StockLevels_scheme \<Rightarrow> int \<Rightarrow> thrown + StockLevels" where
  "planRelease item n =
     (if n > reserved item then
        Inl (ThrownApp (ConflictError (''Cannot release '' @ int_str n @ '' units; only ''
          @ int_str (reserved item) @ '' are reserved'') None))
      else Inr \<lparr>quantity = quantity item, reserved = reserved item - n\<rparr>)"

definition planFulfilment :: "'a StockLevels_scheme \<Rightarrow> int \<Rightarrow> thrown + StockLevels" where
  "planFulfilment item n =
     (if n > reserved item then
        Inl (ThrownApp (ConflictError (''Cannot fulfil '' @ int_str n @ '' units; only ''
          @ int_str (reserved item) @ '' are reserved'') None))
      else Inr \<lparr>quantity = quantity item - n, reserved = reserved item - n\<rparr>)"

definition planSale :: "'a StockLevels_scheme \<Rightarrow> int \<Rightarrow> thrown + StockLevels" where
  "planSale item n =
     (let available = availableStock item
      in if n > available then Inl (insufficientStock n available)
         else Inr \<lparr>quantity = quantity item - n, reserved = reserved item\<rparr>)"

definition planReceipt :: "'a StockLevels_scheme \<Rightarrow> int \<Rightarrow> thrown + StockLevels" where
  "planReceipt item n = Inr \<lparr>quantity = quantity item + n, reserved = reserved item\<rparr>"

definition planAdjustment :: "'a StockLevels_scheme \<Rightarrow> int \<Rightarrow> thrown + StockLevels" where
  "planAdjustment item delta =
     (let nxt = \<lparr>quantity = quantity item + delta, reserved = reserved item\<rparr>
      in if quantity nxt < reserved item then
           Inl (ThrownApp (ConflictError (''Cannot adjust to '' @ int_str (quantity nxt)
             @ '' units while '' @ int_str (reserved item) @ '' are reserved'') None))
         else Inr nxt)"

section \<open>The stock invariant and the contract planners share\<close>

definition stock_ok :: "'a StockLevels_scheme \<Rightarrow> bool" where
  "stock_ok lv \<longleftrightarrow> 0 \<le> reserved lv \<and> reserved lv \<le> quantity lv"

lemmas plan_defs =
  planReservation_def planRelease_def planFulfilment_def planSale_def planReceipt_def
  planAdjustment_def insufficientStock_def availableStock_def

lemma assertInvariants_Inr_iff [simp]: "assertInvariants nxt = Inr u \<longleftrightarrow> stock_ok nxt"
  by (auto simp: assertInvariants_def stock_ok_def split: if_splits)

lemma assertInvariants_Inl_app: "assertInvariants nxt = Inl e \<Longrightarrow> isAppError e"
  by (auto simp: assertInvariants_def split: if_splits)

lemma assertInvariants_ok [simp]: "stock_ok nxt \<Longrightarrow> assertInvariants nxt = Inr ()"
  by (auto simp: assertInvariants_def stock_ok_def)

text \<open>
  What every quantity planner promises: on success each unit moves \<open>quantity\<close> by \<open>dq\<close> and
  \<open>reserved\<close> by \<open>dr\<close>, levels that were consistent stay consistent, and a refusal is always one of
  the domain's own errors.
\<close>

locale stock_planner =
  fixes plan :: "'a StockLevels_scheme \<Rightarrow> int \<Rightarrow> thrown + StockLevels"
    and dq :: int and dr :: int
  assumes plan_effect:
      "plan it n = Inr lv \<Longrightarrow> quantity lv = quantity it + dq * n \<and> reserved lv = reserved it + dr * n"
    and plan_keeps: "stock_ok it \<Longrightarrow> 0 < n \<Longrightarrow> plan it n = Inr lv \<Longrightarrow> stock_ok lv"
    and plan_refusal: "plan it n = Inl e \<Longrightarrow> isAppError e"
begin

lemma plan_then_assert:
  "stock_ok it \<Longrightarrow> 0 < n \<Longrightarrow> plan it n = Inr lv \<Longrightarrow> assertInvariants lv = Inr ()"
  by (simp add: plan_keeps)

lemma available_effect:
  "plan it n = Inr lv \<Longrightarrow> availableStock lv = availableStock it + (dq - dr) * n"
  using plan_effect [of it n lv] by (simp add: availableStock_def algebra_simps)

end

interpretation reservation: stock_planner planReservation 0 1
  by unfold_locales (auto simp: plan_defs stock_ok_def Let_def split: if_splits)

interpretation releasing: stock_planner planRelease 0 "-1"
  by unfold_locales (auto simp: plan_defs stock_ok_def Let_def split: if_splits)

interpretation fulfilment: stock_planner planFulfilment "-1" "-1"
  by unfold_locales (auto simp: plan_defs stock_ok_def Let_def split: if_splits)

interpretation sale: stock_planner planSale "-1" 0
  by unfold_locales (auto simp: plan_defs stock_ok_def Let_def split: if_splits)

interpretation receipt: stock_planner planReceipt 1 0
  by unfold_locales (auto simp: plan_defs stock_ok_def Let_def split: if_splits)

lemma planAdjustment_effect:
  "planAdjustment it d = Inr lv \<Longrightarrow> quantity lv = quantity it + d \<and> reserved lv = reserved it"
  by (auto simp: plan_defs Let_def split: if_splits)

lemma planAdjustment_keeps: "stock_ok it \<Longrightarrow> planAdjustment it d = Inr lv \<Longrightarrow> stock_ok lv"
  by (auto simp: plan_defs stock_ok_def Let_def split: if_splits)

lemma planAdjustment_refusal: "planAdjustment it d = Inl e \<Longrightarrow> isAppError e"
  by (auto simp: plan_defs Let_def split: if_splits)

text \<open>
  Every stock transition either refuses with a domain error or produces levels that
  satisfy \<open>0 <= reserved <= quantity\<close>; in particular a reservation and a sale succeed exactly when
  the units asked for are available, and a release and a fulfilment exactly when they are reserved.
\<close>

theorem planners_exact:
  assumes "stock_ok it" and "0 < n"
  shows "((\<exists>lv. planReservation it n = Inr lv \<and> stock_ok lv) \<longleftrightarrow> n \<le> availableStock it) \<and>
         ((\<exists>lv. planSale it n = Inr lv \<and> stock_ok lv) \<longleftrightarrow> n \<le> availableStock it) \<and>
         ((\<exists>lv. planRelease it n = Inr lv \<and> stock_ok lv) \<longleftrightarrow> n \<le> reserved it) \<and>
         ((\<exists>lv. planFulfilment it n = Inr lv \<and> stock_ok lv) \<longleftrightarrow> n \<le> reserved it) \<and>
         (\<exists>lv. planReceipt it n = Inr lv \<and> stock_ok lv) \<and>
         ((\<exists>lv. planAdjustment it d = Inr lv \<and> stock_ok lv) \<longleftrightarrow> reserved it \<le> quantity it + d)"
  using assms by (auto simp: plan_defs stock_ok_def Let_def)

theorem planners_exact_witness:
  "(\<exists>lv. planReservation \<lparr>quantity = 10, reserved = 4\<rparr> 6 = Inr lv \<and> stock_ok lv) \<and>
   \<not> (\<exists>lv. planReservation \<lparr>quantity = 10, reserved = 4\<rparr> 7 = Inr lv \<and> stock_ok lv)"
proof -
  let ?it = "\<lparr>quantity = 10, reserved = 4\<rparr> :: StockLevels"
  have ok: "stock_ok ?it" by (simp add: stock_ok_def)
  show ?thesis
    using planners_exact [OF ok, of 6 0] planners_exact [OF ok, of 7 0]
    by (simp add: availableStock_def)
qed

end
