(* ===== verification/InventoryRepository.thy ===== *)
theory InventoryRepository
  imports InventoryRules
begin

text \<open>
  The inventory tables (\<^verbatim>\<open>prisma/schema.prisma\<close>) and the repository over them
  (\<^verbatim>\<open>modules/inventory/inventory.repository.ts\<close>).

  A table is the list of its rows; the unique constraints, the cascade on delete and the defaults
  are the schema's. Every repository call takes the database's verdict \<open>flt\<close> (see
  \<open>transaction\<close>), the clock \<open>now\<close> and, where a row is inserted, the identifier \<open>uuid\<close> the default
  generates. The surrogate ids of ledger and audit rows are not represented: nothing reads them.
\<close>

section \<open>Rows and tables\<close>

datatype StockMovementType = INBOUND | OUTBOUND | RESERVATION | RELEASE | RETURN | ADJUSTMENT

record InventoryItem = ReorderLevels +
  item_id :: string
  sku :: string
  productId :: string
  warehouse :: string
  createdAt :: int
  updatedAt :: int

record StockMovementHistory =
  mv_itemId :: string
  mv_type :: StockMovementType
  quantityChanged :: int
  lastQuantity :: int
  mv_reason :: "string option"
  mv_reference :: "string option"
  mv_createdAt :: int

record InventoryAuditLog =
  al_itemId :: string
  al_field :: string
  oldValue :: string
  newValue :: string
  al_actor :: "string option"
  al_createdAt :: int

record ProcessedMessage =
  pm_messageId :: string
  pm_type :: string
  pm_reference :: "string option"
  processedAt :: int

record inventory_db =
  inventory_items :: "InventoryItem list"
  stock_movement_histories :: "StockMovementHistory list"
  inventory_audit_logs :: "InventoryAuditLog list"
  processed_messages :: "ProcessedMessage list"

definition empty_inventory_db :: inventory_db where
  "empty_inventory_db = \<lparr>inventory_items = [], stock_movement_histories = [],
     inventory_audit_logs = [], processed_messages = []\<rparr>"

section \<open>Inputs and plans\<close>

record CreateInventoryItemInput =
  new_sku :: string
  new_productId :: string
  new_warehouse :: string
  new_quantity :: int
  new_reorderLevel :: int

record UpdateInventoryItemInput =
  patch_sku :: "string option"
  patch_productId :: "string option"
  patch_warehouse :: "string option"
  patch_quantity :: "int option"
  patch_reorderLevel :: "int option"

record Movement =
  movement_type :: StockMovementType
  movement_quantity :: int
  movement_reason :: "string option"
  movement_reference :: "string option"

record StockChangePlan = StockLevels +
  movement :: Movement

record BulkStockChangePlan = StockChangePlan +
  plan_productId :: string

record IdempotencyKey =
  key_messageId :: string
  key_type :: string
  key_reference :: "string option"

record FieldChange =
  change_field :: string
  change_oldValue :: string
  change_newValue :: string

section \<open>The field diff behind the audit trail\<close>

datatype FieldValue = TextValue string | NumberValue int

fun string_of_value :: "FieldValue \<Rightarrow> string" where
  "string_of_value (TextValue s) = s"
| "string_of_value (NumberValue n) = int_str n"

definition AUDITED_FIELDS :: "string list" where
  "AUDITED_FIELDS = [''sku'', ''productId'', ''warehouse'', ''quantity'', ''reorderLevel'']"

definition item_field :: "InventoryItem \<Rightarrow> string \<Rightarrow> FieldValue" where
  "item_field it f =
     (if f = ''sku'' then TextValue (sku it)
      else if f = ''productId'' then TextValue (productId it)
      else if f = ''warehouse'' then TextValue (warehouse it)
      else if f = ''quantity'' then NumberValue (quantity it)
      else NumberValue (reorderLevel it))"

definition patch_field :: "UpdateInventoryItemInput \<Rightarrow> string \<Rightarrow> FieldValue option" where
  "patch_field p f =
     (if f = ''sku'' then map_option TextValue (patch_sku p)
      else if f = ''productId'' then map_option TextValue (patch_productId p)
      else if f = ''warehouse'' then map_option TextValue (patch_warehouse p)
      else if f = ''quantity'' then map_option NumberValue (patch_quantity p)
      else map_option NumberValue (patch_reorderLevel p))"

fun diff_fields ::
  "InventoryItem \<Rightarrow> UpdateInventoryItemInput \<Rightarrow> string list \<Rightarrow> FieldChange list" where
  "diff_fields cur p [] = []"
| "diff_fields cur p (f # fs) =
     (case patch_field p f of
        None \<Rightarrow> diff_fields cur p fs
      | Some nxt \<Rightarrow>
          (if nxt = item_field cur f then diff_fields cur p fs
           else \<lparr>change_field = f, change_oldValue = string_of_value (item_field cur f),
                 change_newValue = string_of_value nxt\<rparr> # diff_fields cur p fs))"

definition diffInventoryItem :: "InventoryItem \<Rightarrow> UpdateInventoryItemInput \<Rightarrow> FieldChange list" where
  "diffInventoryItem cur p = diff_fields cur p AUDITED_FIELDS"

section \<open>Statements on the tables\<close>

definition uniqueViolation :: "string \<Rightarrow> thrown" where
  "uniqueViolation f = ThrownPrisma ''P2002'' [f] ''Unique constraint failed''"

definition recordNotFound :: thrown where
  "recordNotFound = ThrownPrisma ''P2025'' [] ''An operation failed because it depends on one or more records that were required but not found''"

text \<open>The first unique column of \<open>row\<close> another row already carries.\<close>

definition item_conflict :: "InventoryItem \<Rightarrow> InventoryItem list \<Rightarrow> string option" where
  "item_conflict row others =
     (if item_id row \<in> set (map item_id others) then Some ''id''
      else if sku row \<in> set (map sku others) then Some ''sku''
      else if productId row \<in> set (map productId others) then Some ''product_id''
      else None)"

definition insert_item :: "InventoryItem \<Rightarrow> (inventory_db, thrown, InventoryItem) act" where
  "insert_item row db =
     (case item_conflict row (inventory_items db) of
        Some f \<Rightarrow> (Inl (uniqueViolation f), db)
      | None \<Rightarrow> (Inr row, db\<lparr>inventory_items := inventory_items db @ [row]\<rparr>))"

text \<open>\<^verbatim>\<open>inventoryItem.update({ where: { id }, data })\<close>; \<open>upd\<close> is the data, which never changes the key.\<close>

definition update_item ::
  "string \<Rightarrow> (InventoryItem \<Rightarrow> InventoryItem) \<Rightarrow> (inventory_db, thrown, InventoryItem) act" where
  "update_item i upd db =
     (case find_row item_id i (inventory_items db) of
        None \<Rightarrow> (Inl recordNotFound, db)
      | Some row \<Rightarrow>
          (case item_conflict (upd row) (delete_rows item_id i (inventory_items db)) of
             Some f \<Rightarrow> (Inl (uniqueViolation f), db)
           | None \<Rightarrow>
               (Inr (upd row),
                db\<lparr>inventory_items := update_rows item_id i upd (inventory_items db)\<rparr>)))"

definition delete_item :: "string \<Rightarrow> (inventory_db, thrown, unit) act" where
  "delete_item i db =
     (case find_row item_id i (inventory_items db) of
        None \<Rightarrow> (Inl recordNotFound, db)
      | Some _ \<Rightarrow>
          (Inr (), db\<lparr>inventory_items := delete_rows item_id i (inventory_items db),
             stock_movement_histories := delete_rows mv_itemId i (stock_movement_histories db),
             inventory_audit_logs := delete_rows al_itemId i (inventory_audit_logs db)\<rparr>))"

definition create_movements ::
  "StockMovementHistory list \<Rightarrow> (inventory_db, thrown, unit) act" where
  "create_movements ms =
     modify (\<lambda>db. db\<lparr>stock_movement_histories := stock_movement_histories db @ ms\<rparr>)"

definition create_audit_logs :: "InventoryAuditLog list \<Rightarrow> (inventory_db, thrown, unit) act" where
  "create_audit_logs ls =
     modify (\<lambda>db. db\<lparr>inventory_audit_logs := inventory_audit_logs db @ ls\<rparr>)"

definition create_processed_message :: "ProcessedMessage \<Rightarrow> (inventory_db, thrown, unit) act" where
  "create_processed_message pm db =
     (if pm_messageId pm \<in> set (map pm_messageId (processed_messages db))
      then (Inl (uniqueViolation ''message_id''), db)
      else (Inr (), db\<lparr>processed_messages := processed_messages db @ [pm]\<rparr>))"

section \<open>Repository operations\<close>

definition findById :: "thrown option \<Rightarrow> string \<Rightarrow> (inventory_db, thrown, InventoryItem option) act" where
  "findById flt i = transaction flt (gets (\<lambda>db. find_row item_id i (inventory_items db)))"

definition findBySku :: "thrown option \<Rightarrow> string \<Rightarrow> (inventory_db, thrown, InventoryItem option) act" where
  "findBySku flt s = transaction flt (gets (\<lambda>db. find_row sku s (inventory_items db)))"

definition findByProductId ::
  "thrown option \<Rightarrow> string \<Rightarrow> (inventory_db, thrown, InventoryItem option) act" where
  "findByProductId flt p = transaction flt (gets (\<lambda>db. find_row productId p (inventory_items db)))"

definition new_item :: "string \<Rightarrow> int \<Rightarrow> CreateInventoryItemInput \<Rightarrow> InventoryItem" where
  "new_item uuid now input =
     \<lparr>quantity = new_quantity input, reserved = 0, reorderLevel = new_reorderLevel input,
      item_id = uuid, sku = new_sku input, productId = new_productId input,
      warehouse = new_warehouse input, createdAt = now, updatedAt = now\<rparr>"

definition repo_create ::
  "thrown option \<Rightarrow> string \<Rightarrow> int \<Rightarrow> CreateInventoryItemInput
     \<Rightarrow> (inventory_db, thrown, InventoryItem) act" where
  "repo_create flt uuid now input = transaction flt
     (and_then (insert_item (new_item uuid now input)) (\<lambda>item.
        if quantity item > 0 then
          and_then (create_movements
            [\<lparr>mv_itemId = item_id item, mv_type = INBOUND, quantityChanged = quantity item,
              lastQuantity = 0, mv_reason = Some ''Initial stock'', mv_reference = None,
              mv_createdAt = now\<rparr>]) (\<lambda>_. ret item)
        else ret item))"

definition apply_patch :: "int \<Rightarrow> UpdateInventoryItemInput \<Rightarrow> InventoryItem \<Rightarrow> InventoryItem" where
  "apply_patch now p it = it\<lparr>
     sku := case_option (sku it) id (patch_sku p),
     productId := case_option (productId it) id (patch_productId p),
     warehouse := case_option (warehouse it) id (patch_warehouse p),
     quantity := case_option (quantity it) id (patch_quantity p),
     reorderLevel := case_option (reorderLevel it) id (patch_reorderLevel p),
     updatedAt := now\<rparr>"

definition repo_update ::
  "thrown option \<Rightarrow> int \<Rightarrow> string \<Rightarrow> UpdateInventoryItemInput \<Rightarrow> string option
     \<Rightarrow> (InventoryItem \<Rightarrow> thrown + unit) \<Rightarrow> (inventory_db, thrown, InventoryItem) act" where
  "repo_update flt now i input actor validate = transaction flt
     (and_then (gets (\<lambda>db. find_row item_id i (inventory_items db))) (\<lambda>found.
      case found of
        None \<Rightarrow> throw (ThrownApp (NotFoundError (''Inventory item '' @ quote i @ '' was not found'')))
      | Some current \<Rightarrow>
          and_then (lift (validate current)) (\<lambda>_.
          let changes = diffInventoryItem current input in
          if changes = [] then ret current
          else
            and_then (update_item i (apply_patch now input)) (\<lambda>updated.
            and_then (create_audit_logs
              (map (\<lambda>c. \<lparr>al_itemId = i, al_field = change_field c, oldValue = change_oldValue c,
                         newValue = change_newValue c, al_actor = actor, al_createdAt = now\<rparr>)
                 changes)) (\<lambda>_.
            if quantity updated \<noteq> quantity current then
              and_then (create_movements
                [\<lparr>mv_itemId = i, mv_type = ADJUSTMENT,
                  quantityChanged = \<bar>quantity updated - quantity current\<bar>,
                  lastQuantity = quantity current,
                  mv_reason = Some (''Patched by '' @ case_option ''unknown'' id actor),
                  mv_reference = None, mv_createdAt = now\<rparr>]) (\<lambda>_. ret updated)
            else ret updated)))))"

definition repo_delete :: "thrown option \<Rightarrow> string \<Rightarrow> (inventory_db, thrown, unit) act" where
  "repo_delete flt i = transaction flt (delete_item i)"

definition set_levels :: "int \<Rightarrow> 'a StockLevels_scheme \<Rightarrow> InventoryItem \<Rightarrow> InventoryItem" where
  "set_levels now lv it = it\<lparr>quantity := quantity lv, reserved := reserved lv, updatedAt := now\<rparr>"

definition movement_row ::
  "int \<Rightarrow> InventoryItem \<Rightarrow> 'a StockChangePlan_scheme \<Rightarrow> StockMovementHistory" where
  "movement_row now item nxt =
     \<lparr>mv_itemId = item_id item, mv_type = movement_type (movement nxt),
      quantityChanged = movement_quantity (movement nxt), lastQuantity = quantity item,
      mv_reason = movement_reason (movement nxt), mv_reference = movement_reference (movement nxt),
      mv_createdAt = now\<rparr>"

definition applyStockChange ::
  "thrown option \<Rightarrow> int \<Rightarrow> string \<Rightarrow> (InventoryItem \<Rightarrow> thrown + StockChangePlan)
     \<Rightarrow> (inventory_db, thrown, InventoryItem) act" where
  "applyStockChange flt now i plan = transaction flt
     (and_then (gets (\<lambda>db. find_row item_id i (inventory_items db))) (\<lambda>found.
      case found of
        None \<Rightarrow> throw (ThrownApp (NotFoundError (''Inventory item '' @ quote i @ '' was not found'')))
      | Some current \<Rightarrow>
          and_then (lift (plan current)) (\<lambda>nxt.
          and_then (update_item i (set_levels now nxt)) (\<lambda>updated.
          and_then (create_movements [movement_row now current nxt]) (\<lambda>_.
          ret updated)))))"

text \<open>The idempotency claim of \<open>applyBulkStockChange\<close>, first statement of its transaction.\<close>

definition claim_message :: "int \<Rightarrow> IdempotencyKey option \<Rightarrow> (inventory_db, thrown, unit) act" where
  "claim_message now key =
     (case key of
        None \<Rightarrow> ret ()
      | Some k \<Rightarrow>
          catching (create_processed_message
              \<lparr>pm_messageId = key_messageId k, pm_type = key_type k,
               pm_reference = key_reference k, processedAt = now\<rparr>)
            (\<lambda>e. if isUniqueViolation e then throw (ThrownApp (DuplicateOperationError (key_messageId k)))
                 else throw e))"

text \<open>\<^verbatim>\<open>new Map(current.map(...))\<close>: a later row with the same key would replace an earlier one.\<close>

definition by_product :: "InventoryItem list \<Rightarrow> string \<Rightarrow> InventoryItem option" where
  "by_product rows = map_of (rev (map (\<lambda>r. (productId r, r)) rows))"

fun resolve_targets ::
  "(string \<Rightarrow> InventoryItem option) \<Rightarrow> BulkStockChangePlan list
     \<Rightarrow> thrown + (BulkStockChangePlan \<times> InventoryItem) list" where
  "resolve_targets byProductId [] = Inr []"
| "resolve_targets byProductId (nxt # rest) =
     (case byProductId (plan_productId nxt) of
        None \<Rightarrow> Inl (ThrownApp (InternalServerError (''Bulk plan referenced product ''
                  @ quote (plan_productId nxt) @ '', which was not read'')))
      | Some item \<Rightarrow>
          (case resolve_targets byProductId rest of
             Inl e \<Rightarrow> Inl e
           | Inr ts \<Rightarrow> Inr ((nxt, item) # ts)))"

definition write_target ::
  "int \<Rightarrow> BulkStockChangePlan \<times> InventoryItem \<Rightarrow> (inventory_db, thrown, InventoryItem) act" where
  "write_target now t = update_item (item_id (snd t)) (set_levels now (fst t))"

definition applyBulkStockChange ::
  "thrown option \<Rightarrow> int \<Rightarrow> string list
     \<Rightarrow> ((string \<Rightarrow> InventoryItem option) \<Rightarrow> thrown + BulkStockChangePlan list)
     \<Rightarrow> IdempotencyKey option \<Rightarrow> (inventory_db, thrown, InventoryItem list) act" where
  "applyBulkStockChange flt now productIds plan key = transaction flt
     (and_then (claim_message now key) (\<lambda>_.
      and_then (gets (\<lambda>db. filter (\<lambda>r. productId r \<in> set productIds) (inventory_items db))) (\<lambda>current.
      let byProductId = by_product current in
      and_then (lift (plan byProductId)) (\<lambda>plans.
      and_then (lift (resolve_targets byProductId plans)) (\<lambda>unsorted.
      let targets = sort_key (\<lambda>t. item_id (snd t)) unsorted in
      and_then (map_act (write_target now) targets) (\<lambda>updated.
      and_then (create_movements (map (\<lambda>(nxt, item). movement_row now item nxt) targets)) (\<lambda>_.
      ret updated)))))))"

section \<open>The ledger and the invariant of the tables\<close>

text \<open>
  The signed change of on-hand stock one ledger row stands for. \<open>quantityChanged\<close> is a magnitude
  and the type carries the direction (\<open>typed_change\<close>), except that an adjustment is a signed
  correction stored by magnitude: its direction is in no column of its own row, and is read from
  the level \<open>after\<close> it, which the next row of the item records as its \<open>lastQuantity\<close> and, for the
  newest row, the item itself.
\<close>

fun typed_change :: "StockMovementType \<Rightarrow> int \<Rightarrow> int option" where
  "typed_change INBOUND n = Some n"
| "typed_change RETURN n = Some n"
| "typed_change OUTBOUND n = Some (- n)"
| "typed_change RESERVATION n = Some 0"
| "typed_change RELEASE n = Some 0"
| "typed_change ADJUSTMENT n = None"

definition signed_change :: "StockMovementType \<Rightarrow> int \<Rightarrow> int \<Rightarrow> int \<Rightarrow> int" where
  "signed_change ty n before after =
     (case typed_change ty n of
        Some d \<Rightarrow> d
      | None \<Rightarrow> if before \<le> after then n else - n)"

definition row_change :: "StockMovementHistory \<Rightarrow> int \<Rightarrow> int" where
  "row_change m after = signed_change (mv_type m) (quantityChanged m) (lastQuantity m) after"

definition recorded_after :: "StockMovementHistory list \<Rightarrow> int \<Rightarrow> int" where
  "recorded_after ms q = (case ms of [] \<Rightarrow> q | m # _ \<Rightarrow> lastQuantity m)"

fun ledger_changes :: "StockMovementHistory list \<Rightarrow> int \<Rightarrow> int list" where
  "ledger_changes [] q = []"
| "ledger_changes (m # ms) q = row_change m (recorded_after ms q) # ledger_changes ms q"

text \<open>
  \<open>ledger_ok cur ms q\<close>: replaying \<open>ms\<close> from on-hand \<open>cur\<close>, each row by its own signed change,
  arrives at \<open>q\<close>, and every row's \<open>lastQuantity\<close> is the level the replay has reached before it.
\<close>

fun ledger_ok :: "int \<Rightarrow> StockMovementHistory list \<Rightarrow> int \<Rightarrow> bool" where
  "ledger_ok cur [] q \<longleftrightarrow> cur = q"
| "ledger_ok cur (m # ms) q \<longleftrightarrow>
     lastQuantity m = cur \<and> ledger_ok (cur + row_change m (recorded_after ms q)) ms q"

definition item_ledger :: "inventory_db \<Rightarrow> string \<Rightarrow> StockMovementHistory list" where
  "item_ledger db i = filter (\<lambda>m. mv_itemId m = i) (stock_movement_histories db)"

definition unique_items :: "InventoryItem list \<Rightarrow> bool" where
  "unique_items rows \<longleftrightarrow>
     distinct (map item_id rows) \<and> distinct (map sku rows) \<and> distinct (map productId rows)"

definition inventory_ok :: "inventory_db \<Rightarrow> bool" where
  "inventory_ok db \<longleftrightarrow>
     unique_items (inventory_items db) \<and>
     distinct (map pm_messageId (processed_messages db)) \<and>
     list_all (\<lambda>it. stock_ok it \<and> ledger_ok 0 (item_ledger db (item_id it)) (quantity it))
       (inventory_items db) \<and>
     list_all (\<lambda>m. 0 < quantityChanged m \<and> mv_itemId m \<in> set (map item_id (inventory_items db)))
       (stock_movement_histories db)"

lemma inventory_ok_empty: "inventory_ok empty_inventory_db"
  by (simp add: inventory_ok_def empty_inventory_db_def unique_items_def)

lemma recorded_after_snoc [simp]: "recorded_after (ms @ [m]) q = recorded_after ms (lastQuantity m)"
  by (cases ms) (simp_all add: recorded_after_def)

lemma ledger_ok_snoc:
  "ledger_ok cur ms q \<Longrightarrow> lastQuantity m = q \<Longrightarrow> q' = q + row_change m q'
     \<Longrightarrow> ledger_ok cur (ms @ [m]) q'"
  by (induction ms arbitrary: cur) (auto simp: recorded_after_def [of "[]"])

lemma ledger_ok_sum: "ledger_ok cur ms q \<Longrightarrow> q = cur + sum_list (ledger_changes ms q)"
  by (induction ms arbitrary: cur) (simp, fastforce)

lemma ledger_ok_levels:
  "ledger_ok cur ms q \<Longrightarrow> k < length ms \<Longrightarrow>
     lastQuantity (ms ! k) = cur + sum_list (take k (ledger_changes ms q))"
proof (induction ms arbitrary: cur k)
  case Nil
  then show ?case by simp
next
  case (Cons m ms)
  then show ?case by (cases k) (fastforce simp: add.assoc)+
qed

lemma ledger_changes_typed:
  "(\<forall>m\<in>set ms. mv_type m \<noteq> ADJUSTMENT) \<Longrightarrow>
     map Some (ledger_changes ms q) = map (\<lambda>m. typed_change (mv_type m) (quantityChanged m)) ms"
proof (induction ms)
  case Nil
  then show ?case by simp
next
  case (Cons m ms)
  then show ?case by (cases "mv_type m") (simp_all add: row_change_def signed_change_def)
qed

lemma signed_change_adjustment [simp]:
  "signed_change ADJUSTMENT \<bar>q' - q\<bar> q q' = q' - q"
  by (simp add: signed_change_def)

lemma item_ledger_simps [simp]:
  "item_ledger (db\<lparr>inventory_items := rows\<rparr>) i = item_ledger db i"
  "item_ledger (db\<lparr>inventory_audit_logs := ls\<rparr>) i = item_ledger db i"
  "item_ledger (db\<lparr>processed_messages := ps\<rparr>) i = item_ledger db i"
  "item_ledger (db\<lparr>stock_movement_histories := xs @ ys\<rparr>) i =
     filter (\<lambda>m. mv_itemId m = i) xs @ filter (\<lambda>m. mv_itemId m = i) ys"
  by (simp_all add: item_ledger_def)

lemma inventory_ok_frame [simp]:
  "inventory_ok (db\<lparr>inventory_audit_logs := ls\<rparr>) = inventory_ok db"
  by (simp add: inventory_ok_def)

lemma inventory_ok_frame_patch [simp]:
  "inventory_ok (db\<lparr>inventory_items := rows, inventory_audit_logs := ls, stock_movement_histories := ms\<rparr>) =
   inventory_ok (db\<lparr>inventory_items := rows, stock_movement_histories := ms\<rparr>)"
  by (simp add: inventory_ok_def item_ledger_def)

lemma inventory_okD:
  assumes "inventory_ok db"
  shows "distinct (map item_id (inventory_items db))"
    and "distinct (map sku (inventory_items db))"
    and "distinct (map productId (inventory_items db))"
    and "it \<in> set (inventory_items db) \<Longrightarrow> stock_ok it"
    and "it \<in> set (inventory_items db) \<Longrightarrow> ledger_ok 0 (item_ledger db (item_id it)) (quantity it)"
  using assms by (auto simp: inventory_ok_def unique_items_def list_all_iff)

lemma item_conflict_None_iff:
  "item_conflict row others = None \<longleftrightarrow>
     item_id row \<notin> item_id ` set others \<and> sku row \<notin> sku ` set others \<and>
     productId row \<notin> productId ` set others"
  by (simp add: item_conflict_def)

lemma insert_item_Inr_iff:
  "insert_item row db = (Inr r, db') \<longleftrightarrow>
     item_conflict row (inventory_items db) = None \<and> r = row \<and>
     db' = db\<lparr>inventory_items := inventory_items db @ [row]\<rparr>"
  by (auto simp: insert_item_def split: option.splits)

lemma update_item_Inr_iff:
  "update_item i upd db = (Inr r, db') \<longleftrightarrow>
     (\<exists>row. find_row item_id i (inventory_items db) = Some row \<and>
        item_conflict (upd row) (delete_rows item_id i (inventory_items db)) = None \<and>
        r = upd row \<and>
        db' = db\<lparr>inventory_items := update_rows item_id i upd (inventory_items db)\<rparr>)"
  by (auto simp: update_item_def split: option.splits)

lemma create_movements_apply [simp]:
  "create_movements ms db = (Inr (), db\<lparr>stock_movement_histories := stock_movement_histories db @ ms\<rparr>)"
  by (simp add: create_movements_def)

lemma and_then_create_movements [simp]:
  "and_then (create_movements ms) f db =
     f () (db\<lparr>stock_movement_histories := stock_movement_histories db @ ms\<rparr>)"
  by (simp add: and_then_step)

lemma create_audit_logs_apply [simp]:
  "create_audit_logs ls db = (Inr (), db\<lparr>inventory_audit_logs := inventory_audit_logs db @ ls\<rparr>)"
  by (simp add: create_audit_logs_def)

lemma and_then_create_audit_logs [simp]:
  "and_then (create_audit_logs ls) f db =
     f () (db\<lparr>inventory_audit_logs := inventory_audit_logs db @ ls\<rparr>)"
  by (simp add: and_then_step)

text \<open>Changing columns of one row keeps the unique columns unique when the row does not conflict.\<close>

lemma distinct_map_update_one:
  assumes "distinct (map key rows)" and "find_row key i rows = Some row"
    and "distinct (map f rows)" and "f (upd row) \<notin> f ` set (delete_rows key i rows)"
  shows "distinct (map f (update_rows key i upd rows))"
  using assms
proof (induction rows)
  case Nil
  then show ?case by simp
next
  case (Cons r rows)
  show ?case
  proof (cases "key r = i")
    case True
    with Cons.prems have "i \<notin> key ` set rows" by auto
    with True Cons.prems show ?thesis
      by (simp add: update_rows_absent delete_rows_absent del: set_delete_rows)
  next
    case False
    with Cons.prems have "distinct (map f (update_rows key i upd rows))"
      by (intro Cons.IH) auto
    moreover have "f r \<notin> f ` set (update_rows key i upd rows)"
    proof
      assume "f r \<in> f ` set (update_rows key i upd rows)"
      then obtain r0 where r0: "r0 \<in> set rows" "f r = f (if key r0 = i then upd r0 else r0)"
        by (auto simp: set_update_rows)
      have one: "key r0 = i \<Longrightarrow> r0 = row"
        using Cons.prems(1,2) False r0(1) find_row_distinct [of key rows r0] by auto
      with r0 Cons.prems(3,4) False show False
        by (cases "key r0 = i") (auto simp: image_iff)
    qed
    ultimately show ?thesis using False by simp
  qed
qed

text \<open>An item whose key is preserved may be overwritten without touching its neighbours.\<close>

definition keeps_key :: "(InventoryItem \<Rightarrow> InventoryItem) \<Rightarrow> bool" where
  "keeps_key upd \<longleftrightarrow> (\<forall>it. item_id (upd it) = item_id it)"

lemma keeps_key_simps [simp]: "keeps_key (set_levels now lv)" "keeps_key (apply_patch now p)"
  by (simp_all add: keeps_key_def set_levels_def apply_patch_def)

lemma unique_items_update:
  assumes "unique_items rows" and "find_row item_id i rows = Some row" and "keeps_key upd"
    and "item_conflict (upd row) (delete_rows item_id i rows) = None"
  shows "unique_items (update_rows item_id i upd rows)"
  using assms unfolding unique_items_def item_conflict_None_iff
  by (auto simp: map_key_update_rows keeps_key_def intro!: distinct_map_update_one)

text \<open>
  The one step every stock-moving operation performs: overwrite one item's row and append its
  ledger entries. It keeps the invariant when the new levels are consistent and the entries
  account for the change of quantity.
\<close>

lemma inventory_ok_move:
  assumes ok: "inventory_ok db" and found: "find_row item_id i (inventory_items db) = Some row"
    and key: "keeps_key upd"
    and free: "item_conflict (upd row) (delete_rows item_id i (inventory_items db)) = None"
    and levels: "stock_ok (upd row)"
    and entries: "list_all (\<lambda>m. mv_itemId m = i \<and> 0 < quantityChanged m) ms"
    and ledger: "ledger_ok 0 (item_ledger db i @ ms) (quantity (upd row))"
  shows "inventory_ok (db\<lparr>inventory_items := update_rows item_id i upd (inventory_items db),
           stock_movement_histories := stock_movement_histories db @ ms\<rparr>)"
proof -
  have uniq: "unique_items (inventory_items db)" and d: "distinct (map item_id (inventory_items db))"
    using ok by (simp_all add: inventory_ok_def unique_items_def)
  have mem: "row \<in> set (inventory_items db)" and rid: "item_id row = i"
    using find_row_SomeD [OF found] by simp_all
  have ids: "item_id ` set (update_rows item_id i upd (inventory_items db)) = item_id ` set (inventory_items db)"
    using key map_key_update_rows [of item_id upd item_id i "inventory_items db"]
    by (metis keeps_key_def list.set_map)
  have mine: "filter (\<lambda>m. mv_itemId m = i) ms = ms"
    using entries by (auto simp: list_all_iff filter_id_conv)
  have others: "\<And>j. j \<noteq> i \<Longrightarrow> filter (\<lambda>m. mv_itemId m = j) ms = []"
    using entries by (auto simp: list_all_iff filter_empty_conv)
  have "list_all (\<lambda>it. stock_ok it \<and> ledger_ok 0 (item_ledger (db\<lparr>inventory_items :=
          update_rows item_id i upd (inventory_items db), stock_movement_histories :=
          stock_movement_histories db @ ms\<rparr>) (item_id it)) (quantity it))
        (update_rows item_id i upd (inventory_items db))"
    unfolding list_all_iff
  proof
    fix it
    assume "it \<in> set (update_rows item_id i upd (inventory_items db))"
    then obtain r0 where r0: "r0 \<in> set (inventory_items db)"
      and it: "it = (if item_id r0 = i then upd r0 else r0)"
      by (auto simp: set_update_rows)
    have one: "item_id r0 = i \<Longrightarrow> r0 = row"
      using find_row_distinct [OF d r0] found by simp
    show "stock_ok it \<and> ledger_ok 0 (item_ledger (db\<lparr>inventory_items :=
          update_rows item_id i upd (inventory_items db), stock_movement_histories :=
          stock_movement_histories db @ ms\<rparr>) (item_id it)) (quantity it)"
    proof (cases "item_id r0 = i")
      case True
      with one it key rid levels ledger mine show ?thesis
        by (simp add: keeps_key_def item_ledger_def)
    next
      case False
      with it r0 ok others show ?thesis
        by (simp add: inventory_okD item_ledger_def [symmetric])
    qed
  qed
  moreover have "i \<in> item_id ` set (inventory_items db)"
    using mem rid by auto
  ultimately show ?thesis
    using ok entries ids unique_items_update [OF uniq found key free]
    by (auto simp: inventory_ok_def list_all_iff)
qed

section \<open>Single-item operations keep the invariant\<close>

definition plan_sound :: "InventoryItem \<Rightarrow> 'a StockChangePlan_scheme \<Rightarrow> bool" where
  "plan_sound it p \<longleftrightarrow> stock_ok p \<and> 0 < movement_quantity (movement p) \<and>
     quantity p = quantity it + signed_change (movement_type (movement p)) (movement_quantity (movement p))
       (quantity it) (quantity p)"

definition move_one ::
  "int \<Rightarrow> 'a StockChangePlan_scheme \<times> InventoryItem \<Rightarrow> inventory_db \<Rightarrow> inventory_db" where
  "move_one now t db = db\<lparr>
     inventory_items := update_rows item_id (item_id (snd t)) (set_levels now (fst t)) (inventory_items db),
     stock_movement_histories := stock_movement_histories db @ [movement_row now (snd t) (fst t)]\<rparr>"

lemma set_levels_fields [simp]:
  "item_id (set_levels now lv it) = item_id it" "sku (set_levels now lv it) = sku it"
  "productId (set_levels now lv it) = productId it" "warehouse (set_levels now lv it) = warehouse it"
  "quantity (set_levels now lv it) = quantity lv" "reserved (set_levels now lv it) = reserved lv"
  "reorderLevel (set_levels now lv it) = reorderLevel it"
  "createdAt (set_levels now lv it) = createdAt it"
  by (simp_all add: set_levels_def)

lemma stock_ok_set_levels [simp]: "stock_ok (set_levels now lv it) = stock_ok lv"
  by (simp add: stock_ok_def)

lemma set_levels_no_conflict:
  assumes "unique_items rows" and "find_row item_id i rows = Some row"
  shows "item_conflict (set_levels now lv row) (delete_rows item_id i rows) = None"
proof -
  have row: "row \<in> set rows" "item_id row = i" using find_row_SomeD [OF assms(2)] by simp_all
  have "\<And>r. r \<in> set rows \<Longrightarrow> sku r = sku row \<or> productId r = productId row \<Longrightarrow> r = row"
    using assms(1) row(1) unfolding unique_items_def by (auto dest: inj_onD simp: distinct_map)
  then show ?thesis
    using row by (fastforce simp: item_conflict_None_iff)
qed

lemma movement_row_fields [simp]:
  "mv_itemId (movement_row now it p) = item_id it" "lastQuantity (movement_row now it p) = quantity it"
  "quantityChanged (movement_row now it p) = movement_quantity (movement p)"
  "mv_type (movement_row now it p) = movement_type (movement p)"
  "mv_reference (movement_row now it p) = movement_reference (movement p)"
  by (simp_all add: movement_row_def)

lemma move_one_ok:
  assumes ok: "inventory_ok db"
    and found: "find_row item_id (item_id it) (inventory_items db) = Some it"
    and sound: "plan_sound it p"
  shows "inventory_ok (move_one now (p, it) db)"
proof -
  have mem: "it \<in> set (inventory_items db)" using find_row_SomeD [OF found] by simp
  have "ledger_ok 0 (item_ledger db (item_id it) @ [movement_row now it p]) (quantity p)"
    using sound inventory_okD(5) [OF ok mem] by (intro ledger_ok_snoc) (auto simp: plan_sound_def row_change_def)
  moreover have "unique_items (inventory_items db)" using ok by (simp add: inventory_ok_def)
  ultimately show ?thesis
    unfolding move_one_def fst_conv snd_conv
    using sound by (intro inventory_ok_move [OF ok found])
      (simp_all add: plan_sound_def set_levels_no_conflict [OF _ found])
qed

lemma notFound_item: "find_row item_id i (inventory_items db) = None \<Longrightarrow>
  applyStockChange None now i plan db =
    (Inl (ThrownApp (NotFoundError (''Inventory item '' @ quote i @ '' was not found''))), db)"
  unfolding applyStockChange_def by (rule transaction_body_throws) simp

lemma applyStockChange_refused:
  "find_row item_id i (inventory_items db) = Some row \<Longrightarrow> plan row = Inl e \<Longrightarrow>
   applyStockChange None now i plan db = (Inl e, db)"
  unfolding applyStockChange_def by (rule transaction_body_throws) simp

lemma applyStockChange_applied:
  assumes "inventory_ok db" and found: "find_row item_id i (inventory_items db) = Some row"
    and "plan row = Inr nxt"
  shows "applyStockChange None now i plan db = (Inr (set_levels now nxt row), move_one now (nxt, row) db)"
proof -
  have "unique_items (inventory_items db)" using assms(1) by (simp add: inventory_ok_def)
  then have upd: "update_item i (set_levels now nxt) db = (Inr (set_levels now nxt row),
      db\<lparr>inventory_items := update_rows item_id i (set_levels now nxt) (inventory_items db)\<rparr>)"
    using found by (auto simp: update_item_Inr_iff set_levels_no_conflict)
  show ?thesis
    unfolding applyStockChange_def
    using assms find_row_SomeD [OF found]
    by (intro transaction_body_commits) (simp add: and_then_step(1) [where m = "update_item i _", OF upd] move_one_def)
qed

lemma applyStockChange_Inr:
  assumes "inventory_ok db" and "applyStockChange flt now i plan db = (Inr it, db')"
  shows "\<exists>row nxt. find_row item_id i (inventory_items db) = Some row \<and> plan row = Inr nxt \<and>
           flt = None \<and> it = set_levels now nxt row \<and> db' = move_one now (nxt, row) db"
proof -
  have flt: "flt = None"
    using assms(2) by (simp add: applyStockChange_def transaction_None_Inr_iff)
  show ?thesis
  proof (cases "find_row item_id i (inventory_items db)")
    case None
    then show ?thesis using assms(2) flt by (simp add: notFound_item)
  next
    case (Some row)
    then show ?thesis
      using assms flt applyStockChange_refused [OF Some] applyStockChange_applied [OF assms(1) Some]
      by (cases "plan row") auto
  qed
qed

lemma applyStockChange_keeps:
  assumes "\<And>it nxt. stock_ok it \<Longrightarrow> plan it = Inr nxt \<Longrightarrow> plan_sound it nxt"
  shows "keeps inventory_ok (applyStockChange flt now i plan)"
proof (rule keepsI)
  fix db
  assume ok: "inventory_ok db"
  show "inventory_ok (snd (applyStockChange flt now i plan db))"
  proof (cases "applyStockChange flt now i plan db")
    case (Pair r db')
    show ?thesis
    proof (cases r)
      case (Inl e)
      with Pair ok show ?thesis
        by (auto simp: applyStockChange_def dest: transaction_Inl_unchanged)
    next
      case (Inr it)
      with Pair applyStockChange_Inr [OF ok, of flt now i plan it db'] obtain row nxt where
        row: "find_row item_id i (inventory_items db) = Some row" and "plan row = Inr nxt"
        and db': "db' = move_one now (nxt, row) db" by auto
      moreover have "stock_ok row" "item_id row = i"
        using row ok find_row_SomeD [OF row] inventory_okD(4) by auto
      ultimately show ?thesis
        using Pair ok assms move_one_ok [OF ok, of row nxt now] by simp
    qed
  qed
qed

lemma repo_create_keeps:
  assumes "0 \<le> new_quantity input"
  shows "keeps inventory_ok (repo_create flt uuid now input)"
  unfolding repo_create_def
proof (rule keeps_transaction_commit)
  fix db r db'
  let ?it = "new_item uuid now input"
  assume ok: "inventory_ok db" and "and_then (insert_item ?it) (\<lambda>item.
      if 0 < quantity item then
        and_then (create_movements
            [\<lparr>mv_itemId = item_id item, mv_type = INBOUND, quantityChanged = quantity item,
              lastQuantity = 0, mv_reason = Some ''Initial stock'', mv_reference = None,
              mv_createdAt = now\<rparr>]) (\<lambda>_. ret item)
      else ret item) db = (Inr r, db')"
  then have free: "item_conflict ?it (inventory_items db) = None"
    and db': "db' = db\<lparr>inventory_items := inventory_items db @ [?it],
       stock_movement_histories := stock_movement_histories db @
         (if 0 < quantity ?it then
            [\<lparr>mv_itemId = item_id ?it, mv_type = INBOUND, quantityChanged = quantity ?it,
              lastQuantity = 0, mv_reason = Some ''Initial stock'', mv_reference = None,
              mv_createdAt = now\<rparr>] else [])\<rparr>"
    by (auto simp: and_then_Inr_iff insert_item_Inr_iff split: if_splits)
  have none: "item_ledger db uuid = []"
    using ok free by (auto simp: inventory_ok_def list_all_iff item_conflict_None_iff new_item_def
        item_ledger_def filter_empty_conv)
  show "inventory_ok db'"
    using ok free none assms unfolding db'
    by (auto simp: inventory_ok_def unique_items_def list_all_iff item_conflict_None_iff new_item_def
        stock_ok_def row_change_def recorded_after_def signed_change_def item_ledger_def)
qed

lemma repo_delete_keeps: "keeps inventory_ok (repo_delete flt i)"
  unfolding repo_delete_def
proof (rule keeps_transaction_commit)
  fix db r db'
  assume ok: "inventory_ok db" and "delete_item i db = (Inr r, db')"
  then have db': "db' = db\<lparr>inventory_items := delete_rows item_id i (inventory_items db),
      stock_movement_histories := delete_rows mv_itemId i (stock_movement_histories db),
      inventory_audit_logs := delete_rows al_itemId i (inventory_audit_logs db)\<rparr>"
    by (auto simp: delete_item_def split: option.splits)
  have "\<And>j. j \<noteq> i \<Longrightarrow> item_ledger db' j = item_ledger db j"
    by (simp add: db' item_ledger_def delete_rows_def) (metis (mono_tags, lifting) filter_cong)
  then show "inventory_ok db'"
    using ok by (auto simp: db' inventory_ok_def unique_items_def list_all_iff distinct_map_delete_rows)
qed

text \<open>
  \<open>update\<close>: what the transaction commits, given that \<open>validate\<close> accepted the row it read.
\<close>

definition patch_audit :: "int \<Rightarrow> string \<Rightarrow> string option \<Rightarrow> FieldChange list \<Rightarrow> InventoryAuditLog list" where
  "patch_audit now i actor changes =
     map (\<lambda>c. \<lparr>al_itemId = i, al_field = change_field c, oldValue = change_oldValue c,
                newValue = change_newValue c, al_actor = actor, al_createdAt = now\<rparr>) changes"

definition patch_movement ::
  "int \<Rightarrow> string \<Rightarrow> string option \<Rightarrow> InventoryItem \<Rightarrow> InventoryItem \<Rightarrow> StockMovementHistory list" where
  "patch_movement now i actor current updated =
     (if quantity updated \<noteq> quantity current then
        [\<lparr>mv_itemId = i, mv_type = ADJUSTMENT,
          quantityChanged = \<bar>quantity updated - quantity current\<bar>, lastQuantity = quantity current,
          mv_reason = Some (''Patched by '' @ case_option ''unknown'' id actor),
          mv_reference = None, mv_createdAt = now\<rparr>]
      else [])"

lemma repo_update_Inr:
  assumes "repo_update flt now i input actor validate db = (Inr it, db')"
  shows "\<exists>row. find_row item_id i (inventory_items db) = Some row \<and> validate row = Inr () \<and> flt = None \<and>
     (if diffInventoryItem row input = [] then it = row \<and> db' = db
      else it = apply_patch now input row \<and>
           item_conflict it (delete_rows item_id i (inventory_items db)) = None \<and>
           db' = db\<lparr>inventory_items := update_rows item_id i (apply_patch now input) (inventory_items db),
             inventory_audit_logs := inventory_audit_logs db @ patch_audit now i actor (diffInventoryItem row input),
             stock_movement_histories := stock_movement_histories db @ patch_movement now i actor row it\<rparr>)"
  using assms
  by (auto simp: repo_update_def transaction_None_Inr_iff Let_def and_then_Inr_iff update_item_Inr_iff
      patch_audit_def patch_movement_def split: option.splits if_splits)

lemma apply_patch_fields [simp]:
  "item_id (apply_patch now p it) = item_id it" "reserved (apply_patch now p it) = reserved it"
  "quantity (apply_patch now p it) = case_option (quantity it) id (patch_quantity p)"
  by (simp_all add: apply_patch_def)

lemma repo_update_keeps:
  assumes valid: "\<And>it. stock_ok it \<Longrightarrow> validate it = Inr () \<Longrightarrow> stock_ok (apply_patch now input it)"
  shows "keeps inventory_ok (repo_update flt now i input actor validate)"
proof (rule keepsI)
  fix db
  assume ok: "inventory_ok db"
  show "inventory_ok (snd (repo_update flt now i input actor validate db))"
  proof (cases "repo_update flt now i input actor validate db")
    case (Pair r db')
    show ?thesis
    proof (cases r)
      case (Inl e)
      with Pair ok show ?thesis by (auto simp: repo_update_def dest: transaction_Inl_unchanged)
    next
      case (Inr it)
      from repo_update_Inr [OF Pair [unfolded Inr]] obtain row where
        row: "find_row item_id i (inventory_items db) = Some row" and v: "validate row = Inr ()"
        and res: "if diffInventoryItem row input = [] then it = row \<and> db' = db
          else it = apply_patch now input row \<and>
           item_conflict it (delete_rows item_id i (inventory_items db)) = None \<and>
           db' = db\<lparr>inventory_items := update_rows item_id i (apply_patch now input) (inventory_items db),
             inventory_audit_logs := inventory_audit_logs db @ patch_audit now i actor (diffInventoryItem row input),
             stock_movement_histories := stock_movement_histories db @ patch_movement now i actor row it\<rparr>"
        by blast
      show ?thesis
      proof (cases "diffInventoryItem row input = []")
        case True
        with res Pair ok show ?thesis by simp
      next
        case False
        let ?it = "apply_patch now input row"
        have mem: "row \<in> set (inventory_items db)" "item_id row = i"
          using find_row_SomeD [OF row] by simp_all
        have "ledger_ok 0 (item_ledger db i @ patch_movement now i actor row ?it) (quantity ?it)"
          using inventory_okD(5) [OF ok mem(1)] mem(2)
          by (auto simp: patch_movement_def row_change_def intro!: ledger_ok_snoc)
        then have "inventory_ok (db\<lparr>inventory_items := update_rows item_id i (apply_patch now input) (inventory_items db),
             stock_movement_histories := stock_movement_histories db @ patch_movement now i actor row ?it\<rparr>)"
          using res False valid [OF inventory_okD(4) [OF ok mem(1)] v]
          by (intro inventory_ok_move [OF ok row]) (auto simp: patch_movement_def)
        with res False Pair show ?thesis by simp
      qed
    qed
  qed
qed

section \<open>The bulk operation: all or nothing, and the invariant\<close>

lemma by_product_Some: "by_product rows p = Some it \<Longrightarrow> it \<in> set rows \<and> productId it = p"
  unfolding by_product_def by (drule map_of_SomeD) auto

lemma by_product_distinct:
  "distinct (map productId rows) \<Longrightarrow> it \<in> set rows \<Longrightarrow> by_product rows (productId it) = Some it"
  unfolding by_product_def
  by (intro map_of_is_SomeI) (auto simp: rev_map [symmetric] comp_def)

lemma by_product_None_iff: "by_product rows p = None \<longleftrightarrow> p \<notin> productId ` set rows"
  unfolding by_product_def by (auto simp: map_of_eq_None_iff image_iff)

lemma by_product_eq_find:
  assumes "distinct (map productId rows)"
  shows "by_product rows p = find_row productId p rows"
proof (cases "find_row productId p rows")
  case None
  then show ?thesis by (metis by_product_None_iff find_row_None_iff)
next
  case (Some it)
  then show ?thesis
    using by_product_distinct [OF assms] find_row_SomeD [OF Some] by auto
qed

lemma by_product_filter:
  assumes "distinct (map productId rows)"
  shows "by_product (filter (\<lambda>r. productId r \<in> S) rows) p =
           (if p \<in> S then find_row productId p rows else None)"
proof -
  have d: "distinct (map productId (filter (\<lambda>r. productId r \<in> S) rows))"
    using assms by (simp add: distinct_map_filter)
  have "find_row productId p (filter (\<lambda>r. productId r \<in> S) rows) =
      (if p \<in> S then find_row productId p rows else None)"
    by (induction rows) auto
  then show ?thesis by (simp add: by_product_eq_find [OF d])
qed

lemma resolve_targets_Inr:
  "resolve_targets m plans = Inr ts \<Longrightarrow>
     map fst ts = plans \<and> list_all (\<lambda>t. m (plan_productId (fst t)) = Some (snd t)) ts"
  by (induction plans arbitrary: ts) (auto split: option.splits sum.splits)

lemma resolve_targets_total:
  "list_all (\<lambda>p. m (plan_productId p) \<noteq> None) plans \<Longrightarrow>
     resolve_targets m plans = Inr (map (\<lambda>p. (p, the (m (plan_productId p)))) plans)"
  by (induction plans) auto

lemma move_one_frame [simp]:
  "processed_messages (move_one now t db) = processed_messages db"
  "inventory_audit_logs (move_one now t db) = inventory_audit_logs db"
  "stock_movement_histories (move_one now t db) =
     stock_movement_histories db @ [movement_row now (snd t) (fst t)]"
  "inventory_items (move_one now t db) =
     update_rows item_id (item_id (snd t)) (set_levels now (fst t)) (inventory_items db)"
  by (simp_all add: move_one_def)

lemma find_row_move_one:
  "find_row item_id j (inventory_items (move_one now t db)) =
     (if j = item_id (snd t) then map_option (set_levels now (fst t)) (find_row item_id j (inventory_items db))
      else find_row item_id j (inventory_items db))"
  by (simp add: find_row_update)

lemma unique_items_move_one:
  assumes "unique_items (inventory_items db)"
    and "find_row item_id (item_id (snd t)) (inventory_items db) = Some (snd t)"
  shows "unique_items (inventory_items (move_one now t db))"
  unfolding move_one_frame
  by (rule unique_items_update [OF assms]) (simp_all add: set_levels_no_conflict [OF assms])

definition targets_present :: "(BulkStockChangePlan \<times> InventoryItem) list \<Rightarrow> inventory_db \<Rightarrow> bool" where
  "targets_present ts db \<longleftrightarrow> distinct (map (\<lambda>t. item_id (snd t)) ts) \<and>
     list_all (\<lambda>t. find_row item_id (item_id (snd t)) (inventory_items db) = Some (snd t)) ts"

lemma targets_present_step:
  assumes "targets_present (t # ts) db"
  shows "targets_present ts (move_one now t db)"
  unfolding targets_present_def list_all_iff
proof (intro conjI ballI)
  show "distinct (map (\<lambda>t. item_id (snd t)) ts)"
    using assms by (simp add: targets_present_def)
  fix u
  assume u: "u \<in> set ts"
  then have "item_id (snd u) \<in> set (map (\<lambda>t. item_id (snd t)) ts)" by simp
  then have "item_id (snd u) \<noteq> item_id (snd t)"
    using assms unfolding targets_present_def by force
  then show "find_row item_id (item_id (snd u)) (inventory_items (move_one now t db)) = Some (snd u)"
    using assms u unfolding find_row_move_one targets_present_def list_all_iff by simp
qed

lemma fold_move_one_ledger_irrelevant:
  "(fold (move_one now) ts (db\<lparr>stock_movement_histories := ms\<rparr>))\<lparr>stock_movement_histories := ks\<rparr> =
   (fold (move_one now) ts db)\<lparr>stock_movement_histories := ks\<rparr>"
proof (induction ts arbitrary: db ms)
  case Nil
  then show ?case by simp
next
  case (Cons u us)
  have "move_one now u (db\<lparr>stock_movement_histories := ms\<rparr>) =
    (move_one now u db)\<lparr>stock_movement_histories := ms @ [movement_row now (snd u) (fst u)]\<rparr>"
    by (simp add: move_one_def)
  then show ?case by (simp only: fold_simps Cons.IH)
qed

lemma write_targets:
  assumes "unique_items (inventory_items db)" and "targets_present ts db"
  shows "map_act (write_target now) ts db =
     (Inr (map (\<lambda>t. set_levels now (fst t) (snd t)) ts),
      (fold (move_one now) ts db)\<lparr>stock_movement_histories := stock_movement_histories db\<rparr>)"
  using assms
proof (induction ts arbitrary: db)
  case Nil
  then show ?case by simp
next
  case (Cons t ts)
  let ?db1 = "db\<lparr>inventory_items := update_rows item_id (item_id (snd t)) (set_levels now (fst t)) (inventory_items db)\<rparr>"
  have found: "find_row item_id (item_id (snd t)) (inventory_items db) = Some (snd t)"
    using Cons.prems(2) by (simp add: targets_present_def)
  have w: "write_target now t db = (Inr (set_levels now (fst t) (snd t)), ?db1)"
    using found by (simp add: write_target_def update_item_Inr_iff set_levels_no_conflict [OF Cons.prems(1) found])
  have db1: "?db1 = (move_one now t db)\<lparr>stock_movement_histories := stock_movement_histories db\<rparr>"
    by (simp add: move_one_def)
  have "unique_items (inventory_items ?db1)"
    using unique_items_move_one [OF Cons.prems(1) found, of now] by simp
  moreover have "targets_present ts ?db1"
    using targets_present_step [OF Cons.prems(2), of now] by (simp add: targets_present_def)
  ultimately have "map_act (write_target now) ts ?db1 = (Inr (map (\<lambda>t. set_levels now (fst t) (snd t)) ts),
      (fold (move_one now) ts ?db1)\<lparr>stock_movement_histories := stock_movement_histories db\<rparr>)"
    using Cons.IH [of ?db1] by simp
  also have "(fold (move_one now) ts ?db1)\<lparr>stock_movement_histories := stock_movement_histories db\<rparr> =
      (fold (move_one now) ts (move_one now t db))\<lparr>stock_movement_histories := stock_movement_histories db\<rparr>"
    unfolding db1 by (rule fold_move_one_ledger_irrelevant)
  finally have "map_act (write_target now) ts ?db1 = (Inr (map (\<lambda>t. set_levels now (fst t) (snd t)) ts),
      (fold (move_one now) ts (move_one now t db))\<lparr>stock_movement_histories := stock_movement_histories db\<rparr>)" .
  then show ?case
    using w by (simp add: and_then_step)
qed

lemma fold_move_one_frame:
  "processed_messages (fold (move_one now) ts db) = processed_messages db"
  "inventory_audit_logs (fold (move_one now) ts db) = inventory_audit_logs db"
  "stock_movement_histories (fold (move_one now) ts db) =
     stock_movement_histories db @ map (\<lambda>t. movement_row now (snd t) (fst t)) ts"
  by (induction ts arbitrary: db) simp_all

lemma fold_move_one_ok:
  "inventory_ok db \<Longrightarrow> targets_present ts db \<Longrightarrow> list_all (\<lambda>t. plan_sound (snd t) (fst t)) ts \<Longrightarrow>
     inventory_ok (fold (move_one now) ts db)"
proof (induction ts arbitrary: db)
  case Nil
  then show ?case by simp
next
  case (Cons t ts)
  then have "inventory_ok (move_one now t db)"
    using move_one_ok [of db "snd t" "fst t" now] by (simp add: targets_present_def)
  with Cons targets_present_step [OF Cons.prems(2), of now] show ?case by simp
qed

text \<open>Levels after the batch: a target's own plan where there is one, unchanged otherwise.\<close>

lemma find_row_fold_move_one:
  assumes "targets_present ts db"
  shows "find_row item_id j (inventory_items (fold (move_one now) ts db)) =
     (case find (\<lambda>t. item_id (snd t) = j) ts of
        Some t \<Rightarrow> Some (set_levels now (fst t) (snd t))
      | None \<Rightarrow> find_row item_id j (inventory_items db))"
  using assms
proof (induction ts arbitrary: db)
  case Nil
  then show ?case by simp
next
  case (Cons t ts)
  have found: "find_row item_id (item_id (snd t)) (inventory_items db) = Some (snd t)"
    and d: "item_id (snd t) \<notin> set (map (\<lambda>t. item_id (snd t)) ts)"
    using Cons.prems by (simp_all add: targets_present_def)
  have notin: "find (\<lambda>u. item_id (snd u) = item_id (snd t)) ts = None"
    using d by (metis (mono_tags, lifting) find_None_iff image_eqI set_map)
  note IH = Cons.IH [OF targets_present_step [OF Cons.prems, of now]]
  show ?case
  proof (cases "j = item_id (snd t)")
    case True
    with IH found notin show ?thesis by (simp add: find_row_move_one del: move_one_frame)
  next
    case False
    with IH show ?thesis
      by (cases "find (\<lambda>t. item_id (snd t) = j) ts") (simp_all add: find_row_move_one del: move_one_frame)
  qed
qed

lemma inventory_items_fold_move_one:
  assumes "distinct (map (\<lambda>t. item_id (snd t)) ts)"
  shows "inventory_items (fold (move_one now) ts db) =
     map (\<lambda>r. case find (\<lambda>t. item_id (snd t) = item_id r) ts of
             Some t \<Rightarrow> set_levels now (fst t) r | None \<Rightarrow> r) (inventory_items db)"
  using assms
proof (induction ts arbitrary: db)
  case Nil
  then show ?case by simp
next
  case (Cons t ts)
  have notin: "find (\<lambda>u. item_id (snd u) = item_id (snd t)) ts = None"
    using Cons.prems by (metis (mono_tags, lifting) distinct.simps(2) find_None_iff image_eqI list.simps(9) set_map)
  show ?case
    using Cons.IH [of "move_one now t db"] Cons.prems notin
    by (auto simp: update_rows_def split: option.split)
qed

lemma targets_of_plans:
  assumes ok: "inventory_ok db" and res: "resolve_targets (by_product
      (filter (\<lambda>r. productId r \<in> S) (inventory_items db))) plans = Inr ts"
    and dist: "distinct (map plan_productId plans)"
  shows "targets_present (sort_key (\<lambda>t. item_id (snd t)) ts) db"
    and "\<And>t. t \<in> set ts \<Longrightarrow> find_row productId (plan_productId (fst t)) (inventory_items db) = Some (snd t)"
proof -
  let ?rows = "inventory_items db"
  note ts = resolve_targets_Inr [OF res]
  show found: "find_row productId (plan_productId (fst t)) ?rows = Some (snd t)" if "t \<in> set ts" for t
  proof -
    have "by_product (filter (\<lambda>r. productId r \<in> S) ?rows) (plan_productId (fst t)) = Some (snd t)"
      using ts that by (simp only: list_all_iff)
    then show ?thesis
      unfolding by_product_filter [OF inventory_okD(3) [OF ok]] by (simp split: if_splits)
  qed
  have mem: "snd t \<in> set ?rows \<and> productId (snd t) = plan_productId (fst t)" if "t \<in> set ts" for t
    using find_row_Some [OF found [OF that]] .
  have inj: "inj_on item_id (set ?rows)"
    using inventory_okD(1) [OF ok] by (simp add: distinct_map)
  have "distinct (map (plan_productId \<circ> fst) ts)"
    using ts dist by (metis map_map)
  then have "distinct (map (\<lambda>t. productId (snd t)) ts)"
    using mem by (metis (mono_tags, lifting) comp_apply map_eq_conv)
  then have "distinct (map snd ts)"
    by (metis (no_types, lifting) comp_apply distinct_map map_eq_conv map_map)
  moreover have "set (map snd ts) \<subseteq> set ?rows"
    using mem by auto
  ultimately have "distinct (map item_id (map snd ts))"
    using inj by (metis distinct_map inj_on_subset)
  then have "distinct (map (\<lambda>t. item_id (snd t)) ts)"
    by (simp add: comp_def)
  then have "distinct (map (\<lambda>t. item_id (snd t)) (sort_key (\<lambda>t. item_id (snd t)) ts))"
    by (simp only: distinct_map_sort_key)
  then show "targets_present (sort_key (\<lambda>t. item_id (snd t)) ts) db"
    using mem find_row_distinct [OF inventory_okD(1) [OF ok]]
    by (auto simp: targets_present_def list_all_iff)
qed

lemma claim_message_Inr:
  "claim_message now key db = (Inr u, db') \<longleftrightarrow>
     (case key of None \<Rightarrow> db' = db
      | Some k \<Rightarrow> key_messageId k \<notin> set (map pm_messageId (processed_messages db)) \<and>
          db' = db\<lparr>processed_messages := processed_messages db @
            [\<lparr>pm_messageId = key_messageId k, pm_type = key_type k,
              pm_reference = key_reference k, processedAt = now\<rparr>]\<rparr>)"
  by (auto simp: claim_message_def create_processed_message_def catching_def split: option.splits)

lemma claim_message_ok:
  "inventory_ok db \<Longrightarrow> claim_message now key db = (Inr u, db') \<Longrightarrow>
     inventory_ok db' \<and> inventory_items db' = inventory_items db"
  by (auto simp: claim_message_Inr inventory_ok_def split: option.splits)

text \<open>
  What a committed batch is: the claim, then one \<open>move_one\<close> per line.
\<close>

lemma applyBulkStockChange_commit:
  assumes ok: "inventory_ok db"
    and run: "applyBulkStockChange flt now ids plan key db = (Inr updated, db')"
    and m: "m = by_product (filter (\<lambda>r. productId r \<in> set ids) (inventory_items db))"
    and dist: "\<And>plans. plan m = Inr plans \<Longrightarrow> distinct (map plan_productId plans)"
  obtains db1 plans ts where "flt = None" and "claim_message now key db = (Inr (), db1)"
    and "plan m = Inr plans" and "map fst ts = plans"
    and "\<forall>t \<in> set ts. m (plan_productId (fst t)) = Some (snd t)"
    and "targets_present (sort_key (\<lambda>t. item_id (snd t)) ts) db1"
    and "updated = map (\<lambda>t. set_levels now (fst t) (snd t)) (sort_key (\<lambda>t. item_id (snd t)) ts)"
    and "db' = fold (move_one now) (sort_key (\<lambda>t. item_id (snd t)) ts) db1"
proof -
  obtain db1 plans ts where flt: "flt = None" and claim: "claim_message now key db = (Inr (), db1)"
    and plans: "plan (by_product (filter (\<lambda>r. productId r \<in> set ids) (inventory_items db1))) = Inr plans"
    and ts: "resolve_targets (by_product (filter (\<lambda>r. productId r \<in> set ids) (inventory_items db1))) plans = Inr ts"
    and rest: "and_then (map_act (write_target now) (sort_key (\<lambda>t. item_id (snd t)) ts)) (\<lambda>updated.
        and_then (create_movements (map (\<lambda>(nxt, item). movement_row now item nxt)
          (sort_key (\<lambda>t. item_id (snd t)) ts))) (\<lambda>_. ret updated)) db1 = (Inr updated, db')"
    using run unfolding applyBulkStockChange_def transaction_None_Inr_iff
    by (auto simp: and_then_Inr_iff [of "claim_message _ _"] and_then_Inr_iff [of "lift _"] Let_def)
  let ?ts = "sort_key (\<lambda>t. item_id (snd t)) ts"
  have ok1: "inventory_ok db1" and items: "inventory_items db1 = inventory_items db"
    using claim_message_ok [OF ok claim] by simp_all
  have pm: "plan m = Inr plans" using plans by (simp add: m items)
  have pres: "targets_present ?ts db1"
    using targets_of_plans(1) [OF ok1 ts dist [OF pm]] .
  have uniq: "unique_items (inventory_items db1)" using ok1 by (simp add: inventory_ok_def)
  note w = write_targets [OF uniq pres, of now]
  have "updated = map (\<lambda>t. set_levels now (fst t) (snd t)) ?ts"
    and "db' = fold (move_one now) ?ts db1"
    using rest fold_move_one_frame(3) [of now ?ts db1]
    by (auto simp: and_then_step(1) [of "map_act (write_target now) ?ts" db1, OF w] case_prod_unfold)
  then show thesis
    using that [OF flt claim pm] resolve_targets_Inr [OF ts] pres
    by (auto simp: list_all_iff m items)
qed

text \<open>Conversely, a batch whose planner accepts and whose claim is new does commit.\<close>

lemma applyBulkStockChange_total:
  assumes ok: "inventory_ok db" and claim: "claim_message now key db = (Inr (), db1)"
    and m: "m = by_product (filter (\<lambda>r. productId r \<in> set ids) (inventory_items db))"
    and plans: "plan m = Inr plans" and dist: "distinct (map plan_productId plans)"
    and known: "list_all (\<lambda>p. m (plan_productId p) \<noteq> None) plans"
  shows "\<exists>updated db'. applyBulkStockChange None now ids plan key db = (Inr updated, db')"
proof -
  have ok1: "inventory_ok db1" and items: "inventory_items db1 = inventory_items db"
    using claim_message_ok [OF ok claim] by simp_all
  define ts where "ts = map (\<lambda>p. (p, the (m (plan_productId p)))) plans"
  have ts: "resolve_targets m plans = Inr ts"
    using known by (simp add: ts_def resolve_targets_total)
  have "targets_present (sort_key (\<lambda>t. item_id (snd t)) ts) db1"
    using targets_of_plans(1) [OF ok1 _ dist] ts by (simp add: m items)
  moreover have "unique_items (inventory_items db1)" using ok1 by (simp add: inventory_ok_def)
  ultimately have w: "fst (map_act (write_target now) (sort_key (\<lambda>t. item_id (snd t)) ts) db1) =
      Inr (map (\<lambda>t. set_levels now (fst t) (snd t)) (sort_key (\<lambda>t. item_id (snd t)) ts))"
    by (simp add: write_targets)
  obtain db2 where w2: "map_act (write_target now) (sort_key (\<lambda>t. item_id (snd t)) ts) db1 =
      (Inr (map (\<lambda>t. set_levels now (fst t) (snd t)) (sort_key (\<lambda>t. item_id (snd t)) ts)), db2)"
    using w by (cases "map_act (write_target now) (sort_key (\<lambda>t. item_id (snd t)) ts) db1") simp
  show ?thesis
    unfolding applyBulkStockChange_def
    by (intro exI, rule transaction_body_commits, rule trans [OF and_then_step(1) [where m = "claim_message now key", OF claim]])
      (simp only: and_then_simps items m [symmetric] plans ts Let_def and_then_step(1) [where m = "map_act (write_target now) (sort_key (\<lambda>t. item_id (snd t)) ts)", OF w2]
        and_then_create_movements ret_apply)
qed

lemma claim_message_duplicate:
  assumes "key_messageId k \<in> set (map pm_messageId (processed_messages db))"
  shows "claim_message now (Some k) db = (Inl (ThrownApp (DuplicateOperationError (key_messageId k))), db)"
  using assms
  by (simp add: claim_message_def create_processed_message_def catching_def uniqueViolation_def
      isUniqueViolation_def)

lemma applyBulkStockChange_duplicate:
  assumes "key_messageId k \<in> set (map pm_messageId (processed_messages db))"
  shows "applyBulkStockChange None now ids plan (Some k) db =
           (Inl (ThrownApp (DuplicateOperationError (key_messageId k))), db)"
  unfolding applyBulkStockChange_def
  by (rule transaction_body_throws, rule and_then_step(2)) (rule claim_message_duplicate [OF assms])

lemma applyBulkStockChange_keeps:
  assumes dist: "\<And>m plans. plan m = Inr plans \<Longrightarrow> distinct (map plan_productId plans)"
    and sound: "\<And>m plans p it. plan m = Inr plans \<Longrightarrow> p \<in> set plans \<Longrightarrow>
       m (plan_productId p) = Some it \<Longrightarrow> stock_ok it \<Longrightarrow> plan_sound it p"
  shows "keeps inventory_ok (applyBulkStockChange flt now ids plan key)"
proof (rule keepsI)
  fix db
  assume ok: "inventory_ok db"
  show "inventory_ok (snd (applyBulkStockChange flt now ids plan key db))"
  proof (cases "applyBulkStockChange flt now ids plan key db")
    case (Pair r db')
    show ?thesis
    proof (cases r)
      case (Inl e)
      with Pair ok show ?thesis
        by (auto simp: applyBulkStockChange_def dest: transaction_Inl_unchanged)
    next
      case (Inr updated)
      let ?m = "by_product (filter (\<lambda>r. productId r \<in> set ids) (inventory_items db))"
      show ?thesis
      proof (rule applyBulkStockChange_commit [OF ok Pair [unfolded Inr] refl dist])
        fix db1 plans ts
        assume claim: "claim_message now key db = (Inr (), db1)"
          and plans: "plan ?m = Inr plans" and ts: "map fst ts = plans"
          and found: "\<forall>t \<in> set ts. ?m (plan_productId (fst t)) = Some (snd t)"
          and pres: "targets_present (sort_key (\<lambda>t. item_id (snd t)) ts) db1"
          and db': "db' = fold (move_one now) (sort_key (\<lambda>t. item_id (snd t)) ts) db1"
        have "plan_sound (snd t) (fst t)" if t: "t \<in> set ts" for t
        proof -
          have "stock_ok (snd t)"
            using by_product_Some [OF bspec [OF found t]] inventory_okD(4) [OF ok] by simp
          then show ?thesis
            using sound [OF plans _ bspec [OF found t]] t ts by auto
        qed
        then show ?thesis
          using Pair db' fold_move_one_ok [OF _ pres, of now] claim_message_ok [OF ok claim]
          by (auto simp: list_all_iff)
      qed
    qed
  qed
qed

section \<open>The store interface the service relies on\<close>

text \<open>
  What a client of \<open>applyStockChange\<close> may rely on: the planner sees the freshly read row, a refusal
  changes nothing, a success leaves exactly the planned levels on that row and no other row moves.
\<close>

locale stock_store =
  fixes lookup :: "'db \<Rightarrow> string \<Rightarrow> InventoryItem option"
    and change :: "int \<Rightarrow> string \<Rightarrow> (InventoryItem \<Rightarrow> thrown + StockChangePlan) \<Rightarrow> ('db, thrown, InventoryItem) act"
    and invar :: "'db \<Rightarrow> bool"
  assumes change_missing: "lookup db i = None \<Longrightarrow> \<exists>e. change t i plan db = (Inl e, db)"
    and change_refused: "lookup db i = Some it \<Longrightarrow> plan it = Inl e \<Longrightarrow> change t i plan db = (Inl e, db)"
    and change_applied:
      "invar db \<Longrightarrow> lookup db i = Some it \<Longrightarrow> plan it = Inr nxt \<Longrightarrow>
         \<exists>it' db'. change t i plan db = (Inr it', db') \<and> lookup db' i = Some it' \<and>
           quantity it' = quantity nxt \<and> reserved it' = reserved nxt \<and>
           (\<forall>j. j \<noteq> i \<longrightarrow> lookup db' j = lookup db j)"
    and change_invar:
      "invar db \<Longrightarrow> lookup db i = Some it \<Longrightarrow> plan it = Inr nxt \<Longrightarrow> plan_sound it nxt \<Longrightarrow>
         invar (snd (change t i plan db))"
    and invar_levels: "invar db \<Longrightarrow> lookup db i = Some it \<Longrightarrow> stock_ok it"
begin

lemma change_Inl_unchanged: "invar db \<Longrightarrow> change t i plan db = (Inl e, db') \<Longrightarrow> db' = db"
  using change_missing [of db i t plan] change_refused [of db i _ plan _ t] change_applied [of db i _ plan _ t]
  by (cases "lookup db i"; cases "plan (the (lookup db i))") fastforce+

lemma change_Inr:
  assumes "invar db" and "change t i plan db = (Inr it', db')"
  obtains it nxt where "lookup db i = Some it" and "plan it = Inr nxt" and "lookup db' i = Some it'"
    and "quantity it' = quantity nxt" and "reserved it' = reserved nxt"
    and "\<And>j. j \<noteq> i \<Longrightarrow> lookup db' j = lookup db j"
proof -
  obtain it where it: "lookup db i = Some it"
    using change_missing [of db i t plan] assms(2) by (cases "lookup db i") auto
  obtain nxt where nxt: "plan it = Inr nxt"
    using change_refused [OF it, of plan] assms(2) by (cases "plan it") auto
  show thesis
    using that [OF it nxt] change_applied [where plan = plan and t = t, OF assms(1) it nxt] assms(2) by auto
qed

text \<open>A change whose effect a second one can undo is undone by it, and no other row has moved.\<close>

lemma change_then_undo:
  assumes "invar db" and first: "change t i p db = (Inr it1, db1)" and "invar db1"
    and undo: "\<And>it nxt it'. lookup db i = Some it \<Longrightarrow> p it = Inr nxt \<Longrightarrow>
        quantity it' = quantity nxt \<Longrightarrow> reserved it' = reserved nxt \<Longrightarrow>
        \<exists>nxt'. q it' = Inr nxt' \<and> quantity nxt' = quantity it \<and> reserved nxt' = reserved it"
  shows "\<exists>it it2 db2. lookup db i = Some it \<and> change t' i q db1 = (Inr it2, db2) \<and>
           quantity it2 = quantity it \<and> reserved it2 = reserved it \<and>
           (\<forall>j. j \<noteq> i \<longrightarrow> lookup db2 j = lookup db j)"
proof (rule change_Inr [OF assms(1) first])
  fix it nxt
  assume a: "lookup db i = Some it" "p it = Inr nxt" "lookup db1 i = Some it1"
    "quantity it1 = quantity nxt" "reserved it1 = reserved nxt"
    and other: "\<And>j. j \<noteq> i \<Longrightarrow> lookup db1 j = lookup db j"
  obtain nxt' where b: "q it1 = Inr nxt'" "quantity nxt' = quantity it" "reserved nxt' = reserved it"
    using undo [OF a(1,2,4,5)] by blast
  show ?thesis
    using change_applied [where plan = q and t = t', OF assms(3) a(3) b(1)] a(1) b(2,3) other by auto
qed

end

interpretation items: stock_store "\<lambda>db i. find_row item_id i (inventory_items db)"
  "applyStockChange None" inventory_ok
proof unfold_locales
  fix db :: inventory_db and now i and plan :: "InventoryItem \<Rightarrow> thrown + StockChangePlan"
  assume "find_row item_id i (inventory_items db) = None"
  then show "\<exists>e. applyStockChange None now i plan db = (Inl e, db)"
    by (simp add: notFound_item)
next
  fix db :: inventory_db and now i it nxt and plan :: "InventoryItem \<Rightarrow> thrown + StockChangePlan"
  assume ok: "inventory_ok db" and it: "find_row item_id i (inventory_items db) = Some it"
    and p: "plan it = Inr nxt"
  note run = applyStockChange_applied [where plan = plan and now = now, OF ok it p]
  have i: "item_id it = i" using find_row_SomeD [OF it] by simp
  show "\<exists>it' db'. applyStockChange None now i plan db = (Inr it', db') \<and>
      find_row item_id i (inventory_items db') = Some it' \<and> quantity it' = quantity nxt \<and>
      reserved it' = reserved nxt \<and>
      (\<forall>j. j \<noteq> i \<longrightarrow> find_row item_id j (inventory_items db') = find_row item_id j (inventory_items db))"
    unfolding run using it i by (auto simp: find_row_update)
  assume "plan_sound it nxt"
  then show "inventory_ok (snd (applyStockChange None now i plan db))"
    unfolding run using move_one_ok [OF ok, of it nxt now] it i by simp
qed (auto simp: applyStockChange_refused dest: find_row_Some inventory_okD(4))

end
