(* ===== verification/InventoryService.thy ===== *)
theory InventoryService
  imports InventoryRepository
begin

text \<open>
  The inventory service (\<^verbatim>\<open>modules/inventory/inventory.service.ts\<close>): every operation that
  changes stock, the bulk reservation and release, the patch and the deletion guard, composed
  over the repository the way the code composes them. Operations with several database calls
  take one verdict per call (\<open>flt 0\<close>, \<open>flt 1\<close>, ...).
\<close>

section \<open>Views and inputs\<close>

record InventoryItemView = InventoryItem +
  available :: int
  lowStock :: bool

definition toInventoryItemView :: "InventoryItem \<Rightarrow> InventoryItemView" where
  "toInventoryItemView item =
     InventoryItem.extend item (InventoryItemView.fields (availableStock item) (isLowStock item))"

record StockLine =
  line_productId :: string
  line_quantity :: int

record StockMeta =
  meta_reason :: "string option"
  meta_reference :: "string option"

record BulkStockInput =
  bulk_items :: "StockLine list"
  bulk_reason :: "string option"
  bulk_reference :: string

section \<open>Lookups and the record's life cycle\<close>

definition itemNotFound :: "string \<Rightarrow> thrown" where
  "itemNotFound i = ThrownApp (NotFoundError (''Inventory item '' @ quote i @ '' was not found''))"

definition getById :: "thrown option \<Rightarrow> string \<Rightarrow> (inventory_db, thrown, InventoryItemView) act" where
  "getById flt i = and_then (findById flt i) (\<lambda>found.
     case found of None \<Rightarrow> throw (itemNotFound i) | Some item \<Rightarrow> ret (toInventoryItemView item))"

definition getBySku :: "thrown option \<Rightarrow> string \<Rightarrow> (inventory_db, thrown, InventoryItemView) act" where
  "getBySku flt s = and_then (findBySku flt s) (\<lambda>found.
     case found of
       None \<Rightarrow> throw (ThrownApp (NotFoundError (''No inventory item exists for SKU '' @ quote s)))
     | Some item \<Rightarrow> ret (toInventoryItemView item))"

definition getByProductId ::
  "thrown option \<Rightarrow> string \<Rightarrow> (inventory_db, thrown, InventoryItemView option) act" where
  "getByProductId flt p =
     and_then (findByProductId flt p) (\<lambda>found. ret (map_option toInventoryItemView found))"

definition service_create ::
  "(nat \<Rightarrow> thrown option) \<Rightarrow> string \<Rightarrow> int \<Rightarrow> CreateInventoryItemInput
     \<Rightarrow> (inventory_db, thrown, InventoryItemView) act" where
  "service_create flt uuid now input =
     and_then (findBySku (flt 0) (new_sku input)) (\<lambda>existing.
     case existing of
       Some _ \<Rightarrow> throw (ThrownApp (ConflictError (''Inventory for SKU '' @ quote (new_sku input)
                   @ '' already exists'') None))
     | None \<Rightarrow>
         and_then (findByProductId (flt 1) (new_productId input)) (\<lambda>forProduct.
         case forProduct of
           Some other \<Rightarrow> throw (ThrownApp (ConflictError (''Inventory for product ''
               @ quote (new_productId input) @ '' already exists as SKU '' @ quote (sku other)) None))
         | None \<Rightarrow>
             and_then (repo_create (flt 2) uuid now input) (\<lambda>item. ret (toInventoryItemView item))))"

definition validate_patch :: "UpdateInventoryItemInput \<Rightarrow> InventoryItem \<Rightarrow> thrown + unit" where
  "validate_patch input current =
     (case patch_quantity input of
        None \<Rightarrow> Inr ()
      | Some q \<Rightarrow> assertInvariants \<lparr>quantity = q, reserved = reserved current\<rparr>)"

definition service_update ::
  "thrown option \<Rightarrow> int \<Rightarrow> string \<Rightarrow> UpdateInventoryItemInput \<Rightarrow> string option
     \<Rightarrow> (inventory_db, thrown, InventoryItemView) act" where
  "service_update flt now i input actor =
     and_then (repo_update flt now i input actor (validate_patch input))
       (\<lambda>updated. ret (toInventoryItemView updated))"

definition service_remove :: "(nat \<Rightarrow> thrown option) \<Rightarrow> string \<Rightarrow> (inventory_db, thrown, unit) act" where
  "service_remove flt i =
     and_then (getById (flt 0) i) (\<lambda>item.
     if reserved item > 0 then
       throw (ThrownApp (ConflictError (''Cannot delete inventory with '' @ int_str (reserved item)
         @ '' reserved units outstanding'') None))
     else repo_delete (flt 1) i)"

section \<open>Single-item stock transitions\<close>

text \<open>\<^verbatim>\<open>const next = plan(item); assertInvariants(next)\<close>\<close>

definition checked :: "thrown + StockLevels \<Rightarrow> thrown + StockLevels" where
  "checked r = (case r of
     Inl e \<Rightarrow> Inl e
   | Inr nxt \<Rightarrow> (case assertInvariants nxt of Inl e \<Rightarrow> Inl e | Inr _ \<Rightarrow> Inr nxt))"

definition planned_change ::
  "StockMovementType \<Rightarrow> int \<Rightarrow> StockMeta \<Rightarrow> (InventoryItem \<Rightarrow> thrown + StockLevels)
     \<Rightarrow> InventoryItem \<Rightarrow> thrown + StockChangePlan" where
  "planned_change mtype movementQuantity meta plan item =
     (case checked (plan item) of
        Inl e \<Rightarrow> Inl e
      | Inr nxt \<Rightarrow> Inr \<lparr>quantity = quantity nxt, reserved = reserved nxt,
          movement = \<lparr>movement_type = mtype, movement_quantity = movementQuantity,
            movement_reason = meta_reason meta, movement_reference = meta_reference meta\<rparr>\<rparr>)"

definition applyChange ::
  "thrown option \<Rightarrow> int \<Rightarrow> string \<Rightarrow> StockMovementType \<Rightarrow> int \<Rightarrow> StockMeta
     \<Rightarrow> (InventoryItem \<Rightarrow> thrown + StockLevels) \<Rightarrow> (inventory_db, thrown, InventoryItemView) act" where
  "applyChange flt now i mtype movementQuantity meta plan =
     and_then (applyStockChange flt now i (planned_change mtype movementQuantity meta plan))
       (\<lambda>updated. ret (toInventoryItemView updated))"

definition reserve ::
  "thrown option \<Rightarrow> int \<Rightarrow> string \<Rightarrow> int \<Rightarrow> StockMeta \<Rightarrow> (inventory_db, thrown, InventoryItemView) act" where
  "reserve flt now i n meta = applyChange flt now i RESERVATION n meta (\<lambda>item. planReservation item n)"

definition release ::
  "thrown option \<Rightarrow> int \<Rightarrow> string \<Rightarrow> int \<Rightarrow> StockMeta \<Rightarrow> (inventory_db, thrown, InventoryItemView) act" where
  "release flt now i n meta = applyChange flt now i RELEASE n meta (\<lambda>item. planRelease item n)"

definition fulfil ::
  "thrown option \<Rightarrow> int \<Rightarrow> string \<Rightarrow> int \<Rightarrow> StockMeta \<Rightarrow> (inventory_db, thrown, InventoryItemView) act" where
  "fulfil flt now i n meta = applyChange flt now i OUTBOUND n meta (\<lambda>item. planFulfilment item n)"

definition sell ::
  "thrown option \<Rightarrow> int \<Rightarrow> string \<Rightarrow> int \<Rightarrow> StockMeta \<Rightarrow> (inventory_db, thrown, InventoryItemView) act" where
  "sell flt now i n meta = applyChange flt now i OUTBOUND n meta (\<lambda>item. planSale item n)"

definition receive ::
  "thrown option \<Rightarrow> int \<Rightarrow> string \<Rightarrow> int \<Rightarrow> StockMeta \<Rightarrow> (inventory_db, thrown, InventoryItemView) act" where
  "receive flt now i n meta = applyChange flt now i INBOUND n meta (\<lambda>item. planReceipt item n)"

definition acceptReturn ::
  "thrown option \<Rightarrow> int \<Rightarrow> string \<Rightarrow> int \<Rightarrow> StockMeta \<Rightarrow> (inventory_db, thrown, InventoryItemView) act" where
  "acceptReturn flt now i n meta = applyChange flt now i RETURN n meta (\<lambda>item. planReceipt item n)"

definition adjust ::
  "thrown option \<Rightarrow> int \<Rightarrow> string \<Rightarrow> int \<Rightarrow> StockMeta \<Rightarrow> (inventory_db, thrown, InventoryItemView) act" where
  "adjust flt now i delta meta =
     applyChange flt now i ADJUSTMENT \<bar>delta\<bar> meta (\<lambda>item. planAdjustment item delta)"

section \<open>Bulk transitions\<close>

definition missing_line :: "StockLine \<Rightarrow> ErrorDetail" where
  "missing_line line =
     \<lparr>field = Some (line_productId line),
      detail_message = ''No inventory item exists for product '' @ quote (line_productId line),
      detail_productId = Some (line_productId line), detail_code = Some (error_code_text NOT_FOUND),
      requested = Some (line_quantity line), detail_available = None, detail_reserved = None\<rparr>"

definition refused_line :: "StockLine \<Rightarrow> InventoryItem \<Rightarrow> AppError \<Rightarrow> ErrorDetail" where
  "refused_line line item err =
     \<lparr>field = Some (line_productId line), detail_message = message err,
      detail_productId = Some (line_productId line), detail_code = Some (error_code_text (code err)),
      requested = Some (line_quantity line), detail_available = Some (availableStock item),
      detail_reserved = Some (reserved item)\<rparr>"

definition line_plan ::
  "StockMovementType \<Rightarrow> BulkStockInput \<Rightarrow> StockLine \<Rightarrow> StockLevels \<Rightarrow> BulkStockChangePlan" where
  "line_plan mtype input line nxt =
     \<lparr>quantity = quantity nxt, reserved = reserved nxt,
      movement = \<lparr>movement_type = mtype, movement_quantity = line_quantity line,
        movement_reason = bulk_reason input, movement_reference = Some (bulk_reference input)\<rparr>,
      plan_productId = line_productId line\<rparr>"

text \<open>
  The planner's loop: the plans and the failures it has pushed, or a throw that is no \<open>AppError\<close>.
\<close>

fun plan_lines ::
  "StockMovementType \<Rightarrow> BulkStockInput \<Rightarrow> (InventoryItem \<Rightarrow> int \<Rightarrow> thrown + StockLevels)
     \<Rightarrow> (string \<Rightarrow> InventoryItem option) \<Rightarrow> StockLine list
     \<Rightarrow> thrown + (BulkStockChangePlan list \<times> ErrorDetail list)" where
  "plan_lines mtype input plan byProductId [] = Inr ([], [])"
| "plan_lines mtype input plan byProductId (line # rest) =
     (case byProductId (line_productId line) of
        None \<Rightarrow>
          map_sum id (\<lambda>(plans, failures). (plans, missing_line line # failures))
            (plan_lines mtype input plan byProductId rest)
      | Some item \<Rightarrow>
          (case checked (plan item (line_quantity line)) of
             Inr nxt \<Rightarrow>
               map_sum id (\<lambda>(plans, failures). (line_plan mtype input line nxt # plans, failures))
                 (plan_lines mtype input plan byProductId rest)
           | Inl (ThrownApp err) \<Rightarrow>
               map_sum id (\<lambda>(plans, failures). (plans, refused_line line item err # failures))
                 (plan_lines mtype input plan byProductId rest)
           | Inl e \<Rightarrow> Inl e))"

definition bulk_planner ::
  "StockMovementType \<Rightarrow> string \<Rightarrow> BulkStockInput \<Rightarrow> (InventoryItem \<Rightarrow> int \<Rightarrow> thrown + StockLevels)
     \<Rightarrow> (string \<Rightarrow> InventoryItem option) \<Rightarrow> thrown + BulkStockChangePlan list" where
  "bulk_planner mtype action input plan byProductId =
     (case plan_lines mtype input plan byProductId (bulk_items input) of
        Inl e \<Rightarrow> Inl e
      | Inr (plans, failures) \<Rightarrow>
          (if length failures > 0 then
             Inl (ThrownApp (ConflictError
               (int_str (int (length failures)) @ '' of '' @ int_str (int (length (bulk_items input)))
                  @ '' lines could not be '' @ action @ ''; nothing was changed'') (Some failures)))
           else Inr plans))"

definition applyBulkChange ::
  "thrown option \<Rightarrow> int \<Rightarrow> StockMovementType \<Rightarrow> string \<Rightarrow> BulkStockInput
     \<Rightarrow> (InventoryItem \<Rightarrow> int \<Rightarrow> thrown + StockLevels) \<Rightarrow> IdempotencyKey option
     \<Rightarrow> (inventory_db, thrown, InventoryItemView list) act" where
  "applyBulkChange flt now mtype action input plan key =
     and_then (applyBulkStockChange flt now (map line_productId (bulk_items input))
                 (bulk_planner mtype action input plan) key)
       (\<lambda>updated. ret (map toInventoryItemView updated))"

definition reserveMany ::
  "thrown option \<Rightarrow> int \<Rightarrow> BulkStockInput \<Rightarrow> (inventory_db, thrown, InventoryItemView list) act" where
  "reserveMany flt now input = applyBulkChange flt now RESERVATION ''reserved'' input planReservation None"

definition releaseMany ::
  "thrown option \<Rightarrow> int \<Rightarrow> BulkStockInput \<Rightarrow> IdempotencyKey option
     \<Rightarrow> (inventory_db, thrown, InventoryItemView list) act" where
  "releaseMany flt now input key = applyBulkChange flt now RELEASE ''released'' input planRelease key"

section \<open>Lemmas\<close>

lemma checked_Inr_iff: "checked r = Inr lv \<longleftrightarrow> r = Inr lv \<and> stock_ok lv"
  by (auto simp: checked_def split: sum.splits)

lemma checked_Inl:
  assumes "\<And>e. r = Inl e \<Longrightarrow> isAppError e" and "checked r = Inl e"
  shows "isAppError e"
  using assms assertInvariants_Inl_app by (auto simp: checked_def split: sum.splits)

lemma view_fields [simp]:
  "quantity (toInventoryItemView it) = quantity it" "reserved (toInventoryItemView it) = reserved it"
  "item_id (toInventoryItemView it) = item_id it" "productId (toInventoryItemView it) = productId it"
  "available (toInventoryItemView it) = availableStock it"
  "lowStock (toInventoryItemView it) = isLowStock it"
  by (simp_all add: toInventoryItemView_def InventoryItem.defs InventoryItemView.defs)

end
