(* ===== verification/Zod.thy ===== *)
theory Zod
  imports Prelude
begin

text \<open>
  JSON values and the pieces of the Zod schema library the request schemas of the services are built
  from. A number that is no integer is \<open>JFraction\<close>: no schema here lets one through. The tests
  \<^verbatim>\<open>z.uuid()\<close> and \<^verbatim>\<open>z.email()\<close> are parameters.
\<close>

datatype json =
  JNull | JBool bool | JInt int | JFraction | JString string
| JArray "json list" | JObject "(string \<times> json) list"

section \<open>Building blocks\<close>

text \<open>\<^verbatim>\<open>z.strictObject\<close>: the value of a key (the last one wins), and no key outside the shape.\<close>

definition obj_get :: "(string \<times> json) list \<Rightarrow> string \<Rightarrow> json option" where
  "obj_get fs k = map_of (rev fs) k"

definition strict_keys :: "string list \<Rightarrow> (string \<times> json) list \<Rightarrow> bool" where
  "strict_keys allowed fs \<longleftrightarrow> list_all (\<lambda>(k, v). List.member allowed k) fs"

text \<open>\<^verbatim>\<open>z.string().trim().min(lo).max(hi)\<close>\<close>

definition trimmed_string :: "nat \<Rightarrow> nat \<Rightarrow> json \<Rightarrow> string option" where
  "trimmed_string lo hi v = (case v of
     JString s \<Rightarrow> (let t = js_trim s in if lo \<le> length t \<and> length t \<le> hi then Some t else None)
   | _ \<Rightarrow> None)"

text \<open>\<^verbatim>\<open>z.number().int().min(lo).max(hi)\<close>\<close>

definition int_between :: "int \<Rightarrow> int \<Rightarrow> json \<Rightarrow> int option" where
  "int_between lo hi v = (case v of JInt n \<Rightarrow> (if lo \<le> n \<and> n \<le> hi then Some n else None) | _ \<Rightarrow> None)"

text \<open>A required field, and an optional one: \<open>Some None\<close> when it is absent.\<close>

definition required :: "(json \<Rightarrow> 'a option) \<Rightarrow> json option \<Rightarrow> 'a option" where
  "required f v = (case v of None \<Rightarrow> None | Some j \<Rightarrow> f j)"

definition optional :: "(json \<Rightarrow> 'a option) \<Rightarrow> json option \<Rightarrow> 'a option option" where
  "optional f v = (case v of None \<Rightarrow> Some None | Some j \<Rightarrow> map_option Some (f j))"

definition with_default :: "'a \<Rightarrow> (json \<Rightarrow> 'a option) \<Rightarrow> json option \<Rightarrow> 'a option" where
  "with_default d f v = (case v of None \<Rightarrow> Some d | Some j \<Rightarrow> f j)"

definition uuidField :: "(string \<Rightarrow> bool) \<Rightarrow> json \<Rightarrow> string option" where
  "uuidField is_uuid v = (case v of JString s \<Rightarrow> (if is_uuid s then Some s else None) | _ \<Rightarrow> None)"

section \<open>Query strings\<close>

text \<open>
  Query values are strings, each taken to occur once. \<^verbatim>\<open>z.coerce.number().int()\<close> within bounds, with
  a default; Zod 4's \<^verbatim>\<open>int()\<close> takes safe integers only, so that is the upper bound where the code
  gives none.
\<close>

definition MAX_SAFE_INTEGER :: int where
  "MAX_SAFE_INTEGER = 2 ^ 53 - 1"

definition coerced_between :: "int \<Rightarrow> int option \<Rightarrow> int \<Rightarrow> string option \<Rightarrow> nat option" where
  "coerced_between lo hi d v = (case v of
     None \<Rightarrow> Some (nat d)
   | Some s \<Rightarrow> (case js_Number s of
        None \<Rightarrow> None
      | Some n \<Rightarrow> (if lo \<le> n \<and> n \<le> (case hi of None \<Rightarrow> MAX_SAFE_INTEGER | Some h \<Rightarrow> h) then Some (nat n) else None)))"

text \<open>\<^verbatim>\<open>z.enum(["true", "false"])\<close> turned into a boolean, and an enumeration by its texts.\<close>

definition successField :: "string \<Rightarrow> bool option" where
  "successField s = (if s = ''true'' then Some True else if s = ''false'' then Some False else None)"

definition enumField :: "('a \<Rightarrow> string) \<Rightarrow> 'a list \<Rightarrow> string \<Rightarrow> 'a option" where
  "enumField text xs s = find (\<lambda>x. text x = s) xs"

text \<open>An optional query value: \<open>Some None\<close> when it is absent.\<close>

definition query_optional :: "(string \<Rightarrow> 'a option) \<Rightarrow> string option \<Rightarrow> 'a option option" where
  "query_optional f v = (case v of None \<Rightarrow> Some None | Some s \<Rightarrow> map_option Some (f s))"

text \<open>\<^verbatim>\<open>String.prototype.includes\<close>\<close>

fun str_includes :: "string \<Rightarrow> string \<Rightarrow> bool" where
  "str_includes [] t = (t = [])"
| "str_includes (c # cs) t = (take (length t) (c # cs) = t \<or> str_includes cs t)"

text \<open>\<^verbatim>\<open>String.prototype.split\<close> on one character.\<close>

fun js_split :: "char \<Rightarrow> string \<Rightarrow> string list" where
  "js_split c [] = [[]]"
| "js_split c (x # xs) =
     (if x = c then [] # js_split c xs
      else case js_split c xs of [] \<Rightarrow> [[x]] | p # ps \<Rightarrow> (x # p) # ps)"

section \<open>Lemmas\<close>

lemma js_split_plain: "c \<notin> set s \<Longrightarrow> js_split c s = [s]"
  by (induction s) auto

lemma js_split_append: "c \<notin> set s \<Longrightarrow> js_split c (s @ c # t) = s # js_split c t"
  by (induction s) auto

lemma required_Some: "required f v = Some x \<longleftrightarrow> (\<exists>j. v = Some j \<and> f j = Some x)"
  by (auto simp: required_def split: option.splits)

lemma trimmed_again: "trimmed_string lo hi v = Some s \<Longrightarrow> trimmed_string lo hi (JString s) = Some s"
  by (auto simp: trimmed_string_def Let_def split: json.splits if_splits)

lemma obj_get_append: "obj_get (xs @ ys) k = (case obj_get ys k of None \<Rightarrow> obj_get xs k | Some v \<Rightarrow> Some v)"
  by (simp add: obj_get_def map_add_def split: option.split)

lemma obj_get_Cons:
  "obj_get ((k, v) # xs) k' = (case obj_get xs k' of None \<Rightarrow> if k = k' then Some v else None | Some x \<Rightarrow> Some x)"
  by (simp add: obj_get_def map_add_def split: option.split)

end
