(* ===== verification/InventorySchema.thy ===== *)
theory InventorySchema
  imports InventoryService Zod
begin

text \<open>
  Request validation (\<^verbatim>\<open>modules/inventory/inventory.schema.ts\<close>): each Zod schema is a function
  from a JSON value to the parsed input, \<open>None\<close> when the schema refuses. Zod itself is not part of
  the sources; \<open>is_uuid\<close> stands for its \<^verbatim>\<open>z.uuid()\<close> test, and the issue list a refusal
  carries is not represented. A string is a list of characters, one per UTF-16 unit.
\<close>

section \<open>Fields\<close>

definition is_sku_char :: "char \<Rightarrow> bool" where
  "is_sku_char c \<longleftrightarrow> is_digit c \<or> 65 \<le> (of_char c :: nat) \<and> (of_char c :: nat) \<le> 90
     \<or> 97 \<le> (of_char c :: nat) \<and> (of_char c :: nat) \<le> 122
     \<or> c = CHR ''.'' \<or> c = CHR ''_'' \<or> c = CHR ''-''"

definition skuField :: "json \<Rightarrow> string option" where
  "skuField v = (case trimmed_string 3 64 v of
     Some s \<Rightarrow> (if list_all is_sku_char s then Some (js_toUpperCase s) else None)
   | None \<Rightarrow> None)"

definition stockCount :: "json \<Rightarrow> int option" where
  "stockCount v = int_between 0 1000000000 v"

definition positiveQuantity :: "json \<Rightarrow> int option" where
  "positiveQuantity v = int_between 1 1000000000 v"

section \<open>The schemas\<close>

definition createInventoryItemSchema ::
  "(string \<Rightarrow> bool) \<Rightarrow> json \<Rightarrow> CreateInventoryItemInput option" where
  "createInventoryItemSchema is_uuid v = (case v of
     JObject fs \<Rightarrow>
       (if \<not> strict_keys AUDITED_FIELDS fs then None
        else case required skuField (obj_get fs ''sku'') of None \<Rightarrow> None | Some sk \<Rightarrow>
          (case required (uuidField is_uuid) (obj_get fs ''productId'') of None \<Rightarrow> None | Some pid \<Rightarrow>
          (case with_default ''default'' (trimmed_string 1 64) (obj_get fs ''warehouse'') of None \<Rightarrow> None | Some wh \<Rightarrow>
          (case with_default 0 stockCount (obj_get fs ''quantity'') of None \<Rightarrow> None | Some q \<Rightarrow>
          (case with_default 0 stockCount (obj_get fs ''reorderLevel'') of None \<Rightarrow> None | Some rl \<Rightarrow>
             Some \<lparr>new_sku = sk, new_productId = pid, new_warehouse = wh, new_quantity = q,
                   new_reorderLevel = rl\<rparr>)))))
   | _ \<Rightarrow> None)"

text \<open>Every column of the shape made optional; a patch that provides none of them is refused.\<close>

definition updateInventoryItemSchema ::
  "(string \<Rightarrow> bool) \<Rightarrow> json \<Rightarrow> UpdateInventoryItemInput option" where
  "updateInventoryItemSchema is_uuid v = (case v of
     JObject fs \<Rightarrow>
       (if \<not> strict_keys AUDITED_FIELDS fs then None
        else case optional skuField (obj_get fs ''sku'') of None \<Rightarrow> None | Some sk \<Rightarrow>
          (case optional (uuidField is_uuid) (obj_get fs ''productId'') of None \<Rightarrow> None | Some pid \<Rightarrow>
          (case optional (trimmed_string 1 64) (obj_get fs ''warehouse'') of None \<Rightarrow> None | Some wh \<Rightarrow>
          (case optional stockCount (obj_get fs ''quantity'') of None \<Rightarrow> None | Some q \<Rightarrow>
          (case optional stockCount (obj_get fs ''reorderLevel'') of None \<Rightarrow> None | Some rl \<Rightarrow>
             (if sk = None \<and> pid = None \<and> wh = None \<and> q = None \<and> rl = None then None
              else Some \<lparr>patch_sku = sk, patch_productId = pid, patch_warehouse = wh,
                         patch_quantity = q, patch_reorderLevel = rl\<rparr>))))))
   | _ \<Rightarrow> None)"

definition reserveStockSchema :: "json \<Rightarrow> (int \<times> StockMeta) option" where
  "reserveStockSchema v = (case v of
     JObject fs \<Rightarrow>
       (if \<not> strict_keys [''quantity'', ''reason'', ''reference''] fs then None
        else case required positiveQuantity (obj_get fs ''quantity'') of None \<Rightarrow> None | Some n \<Rightarrow>
          (case optional (trimmed_string 1 500) (obj_get fs ''reason'') of None \<Rightarrow> None | Some rs \<Rightarrow>
          (case optional (trimmed_string 1 120) (obj_get fs ''reference'') of None \<Rightarrow> None | Some rf \<Rightarrow>
             Some (n, \<lparr>meta_reason = rs, meta_reference = rf\<rparr>))))
   | _ \<Rightarrow> None)"

definition sellStockSchema :: "json \<Rightarrow> (int \<times> StockMeta) option" where
  "sellStockSchema v = (case v of
     JObject fs \<Rightarrow>
       (if \<not> strict_keys [''quantity'', ''reason'', ''reference''] fs then None
        else case required positiveQuantity (obj_get fs ''quantity'') of None \<Rightarrow> None | Some n \<Rightarrow>
          (case optional (trimmed_string 1 500) (obj_get fs ''reason'') of None \<Rightarrow> None | Some rs \<Rightarrow>
          (case required (trimmed_string 1 120) (obj_get fs ''reference'') of None \<Rightarrow> None | Some rf \<Rightarrow>
             Some (n, \<lparr>meta_reason = rs, meta_reference = Some rf\<rparr>))))
   | _ \<Rightarrow> None)"

definition adjustStockSchema :: "json \<Rightarrow> (int \<times> StockMeta) option" where
  "adjustStockSchema v = (case v of
     JObject fs \<Rightarrow>
       (if \<not> strict_keys [''delta'', ''reason'', ''reference''] fs then None
        else case required (int_between (-1000000000) 1000000000) (obj_get fs ''delta'') of
          None \<Rightarrow> None | Some d \<Rightarrow>
          (if d = 0 then None
           else case required (trimmed_string 1 500) (obj_get fs ''reason'') of None \<Rightarrow> None | Some rs \<Rightarrow>
          (case optional (trimmed_string 1 120) (obj_get fs ''reference'') of None \<Rightarrow> None | Some rf \<Rightarrow>
             Some (d, \<lparr>meta_reason = Some rs, meta_reference = rf\<rparr>))))
   | _ \<Rightarrow> None)"

definition MAX_BULK_LINES :: nat where
  "MAX_BULK_LINES = 50"

definition bulkStockLineSchema :: "(string \<Rightarrow> bool) \<Rightarrow> json \<Rightarrow> StockLine option" where
  "bulkStockLineSchema is_uuid v = (case v of
     JObject fs \<Rightarrow>
       (if \<not> strict_keys [''productId'', ''quantity''] fs then None
        else case required (uuidField is_uuid) (obj_get fs ''productId'') of None \<Rightarrow> None | Some pid \<Rightarrow>
          (case required positiveQuantity (obj_get fs ''quantity'') of None \<Rightarrow> None | Some n \<Rightarrow>
             Some \<lparr>line_productId = pid, line_quantity = n\<rparr>))
   | _ \<Rightarrow> None)"

fun all_some :: "'a option list \<Rightarrow> 'a list option" where
  "all_some [] = Some []"
| "all_some (None # xs) = None"
| "all_some (Some x # xs) = map_option ((#) x) (all_some xs)"

definition bulkStockLines :: "(string \<Rightarrow> bool) \<Rightarrow> json \<Rightarrow> StockLine list option" where
  "bulkStockLines is_uuid v = (case v of
     JArray vs \<Rightarrow>
       (case all_some (map (bulkStockLineSchema is_uuid) vs) of
          None \<Rightarrow> None
        | Some lines \<Rightarrow>
            (if 1 \<le> length lines \<and> length lines \<le> MAX_BULK_LINES \<and> distinct (map line_productId lines)
             then Some lines else None))
   | _ \<Rightarrow> None)"

definition bulkReserveStockSchema :: "(string \<Rightarrow> bool) \<Rightarrow> json \<Rightarrow> BulkStockInput option" where
  "bulkReserveStockSchema is_uuid v = (case v of
     JObject fs \<Rightarrow>
       (if \<not> strict_keys [''items'', ''reason'', ''reference''] fs then None
        else case required (bulkStockLines is_uuid) (obj_get fs ''items'') of None \<Rightarrow> None | Some ls \<Rightarrow>
          (case optional (trimmed_string 1 500) (obj_get fs ''reason'') of None \<Rightarrow> None | Some rs \<Rightarrow>
          (case required (trimmed_string 1 120) (obj_get fs ''reference'') of None \<Rightarrow> None | Some rf \<Rightarrow>
             Some \<lparr>bulk_items = ls, bulk_reason = rs, bulk_reference = rf\<rparr>)))
   | _ \<Rightarrow> None)"

section \<open>What a parsed input guarantees\<close>

definition valid_bulk :: "BulkStockInput \<Rightarrow> bool" where
  "valid_bulk input \<longleftrightarrow> bulk_items input \<noteq> [] \<and> length (bulk_items input) \<le> MAX_BULK_LINES \<and>
     distinct (map line_productId (bulk_items input)) \<and>
     list_all (\<lambda>l. 0 < line_quantity l) (bulk_items input)"

lemmas schema_defs =
  required_def optional_def with_default_def stockCount_def positiveQuantity_def int_between_def

lemma positiveQuantity_Some: "positiveQuantity v = Some n \<Longrightarrow> 0 < n \<and> n \<le> 1000000000"
  by (auto simp: positiveQuantity_def int_between_def split: json.splits if_splits)

lemma stockCount_Some: "stockCount v = Some n \<Longrightarrow> 0 \<le> n \<and> n \<le> 1000000000"
  by (auto simp: stockCount_def int_between_def split: json.splits if_splits)

lemma all_some_Some: "all_some xs = Some ys \<longleftrightarrow> xs = map Some ys"
  by (induction xs arbitrary: ys rule: all_some.induct) auto

lemma bulkStockLine_positive:
  "bulkStockLineSchema is_uuid v = Some l \<Longrightarrow> 0 < line_quantity l"
  by (auto simp: bulkStockLineSchema_def required_Some dest!: positiveQuantity_Some
      split: json.splits if_splits option.splits)

lemma bulkStockLines_valid:
  assumes "bulkStockLines is_uuid v = Some ls"
  shows "ls \<noteq> [] \<and> length ls \<le> MAX_BULK_LINES \<and> distinct (map line_productId ls) \<and>
         list_all (\<lambda>l. 0 < line_quantity l) ls"
proof -
  obtain vs where vs: "map (bulkStockLineSchema is_uuid) vs = map Some ls"
    and len: "1 \<le> length ls" "length ls \<le> MAX_BULK_LINES" "distinct (map line_productId ls)"
    using assms by (auto simp: bulkStockLines_def all_some_Some split: json.splits option.splits if_splits)
  have "0 < line_quantity l" if "l \<in> set ls" for l
  proof -
    have "Some l \<in> set (map (bulkStockLineSchema is_uuid) vs)"
      using that vs by simp
    then show ?thesis using bulkStockLine_positive by fastforce
  qed
  with len show ?thesis by (auto simp: list_all_iff)
qed

lemma bulk_schema_valid:
  "bulkReserveStockSchema is_uuid v = Some input \<Longrightarrow> valid_bulk input"
  by (auto simp: bulkReserveStockSchema_def valid_bulk_def required_Some dest!: bulkStockLines_valid
      split: json.splits if_splits option.splits)

lemma reserve_schema_positive: "reserveStockSchema v = Some (n, m) \<Longrightarrow> 0 < n"
  by (auto simp: reserveStockSchema_def required_Some dest!: positiveQuantity_Some
      split: json.splits if_splits option.splits)

lemma sell_schema_positive: "sellStockSchema v = Some (n, m) \<Longrightarrow> 0 < n \<and> meta_reference m \<noteq> None"
  by (auto simp: sellStockSchema_def required_Some dest!: positiveQuantity_Some
      split: json.splits if_splits option.splits)

lemma adjust_schema_nonzero: "adjustStockSchema v = Some (d, m) \<Longrightarrow> d \<noteq> 0"
  by (auto simp: adjustStockSchema_def split: json.splits if_splits option.splits)

lemma create_schema_quantity: "createInventoryItemSchema is_uuid v = Some input \<Longrightarrow> 0 \<le> new_quantity input"
  by (auto simp: createInventoryItemSchema_def with_default_def dest!: stockCount_Some
      split: json.splits if_splits option.splits)

end
