(* ===== verification/InventoryApi.thy ===== *)
theory InventoryApi
  imports InventorySchema
begin

text \<open>
  The HTTP face of the inventory service: the routes with their validation
  (\<^verbatim>\<open>modules/inventory/inventory.routes.ts\<close>, \<^verbatim>\<open>middlewares/validate.ts\<close>), the controller
  that calls the service and picks the status (\<^verbatim>\<open>modules/inventory/inventory.controller.ts\<close>),
  and the actor taken from the \<^verbatim>\<open>x-actor-id\<close> header (\<^verbatim>\<open>middlewares/request-context.ts\<close>). The
  paginated listings are in \<open>InventoryQueries\<close>. The issue list of a validation error is not
  represented.
\<close>

definition ACTOR_MAX_LENGTH :: nat where
  "ACTOR_MAX_LENGTH = 120"

definition request_actor :: "string option \<Rightarrow> string option" where
  "request_actor header = (case header of
     None \<Rightarrow> None
   | Some h \<Rightarrow> (let actor = js_trim h in
       if actor = '''' then None else Some (take ACTOR_MAX_LENGTH actor)))"

datatype InventoryRequest =
  GetItem string
| GetBySku json
| PostItem json
| PatchItem string json "string option"
| DeleteItem string
| PostReserve string json
| PostRelease string json
| PostFulfil string json
| PostSell string json
| PostReturn string json
| PostReceive string json
| PostAdjust string json
| PostBulkReserve json
| PostBulkRelease json

definition invalidRequest :: thrown where
  "invalidRequest = ThrownApp (ValidationError ''Request validation failed'' None)"

definition validated :: "'a option \<Rightarrow> (inventory_db, thrown, 'a) act" where
  "validated parsed = (case parsed of None \<Rightarrow> throw invalidRequest | Some v \<Rightarrow> ret v)"

definition id_param :: "(string \<Rightarrow> bool) \<Rightarrow> string \<Rightarrow> string option" where
  "id_param is_uuid i = (if is_uuid i then Some i else None)"

type_synonym response = "int \<times> InventoryItemView list"

definition respond ::
  "int \<Rightarrow> (inventory_db, thrown, InventoryItemView) act \<Rightarrow> (inventory_db, thrown, response) act" where
  "respond status m = and_then m (\<lambda>item. ret (status, [item]))"

text \<open>A transition on \<^verbatim>\<open>/:id/...\<close>: the path parameter is validated before the body.\<close>

definition transition ::
  "(string \<Rightarrow> bool) \<Rightarrow> string \<Rightarrow> (int \<times> StockMeta) option
     \<Rightarrow> (string \<Rightarrow> int \<Rightarrow> StockMeta \<Rightarrow> (inventory_db, thrown, InventoryItemView) act)
     \<Rightarrow> (inventory_db, thrown, response) act" where
  "transition is_uuid i body op =
     and_then (validated (id_param is_uuid i)) (\<lambda>i.
     and_then (validated body) (\<lambda>(n, meta). respond 200 (op i n meta)))"

fun handle_request ::
  "(string \<Rightarrow> bool) \<Rightarrow> (nat \<Rightarrow> thrown option) \<Rightarrow> string \<Rightarrow> int \<Rightarrow> InventoryRequest
     \<Rightarrow> (inventory_db, thrown, response) act" where
  "handle_request is_uuid flt uuid now (GetItem i) =
     and_then (validated (id_param is_uuid i)) (\<lambda>i. respond 200 (getById (flt 0) i))"
| "handle_request is_uuid flt uuid now (GetBySku s) =
     and_then (validated (skuField s)) (\<lambda>s. respond 200 (getBySku (flt 0) s))"
| "handle_request is_uuid flt uuid now (PostItem b) =
     and_then (validated (createInventoryItemSchema is_uuid b)) (\<lambda>input.
       respond 201 (service_create flt uuid now input))"
| "handle_request is_uuid flt uuid now (PatchItem i b actor) =
     and_then (validated (id_param is_uuid i)) (\<lambda>i.
     and_then (validated (updateInventoryItemSchema is_uuid b)) (\<lambda>input.
       respond 200 (service_update (flt 0) now i input (request_actor actor))))"
| "handle_request is_uuid flt uuid now (DeleteItem i) =
     and_then (validated (id_param is_uuid i)) (\<lambda>i.
     and_then (service_remove flt i) (\<lambda>_. ret (204, [])))"
| "handle_request is_uuid flt uuid now (PostReserve i b) =
     transition is_uuid i (reserveStockSchema b) (reserve (flt 0) now)"
| "handle_request is_uuid flt uuid now (PostRelease i b) =
     transition is_uuid i (reserveStockSchema b) (release (flt 0) now)"
| "handle_request is_uuid flt uuid now (PostFulfil i b) =
     transition is_uuid i (reserveStockSchema b) (fulfil (flt 0) now)"
| "handle_request is_uuid flt uuid now (PostSell i b) =
     transition is_uuid i (sellStockSchema b) (sell (flt 0) now)"
| "handle_request is_uuid flt uuid now (PostReturn i b) =
     transition is_uuid i (sellStockSchema b) (acceptReturn (flt 0) now)"
| "handle_request is_uuid flt uuid now (PostReceive i b) =
     transition is_uuid i (reserveStockSchema b) (receive (flt 0) now)"
| "handle_request is_uuid flt uuid now (PostAdjust i b) =
     transition is_uuid i (adjustStockSchema b) (adjust (flt 0) now)"
| "handle_request is_uuid flt uuid now (PostBulkReserve b) =
     and_then (validated (bulkReserveStockSchema is_uuid b)) (\<lambda>input.
     and_then (reserveMany (flt 0) now input) (\<lambda>items. ret (200, items)))"
| "handle_request is_uuid flt uuid now (PostBulkRelease b) =
     and_then (validated (bulkReserveStockSchema is_uuid b)) (\<lambda>input.
     and_then (releaseMany (flt 0) now input None) (\<lambda>items. ret (200, items)))"

text \<open>The response a client sees: the handler's, or the error middleware's.\<close>

definition http_status :: "thrown + response \<Rightarrow> int" where
  "http_status r = (case r of Inr (status, _) \<Rightarrow> status | Inl e \<Rightarrow> statusCode (toAppError e))"

section \<open>Lemmas\<close>

text \<open>Invariants of a validated handler: only the parsed inputs matter.\<close>

lemma keeps_validated:
  "(\<And>v. parsed = Some v \<Longrightarrow> keeps P (f v)) \<Longrightarrow> keeps P (and_then (validated parsed) f)"
  by (cases parsed) (auto simp: validated_def keeps_def and_then_def)

lemma keeps_respond: "keeps P m \<Longrightarrow> keeps P (respond status m)"
  unfolding respond_def by (intro keeps_intros)

lemma keeps_transition:
  "(\<And>n meta. body = Some (n, meta) \<Longrightarrow> keeps P (op i n meta)) \<Longrightarrow> keeps P (transition is_uuid i body op)"
  unfolding transition_def
  by (intro keeps_validated) (auto simp: id_param_def split: if_splits intro!: keeps_validated keeps_respond)

lemma request_actor_length: "request_actor h = Some a \<Longrightarrow> a \<noteq> '''' \<and> length a \<le> 120"
  by (auto simp: request_actor_def Let_def ACTOR_MAX_LENGTH_def split: option.splits if_splits)

end
