(* ===== verification/InventoryConsumer.thy ===== *)
theory InventoryConsumer
  imports InventoryApi
begin

text \<open>
  The broker-facing half of the inventory module: the stock-event contract
  (\<^verbatim>\<open>messaging/inventory-events.ts\<close>) and the consumer that turns an event into the same
  service call the HTTP endpoint makes (\<^verbatim>\<open>modules/inventory/inventory.consumer.ts\<close>). A delivery is
  given by what \<^verbatim>\<open>JSON.parse\<close> made of its content: \<open>None\<close> when that threw. \<open>is_datetime\<close> stands
  for Zod's \<^verbatim>\<open>z.iso.datetime()\<close> test.
\<close>

section \<open>The event contract\<close>

datatype InventoryRoutingKey = KeyRelease | KeyFulfil | KeyReturn

fun routing_key_text :: "InventoryRoutingKey \<Rightarrow> string" where
  "routing_key_text KeyRelease = ''inventory.stock.release''"
| "routing_key_text KeyFulfil = ''inventory.stock.fulfil''"
| "routing_key_text KeyReturn = ''inventory.stock.return''"

definition event_type_enum :: "json \<Rightarrow> InventoryRoutingKey option" where
  "event_type_enum v = (case v of
     JString s \<Rightarrow> find (\<lambda>k. routing_key_text k = s) [KeyRelease, KeyFulfil, KeyReturn]
   | _ \<Rightarrow> None)"

definition datetimeField :: "(string \<Rightarrow> bool) \<Rightarrow> json \<Rightarrow> string option" where
  "datetimeField is_datetime v = (case v of
     JString s \<Rightarrow> (if is_datetime s then Some s else None) | _ \<Rightarrow> None)"

record StockEvent =
  event_messageId :: string
  event_type :: InventoryRoutingKey
  occurredAt :: string
  correlationId :: "string option"
  event_actor :: "string option"
  payload :: BulkStockInput

text \<open>\<^verbatim>\<open>z.object\<close>: unknown envelope keys are dropped, the payload is strict.\<close>

definition stockEventSchema ::
  "(string \<Rightarrow> bool) \<Rightarrow> (string \<Rightarrow> bool) \<Rightarrow> json \<Rightarrow> StockEvent option" where
  "stockEventSchema is_uuid is_datetime v = (case v of
     JObject fs \<Rightarrow>
       (case required (trimmed_string 1 120) (obj_get fs ''messageId'') of None \<Rightarrow> None | Some mid \<Rightarrow>
       (case required event_type_enum (obj_get fs ''type'') of None \<Rightarrow> None | Some ty \<Rightarrow>
       (case required (datetimeField is_datetime) (obj_get fs ''occurredAt'') of None \<Rightarrow> None | Some at \<Rightarrow>
       (case optional (trimmed_string 1 200) (obj_get fs ''correlationId'') of None \<Rightarrow> None | Some cid \<Rightarrow>
       (case optional (trimmed_string 1 120) (obj_get fs ''actor'') of None \<Rightarrow> None | Some act \<Rightarrow>
       (case required (bulkReserveStockSchema is_uuid) (obj_get fs ''payload'') of None \<Rightarrow> None | Some pl \<Rightarrow>
          Some \<lparr>event_messageId = mid, event_type = ty, occurredAt = at, correlationId = cid,
                event_actor = act, payload = pl\<rparr>))))))
   | _ \<Rightarrow> None)"

section \<open>The consumer\<close>

datatype ConsumeOutcome = Ack | Reject | Requeue

definition event_key :: "StockEvent \<Rightarrow> IdempotencyKey" where
  "event_key event =
     \<lparr>key_messageId = event_messageId event, key_type = routing_key_text (event_type event),
      key_reference = Some (bulk_reference (payload event))\<rparr>"

definition consumer_release ::
  "thrown option \<Rightarrow> int \<Rightarrow> StockEvent \<Rightarrow> (inventory_db, thrown, ConsumeOutcome) act" where
  "consumer_release flt now event =
     catching (and_then (releaseMany flt now (payload event) (Some (event_key event))) (\<lambda>_. ret Ack))
       (\<lambda>e. if isDuplicateOperationError e then ret Ack
            else if isAppError e then ret Reject
            else ret Requeue)"

definition consumer_parse ::
  "(string \<Rightarrow> bool) \<Rightarrow> (string \<Rightarrow> bool) \<Rightarrow> json option \<Rightarrow> StockEvent option" where
  "consumer_parse is_uuid is_datetime content = (case content of
     None \<Rightarrow> None
   | Some raw \<Rightarrow> stockEventSchema is_uuid is_datetime raw)"

definition consumer_handle ::
  "(string \<Rightarrow> bool) \<Rightarrow> (string \<Rightarrow> bool) \<Rightarrow> thrown option \<Rightarrow> int \<Rightarrow> json option
     \<Rightarrow> (inventory_db, thrown, ConsumeOutcome) act" where
  "consumer_handle is_uuid is_datetime flt now content =
     (case consumer_parse is_uuid is_datetime content of
        None \<Rightarrow> ret Reject
      | Some event \<Rightarrow>
          (case event_type event of
             KeyRelease \<Rightarrow> consumer_release flt now event
           | KeyFulfil \<Rightarrow> ret Reject
           | KeyReturn \<Rightarrow> ret Reject))"

section \<open>Lemmas\<close>

lemma event_payload_valid:
  "stockEventSchema is_uuid is_datetime v = Some event \<Longrightarrow> valid_bulk (payload event)"
  by (auto simp: stockEventSchema_def required_Some dest!: bulk_schema_valid
      split: json.splits option.splits)

lemma consumer_parse_valid:
  "consumer_parse is_uuid is_datetime content = Some event \<Longrightarrow> valid_bulk (payload event)"
  by (auto simp: consumer_parse_def dest: event_payload_valid split: option.splits)

lemma keeps_consumer_release:
  "keeps P (releaseMany flt now (payload event) (Some (event_key event))) \<Longrightarrow>
     keeps P (consumer_release flt now event)"
  unfolding consumer_release_def by (auto intro!: keeps_intros)

text \<open>The outcome of a release, by what the service answered.\<close>

lemma consumer_release_cases:
  "consumer_release flt now event db =
     (case releaseMany flt now (payload event) (Some (event_key event)) db of
        (Inr _, db') \<Rightarrow> (Inr Ack, db')
      | (Inl e, db') \<Rightarrow>
          (Inr (if isDuplicateOperationError e then Ack else if isAppError e then Reject else Requeue), db'))"
  by (auto simp: consumer_release_def catching_def and_then_def split: prod.splits sum.splits)

end
