(* ===== verification/InventoryInvariant.thy ===== *)
theory InventoryInvariant
  imports InventoryConsumer
begin

text \<open>
  What the inventory service guarantees: the stock invariant and the reconciliation of the ledger
  in every reachable state, the exact effect of single and bulk transitions, and that a refused
  request changes nothing.
\<close>

section \<open>Vocabulary\<close>

definition requested_units :: "StockLine list \<Rightarrow> string \<Rightarrow> int" where
  "requested_units ls p =
     (case find (\<lambda>l. line_productId l = p) ls of Some l \<Rightarrow> line_quantity l | None \<Rightarrow> 0)"

definition levels_of :: "inventory_db \<Rightarrow> string \<Rightarrow> (int \<times> int) option" where
  "levels_of db p = map_option (\<lambda>it. (quantity it, reserved it)) (find_row productId p (inventory_items db))"

lemma requested_units_mem:
  "distinct (map line_productId ls) \<Longrightarrow> l \<in> set ls \<Longrightarrow>
     requested_units ls (line_productId l) = line_quantity l"
  by (induction ls) (auto simp: requested_units_def)

lemma requested_units_absent: "p \<notin> line_productId ` set ls \<Longrightarrow> requested_units ls p = 0"
  by (auto simp: requested_units_def find_None_iff split: option.splits dest!: find_Some_mem)

section \<open>Planners that tell the ledger the truth\<close>

text \<open>
  A planner together with the movement type its callers record: the type's meaning accounts for
  what the planner does to the on-hand quantity. Everything the service builds on a planner is
  proved here once.
\<close>

locale ledger_planner = stock_planner plan dq dr
  for plan :: "InventoryItem \<Rightarrow> int \<Rightarrow> thrown + StockLevels" and dq dr +
  fixes mtype :: StockMovementType
  assumes mtype_effect: "typed_change mtype n = Some (dq * n)"
begin

lemma planned_sound:
  assumes "0 < n" and "planned_change mtype n meta (\<lambda>it. plan it n) it = Inr nxt"
  shows "plan_sound it nxt"
proof -
  obtain lv where "plan it n = Inr lv" "stock_ok lv" "quantity nxt = quantity lv" "reserved nxt = reserved lv"
    and "movement_type (movement nxt) = mtype" "movement_quantity (movement nxt) = n"
    using assms(2) by (auto simp: planned_change_def checked_Inr_iff split: sum.splits)
  with assms(1) mtype_effect [of n] plan_effect [of it n lv] show ?thesis
    by (simp add: plan_sound_def stock_ok_def signed_change_def)
qed

lemma applyChange_keeps:
  assumes "0 < n"
  shows "keeps inventory_ok (applyChange flt now i mtype n meta (\<lambda>it. plan it n))"
  unfolding applyChange_def
  by (intro keeps_intros applyStockChange_keeps) (rule planned_sound [OF assms])

definition line_ok :: "(string \<Rightarrow> InventoryItem option) \<Rightarrow> StockLine \<Rightarrow> bool" where
  "line_ok m l \<longleftrightarrow> (\<exists>it lv. m (line_productId l) = Some it \<and> plan it (line_quantity l) = Inr lv \<and> stock_ok lv)"

definition line_planned ::
  "BulkStockInput \<Rightarrow> (string \<Rightarrow> InventoryItem option) \<Rightarrow> StockLine \<Rightarrow> BulkStockChangePlan \<Rightarrow> bool" where
  "line_planned input m l p \<longleftrightarrow> (\<exists>it lv. m (line_productId l) = Some it \<and>
     plan it (line_quantity l) = Inr lv \<and> stock_ok lv \<and> p = line_plan mtype input l lv)"

text \<open>The loop plans exactly the lines that can be served and reports exactly the others, in order.\<close>

lemma plan_lines_exact:
  "\<exists>ps fs. plan_lines mtype input plan m ls = Inr (ps, fs) \<and>
     list_all2 (line_planned input m) (filter (line_ok m) ls) ps \<and>
     map detail_productId fs = map (\<lambda>l. Some (line_productId l)) (filter (\<lambda>l. \<not> line_ok m l) ls)"
proof (induction ls)
  case Nil
  then show ?case by simp
next
  case (Cons l ls)
  then obtain ps fs where IH: "plan_lines mtype input plan m ls = Inr (ps, fs)"
    "list_all2 (line_planned input m) (filter (line_ok m) ls) ps"
    "map detail_productId fs = map (\<lambda>l. Some (line_productId l)) (filter (\<lambda>l. \<not> line_ok m l) ls)"
    by blast
  show ?case
  proof (cases "line_ok m l")
    case True
    then obtain it lv where "m (line_productId l) = Some it" "plan it (line_quantity l) = Inr lv" "stock_ok lv"
      by (auto simp: line_ok_def)
    moreover from this have "line_planned input m l (line_plan mtype input l lv)"
      by (auto simp: line_planned_def)
    moreover have "checked (plan it (line_quantity l)) = Inr lv"
      using calculation by (simp add: checked_Inr_iff)
    ultimately show ?thesis using True IH by auto
  next
    case False
    show ?thesis
    proof (cases "m (line_productId l)")
      case None
      with False IH show ?thesis by (auto simp: missing_line_def)
    next
      case (Some it)
      have "\<nexists>lv. checked (plan it (line_quantity l)) = Inr lv"
        using False Some by (auto simp: line_ok_def checked_Inr_iff)
      then obtain e where e: "checked (plan it (line_quantity l)) = Inl e"
        by (cases "checked (plan it (line_quantity l))") auto
      have "isAppError e"
        using e by (rule checked_Inl [rotated]) (rule plan_refusal)
      then obtain err where "checked (plan it (line_quantity l)) = Inl (ThrownApp err)"
        using e by (auto simp: isAppError_def split: thrown.splits)
      with False IH Some show ?thesis by (auto simp: refused_line_def)
    qed
  qed
qed

lemma bulk_planner_Inr:
  assumes "bulk_planner mtype action input plan m = Inr ps"
  shows "list_all2 (line_planned input m) (bulk_items input) ps"
proof -
  obtain qs fs where spec: "plan_lines mtype input plan m (bulk_items input) = Inr (qs, fs)"
    "list_all2 (line_planned input m) (filter (line_ok m) (bulk_items input)) qs"
    "map detail_productId fs = map (\<lambda>l. Some (line_productId l)) (filter (\<lambda>l. \<not> line_ok m l) (bulk_items input))"
    using plan_lines_exact by blast
  with assms have "fs = []" "ps = qs"
    by (auto simp: bulk_planner_def split: if_splits)
  with spec(3) have "filter (\<lambda>l. \<not> line_ok m l) (bulk_items input) = []"
    by simp
  then have "filter (line_ok m) (bulk_items input) = bulk_items input"
    by (simp add: filter_empty_conv filter_id_conv)
  with spec(2) \<open>ps = qs\<close> show ?thesis by simp
qed

lemma line_planned_productId: "line_planned input m l p \<Longrightarrow> plan_productId p = line_productId l"
  by (auto simp: line_planned_def line_plan_def)

lemma bulk_planner_ids:
  assumes "bulk_planner mtype action input plan m = Inr ps"
  shows "map plan_productId ps = map line_productId (bulk_items input)"
  using bulk_planner_Inr [OF assms]
  by (induction rule: list_all2_induct) (auto simp: line_planned_productId)

lemma line_planned_sound:
  assumes "line_planned input m l p" and "0 < line_quantity l" and "m (plan_productId p) = Some it"
  shows "plan_sound it p"
proof -
  obtain lv where "plan it (line_quantity l) = Inr lv" "stock_ok lv" "p = line_plan mtype input l lv"
    using assms(1,3) line_planned_productId [OF assms(1)] by (auto simp: line_planned_def)
  with assms(2) mtype_effect [of "line_quantity l"] plan_effect [of it "line_quantity l" lv]
  show ?thesis by (simp add: plan_sound_def stock_ok_def line_plan_def signed_change_def)
qed

lemma applyBulkChange_keeps:
  assumes "valid_bulk input"
  shows "keeps inventory_ok (applyBulkChange flt now mtype action input plan key)"
  unfolding applyBulkChange_def
proof (intro keeps_intros applyBulkStockChange_keeps)
  fix m ps
  assume run: "bulk_planner mtype action input plan m = Inr ps"
  show "distinct (map plan_productId ps)"
    using assms bulk_planner_ids [OF run] by (simp add: valid_bulk_def)
  fix p it
  assume p: "p \<in> set ps" and it: "m (plan_productId p) = Some it"
  obtain l where "l \<in> set (bulk_items input)" "line_planned input m l p"
    using list_all2_mem2 [OF bulk_planner_Inr [OF run] p] by blast
  then show "plan_sound it p"
    using assms it line_planned_sound by (auto simp: valid_bulk_def list_all_iff)
qed

text \<open>
  The target a committed batch resolved for the row of product \<open>p\<close>: its plan is the planner's
  answer to the request line of that product, and a row without a target has no line.
\<close>

lemma target_of_row:
  assumes ok: "inventory_ok db" and it: "find_row productId p (inventory_items db) = Some it"
    and m: "m = by_product (filter (\<lambda>r. productId r \<in> S) (inventory_items db))"
    and lines: "list_all2 (line_planned input m) (bulk_items input) (map fst ts)"
    and found: "\<forall>t \<in> set ts. m (plan_productId (fst t)) = Some (snd t)"
    and t: "t \<in> set ts" "item_id (snd t) = item_id it"
  shows "\<exists>l \<in> set (bulk_items input). line_productId l = p \<and>
           quantity (fst t) = quantity it + dq * line_quantity l \<and>
           reserved (fst t) = reserved it + dr * line_quantity l"
proof -
  have b: "snd t \<in> set (inventory_items db)" "productId (snd t) = plan_productId (fst t)"
    using by_product_Some [OF bspec [OF found t(1), unfolded m]] by auto
  have snd: "snd t = it"
    using inventory_okD(1) [OF ok] b(1) find_row_SomeD [OF it] t(2) by (metis find_row_distinct option.inject)
  obtain l where l: "l \<in> set (bulk_items input)" "line_planned input m l (fst t)"
    using list_all2_mem2 [OF lines, of "fst t"] t(1) by auto
  have p: "plan_productId (fst t) = p" "line_productId l = p"
    using b(2) snd find_row_SomeD [OF it] line_planned_productId [OF l(2)] by simp_all
  then obtain lv where "plan it (line_quantity l) = Inr lv" "fst t = line_plan mtype input l lv"
    using l(2) found t(1) snd by (auto simp: line_planned_def)
  then show ?thesis
    using plan_effect l(1) p(2) by (auto simp: line_plan_def)
qed

lemma no_target_no_line:
  assumes ok: "inventory_ok db" and it: "find_row productId p (inventory_items db) = Some it"
    and m: "m = by_product (filter (\<lambda>r. productId r \<in> S) (inventory_items db))"
    and ids: "map plan_productId (map fst ts) = map line_productId ls"
    and found: "\<forall>t \<in> set ts. m (plan_productId (fst t)) = Some (snd t)"
    and none: "\<forall>t \<in> set ts. item_id (snd t) \<noteq> item_id it"
  shows "p \<notin> line_productId ` set ls"
proof
  assume "p \<in> line_productId ` set ls"
  then have "p \<in> set (map plan_productId (map fst ts))" unfolding ids by simp
  then obtain t where t: "t \<in> set ts" "plan_productId (fst t) = p" by auto
  have "m p = Some (snd t)" using found t by blast
  then have "snd t = it"
    unfolding m by_product_filter [OF inventory_okD(3) [OF ok]] using it by (simp split: if_splits)
  with none t(1) show False by blast
qed

lemma committed_levels:
  assumes ok: "inventory_ok db" and valid: "valid_bulk input"
    and m: "m = by_product (filter (\<lambda>r. productId r \<in> S) (inventory_items db))"
    and lines: "list_all2 (line_planned input m) (bulk_items input) (map fst ts)"
    and ids: "map plan_productId (map fst ts) = map line_productId (bulk_items input)"
    and found: "\<forall>t \<in> set ts. m (plan_productId (fst t)) = Some (snd t)"
    and dist: "distinct (map (\<lambda>t. item_id (snd t)) (sort_key (\<lambda>t. item_id (snd t)) ts))"
    and items: "inventory_items db1 = inventory_items db"
  shows "levels_of (fold (move_one now) (sort_key (\<lambda>t. item_id (snd t)) ts) db1) p =
     map_option (\<lambda>(q, r). (q + dq * requested_units (bulk_items input) p,
                            r + dr * requested_units (bulk_items input) p)) (levels_of db p)"
proof -
  let ?ts = "sort_key (\<lambda>t. item_id (snd t)) ts"
  let ?f = "\<lambda>r. case find (\<lambda>t. item_id (snd t) = item_id r) ?ts of
                  Some t \<Rightarrow> set_levels now (fst t) r | None \<Rightarrow> r"
  have row: "find_row productId p (inventory_items (fold (move_one now) ?ts db1)) =
      map_option ?f (find_row productId p (inventory_items db))"
    unfolding inventory_items_fold_move_one [OF dist] items
    by (rule find_row_map) (simp split: option.split)
  show ?thesis
  proof (cases "find_row productId p (inventory_items db)")
    case None
    with row show ?thesis by (simp add: levels_of_def)
  next
    case it: (Some it)
    show ?thesis
    proof (cases "find (\<lambda>t. item_id (snd t) = item_id it) ?ts")
      case None
      then have "\<forall>t \<in> set ts. item_id (snd t) \<noteq> item_id it" unfolding find_None_iff by auto
      then have "requested_units (bulk_items input) p = 0"
        using no_target_no_line [OF ok it m ids found] by (simp add: requested_units_absent)
      with row it None show ?thesis by (simp add: levels_of_def)
    next
      case (Some t)
      then have "t \<in> set ts" "item_id (snd t) = item_id it" using find_Some_mem [OF Some] by auto
      then obtain l where l: "l \<in> set (bulk_items input)" "line_productId l = p"
        "quantity (fst t) = quantity it + dq * line_quantity l"
        "reserved (fst t) = reserved it + dr * line_quantity l"
        using target_of_row [OF ok it m lines found] by blast
      have "requested_units (bulk_items input) p = line_quantity l"
        using valid l requested_units_mem [of "bulk_items input" l] by (simp add: valid_bulk_def)
      with row it Some l show ?thesis by (simp add: levels_of_def)
    qed
  qed
qed

text \<open>
  A committed batch moves every named product by exactly the requested units, and nothing else.
\<close>

lemma applyBulkChange_effect:
  assumes ok: "inventory_ok db" and valid: "valid_bulk input"
    and run: "applyBulkChange flt now mtype action input plan key db = (Inr views, db')"
  shows "levels_of db' p = map_option (\<lambda>(q, r).
           (q + dq * requested_units (bulk_items input) p, r + dr * requested_units (bulk_items input) p))
           (levels_of db p)"
proof -
  let ?ids = "map line_productId (bulk_items input)"
  let ?m = "by_product (filter (\<lambda>r. productId r \<in> set ?ids) (inventory_items db))"
  let ?pl = "bulk_planner mtype action input plan"
  obtain updated where run': "applyBulkStockChange flt now ?ids ?pl key db = (Inr updated, db')"
    using run by (auto simp: applyBulkChange_def and_then_Inr_iff)
  have dist: "\<And>m plans. ?pl m = Inr plans \<Longrightarrow> distinct (map plan_productId plans)"
    using valid by (simp add: bulk_planner_ids valid_bulk_def)
  show ?thesis
  proof (rule applyBulkStockChange_commit [OF ok run' refl dist])
    fix db1 plans and ts :: "(BulkStockChangePlan \<times> InventoryItem) list"
    assume claim: "claim_message now key db = (Inr (), db1)" and plans: "?pl ?m = Inr plans"
      and ts: "map fst ts = plans" and found: "\<forall>t \<in> set ts. ?m (plan_productId (fst t)) = Some (snd t)"
      and pres: "targets_present (sort_key (\<lambda>t. item_id (snd t)) ts) db1"
      and db': "db' = fold (move_one now) (sort_key (\<lambda>t. item_id (snd t)) ts) db1"
    have "inventory_items db1 = inventory_items db"
      using claim_message_ok [OF ok claim] by simp
    then show ?thesis
      unfolding db'
      using committed_levels [OF ok valid refl _ _ found] bulk_planner_Inr [OF plans]
        bulk_planner_ids [OF plans] ts pres by (simp add: targets_present_def)
  qed
qed

lemma bulk_planner_served:
  assumes "bulk_planner mtype action input plan m = Inr ps" and "l \<in> set (bulk_items input)"
  shows "line_ok m l"
  using list_all2_mem1 [OF bulk_planner_Inr [OF assms(1)] assms(2)] by (auto simp: line_planned_def line_ok_def)

text \<open>A batch that throws leaves the tables as they were.\<close>

lemma applyBulkChange_Inl_unchanged:
  "applyBulkChange flt now mtype action input plan key db = (Inl e, db') \<Longrightarrow> db' = db"
  by (auto simp: applyBulkChange_def applyBulkStockChange_def and_then_Inl_iff
      dest: transaction_Inl_unchanged)

end

interpretation reserve_p: ledger_planner planReservation 0 1 RESERVATION
  by unfold_locales simp

interpretation release_p: ledger_planner planRelease 0 "-1" RELEASE
  by unfold_locales simp

interpretation fulfil_p: ledger_planner planFulfilment "-1" "-1" OUTBOUND
  by unfold_locales simp

interpretation sell_p: ledger_planner planSale "-1" 0 OUTBOUND
  by unfold_locales simp

interpretation receive_p: ledger_planner planReceipt 1 0 INBOUND
  by unfold_locales simp

interpretation return_p: ledger_planner planReceipt 1 0 RETURN
  by unfold_locales simp

section \<open>Every operation keeps the invariant\<close>

lemma keeps_find [keeps_intros]:
  "keeps P (findById f i)" "keeps P (findBySku f s)" "keeps P (findByProductId f q)"
  by (auto simp: findById_def findBySku_def findByProductId_def intro!: keeps_intros)

lemma keeps_getById [keeps_intros]: "keeps P (getById f i)"
  unfolding getById_def by (intro keeps_intros)

lemma keeps_getBySku [keeps_intros]: "keeps P (getBySku f i)"
  unfolding getBySku_def by (intro keeps_intros)

lemma service_create_keeps:
  "0 \<le> new_quantity input \<Longrightarrow> keeps inventory_ok (service_create flt uuid now input)"
  unfolding service_create_def by (intro keeps_intros repo_create_keeps)

lemma service_update_keeps: "keeps inventory_ok (service_update flt now i input actor)"
  unfolding service_update_def
  by (intro keeps_intros repo_update_keeps)
    (auto simp: validate_patch_def stock_ok_def split: option.splits)

lemma service_remove_keeps: "keeps inventory_ok (service_remove flt i)"
  unfolding service_remove_def by (intro keeps_intros repo_delete_keeps)

lemma planned_adjust_sound:
  assumes "d \<noteq> 0" and "planned_change ADJUSTMENT \<bar>d\<bar> meta (\<lambda>it. planAdjustment it d) it = Inr nxt"
  shows "plan_sound it nxt"
  using assms planAdjustment_effect [of it d]
  by (auto simp: planned_change_def checked_Inr_iff plan_sound_def stock_ok_def signed_change_def split: sum.splits)

lemma adjust_keeps: "d \<noteq> 0 \<Longrightarrow> keeps inventory_ok (adjust flt now i d meta)"
  unfolding adjust_def applyChange_def
  by (intro keeps_intros applyStockChange_keeps) (rule planned_adjust_sound)

lemmas transition_keeps =
  reserve_p.applyChange_keeps [folded reserve_def] release_p.applyChange_keeps [folded release_def]
  fulfil_p.applyChange_keeps [folded fulfil_def] sell_p.applyChange_keeps [folded sell_def]
  receive_p.applyChange_keeps [folded receive_def] return_p.applyChange_keeps [folded acceptReturn_def]
  adjust_keeps

lemmas bulk_keeps =
  reserve_p.applyBulkChange_keeps [of _ _ _ "''reserved''" None, folded reserveMany_def]
  release_p.applyBulkChange_keeps [of _ _ _ "''released''", folded releaseMany_def]

lemmas handler_keeps = keeps_validated keeps_respond keeps_transition

lemma handle_request_keeps: "keeps inventory_ok (handle_request is_uuid flt uuid now req)"
proof (cases req)
  case (PostItem b)
  then show ?thesis
    by (auto intro!: handler_keeps intro: service_create_keeps create_schema_quantity)
next
  case (DeleteItem i)
  then show ?thesis
    by (simp, intro keeps_validated keeps_and_then service_remove_keeps keeps_basic)
next
  case (PostAdjust i b)
  then show ?thesis
    by (auto intro!: handler_keeps adjust_keeps dest: adjust_schema_nonzero)
next
  case (PostBulkReserve b)
  then show ?thesis
    by (simp, intro keeps_validated keeps_and_then keeps_basic bulk_keeps) (rule bulk_schema_valid)
next
  case (PostBulkRelease b)
  then show ?thesis
    by (simp, intro keeps_validated keeps_and_then keeps_basic bulk_keeps) (rule bulk_schema_valid)
qed (simp_all, (auto intro!: handler_keeps keeps_getById keeps_getBySku service_update_keeps
       intro: transition_keeps reserve_schema_positive sell_schema_positive [THEN conjunct1])+)

lemma consumer_handle_keeps: "keeps inventory_ok (consumer_handle is_uuid is_datetime flt now content)"
proof (cases "consumer_parse is_uuid is_datetime content")
  case None
  then show ?thesis by (simp add: consumer_handle_def keeps_basic)
next
  case (Some event)
  then have "keeps inventory_ok (consumer_release flt now event)"
    by (intro keeps_consumer_release bulk_keeps consumer_parse_valid)
  with Some show ?thesis
    by (cases "event_type event") (simp_all add: consumer_handle_def keeps_basic)
qed

section \<open>Reachable states\<close>

text \<open>
  The service's transitions: any request and any broker delivery, with any body, any clock, any
  generated id and any verdict of the database, applied to the tables the one before left.
\<close>

inductive inventory_reachable :: "(string \<Rightarrow> bool) \<Rightarrow> inventory_db \<Rightarrow> bool"
  for is_uuid where
  fresh: "inventory_reachable is_uuid empty_inventory_db"
| request: "inventory_reachable is_uuid db \<Longrightarrow>
     inventory_reachable is_uuid (snd (handle_request is_uuid flt uuid now req db))"
| delivery: "inventory_reachable is_uuid db \<Longrightarrow>
     inventory_reachable is_uuid (snd (consumer_handle is_uuid is_datetime flt now content db))"

lemma reachable_inventory_ok: "inventory_reachable is_uuid db \<Longrightarrow> inventory_ok db"
proof (induction rule: inventory_reachable.induct)
  case fresh
  show ?case by (rule inventory_ok_empty)
next
  case (request db flt uuid now req)
  then show ?case by (blast intro: keepsD handle_request_keeps)
next
  case (delivery db is_datetime flt now content)
  then show ?case by (blast intro: keepsD consumer_handle_keeps)
qed

text \<open>A state the service reaches: one item of ten units, created through the API.\<close>

definition sample_stock :: inventory_db where
  "sample_stock = snd (handle_request (\<lambda>_. True) (\<lambda>_. None) ''i1'' 5
     (PostItem (JObject [(''sku'', JString ''abc''), (''productId'', JString ''p1''), (''quantity'', JInt 10)]))
     empty_inventory_db)"

definition sample_item :: InventoryItem where
  "sample_item = \<lparr>quantity = 10, reserved = 0, reorderLevel = 0, item_id = ''i1'', sku = ''ABC'',
     productId = ''p1'', warehouse = ''default'', createdAt = 5, updatedAt = 5\<rparr>"

lemma sample_reachable: "inventory_reachable (\<lambda>_. True) sample_stock"
  unfolding sample_stock_def by (intro inventory_reachable.intros)

lemma sample_stock_eq:
  "sample_stock = \<lparr>inventory_items = [sample_item],
     stock_movement_histories = [\<lparr>mv_itemId = ''i1'', mv_type = INBOUND, quantityChanged = 10,
       lastQuantity = 0, mv_reason = Some ''Initial stock'', mv_reference = None, mv_createdAt = 5\<rparr>],
     inventory_audit_logs = [], processed_messages = []\<rparr>"
  by code_simp

text \<open>
  Property C1. Whatever requests arrive, in whatever order, with whatever bodies and database
  failures, no item is ever oversold: on every row \<open>0 <= reserved <= quantity\<close>, and there is at most
  one stock record per product and per SKU.
\<close>

theorem never_oversold:
  assumes "inventory_reachable is_uuid db" and "it \<in> set (inventory_items db)"
  shows "0 \<le> reserved it \<and> reserved it \<le> quantity it \<and> 0 \<le> availableStock it \<and>
         (\<forall>other \<in> set (inventory_items db).
            productId other = productId it \<or> sku other = sku it \<longrightarrow> other = it)"
proof -
  note ok = reachable_inventory_ok [OF assms(1)]
  have "stock_ok it" using inventory_okD(4) [OF ok assms(2)] .
  moreover have "\<forall>other \<in> set (inventory_items db).
      productId other = productId it \<or> sku other = sku it \<longrightarrow> other = it"
    using inventory_okD(2,3) [OF ok] assms(2) by (auto simp: distinct_map dest: inj_onD)
  ultimately show ?thesis by (simp add: stock_ok_def availableStock_def)
qed

theorem never_oversold_witness:
  "sample_item \<in> set (inventory_items sample_stock) \<and> 0 \<le> availableStock sample_item"
proof
  show mem: "sample_item \<in> set (inventory_items sample_stock)" by (simp add: sample_stock_eq)
  show "0 \<le> availableStock sample_item"
    using never_oversold [OF sample_reachable mem] by blast
qed

text \<open>The same item after a signed correction of \<open>d\<close> units.\<close>

definition sample_adjusted :: "int \<Rightarrow> inventory_db" where
  "sample_adjusted d = snd (handle_request (\<lambda>_. True) (\<lambda>_. None) ''u'' 9
     (PostAdjust ''i1'' (JObject [(''delta'', JInt d), (''reason'', JString ''count'')])) sample_stock)"

lemma sample_adjusted_reachable: "inventory_reachable (\<lambda>_. True) (sample_adjusted d)"
  unfolding sample_adjusted_def by (intro inventory_reachable.request sample_reachable)

lemma sample_adjusted_eq:
  "inventory_items (sample_adjusted (- 4)) = [sample_item\<lparr>quantity := 6, updatedAt := 9\<rparr>]"
  "item_ledger (sample_adjusted (- 4)) ''i1'' =
     [\<lparr>mv_itemId = ''i1'', mv_type = INBOUND, quantityChanged = 10, lastQuantity = 0,
        mv_reason = Some ''Initial stock'', mv_reference = None, mv_createdAt = 5\<rparr>,
      \<lparr>mv_itemId = ''i1'', mv_type = ADJUSTMENT, quantityChanged = 4, lastQuantity = 10,
        mv_reason = Some ''count'', mv_reference = None, mv_createdAt = 9\<rparr>]"
  by code_simp+

text \<open>
  The row an adjustment writes does not say which way it went: a correction by \<open>+4\<close> and one by
  \<open>-4\<close> leave the very same table behind, although the schema's comment has the type carry the
  direction. Only the level recorded after the row tells them apart.
\<close>

lemma adjustment_direction_lost:
  "stock_movement_histories (sample_adjusted 4) = stock_movement_histories (sample_adjusted (- 4)) \<and>
   map quantity (inventory_items (sample_adjusted 4)) = [14] \<and>
   map quantity (inventory_items (sample_adjusted (- 4))) = [6]"
  by code_simp

text \<open>
  Property C3. The movement ledger reconciles with on-hand stock. In every reachable state, replaying
  an item's rows from zero gives its current quantity, and each row's \<open>lastQuantity\<close> is the sum
  of the changes before it. Every row counts with one signed change: its amount, which is
  positive, in the direction of its type; only an \<open>ADJUSTMENT\<close>, whose row does not store its
  direction, takes it from the level recorded after it (by the next row, or by the item). For an
  item that was never adjusted the stored types and amounts alone add up to the quantity.
\<close>

theorem ledger_reconciles:
  assumes "inventory_reachable is_uuid db" and "it \<in> set (inventory_items db)"
    and "rows = item_ledger db (item_id it)"
  shows "ledger_ok 0 rows (quantity it) \<and>
         quantity it = sum_list (ledger_changes rows (quantity it)) \<and>
         (\<forall>k < length rows.
            lastQuantity (rows ! k) = sum_list (take k (ledger_changes rows (quantity it)))) \<and>
         ((\<forall>m \<in> set rows. mv_type m \<noteq> ADJUSTMENT) \<longrightarrow>
            (\<exists>ds. map (\<lambda>m. typed_change (mv_type m) (quantityChanged m)) rows = map Some ds \<and>
                  quantity it = sum_list ds)) \<and>
         list_all (\<lambda>m. 0 < quantityChanged m) (stock_movement_histories db)"
proof -
  note inv = reachable_inventory_ok [OF assms(1)]
  have led: "ledger_ok 0 rows (quantity it)"
    using inventory_okD(5) [OF inv assms(2)] assms(3) by simp
  have sum: "quantity it = sum_list (ledger_changes rows (quantity it))"
    using ledger_ok_sum [OF led] by simp
  moreover have "\<forall>k < length rows.
      lastQuantity (rows ! k) = sum_list (take k (ledger_changes rows (quantity it)))"
    using ledger_ok_levels [OF led] by simp
  moreover have "\<exists>ds. map (\<lambda>m. typed_change (mv_type m) (quantityChanged m)) rows = map Some ds \<and>
      quantity it = sum_list ds" if "\<forall>m \<in> set rows. mv_type m \<noteq> ADJUSTMENT"
    using ledger_changes_typed [OF that] sum by metis
  moreover have "list_all (\<lambda>m. 0 < quantityChanged m) (stock_movement_histories db)"
    using inv by (simp add: inventory_ok_def list_all_iff)
  ultimately show ?thesis using led by blast
qed

theorem ledger_reconciles_witness:
  "ledger_changes (item_ledger (sample_adjusted (- 4)) ''i1'') 6 = [10, - 4] \<and>
   (6::int) = sum_list (ledger_changes (item_ledger (sample_adjusted (- 4)) ''i1'') 6)"
proof
  show "ledger_changes (item_ledger (sample_adjusted (- 4)) ''i1'') 6 = [10, - 4]"
    by (simp add: sample_adjusted_eq row_change_def signed_change_def recorded_after_def)
  have mem: "sample_item\<lparr>quantity := 6, updatedAt := 9\<rparr> \<in> set (inventory_items (sample_adjusted (- 4)))"
    by (simp add: sample_adjusted_eq)
  show "(6::int) = sum_list (ledger_changes (item_ledger (sample_adjusted (- 4)) ''i1'') 6)"
    using ledger_reconciles [OF sample_adjusted_reachable mem refl] by (simp add: sample_item_def)
qed

end
