(* ===== verification/InventoryProperties.thy ===== *)
theory InventoryProperties
  imports InventoryInvariant
begin

text \<open>
  The functional properties of the inventory service: atomicity and exact effect of bulk
  transitions, their error reports, undoing a reservation, at-most-once application of an
  identified release, and the audit trail of a patch.
\<close>

section \<open>Bulk transitions succeed exactly when every line can be served\<close>

context ledger_planner
begin

lemma bulk_planner_total:
  assumes "list_all (line_ok m) (bulk_items input)"
  shows "\<exists>ps. bulk_planner mtype action input plan m = Inr ps"
proof -
  obtain ps fs where "plan_lines mtype input plan m (bulk_items input) = Inr (ps, fs)"
    "map detail_productId fs = map (\<lambda>l. Some (line_productId l)) (filter (\<lambda>l. \<not> line_ok m l) (bulk_items input))"
    using plan_lines_exact by blast
  moreover have "filter (\<lambda>l. \<not> line_ok m l) (bulk_items input) = []"
    using assms by (auto simp: filter_empty_conv list_all_iff)
  ultimately show ?thesis by (simp add: bulk_planner_def)
qed

lemma applyBulkChange_total:
  assumes ok: "inventory_ok db" and valid: "valid_bulk input"
    and claim: "claim_message now key db = (Inr (), db1)"
    and served: "list_all (line_ok (\<lambda>p. find_row productId p (inventory_items db))) (bulk_items input)"
  shows "\<exists>views db'. applyBulkChange None now mtype action input plan key db = (Inr views, db')"
proof -
  let ?ids = "map line_productId (bulk_items input)"
  let ?m = "by_product (filter (\<lambda>r. productId r \<in> set ?ids) (inventory_items db))"
  have m: "?m p = find_row productId p (inventory_items db)" if "p \<in> set ?ids" for p
    using that unfolding by_product_filter [OF inventory_okD(3) [OF ok]] by simp
  have served': "list_all (line_ok ?m) (bulk_items input)"
    using served m by (simp add: list_all_iff line_ok_def)
  then obtain ps where ps: "bulk_planner mtype action input plan ?m = Inr ps"
    using bulk_planner_total by blast
  have "distinct (map plan_productId ps)"
    using valid bulk_planner_ids [OF ps] by (simp add: valid_bulk_def)
  moreover have "list_all (\<lambda>p. ?m (plan_productId p) \<noteq> None) ps"
    unfolding list_all_iff
  proof
    fix p assume "p \<in> set ps"
    then obtain l where "line_planned input ?m l p" using list_all2_mem2 [OF bulk_planner_Inr [OF ps]] by blast
    then show "?m (plan_productId p) \<noteq> None"
      by (auto simp: line_planned_def line_plan_def)
  qed
  ultimately obtain updated db' where
    "applyBulkStockChange None now ?ids (bulk_planner mtype action input plan) key db = (Inr updated, db')"
    using applyBulkStockChange_total [where plan = "bulk_planner mtype action input plan", OF ok claim refl ps] by blast
  then show ?thesis by (auto simp: applyBulkChange_def and_then_step)
qed

lemma applyBulkChange_served:
  assumes ok: "inventory_ok db" and run: "applyBulkChange flt now mtype action input plan key db = (Inr views, db')"
    and valid: "valid_bulk input" and l: "l \<in> set (bulk_items input)"
  shows "line_ok (\<lambda>p. find_row productId p (inventory_items db)) l"
proof -
  let ?ids = "map line_productId (bulk_items input)"
  let ?m = "by_product (filter (\<lambda>r. productId r \<in> set ?ids) (inventory_items db))"
  obtain updated where bulk: "applyBulkStockChange flt now ?ids (bulk_planner mtype action input plan) key db = (Inr updated, db')"
    using run by (auto simp: applyBulkChange_def and_then_Inr_iff)
  have dist: "\<And>plans. bulk_planner mtype action input plan ?m = Inr plans \<Longrightarrow> distinct (map plan_productId plans)"
    using valid by (simp add: bulk_planner_ids valid_bulk_def)
  obtain ps where "bulk_planner mtype action input plan ?m = Inr ps"
    by (rule applyBulkStockChange_commit [OF ok bulk refl dist]) auto
  then have "line_ok ?m l" using bulk_planner_served l by blast
  then show ?thesis
    unfolding line_ok_def by_product_filter [OF inventory_okD(3) [OF ok]] by (auto split: if_splits)
qed

lemma bulk_planner_failures:
  assumes "\<not> list_all (line_ok m) (bulk_items input)"
  shows "\<exists>msg fs. bulk_planner mtype action input plan m = Inl (ThrownApp (ConflictError msg (Some fs))) \<and>
           map detail_productId fs =
             map (\<lambda>l. Some (line_productId l)) (filter (\<lambda>l. \<not> line_ok m l) (bulk_items input))"
proof -
  obtain ps fs where run: "plan_lines mtype input plan m (bulk_items input) = Inr (ps, fs)"
    and fs: "map detail_productId fs = map (\<lambda>l. Some (line_productId l)) (filter (\<lambda>l. \<not> line_ok m l) (bulk_items input))"
    using plan_lines_exact by blast
  have "fs \<noteq> []"
    using assms fs by (auto simp: list_all_iff filter_empty_conv)
  then show ?thesis
    using run fs by (auto simp: bulk_planner_def)
qed

lemma applyBulkChange_refused:
  assumes ok: "inventory_ok db" and claim: "claim_message now key db = (Inr (), db1)"
    and unserved: "\<not> list_all (line_ok (\<lambda>p. find_row productId p (inventory_items db))) (bulk_items input)"
  shows "\<exists>msg fs. applyBulkChange None now mtype action input plan key db =
             (Inl (ThrownApp (ConflictError msg (Some fs))), db) \<and>
           map detail_productId fs = map (\<lambda>l. Some (line_productId l))
             (filter (\<lambda>l. \<not> line_ok (\<lambda>p. find_row productId p (inventory_items db)) l) (bulk_items input))"
proof -
  let ?ids = "map line_productId (bulk_items input)"
  let ?m = "by_product (filter (\<lambda>r. productId r \<in> set ?ids) (inventory_items db))"
  have items: "inventory_items db1 = inventory_items db"
    using claim_message_ok [OF ok claim] by simp
  have same: "line_ok ?m l = line_ok (\<lambda>p. find_row productId p (inventory_items db)) l"
    if "l \<in> set (bulk_items input)" for l
    using that unfolding line_ok_def by_product_filter [OF inventory_okD(3) [OF ok]] by auto
  then have "\<not> list_all (line_ok ?m) (bulk_items input)"
    using unserved by (auto simp: list_all_iff)
  then obtain msg fs where planner: "bulk_planner mtype action input plan ?m = Inl (ThrownApp (ConflictError msg (Some fs)))"
    and fs: "map detail_productId fs =
      map (\<lambda>l. Some (line_productId l)) (filter (\<lambda>l. \<not> line_ok ?m l) (bulk_items input))"
    using bulk_planner_failures by blast
  have "filter (\<lambda>l. \<not> line_ok ?m l) (bulk_items input) =
      filter (\<lambda>l. \<not> line_ok (\<lambda>p. find_row productId p (inventory_items db)) l) (bulk_items input)"
    using same by (intro filter_cong) auto
  moreover have "applyBulkStockChange None now ?ids (bulk_planner mtype action input plan) key db =
      (Inl (ThrownApp (ConflictError msg (Some fs))), db)"
    unfolding applyBulkStockChange_def
    by (rule transaction_body_throws, rule trans [OF and_then_step(1) [where m = "claim_message now key", OF claim]])
      (simp only: and_then_simps Let_def items planner)
  ultimately show ?thesis
    using fs by (auto simp: applyBulkChange_def and_then_step)
qed

end

section \<open>Reserving and releasing several lines\<close>

text \<open>Which lines of a request the current stock can serve.\<close>

definition can_reserve :: "inventory_db \<Rightarrow> StockLine \<Rightarrow> bool" where
  "can_reserve db l = (case find_row productId (line_productId l) (inventory_items db) of
     None \<Rightarrow> False | Some it \<Rightarrow> line_quantity l \<le> availableStock it)"

definition can_release :: "inventory_db \<Rightarrow> StockLine \<Rightarrow> bool" where
  "can_release db l = (case find_row productId (line_productId l) (inventory_items db) of
     None \<Rightarrow> False | Some it \<Rightarrow> line_quantity l \<le> reserved it)"

lemma row_stock_ok:
  "inventory_ok db \<Longrightarrow> find_row productId p (inventory_items db) = Some it \<Longrightarrow> stock_ok it"
  by (rule inventory_okD(4)) (auto dest: find_row_SomeD)

lemma row_by_id_ok:
  "inventory_ok db \<Longrightarrow> find_row item_id i (inventory_items db) = Some it \<Longrightarrow> stock_ok it"
  by (rule inventory_okD(4)) (auto dest: find_row_SomeD)

lemma reserve_line_ok:
  assumes "inventory_ok db" and "0 < line_quantity l"
  shows "reserve_p.line_ok (\<lambda>p. find_row productId p (inventory_items db)) l = can_reserve db l"
  using assms row_stock_ok [OF assms(1), of "line_productId l"]
  by (cases "find_row productId (line_productId l) (inventory_items db)")
    (simp_all add: reserve_p.line_ok_def can_reserve_def planReservation_def stock_ok_def
      availableStock_def Let_def)

lemma release_line_ok:
  assumes "inventory_ok db" and "0 < line_quantity l"
  shows "release_p.line_ok (\<lambda>p. find_row productId p (inventory_items db)) l = can_release db l"
  using assms row_stock_ok [OF assms(1), of "line_productId l"]
  by (cases "find_row productId (line_productId l) (inventory_items db)")
    (simp_all add: release_p.line_ok_def can_release_def planRelease_def stock_ok_def)

lemma valid_bulk_positive: "valid_bulk input \<Longrightarrow> l \<in> set (bulk_items input) \<Longrightarrow> 0 < line_quantity l"
  by (simp add: valid_bulk_def list_all_iff)

lemma reserve_lines_ok:
  assumes "inventory_ok db" and "valid_bulk input"
  shows "list_all (reserve_p.line_ok (\<lambda>p. find_row productId p (inventory_items db))) (bulk_items input) =
           list_all (can_reserve db) (bulk_items input)"
    and "filter (\<lambda>l. \<not> reserve_p.line_ok (\<lambda>p. find_row productId p (inventory_items db)) l) (bulk_items input) =
           filter (\<lambda>l. \<not> can_reserve db l) (bulk_items input)"
  using reserve_line_ok [OF assms(1) valid_bulk_positive [OF assms(2)]]
  by (auto simp: list_all_iff intro: filter_cong)

lemma release_lines_ok:
  assumes "inventory_ok db" and "valid_bulk input"
  shows "list_all (release_p.line_ok (\<lambda>p. find_row productId p (inventory_items db))) (bulk_items input) =
           list_all (can_release db) (bulk_items input)"
    and "filter (\<lambda>l. \<not> release_p.line_ok (\<lambda>p. find_row productId p (inventory_items db)) l) (bulk_items input) =
           filter (\<lambda>l. \<not> can_release db l) (bulk_items input)"
  using release_line_ok [OF assms(1) valid_bulk_positive [OF assms(2)]]
  by (auto simp: list_all_iff intro: filter_cong)

lemma claim_nothing: "claim_message now None db = (Inr (), db)"
  by (simp add: claim_message_def)

definition moved_by :: "int \<Rightarrow> StockLine list \<Rightarrow> string \<Rightarrow> (int \<times> int) option \<Rightarrow> (int \<times> int) option" where
  "moved_by sign ls p lv = map_option (\<lambda>(q, r). (q, r + sign * requested_units ls p)) lv"

lemma moved_by_back [simp]: "moved_by (- 1) ls p (moved_by 1 ls p lv) = lv"
  by (cases lv) (auto simp: moved_by_def)

lemma reserveMany_effect:
  assumes "inventory_ok db" and "valid_bulk input" and "reserveMany flt now input db = (Inr views, db')"
  shows "levels_of db' p = moved_by 1 (bulk_items input) p (levels_of db p)"
  using reserve_p.applyBulkChange_effect [OF assms(1,2) assms(3) [unfolded reserveMany_def], of p]
  by (simp add: moved_by_def)

lemma releaseMany_effect:
  assumes "inventory_ok db" and "valid_bulk input" and "releaseMany flt now input key db = (Inr views, db')"
  shows "levels_of db' p = moved_by (- 1) (bulk_items input) p (levels_of db p)"
  using release_p.applyBulkChange_effect [OF assms(1,2) assms(3) [unfolded releaseMany_def], of p]
  by (simp add: moved_by_def)

lemma reserveMany_total:
  assumes "inventory_ok db" and "valid_bulk input" and "list_all (can_reserve db) (bulk_items input)"
  shows "\<exists>views db'. reserveMany None now input db = (Inr views, db')"
  unfolding reserveMany_def
  by (rule reserve_p.applyBulkChange_total [OF assms(1,2) claim_nothing])
    (simp add: reserve_lines_ok [OF assms(1,2)] assms(3))

lemma releaseMany_total:
  assumes "inventory_ok db" and "valid_bulk input" and "claim_message now key db = (Inr (), db1)"
    and "list_all (can_release db) (bulk_items input)"
  shows "\<exists>views db'. releaseMany None now input key db = (Inr views, db')"
  unfolding releaseMany_def
  by (rule release_p.applyBulkChange_total [OF assms(1-3)])
    (simp add: release_lines_ok [OF assms(1,2)] assms(4))

lemma reserveMany_keeps_ok:
  "inventory_ok db \<Longrightarrow> valid_bulk input \<Longrightarrow> reserveMany flt now input db = (r, db') \<Longrightarrow> inventory_ok db'"
  using keepsD [OF bulk_keeps(1)] by (metis snd_conv)

text \<open>Requests for four of the ten units of the sample item, and for more than there are.\<close>

definition sample_lines :: "int \<Rightarrow> BulkStockInput" where
  "sample_lines n = \<lparr>bulk_items = [\<lparr>line_productId = ''p1'', line_quantity = n\<rparr>],
     bulk_reason = None, bulk_reference = ''cart-1''\<rparr>"

lemma sample_lines_valid: "0 < n \<Longrightarrow> valid_bulk (sample_lines n)"
  by (simp add: valid_bulk_def sample_lines_def MAX_BULK_LINES_def)

text \<open>
  Property C2. Reserving several lines is all or nothing: when every line is backed by available
  stock the request commits and raises each product's reserved count by exactly the units asked
  for, touching no other product; otherwise nothing changes and the conflict names exactly the
  lines that could not be served, in the order of the request.
\<close>

theorem reserveMany_all_or_nothing:
  assumes "inventory_reachable is_uuid db" and "valid_bulk input"
  shows "if list_all (can_reserve db) (bulk_items input)
    then \<exists>views db'. reserveMany None now input db = (Inr views, db') \<and>
           (\<forall>p. levels_of db' p = moved_by 1 (bulk_items input) p (levels_of db p))
    else \<exists>msg fs. reserveMany None now input db = (Inl (ThrownApp (ConflictError msg (Some fs))), db) \<and>
           map detail_productId fs =
             map (\<lambda>l. Some (line_productId l)) (filter (\<lambda>l. \<not> can_reserve db l) (bulk_items input))"
proof -
  note ok = reachable_inventory_ok [OF assms(1)]
  show ?thesis
  proof (cases "list_all (can_reserve db) (bulk_items input)")
    case True
    then obtain views db' where "reserveMany None now input db = (Inr views, db')"
      using reserveMany_total [OF ok assms(2)] by blast
    with True reserveMany_effect [OF ok assms(2)] show ?thesis by auto
  next
    case False
    then show ?thesis
      using reserve_p.applyBulkChange_refused [OF ok claim_nothing, of input now "''reserved''"]
      by (simp add: reserve_lines_ok [OF ok assms(2)] reserveMany_def)
  qed
qed

theorem reserveMany_all_or_nothing_witness:
  "(\<exists>views db'. reserveMany None 7 (sample_lines 4) sample_stock = (Inr views, db') \<and>
      levels_of db' ''p1'' = Some (10, 4)) \<and>
   (\<exists>e. reserveMany None 7 (sample_lines 11) sample_stock = (Inl e, sample_stock))"
proof
  have can: "list_all (can_reserve sample_stock) (bulk_items (sample_lines 4))"
    and cannot: "\<not> list_all (can_reserve sample_stock) (bulk_items (sample_lines 11))"
    and lv: "levels_of sample_stock ''p1'' = Some (10, 0)"
    and units: "requested_units (bulk_items (sample_lines 4)) ''p1'' = 4"
    by code_simp+
  show "\<exists>views db'. reserveMany None 7 (sample_lines 4) sample_stock = (Inr views, db') \<and>
      levels_of db' ''p1'' = Some (10, 4)"
    using reserveMany_all_or_nothing [OF sample_reachable sample_lines_valid [of 4], of 7] can lv units
    by (auto simp: moved_by_def)
  show "\<exists>e. reserveMany None 7 (sample_lines 11) sample_stock = (Inl e, sample_stock)"
    using reserveMany_all_or_nothing [OF sample_reachable sample_lines_valid [of 11], of 7] cannot
    by auto
qed


lemma reserved_line_releasable:
  assumes ok: "inventory_ok db" and valid: "valid_bulk input"
    and run: "reserveMany flt now input db = (Inr views, db1)" and l: "l \<in> set (bulk_items input)"
  shows "can_release db1 l"
proof -
  have "reserve_p.line_ok (\<lambda>p. find_row productId p (inventory_items db)) l"
    using reserve_p.applyBulkChange_served [OF ok _ valid l] run unfolding reserveMany_def by blast
  then obtain it where it: "find_row productId (line_productId l) (inventory_items db) = Some it"
    by (auto simp: reserve_p.line_ok_def)
  have "requested_units (bulk_items input) (line_productId l) = line_quantity l"
    using valid l by (simp add: requested_units_mem valid_bulk_def)
  then have "levels_of db1 (line_productId l) = Some (quantity it, reserved it + line_quantity l)"
    using reserveMany_effect [OF ok valid run] it by (simp add: levels_of_def moved_by_def)
  then show ?thesis
    using row_stock_ok [OF ok it] by (auto simp: levels_of_def can_release_def stock_ok_def)
qed

text \<open>
  Property C6. What a bulk reservation took, a bulk release of the same lines gives back: the
  release of a committed reservation always succeeds, and afterwards every product has the levels
  it had before.
\<close>

theorem reserveMany_then_releaseMany:
  assumes reach: "inventory_reachable is_uuid db" and valid: "valid_bulk input"
    and run: "reserveMany flt now input db = (Inr views, db1)"
    and same: "bulk_items input' = bulk_items input"
  shows "\<exists>views' db2. releaseMany None now' input' None db1 = (Inr views', db2) \<and>
           (\<forall>p. levels_of db2 p = levels_of db p)"
proof -
  note ok = reachable_inventory_ok [OF reach]
  have ok1: "inventory_ok db1" by (rule reserveMany_keeps_ok [OF ok valid run])
  have valid': "valid_bulk input'" using valid same by (simp add: valid_bulk_def)
  have "can_release db1 l" if "l \<in> set (bulk_items input)" for l
    by (rule reserved_line_releasable [OF ok valid run that])
  then have "list_all (can_release db1) (bulk_items input')"
    by (simp add: same list_all_iff)
  then obtain views' db2 where run': "releaseMany None now' input' None db1 = (Inr views', db2)"
    using releaseMany_total [OF ok1 valid' claim_nothing] by blast
  then show ?thesis
    using releaseMany_effect [OF ok1 valid' run'] reserveMany_effect [OF ok valid run] same by simp
qed

theorem reserveMany_then_releaseMany_witness:
  "\<exists>views db2. releaseMany None 9 (sample_lines 4) None (snd (reserveMany None 7 (sample_lines 4) sample_stock)) =
     (Inr views, db2) \<and> levels_of db2 ''p1'' = Some (10, 0)"
proof -
  have "\<not> isl (fst (reserveMany None 7 (sample_lines 4) sample_stock))" by code_simp
  then obtain views where run: "reserveMany None 7 (sample_lines 4) sample_stock =
      (Inr views, snd (reserveMany None 7 (sample_lines 4) sample_stock))"
    by (rule Inr_result)
  moreover have "levels_of sample_stock ''p1'' = Some (10, 0)" by code_simp
  ultimately show ?thesis
    using reserveMany_then_releaseMany [OF sample_reachable sample_lines_valid run refl, of 9] by auto
qed

section \<open>Deliveries from the broker\<close>

definition processed :: "inventory_db \<Rightarrow> string \<Rightarrow> bool" where
  "processed db mid \<longleftrightarrow> mid \<in> set (map pm_messageId (processed_messages db))"

text \<open>What the database may answer instead of committing: never one of this service's own errors.\<close>

definition database_verdict :: "thrown option \<Rightarrow> bool" where
  "database_verdict flt = (case flt of None \<Rightarrow> True | Some e \<Rightarrow> \<not> isAppError e)"

lemma releaseMany_remembers:
  assumes ok: "inventory_ok db" and valid: "valid_bulk input"
    and run: "releaseMany flt now input (Some k) db = (Inr views, db')"
  shows "processed db' (key_messageId k)"
proof -
  let ?ids = "map line_productId (bulk_items input)"
  let ?pl = "bulk_planner RELEASE ''released'' input planRelease"
  obtain updated where bulk: "applyBulkStockChange flt now ?ids ?pl (Some k) db = (Inr updated, db')"
    using run by (auto simp: releaseMany_def applyBulkChange_def and_then_Inr_iff)
  have dist: "\<And>m plans. ?pl m = Inr plans \<Longrightarrow> distinct (map plan_productId plans)"
    using valid by (simp add: release_p.bulk_planner_ids valid_bulk_def)
  show ?thesis
  proof (rule applyBulkStockChange_commit [OF ok bulk refl dist])
    fix db1 and ts :: "(BulkStockChangePlan \<times> InventoryItem) list"
    assume "claim_message now (Some k) db = (Inr (), db1)"
      and "db' = fold (move_one now) (sort_key (\<lambda>t. item_id (snd t)) ts) db1"
    then show ?thesis by (simp add: processed_def fold_move_one_frame claim_message_Inr)
  qed
qed

lemma releaseMany_processed:
  "processed db (key_messageId k) \<Longrightarrow>
     releaseMany None now input (Some k) db =
       (Inl (ThrownApp (DuplicateOperationError (key_messageId k))), db)"
  by (simp add: releaseMany_def applyBulkChange_def processed_def and_then_def applyBulkStockChange_duplicate)

lemma releaseMany_refused:
  assumes "inventory_ok db" and "valid_bulk input" and "claim_message now key db = (Inr (), db1)"
    and "\<not> list_all (can_release db) (bulk_items input)"
  shows "\<exists>msg fs. releaseMany None now input key db = (Inl (ThrownApp (ConflictError msg (Some fs))), db) \<and>
           map detail_productId fs =
             map (\<lambda>l. Some (line_productId l)) (filter (\<lambda>l. \<not> can_release db l) (bulk_items input))"
  using release_p.applyBulkChange_refused [OF assms(1,3), of input "''released''"] assms(4)
  by (simp add: release_lines_ok [OF assms(1,2)] releaseMany_def)

lemma claim_fresh: "\<not> processed db (key_messageId k) \<Longrightarrow> \<exists>db1. claim_message now (Some k) db = (Inr (), db1)"
  by (simp add: claim_message_Inr processed_def)

lemma error_classes [simp]:
  "isDuplicateOperationError (ThrownApp (DuplicateOperationError m))"
  "\<not> isDuplicateOperationError (ThrownApp (ConflictError msg d))"
  "isAppError (ThrownApp a)"
  by (simp_all add: isDuplicateOperationError_def DuplicateOperationError_def ConflictError_def
      mkAppError_def isAppError_def)

lemma duplicate_is_app: "isDuplicateOperationError e \<Longrightarrow> isAppError e"
  by (auto simp: isDuplicateOperationError_def isAppError_def split: thrown.splits)

lemma releaseMany_fault: "releaseMany (Some e) now input key db = (Inl e, db)"
  by (simp add: releaseMany_def applyBulkChange_def applyBulkStockChange_def and_then_def)

lemma event_key_messageId [simp]: "key_messageId (event_key event) = event_messageId event"
  by (simp add: event_key_def)

text \<open>The three ways a release event can end, when the database commits.\<close>

lemma consumer_release_processed:
  "processed db (event_messageId event) \<Longrightarrow> consumer_release None now event db = (Inr Ack, db)"
  by (simp add: consumer_release_cases releaseMany_processed)

lemma consumer_release_applied:
  assumes ok: "inventory_ok db" and valid: "valid_bulk (payload event)"
    and new: "\<not> processed db (event_messageId event)"
    and served: "list_all (can_release db) (bulk_items (payload event))"
  shows "\<exists>db'. consumer_release None now event db = (Inr Ack, db') \<and>
           processed db' (event_messageId event) \<and>
           (\<forall>p. levels_of db' p = moved_by (- 1) (bulk_items (payload event)) p (levels_of db p))"
proof -
  obtain db1 where claim: "claim_message now (Some (event_key event)) db = (Inr (), db1)"
    using claim_fresh [of db "event_key event" now] new by auto
  obtain views db' where run: "releaseMany None now (payload event) (Some (event_key event)) db = (Inr views, db')"
    using releaseMany_total [OF ok valid claim served] by blast
  then show ?thesis
    using releaseMany_remembers [OF ok valid run] releaseMany_effect [OF ok valid run]
    by (simp add: consumer_release_cases)
qed

lemma consumer_release_unservable:
  assumes ok: "inventory_ok db" and valid: "valid_bulk (payload event)"
    and new: "\<not> processed db (event_messageId event)"
    and unserved: "\<not> list_all (can_release db) (bulk_items (payload event))"
  shows "consumer_release None now event db = (Inr Reject, db)"
proof -
  obtain db1 where claim: "claim_message now (Some (event_key event)) db = (Inr (), db1)"
    using claim_fresh [of db "event_key event" now] new by auto
  show ?thesis
    using releaseMany_refused [OF ok valid claim unserved] by (auto simp: consumer_release_cases)
qed

lemma consumer_release_fault:
  "\<not> isAppError e \<Longrightarrow> consumer_release (Some e) now event db = (Inr Requeue, db)"
  by (auto simp: consumer_release_cases releaseMany_fault dest: duplicate_is_app)

text \<open>
  Property C4. A release event is applied exactly once however often the broker delivers it: an
  event that was acked is acked again on redelivery and changes nothing, an event that was not
  acked has left the tables untouched (so nothing is half applied when it comes back), and only a
  database failure sends it back to the queue.
\<close>

theorem redelivery_harmless:
  assumes "inventory_reachable is_uuid db" and "database_verdict flt"
    and "consumer_handle is_uuid is_datetime flt now content db = (Inr outcome, db1)"
  shows "(outcome = Ack \<longrightarrow> consumer_handle is_uuid is_datetime None now' content db1 = (Inr Ack, db1)) \<and>
         (outcome \<noteq> Ack \<longrightarrow> db1 = db) \<and> (outcome = Requeue \<longrightarrow> flt \<noteq> None)"
proof (cases "consumer_parse is_uuid is_datetime content")
  case None
  then show ?thesis using assms(3) by (simp add: consumer_handle_def)
next
  case (Some event)
  note ok = reachable_inventory_ok [OF assms(1)] and valid = consumer_parse_valid [OF Some]
  show ?thesis
  proof (cases "event_type event = KeyRelease \<and> flt = None")
    case True
    then have run: "consumer_release None now event db = (Inr outcome, db1)"
      using assms(3) Some by (simp add: consumer_handle_def)
    have "outcome = Ack \<and> processed db1 (event_messageId event) \<or> outcome = Reject \<and> db1 = db"
      using run consumer_release_processed [of db event now] consumer_release_applied [OF ok valid, of now]
        consumer_release_unservable [OF ok valid, of now]
      by (cases "processed db (event_messageId event)";
          cases "list_all (can_release db) (bulk_items (payload event))") auto
    with True Some consumer_release_processed [of db1 event now'] show ?thesis
      by (auto simp: consumer_handle_def)
  next
    case False
    then show ?thesis
      using assms(2,3) Some consumer_release_fault [of _ now event db]
      by (cases flt; cases "event_type event") (auto simp: consumer_handle_def database_verdict_def)
  qed
qed

text \<open>A release event of two units, and the state where four are held.\<close>

definition sample_event :: "json option" where
  "sample_event = Some (JObject [(''messageId'', JString ''m-1''),
     (''type'', JString ''inventory.stock.release''), (''occurredAt'', JString ''2025-01-01T00:00:00Z''),
     (''payload'', JObject [(''reference'', JString ''cart-1''),
        (''items'', JArray [JObject [(''productId'', JString ''p1''), (''quantity'', JInt 2)]])])])"

definition sample_held :: inventory_db where
  "sample_held = snd (handle_request (\<lambda>_. True) (\<lambda>_. None) ''u'' 6
     (PostReserve ''i1'' (JObject [(''quantity'', JInt 4)])) sample_stock)"

lemma sample_held_reachable: "inventory_reachable (\<lambda>_. True) sample_held"
  unfolding sample_held_def by (rule inventory_reachable.request [OF sample_reachable])

theorem redelivery_harmless_witness:
  "fst (consumer_handle (\<lambda>_. True) (\<lambda>_. True) None 8 sample_event
     (snd (consumer_handle (\<lambda>_. True) (\<lambda>_. True) None 7 sample_event sample_held))) = Inr Ack"
proof -
  have "fst (consumer_handle (\<lambda>_. True) (\<lambda>_. True) None 7 sample_event sample_held) = Inr Ack"
    by code_simp
  then have run: "consumer_handle (\<lambda>_. True) (\<lambda>_. True) None 7 sample_event sample_held =
      (Inr Ack, snd (consumer_handle (\<lambda>_. True) (\<lambda>_. True) None 7 sample_event sample_held))"
    by (simp add: prod_eq_iff)
  show ?thesis
    using redelivery_harmless [OF sample_held_reachable _ run, of 8] by (simp add: database_verdict_def)
qed

text \<open>
  Property C5. The fate of a well-formed release event the service has not seen: when every line
  is held it is acked, its id is recorded and every product's reserved count drops by exactly the
  units it names; when some line is not, the whole event is dead-lettered and nothing changes; and
  when the database fails it is requeued and nothing changes.
\<close>

theorem release_event_outcome:
  assumes "inventory_reachable is_uuid db"
    and "consumer_parse is_uuid is_datetime content = Some event" and "event_type event = KeyRelease"
    and "\<not> processed db (event_messageId event)"
  shows "(if list_all (can_release db) (bulk_items (payload event))
          then \<exists>db'. consumer_handle is_uuid is_datetime None now content db = (Inr Ack, db') \<and>
                 processed db' (event_messageId event) \<and>
                 (\<forall>p. levels_of db' p = moved_by (- 1) (bulk_items (payload event)) p (levels_of db p))
          else consumer_handle is_uuid is_datetime None now content db = (Inr Reject, db)) \<and>
         (\<forall>e. \<not> isAppError e \<longrightarrow>
            consumer_handle is_uuid is_datetime (Some e) now content db = (Inr Requeue, db))"
proof -
  note ok = reachable_inventory_ok [OF assms(1)] and valid = consumer_parse_valid [OF assms(2)]
  show ?thesis
    using assms consumer_release_applied [OF ok valid assms(4), of now]
      consumer_release_unservable [OF ok valid assms(4), of now]
    by (simp add: consumer_handle_def consumer_release_fault)
qed

theorem release_event_outcome_witness:
  "\<exists>db'. consumer_handle (\<lambda>_. True) (\<lambda>_. True) None 7 sample_event sample_held = (Inr Ack, db') \<and>
     levels_of db' ''p1'' = Some (10, 2)"
proof -
  let ?ev = "\<lparr>event_messageId = ''m-1'', event_type = KeyRelease, occurredAt = ''2025-01-01T00:00:00Z'',
    correlationId = None, event_actor = None, payload = sample_lines 2\<rparr>"
  have p: "consumer_parse (\<lambda>_. True) (\<lambda>_. True) sample_event = Some ?ev"
    and new: "\<not> processed sample_held (event_messageId ?ev)"
    and can: "list_all (can_release sample_held) (bulk_items (payload ?ev))"
    and lv: "levels_of sample_held ''p1'' = Some (10, 4)"
    and units: "requested_units (bulk_items (payload ?ev)) ''p1'' = 2"
    by code_simp+
  show ?thesis
    using release_event_outcome [OF sample_held_reachable p _ new, of 7] can lv units
    by (auto simp: moved_by_def)
qed


section \<open>Patching and deleting a record\<close>

lemma item_field_apply_patch:
  "item_field (apply_patch now p it) f = case_option (item_field it f) id (patch_field p f)"
  by (auto simp: item_field_def patch_field_def apply_patch_def split: option.splits)

lemma diff_fields_spec:
  "diff_fields cur p fs =
     map (\<lambda>f. \<lparr>change_field = f, change_oldValue = string_of_value (item_field cur f),
               change_newValue = string_of_value (item_field (apply_patch now p cur) f)\<rparr>)
       (filter (\<lambda>f. item_field (apply_patch now p cur) f \<noteq> item_field cur f) fs)"
  by (induction fs) (auto simp: item_field_apply_patch split: option.splits)

definition audit_entry :: "InventoryItem \<Rightarrow> InventoryItem \<Rightarrow> string option \<Rightarrow> int \<Rightarrow> string \<Rightarrow> InventoryAuditLog" where
  "audit_entry before after actor now f =
     \<lparr>al_itemId = item_id before, al_field = f, oldValue = string_of_value (item_field before f),
      newValue = string_of_value (item_field after f), al_actor = actor, al_createdAt = now\<rparr>"

definition changed_fields :: "InventoryItem \<Rightarrow> InventoryItem \<Rightarrow> string list" where
  "changed_fields before after = filter (\<lambda>f. item_field after f \<noteq> item_field before f) AUDITED_FIELDS"

lemma diffInventoryItem_spec:
  "diffInventoryItem cur p =
     map (\<lambda>f. \<lparr>change_field = f, change_oldValue = string_of_value (item_field cur f),
               change_newValue = string_of_value (item_field (apply_patch now p cur) f)\<rparr>)
       (changed_fields cur (apply_patch now p cur))"
  unfolding diffInventoryItem_def changed_fields_def by (rule diff_fields_spec)

lemma patch_audit_entries:
  "item_id row = i \<Longrightarrow>
   patch_audit now i actor (diffInventoryItem row p) =
     map (audit_entry row (apply_patch now p row) actor now) (changed_fields row (apply_patch now p row))"
  unfolding diffInventoryItem_spec [of row p now]
  by (simp add: patch_audit_def audit_entry_def)

text \<open>
  Property C7. A patch is audited in full: when it succeeds, the audit trail gains exactly one row
  per audited column whose value it changed, with the old and the new value and the actor; the
  movement ledger gains one adjustment exactly when the on-hand quantity changed; the reserved
  count is never touched; and a patch that changes nothing writes nothing at all.
\<close>

theorem patch_audited:
  assumes "inventory_reachable is_uuid db" and "service_update flt now i input actor db = (Inr view, db')"
  shows "\<exists>row row'. find_row item_id i (inventory_items db) = Some row \<and>
           find_row item_id i (inventory_items db') = Some row' \<and> view = toInventoryItemView row' \<and>
           inventory_audit_logs db' = inventory_audit_logs db @
             map (audit_entry row row' actor now) (changed_fields row row') \<and>
           map mv_type (stock_movement_histories db') = map mv_type (stock_movement_histories db) @
             (if quantity row' \<noteq> quantity row then [ADJUSTMENT] else []) \<and>
           reserved row' = reserved row \<and> stock_ok row' \<and>
           (changed_fields row row' = [] \<longrightarrow> db' = db)"
proof -
  obtain it where it: "repo_update flt now i input actor (validate_patch input) db = (Inr it, db')"
    and view: "view = toInventoryItemView it"
    using assms(2) by (auto simp: service_update_def and_then_Inr_iff)
  obtain row where row: "find_row item_id i (inventory_items db) = Some row"
    and eff: "if diffInventoryItem row input = [] then it = row \<and> db' = db
      else it = apply_patch now input row \<and>
           item_conflict it (delete_rows item_id i (inventory_items db)) = None \<and>
           db' = db\<lparr>inventory_items := update_rows item_id i (apply_patch now input) (inventory_items db),
             inventory_audit_logs := inventory_audit_logs db @ patch_audit now i actor (diffInventoryItem row input),
             stock_movement_histories := stock_movement_histories db @ patch_movement now i actor row it\<rparr>"
    using repo_update_Inr [OF it] by blast
  have ok': "inventory_ok db'"
    using keepsD [OF service_update_keeps reachable_inventory_ok [OF assms(1)], of flt now i input actor] assms(2) by simp
  show ?thesis
  proof (cases "diffInventoryItem row input = []")
    case True
    with eff row view row_by_id_ok [OF ok'] show ?thesis
      by (auto simp: changed_fields_def)
  next
    case False
    have id: "item_id row = i" using find_row_SomeD [OF row] by simp
    have row': "find_row item_id i (inventory_items db') = Some it"
      using False eff row id by (simp add: find_row_update)
    have "changed_fields row it \<noteq> []"
      using False eff by (auto simp: diffInventoryItem_spec [of row input now])
    then show ?thesis
      using False eff row row' view id row_by_id_ok [OF ok' row']
      by (auto simp: patch_audit_entries patch_movement_def)
  qed
qed

theorem patch_audited_witness:
  "\<exists>row row'. find_row item_id ''i1'' (inventory_items sample_stock) = Some row \<and>
     inventory_audit_logs (snd (service_update None 8 ''i1''
       \<lparr>patch_sku = None, patch_productId = None, patch_warehouse = Some ''west'', patch_quantity = Some 3,
        patch_reorderLevel = None\<rparr> (Some ''ann'') sample_stock)) =
       map (audit_entry row row' (Some ''ann'') 8) (changed_fields row row')"
proof -
  let ?p = "\<lparr>patch_sku = None, patch_productId = None, patch_warehouse = Some ''west'',
    patch_quantity = Some 3, patch_reorderLevel = None\<rparr>"
  have "\<not> isl (fst (service_update None 8 ''i1'' ?p (Some ''ann'') sample_stock))" by code_simp
  then obtain view where run: "service_update None 8 ''i1'' ?p (Some ''ann'') sample_stock =
      (Inr view, snd (service_update None 8 ''i1'' ?p (Some ''ann'') sample_stock))"
    by (rule Inr_result)
  have none: "inventory_audit_logs sample_stock = []" by (simp add: sample_stock_eq)
  show ?thesis
    using patch_audited [OF sample_reachable run] none by auto
qed


lemma delete_rows_find: "find_row key j (delete_rows key i rows) = (if j = i then None else find_row key j rows)"
  by (induction rows) (auto simp: find_row_def delete_rows_def)

lemma item_ledger_delete:
  "filter (\<lambda>m. mv_itemId m = j) (delete_rows mv_itemId i ms) = (if j = i then [] else filter (\<lambda>m. mv_itemId m = j) ms)"
  by (induction ms) (auto simp: delete_rows_def)

text \<open>
  Deleting a stock record is refused while it has reserved units outstanding, and a
  deletion removes exactly that record with its ledger: every other record and ledger stays as it
  was.
\<close>

theorem remove_guarded:
  "case find_row item_id i (inventory_items db) of
     None \<Rightarrow> service_remove (\<lambda>_. None) i db = (Inl (itemNotFound i), db)
   | Some row \<Rightarrow>
       (if reserved row > 0
        then \<exists>msg. service_remove (\<lambda>_. None) i db = (Inl (ThrownApp (ConflictError msg None)), db)
        else \<exists>db'. service_remove (\<lambda>_. None) i db = (Inr (), db') \<and>
               (\<forall>j. find_row item_id j (inventory_items db') =
                      (if j = i then None else find_row item_id j (inventory_items db)) \<and>
                    item_ledger db' j = (if j = i then [] else item_ledger db j)))"
proof (cases "find_row item_id i (inventory_items db)")
  case None
  then show ?thesis
    by (simp add: service_remove_def getById_def findById_def transaction_def and_then_def)
next
  case (Some row)
  then show ?thesis
    by (auto simp: service_remove_def getById_def findById_def repo_delete_def delete_item_def
        transaction_def and_then_def delete_rows_find item_ledger_def item_ledger_delete)
qed

section \<open>One reservation, undone\<close>

text \<open>
  A reservation of one item can always be undone: after a reservation that
  succeeded, releasing the same number of units succeeds too and leaves every item with the
  levels it had before the reservation.
\<close>

theorem reserve_then_release:
  assumes reach: "inventory_reachable is_uuid db" and n: "0 < n"
    and run: "reserve flt now i n meta db = (Inr view, db1)"
  shows "\<exists>it view' db2. find_row item_id i (inventory_items db) = Some it \<and>
           release None now' i n meta' db1 = (Inr view', db2) \<and>
           quantity view' = quantity it \<and> reserved view' = reserved it \<and>
           (\<forall>j. j \<noteq> i \<longrightarrow> find_row item_id j (inventory_items db2) = find_row item_id j (inventory_items db))"
proof -
  let ?p = "planned_change RESERVATION n meta (\<lambda>it. planReservation it n)"
  let ?q = "planned_change RELEASE n meta' (\<lambda>it. planRelease it n)"
  note ok = reachable_inventory_ok [OF reach]
  obtain it1 where first: "applyStockChange flt now i ?p db = (Inr it1, db1)"
    using run by (auto simp: reserve_def applyChange_def and_then_Inr_iff)
  then have flt: "flt = None" by (simp add: applyStockChange_def transaction_None_Inr_iff)
  have ok1: "inventory_ok db1"
    using keepsD [OF transition_keeps(1) [OF n] ok, of flt now i meta] run by simp
  have undo: "\<exists>nxt'. ?q it' = Inr nxt' \<and> quantity nxt' = quantity it \<and> reserved nxt' = reserved it"
    if "find_row item_id i (inventory_items db) = Some it" "?p it = Inr nxt"
      "quantity it' = quantity nxt" "reserved it' = reserved nxt" for it nxt it'
    using that row_by_id_ok [OF ok that(1)]
    by (auto simp: planned_change_def checked_Inr_iff planReservation_def planRelease_def Let_def
        checked_def assertInvariants_def stock_ok_def split: sum.splits if_splits)
  have "\<exists>it it2 db2. find_row item_id i (inventory_items db) = Some it \<and>
      applyStockChange None now' i ?q db1 = (Inr it2, db2) \<and> quantity it2 = quantity it \<and> reserved it2 = reserved it \<and>
      (\<forall>j. j \<noteq> i \<longrightarrow> find_row item_id j (inventory_items db2) = find_row item_id j (inventory_items db))"
    by (rule items.change_then_undo [OF ok first [unfolded flt] ok1]) (rule undo)
  then show ?thesis
    by (auto simp: release_def applyChange_def and_then_step)
qed

end
