(* ===== verification/InventoryQueries.thy ===== *)
theory InventoryQueries
  imports InventoryInvariant
begin

text \<open>
  The paginated reads of the inventory service: the query schemas, \<^verbatim>\<open>list\<close>, \<^verbatim>\<open>listMovements\<close> and
  \<^verbatim>\<open>listAuditLogs\<close> of the repository, the service and the controller, and their routes. What the
  database decides is a \<open>query_engine\<close>: the order it scans a table in, its collation (a string's sort key, compared
  byte by byte, as \<^verbatim>\<open>strxfrm\<close> gives it) and what its case-insensitive \<^verbatim>\<open>contains\<close> matches.
\<close>

record query_engine =
  qe_contains :: "string \<Rightarrow> string \<Rightarrow> bool"
  qe_collate :: "string \<Rightarrow> string"
  qe_scan :: "nat \<Rightarrow> nat"

section \<open>Query schemas\<close>

datatype InventorySortField = By_createdAt | By_sku | By_quantity

fun sort_field_text :: "InventorySortField \<Rightarrow> string" where
  "sort_field_text By_createdAt = ''createdAt''"
| "sort_field_text By_sku = ''sku''"
| "sort_field_text By_quantity = ''quantity''"

definition INVENTORY_SORT_FIELDS :: "InventorySortField list" where
  "INVENTORY_SORT_FIELDS = [By_createdAt, By_sku, By_quantity]"

definition orderField :: "string \<Rightarrow> SortOrder option" where
  "orderField s = (if s = ''asc'' then Some Ascending else if s = ''desc'' then Some Descending else None)"

record ListInventoryQuery =
  lq_page :: nat
  lq_limit :: nat
  lq_sku :: "string option"
  lq_productId :: "string option"
  lq_productIds :: "string list option"
  lq_warehouse :: "string option"
  lq_lowStock :: "bool option"
  lq_sortBy :: InventorySortField
  lq_order :: SortOrder

definition query_text :: "nat \<Rightarrow> nat \<Rightarrow> string \<Rightarrow> string option" where
  "query_text lo hi s = trimmed_string lo hi (JString s)"

definition query_uuid :: "(string \<Rightarrow> bool) \<Rightarrow> string \<Rightarrow> string option" where
  "query_uuid is_uuid s = (if is_uuid s then Some s else None)"

definition productIdsField :: "(string \<Rightarrow> bool) \<Rightarrow> string \<Rightarrow> string list option" where
  "productIdsField is_uuid s =
     (let ids = filter (\<lambda>i. i \<noteq> '''') (map js_trim (js_split CHR '','' (js_trim s)))
      in if list_all is_uuid ids \<and> 1 \<le> length ids \<and> length ids \<le> 100 then Some ids else None)"

definition listInventoryQuerySchema :: "(string \<Rightarrow> bool) \<Rightarrow> (string \<times> string) list \<Rightarrow> ListInventoryQuery option" where
  "listInventoryQuerySchema is_uuid q =
     (case coerced_between 1 None 1 (map_of q ''page'') of None \<Rightarrow> None | Some page \<Rightarrow>
     (case coerced_between 1 (Some 100) 20 (map_of q ''limit'') of None \<Rightarrow> None | Some limit \<Rightarrow>
     (case query_optional (query_text 1 64) (map_of q ''sku'') of None \<Rightarrow> None | Some sk \<Rightarrow>
     (case query_optional (query_uuid is_uuid) (map_of q ''productId'') of None \<Rightarrow> None | Some pid \<Rightarrow>
     (case query_optional (productIdsField is_uuid) (map_of q ''productIds'') of None \<Rightarrow> None | Some pids \<Rightarrow>
     (case query_optional (query_text 1 64) (map_of q ''warehouse'') of None \<Rightarrow> None | Some wh \<Rightarrow>
     (case query_optional successField (map_of q ''lowStock'') of None \<Rightarrow> None | Some low \<Rightarrow>
     (case query_optional (enumField sort_field_text INVENTORY_SORT_FIELDS) (map_of q ''sortBy'') of None \<Rightarrow> None | Some by_field \<Rightarrow>
     (case query_optional orderField (map_of q ''order'') of None \<Rightarrow> None | Some ord \<Rightarrow>
        Some \<lparr>lq_page = page, lq_limit = limit, lq_sku = sk, lq_productId = pid, lq_productIds = pids, lq_warehouse = wh,
          lq_lowStock = low, lq_sortBy = (case by_field of None \<Rightarrow> By_createdAt | Some f \<Rightarrow> f),
          lq_order = (case ord of None \<Rightarrow> Descending | Some d \<Rightarrow> d)\<rparr>)))))))))"

record ListAuditLogsQuery =
  aq_page :: nat
  aq_limit :: nat
  aq_field :: "string option"
  aq_actor :: "string option"

definition listAuditLogsQuerySchema :: "(string \<times> string) list \<Rightarrow> ListAuditLogsQuery option" where
  "listAuditLogsQuerySchema q =
     (case coerced_between 1 None 1 (map_of q ''page'') of None \<Rightarrow> None | Some page \<Rightarrow>
     (case coerced_between 1 (Some 100) 20 (map_of q ''limit'') of None \<Rightarrow> None | Some limit \<Rightarrow>
     (case query_optional (enumField (\<lambda>f. f) AUDITED_FIELDS) (map_of q ''field'') of None \<Rightarrow> None | Some f \<Rightarrow>
     (case query_optional (query_text 1 120) (map_of q ''actor'') of None \<Rightarrow> None | Some a \<Rightarrow>
        Some \<lparr>aq_page = page, aq_limit = limit, aq_field = f, aq_actor = a\<rparr>))))"

record ListMovementsQuery =
  mq_page :: nat
  mq_limit :: nat
  mq_type :: "StockMovementType option"

fun movement_type_text :: "StockMovementType \<Rightarrow> string" where
  "movement_type_text INBOUND = ''INBOUND''"
| "movement_type_text OUTBOUND = ''OUTBOUND''"
| "movement_type_text RESERVATION = ''RESERVATION''"
| "movement_type_text RELEASE = ''RELEASE''"
| "movement_type_text RETURN = ''RETURN''"
| "movement_type_text ADJUSTMENT = ''ADJUSTMENT''"

definition STOCK_MOVEMENT_TYPES :: "StockMovementType list" where
  "STOCK_MOVEMENT_TYPES = [INBOUND, OUTBOUND, RESERVATION, RELEASE, RETURN, ADJUSTMENT]"

definition listMovementsQuerySchema :: "(string \<times> string) list \<Rightarrow> ListMovementsQuery option" where
  "listMovementsQuerySchema q =
     (case coerced_between 1 None 1 (map_of q ''page'') of None \<Rightarrow> None | Some page \<Rightarrow>
     (case coerced_between 1 (Some 100) 20 (map_of q ''limit'') of None \<Rightarrow> None | Some limit \<Rightarrow>
     (case query_optional (enumField movement_type_text STOCK_MOVEMENT_TYPES) (map_of q ''type'') of None \<Rightarrow> None | Some ty \<Rightarrow>
        Some \<lparr>mq_page = page, mq_limit = limit, mq_type = ty\<rparr>)))"

section \<open>Repository\<close>

text \<open>The \<^verbatim>\<open>where\<close> of a listing: \<^verbatim>\<open>productIds\<close>, spread last, replaces \<^verbatim>\<open>productId\<close>.\<close>

definition item_matches :: "query_engine \<Rightarrow> ListInventoryQuery \<Rightarrow> InventoryItem \<Rightarrow> bool" where
  "item_matches Q q it \<longleftrightarrow>
     (case lq_sku q of None \<Rightarrow> True | Some s \<Rightarrow> qe_contains Q (sku it) s) \<and>
     (case lq_productIds q of
        Some ids \<Rightarrow> List.member ids (productId it)
      | None \<Rightarrow> (case lq_productId q of None \<Rightarrow> True | Some p \<Rightarrow> productId it = p)) \<and>
     (case lq_warehouse q of None \<Rightarrow> True | Some w \<Rightarrow> warehouse it = w)"

definition sorted_items :: "query_engine \<Rightarrow> ListInventoryQuery \<Rightarrow> InventoryItem list \<Rightarrow> InventoryItem list" where
  "sorted_items Q q rows = (case lq_sortBy q of
     By_createdAt \<Rightarrow> order_by createdAt (lq_order q) (scanned (qe_scan Q) rows)
   | By_sku \<Rightarrow> order_by (\<lambda>it. qe_collate Q (sku it)) (lq_order q) (scanned (qe_scan Q) rows)
   | By_quantity \<Rightarrow> order_by quantity (lq_order q) (scanned (qe_scan Q) rows))"

definition repo_listInventory ::
  "query_engine \<Rightarrow> thrown option \<Rightarrow> ListInventoryQuery \<Rightarrow> (inventory_db, thrown, InventoryItem list \<times> nat) act" where
  "repo_listInventory Q flt q = and_then
     (transaction flt (gets (\<lambda>db. let rows = filter (item_matches Q q) (inventory_items db)
        in (page_rows (lq_page q) (lq_limit q) (sorted_items Q q rows), length rows)))) (\<lambda>(items, number).
     if lq_lowStock q = Some True
     then let low = filter (\<lambda>it. quantity it - reserved it \<le> reorderLevel it) items in ret (low, length low)
     else ret (items, number))"

definition repo_listMovements ::
  "query_engine \<Rightarrow> thrown option \<Rightarrow> string \<Rightarrow> ListMovementsQuery \<Rightarrow> (inventory_db, thrown, StockMovementHistory list \<times> nat) act" where
  "repo_listMovements Q flt i q = transaction flt (gets (\<lambda>db.
     let rows = filter (\<lambda>m. mv_itemId m = i \<and> (case mq_type q of None \<Rightarrow> True | Some ty \<Rightarrow> mv_type m = ty)) (stock_movement_histories db)
     in (page_rows (mq_page q) (mq_limit q) (order_by mv_createdAt Descending (scanned (qe_scan Q) rows)), length rows)))"

definition repo_listAuditLogs ::
  "query_engine \<Rightarrow> thrown option \<Rightarrow> string \<Rightarrow> ListAuditLogsQuery \<Rightarrow> (inventory_db, thrown, InventoryAuditLog list \<times> nat) act" where
  "repo_listAuditLogs Q flt i q = transaction flt (gets (\<lambda>db.
     let rows = filter (\<lambda>a. al_itemId a = i \<and> (case aq_field q of None \<Rightarrow> True | Some f \<Rightarrow> al_field a = f) \<and>
            (case aq_actor q of None \<Rightarrow> True | Some x \<Rightarrow> al_actor a = Some x)) (inventory_audit_logs db)
     in (page_rows (aq_page q) (aq_limit q) (order_by al_createdAt Descending (scanned (qe_scan Q) rows)), length rows)))"

section \<open>Service, controller and routes\<close>

definition service_list ::
  "query_engine \<Rightarrow> thrown option \<Rightarrow> ListInventoryQuery \<Rightarrow> (inventory_db, thrown, InventoryItemView list \<times> nat) act" where
  "service_list Q flt q = and_then (repo_listInventory Q flt q) (\<lambda>(items, number). ret (map toInventoryItemView items, number))"

definition service_listMovements ::
  "query_engine \<Rightarrow> (nat \<Rightarrow> thrown option) \<Rightarrow> string \<Rightarrow> ListMovementsQuery
     \<Rightarrow> (inventory_db, thrown, StockMovementHistory list \<times> nat) act" where
  "service_listMovements Q flt i q = and_then (getById (flt 0) i) (\<lambda>_. repo_listMovements Q (flt 1) i q)"

definition service_listAuditLogs ::
  "query_engine \<Rightarrow> (nat \<Rightarrow> thrown option) \<Rightarrow> string \<Rightarrow> ListAuditLogsQuery
     \<Rightarrow> (inventory_db, thrown, InventoryAuditLog list \<times> nat) act" where
  "service_listAuditLogs Q flt i q = and_then (getById (flt 0) i) (\<lambda>_. repo_listAuditLogs Q (flt 1) i q)"

definition ctl_list ::
  "query_engine \<Rightarrow> thrown option \<Rightarrow> ListInventoryQuery \<Rightarrow> (inventory_db, thrown, InventoryItemView paginated) act" where
  "ctl_list Q flt q = and_then (service_list Q flt q) (\<lambda>(items, number).
     ret (sendPaginated items (lq_page q) (lq_limit q) number))"

definition ctl_listMovements ::
  "query_engine \<Rightarrow> (nat \<Rightarrow> thrown option) \<Rightarrow> string \<Rightarrow> ListMovementsQuery
     \<Rightarrow> (inventory_db, thrown, StockMovementHistory paginated) act" where
  "ctl_listMovements Q flt i q = and_then (service_listMovements Q flt i q) (\<lambda>(items, number).
     ret (sendPaginated items (mq_page q) (mq_limit q) number))"

definition ctl_listAuditLogs ::
  "query_engine \<Rightarrow> (nat \<Rightarrow> thrown option) \<Rightarrow> string \<Rightarrow> ListAuditLogsQuery
     \<Rightarrow> (inventory_db, thrown, InventoryAuditLog paginated) act" where
  "ctl_listAuditLogs Q flt i q = and_then (service_listAuditLogs Q flt i q) (\<lambda>(items, number).
     ret (sendPaginated items (aq_page q) (aq_limit q) number))"

datatype ListingRequest =
  GetItems "(string \<times> string) list"
| GetAuditLogs string "(string \<times> string) list"
| GetMovements string "(string \<times> string) list"

datatype ListingReply =
  ItemsPage "InventoryItemView paginated"
| AuditLogsPage "InventoryAuditLog paginated"
| MovementsPage "StockMovementHistory paginated"

fun handle_listing ::
  "query_engine \<Rightarrow> (string \<Rightarrow> bool) \<Rightarrow> (nat \<Rightarrow> thrown option) \<Rightarrow> ListingRequest \<Rightarrow> (inventory_db, thrown, ListingReply) act" where
  "handle_listing Q is_uuid flt (GetItems q) =
     and_then (validated (listInventoryQuerySchema is_uuid q)) (\<lambda>q.
     and_then (ctl_list Q (flt 0) q) (\<lambda>page. ret (ItemsPage page)))"
| "handle_listing Q is_uuid flt (GetAuditLogs i q) =
     and_then (validated (id_param is_uuid i)) (\<lambda>i.
     and_then (validated (listAuditLogsQuerySchema q)) (\<lambda>q.
     and_then (ctl_listAuditLogs Q flt i q) (\<lambda>page. ret (AuditLogsPage page))))"
| "handle_listing Q is_uuid flt (GetMovements i q) =
     and_then (validated (id_param is_uuid i)) (\<lambda>i.
     and_then (validated (listMovementsQuerySchema q)) (\<lambda>q.
     and_then (ctl_listMovements Q flt i q) (\<lambda>page. ret (MovementsPage page))))"

section \<open>Reading changes nothing\<close>

lemma repo_listing_keeps [keeps_intros]:
  "keeps P (repo_listInventory Q flt q)" "keeps P (repo_listMovements Q flt i mq)" "keeps P (repo_listAuditLogs Q flt i aq)"
  unfolding repo_listInventory_def repo_listMovements_def repo_listAuditLogs_def
  by (intro keeps_intros keeps_transaction_commit; auto simp: keeps_def ret_def gets_def Let_def split: prod.split if_splits)+

lemma handle_listing_keeps: "keeps P (handle_listing Q is_uuid flt req)"
  by (cases req) (auto simp: ctl_list_def ctl_listMovements_def ctl_listAuditLogs_def service_list_def
      service_listMovements_def service_listAuditLogs_def split: prod.split intro!: keeps_validated keeps_intros)

section \<open>Pages\<close>

text \<open>The sort keys of the matching rows, all different.\<close>

definition keys_distinct :: "query_engine \<Rightarrow> ListInventoryQuery \<Rightarrow> InventoryItem list \<Rightarrow> bool" where
  "keys_distinct Q q rows = (case lq_sortBy q of
     By_createdAt \<Rightarrow> distinct (map createdAt rows)
   | By_sku \<Rightarrow> distinct (map (\<lambda>it. qe_collate Q (sku it)) rows)
   | By_quantity \<Rightarrow> distinct (map quantity rows))"

definition listed_in_order :: "query_engine \<Rightarrow> ListInventoryQuery \<Rightarrow> InventoryItem list \<Rightarrow> bool" where
  "listed_in_order Q q rows = (case lq_sortBy q of
     By_createdAt \<Rightarrow> in_order createdAt (lq_order q) rows
   | By_sku \<Rightarrow> in_order (\<lambda>it. qe_collate Q (sku it)) (lq_order q) rows
   | By_quantity \<Rightarrow> in_order quantity (lq_order q) rows)"

lemma sorted_items_perm: "mset (sorted_items Q q rows) = mset rows"
  by (simp add: sorted_items_def split: InventorySortField.split)

lemma sorted_items_in_order: "listed_in_order Q q (sorted_items Q q rows)"
  by (simp add: sorted_items_def listed_in_order_def split: InventorySortField.split)

lemma sorted_items_scan:
  "keys_distinct Q q rows \<Longrightarrow> sorted_items (Q\<lparr>qe_scan := scan\<rparr>) q rows = sorted_items (Q\<lparr>qe_scan := scan'\<rparr>) q rows"
  by (simp add: sorted_items_def keys_distinct_def order_by_scanned split: InventorySortField.splits)

text \<open>No two records share a SKU: a listing by SKU never depends on the scan.\<close>

lemma keys_distinct_sku:
  assumes "inventory_ok db" "inj (qe_collate Q)" "lq_sortBy q = By_sku"
  shows "keys_distinct Q q (filter P (inventory_items db))"
proof -
  have "distinct (map sku (filter P (inventory_items db)))"
    using inventory_okD(2) [OF assms(1)] by (simp add: distinct_map_filter)
  then show ?thesis using assms(2,3)
    by (auto simp: keys_distinct_def distinct_map inj_on_def inj_def)
qed

lemma ctl_list_run:
  assumes "lq_lowStock q \<noteq> Some True"
  shows "ctl_list Q None q db =
    (let rows = filter (item_matches Q q) (inventory_items db)
     in (Inr (sendPaginated (map toInventoryItemView (page_rows (lq_page q) (lq_limit q) (sorted_items Q q rows)))
           (lq_page q) (lq_limit q) (length rows)), db))"
  using assms by (simp add: ctl_list_def service_list_def repo_listInventory_def Let_def and_then_def transaction_def gets_def ret_def)

lemma item_matches_page [simp]: "item_matches (Q\<lparr>qe_scan := s\<rparr>) (q\<lparr>lq_page := p\<rparr>) = item_matches Q q"
  by (simp add: item_matches_def fun_eq_iff split: option.split)

lemma sorted_items_page [simp]: "sorted_items Q (q\<lparr>lq_page := p\<rparr>) = sorted_items Q q"
  by (simp add: sorted_items_def fun_eq_iff split: InventorySortField.split)

lemma map_page_rows: "map f (page_rows p l rows) = page_rows p l (map f rows)"
  by (simp add: page_rows_def take_map drop_map)

text \<open>
  Property C36. Paging through \<^verbatim>\<open>GET /inventory\<close> (without \<^verbatim>\<open>lowStock\<close>): when no two matching rows share
  the sort key, then whatever order the database scans the table in for each request, the pages 1 to
  \<^verbatim>\<open>totalPages\<close> put together are the matching records, each exactly once, in the order asked for; every page
  reports their exact number, and nothing is changed.
\<close>

theorem listing_pages:
  assumes "0 < lq_limit q" and low: "lq_lowStock q \<noteq> Some True"
    and keys: "keys_distinct Q q (filter (item_matches Q q) (inventory_items db))"
  shows "\<exists>page rows. (\<forall>p. ctl_list (Q\<lparr>qe_scan := scans p\<rparr>) None (q\<lparr>lq_page := Suc p\<rparr>) db = (Inr (page p), db)) \<and>
    mset rows = mset (filter (item_matches Q q) (inventory_items db)) \<and> listed_in_order Q q rows \<and>
    (\<forall>p. pg_total (page p) = length rows) \<and>
    concat (map (\<lambda>p. pg_items (page p)) [0..<pg_totalPages (page 0)]) = map toInventoryItemView rows"
proof -
  let ?match = "filter (item_matches Q q) (inventory_items db)"
  let ?rows = "sorted_items Q q ?match" and ?n = "length (filter (item_matches Q q) (inventory_items db))"
  let ?page = "\<lambda>p. sendPaginated (page_rows (Suc p) (lq_limit q) (map toInventoryItemView ?rows)) (Suc p) (lq_limit q) ?n"
  have scan: "sorted_items (Q\<lparr>qe_scan := s\<rparr>) q ?match = ?rows" for s
    using sorted_items_scan [OF keys, of s "qe_scan Q"] by simp
  have "ctl_list (Q\<lparr>qe_scan := scans p\<rparr>) None (q\<lparr>lq_page := Suc p\<rparr>) db = (Inr (?page p), db)" for p
    using low by (subst ctl_list_run) (simp_all add: Let_def scan map_page_rows)
  moreover have len: "length ?rows = ?n" by (rule mset_eq_length) (rule sorted_items_perm)
  moreover have "concat (map (\<lambda>p. pg_items (?page p)) [0..<pg_totalPages (?page 0)]) = map toInventoryItemView ?rows"
    using pages_complete [OF assms(1), of "map toInventoryItemView ?rows"] len by (simp add: sendPaginated_def Let_def)
  moreover have "pg_total (?page p) = length ?rows" for p by (simp add: sendPaginated_def Let_def len)
  ultimately show ?thesis
    by (intro exI [of _ ?page] exI [of _ ?rows]) (simp add: sorted_items_perm sorted_items_in_order)
qed

text \<open>Three records, of which two were created in the same millisecond.\<close>

definition plain_record :: "string \<Rightarrow> int \<Rightarrow> int \<Rightarrow> InventoryItem" where
  "plain_record i q at = \<lparr>quantity = q, reserved = 0, reorderLevel = 2, item_id = i, sku = i, productId = i,
     warehouse = ''default'', createdAt = at, updatedAt = at\<rparr>"

definition three_records :: inventory_db where
  "three_records = empty_inventory_db\<lparr>inventory_items := [plain_record ''A'' 9 1, plain_record ''B'' 1 1, plain_record ''C'' 5 2]\<rparr>"

definition sample_engine :: query_engine where
  "sample_engine = \<lparr>qe_contains = (\<lambda>s t. str_includes (js_toLowerCase s) (js_toLowerCase t)), qe_collate = (\<lambda>s. s), qe_scan = (\<lambda>i. i)\<rparr>"

definition sample_listing :: ListInventoryQuery where
  "sample_listing = \<lparr>lq_page = 1, lq_limit = 1, lq_sku = None, lq_productId = None, lq_productIds = None, lq_warehouse = None,
     lq_lowStock = None, lq_sortBy = By_createdAt, lq_order = Ascending\<rparr>"

lemmas listing_samples = plain_record_def three_records_def sample_engine_def sample_listing_def empty_inventory_db_def

text \<open>The listing by SKU, in pages of one, with a different scan for every page.\<close>

theorem listing_pages_witness:
  "\<exists>page rows. (\<forall>p. ctl_list (sample_engine\<lparr>qe_scan := (\<lambda>i. (i + p) mod 3)\<rparr>) None
        (sample_listing\<lparr>lq_sortBy := By_sku, lq_page := Suc p\<rparr>) three_records = (Inr (page p), three_records)) \<and>
    mset rows = mset (inventory_items three_records) \<and>
    concat (map (\<lambda>p. pg_items (page p)) [0..<pg_totalPages (page 0)]) = map toInventoryItemView rows"
proof -
  let ?q = "sample_listing\<lparr>lq_sortBy := By_sku\<rparr>"
  have "filter (item_matches sample_engine ?q) (inventory_items three_records) = inventory_items three_records"
    by (simp add: item_matches_def listing_samples)
  moreover from this have "keys_distinct sample_engine ?q (filter (item_matches sample_engine ?q) (inventory_items three_records))"
    by (simp add: keys_distinct_def listing_samples)
  moreover have "0 < lq_limit ?q" "lq_lowStock ?q \<noteq> Some True" by (simp_all add: sample_listing_def)
  ultimately show ?thesis
    using listing_pages [of ?q sample_engine three_records "\<lambda>p i. (i + p) mod 3"] by auto
qed

section \<open>Where a listing falls short\<close>

text \<open>
  \<^verbatim>\<open>orderBy\<close> names one column and no tie-breaker: by creation time, two records of the same instant
  may come out in one order for the first page and in the other for the second, so that one of them is shown
  twice and the other never.
\<close>

definition listed_ids :: "thrown + InventoryItemView paginated \<Rightarrow> string list" where
  "listed_ids r = (case r of Inr page \<Rightarrow> map item_id (pg_items page) | Inl _ \<Rightarrow> [])"

lemmas listing_runs = listed_ids_def ctl_list_def service_list_def repo_listInventory_def and_then_def transaction_def
  listing_samples item_matches_def sorted_items_def order_by_def scanned_def page_rows_def sendPaginated_def Let_def
  toInventoryItemView_def InventoryItem.defs

lemma ties_repeat_a_row:
  "listed_ids (fst (ctl_list sample_engine None sample_listing three_records)) = [''A'']"
  "listed_ids (fst (ctl_list (sample_engine\<lparr>qe_scan := (\<lambda>i. 2 - i)\<rparr>) None (sample_listing\<lparr>lq_page := 2\<rparr>) three_records)) = [''A'']"
  by (simp_all add: listing_runs)

text \<open>
  \<^verbatim>\<open>lowStock\<close> is applied to the page and not to the table: page 1 of the records at or below their reorder
  level is empty and reports a total of zero, although there is one.
\<close>

lemma lowStock_total_counts_the_page:
  "fst (ctl_list sample_engine None (sample_listing\<lparr>lq_lowStock := Some True\<rparr>) three_records) =
     Inr \<lparr>pg_items = [], pg_page = 1, pg_limit = 1, pg_total = 0, pg_totalPages = 0, pg_hasNextPage = False,
        pg_hasPreviousPage = False\<rparr>"
  "list_ex (\<lambda>it. quantity it - reserved it \<le> reorderLevel it) (inventory_items three_records)"
  by (simp_all add: listing_runs)

end
