(* ===== verification/CartPlanner.thy ===== *)
theory CartPlanner
  imports InventorySchema "HOL-Library.AList"
begin

text \<open>
  The cart's arithmetic (\<^verbatim>\<open>services/cart/src/cart/cart.planner.ts\<close>, \<^verbatim>\<open>cart.types.ts\<close>): reading
  stored quantities, diffing a request of absolute quantities against what the cart holds, and the
  size cap. A JavaScript \<^verbatim>\<open>Map\<close> is an association list with distinct keys: \<open>AList.update\<close> is
  \<^verbatim>\<open>set\<close> (an existing key keeps its place, a new one goes last), \<open>AList.delete\<close> is \<^verbatim>\<open>delete\<close>.
  \<open>localeCompare\<close> stands for the runtime's collation. A cart line has the shape of a stock line, and
  the code passes one for the other.
\<close>

section \<open>Model\<close>

type_synonym CartLine = StockLine
type_synonym held_map = "(string \<times> int) list"

record CartChanges =
  writes :: "CartLine list"
  removals :: "string list"
  to_reserve :: "StockLine list"
  to_release :: "StockLine list"
  plan_size :: nat

definition isNoop :: "CartChanges \<Rightarrow> bool" where
  "isNoop ch \<longleftrightarrow> length (to_reserve ch) = 0 \<and> length (to_release ch) = 0"

definition mkLine :: "string \<Rightarrow> int \<Rightarrow> StockLine" where
  "mkLine p q = \<lparr>line_productId = p, line_quantity = q\<rparr>"

fun held_loop :: "held_map \<Rightarrow> (string \<times> string) list \<Rightarrow> held_map" where
  "held_loop held [] = held"
| "held_loop held ((p, raw) # rest) =
     (case js_Number raw of
        Some q \<Rightarrow> held_loop (if p \<noteq> [] \<and> q > 0 then AList.update p q held else held) rest
      | None \<Rightarrow> held_loop held rest)"

definition heldQuantities :: "(string \<times> string) list \<Rightarrow> held_map" where
  "heldQuantities entries = held_loop [] entries"

text \<open>A stable sort by the collation.\<close>

fun insert_line :: "(string \<Rightarrow> string \<Rightarrow> int) \<Rightarrow> CartLine \<Rightarrow> CartLine list \<Rightarrow> CartLine list" where
  "insert_line localeCompare l [] = [l]"
| "insert_line localeCompare l (m # ms) =
     (if localeCompare (line_productId l) (line_productId m) \<le> 0 then l # m # ms
      else m # insert_line localeCompare l ms)"

definition toCartLines :: "(string \<Rightarrow> string \<Rightarrow> int) \<Rightarrow> held_map \<Rightarrow> CartLine list" where
  "toCartLines localeCompare held =
     foldr (insert_line localeCompare) (map (\<lambda>(p, q). mkLine p q) held) []"

definition units_held :: "held_map \<Rightarrow> string \<Rightarrow> int" where
  "units_held held p = (case map_of held p of Some q \<Rightarrow> q | None \<Rightarrow> 0)"

fun plan_loop :: "held_map \<Rightarrow> CartChanges \<Rightarrow> CartLine list \<Rightarrow> held_map \<times> CartChanges" where
  "plan_loop settled ch [] = (settled, ch)"
| "plan_loop settled ch (l # rest) =
     (let p = line_productId l; q = line_quantity l; before = units_held settled p in
      if q = before then plan_loop settled ch rest
      else
        let settled' = (if q = 0 then AList.delete p settled else AList.update p q settled);
            ch1 = (if q = 0 then ch\<lparr>removals := removals ch @ [p]\<rparr>
                   else ch\<lparr>writes := writes ch @ [mkLine p q]\<rparr>);
            delta = q - before;
            ch2 = (if delta > 0 then ch1\<lparr>to_reserve := to_reserve ch1 @ [mkLine p delta]\<rparr>
                   else ch1\<lparr>to_release := to_release ch1 @ [mkLine p (- delta)]\<rparr>)
        in plan_loop settled' ch2 rest)"

definition no_changes :: CartChanges where
  "no_changes = \<lparr>writes = [], removals = [], to_reserve = [], to_release = [], plan_size = 0\<rparr>"

definition planChanges :: "held_map \<Rightarrow> CartLine list \<Rightarrow> CartChanges" where
  "planChanges held request =
     (let (settled, ch) = plan_loop held no_changes request in ch\<lparr>plan_size := length settled\<rparr>)"

fun duplicates_loop :: "string list \<Rightarrow> string list \<Rightarrow> CartLine list \<Rightarrow> string list" where
  "duplicates_loop seen dups [] = dups"
| "duplicates_loop seen dups (l # rest) =
     (let p = line_productId l in
      duplicates_loop (List.insert p seen)
        (if List.member seen p then (if List.member dups p then dups else dups @ [p]) else dups) rest)"

definition duplicateProductIds :: "CartLine list \<Rightarrow> string list" where
  "duplicateProductIds items = duplicates_loop [] [] items"

definition exceedsBulkLimit :: "CartChanges \<Rightarrow> bool" where
  "exceedsBulkLimit ch \<longleftrightarrow> plan_size ch > MAX_BULK_LINES"

section \<open>Reading stored quantities\<close>

definition positive_map :: "held_map \<Rightarrow> bool" where
  "positive_map held \<longleftrightarrow> distinct (map fst held) \<and> list_all (\<lambda>(p, q). 0 < q) held"

lemma positive_map_Nil [simp]: "positive_map []"
  by (simp add: positive_map_def)

lemma update_all: "list_all P held \<Longrightarrow> P (p, q) \<Longrightarrow> list_all P (AList.update p q held)"
  by (induction held) auto

lemma positive_map_update: "positive_map held \<Longrightarrow> 0 < q \<Longrightarrow> positive_map (AList.update p q held)"
  by (simp add: positive_map_def distinct_update update_all)

lemma positive_map_delete: "positive_map held \<Longrightarrow> positive_map (AList.delete p held)"
  by (auto simp: positive_map_def list_all_iff AList.delete_eq distinct_map_filter)

lemma held_loop_positive: "positive_map held \<Longrightarrow> positive_map (held_loop held es)"
  by (induction held es rule: held_loop.induct) (auto simp: positive_map_update split: option.splits)

lemma heldQuantities_positive: "positive_map (heldQuantities es)"
  unfolding heldQuantities_def by (rule held_loop_positive) simp

lemma units_held_nonneg: "positive_map held \<Longrightarrow> 0 \<le> units_held held p"
  by (auto simp: units_held_def positive_map_def list_all_iff split: option.splits dest!: map_of_SomeD)

lemma units_held_zero_iff:
  assumes "positive_map held"
  shows "units_held held p = 0 \<longleftrightarrow> p \<notin> fst ` set held"
proof (cases "map_of held p")
  case None
  then have "p \<notin> fst ` set held" by (simp add: map_of_eq_None_iff)
  with None show ?thesis by (simp add: units_held_def)
next
  case (Some q)
  then have "(p, q) \<in> set held" by (rule map_of_SomeD)
  with assms have "0 < q" "p \<in> fst ` set held" by (force simp: positive_map_def list_all_iff)+
  with Some show ?thesis by (simp add: units_held_def)
qed

lemma units_held_update [simp]: "units_held (AList.update p q held) r = (if r = p then q else units_held held r)"
  by (simp add: units_held_def update_conv')

lemma units_held_delete [simp]: "units_held (AList.delete p held) r = (if r = p then 0 else units_held held r)"
  by (simp add: units_held_def delete_conv')


section \<open>What a plan does\<close>

text \<open>Units a list of lines moves of one product, and the quantity a request wants of it.\<close>

definition line_units :: "StockLine list \<Rightarrow> string \<Rightarrow> int" where
  "line_units ls p = (\<Sum>l \<leftarrow> ls. if line_productId l = p then line_quantity l else 0)"

definition wanted :: "held_map \<Rightarrow> CartLine list \<Rightarrow> string \<Rightarrow> int" where
  "wanted held request p =
     (case find (\<lambda>l. line_productId l = p) request of Some l \<Rightarrow> line_quantity l | None \<Rightarrow> units_held held p)"

definition grow_lines :: "held_map \<Rightarrow> CartLine list \<Rightarrow> StockLine list" where
  "grow_lines held ls = map (\<lambda>l. mkLine (line_productId l) (line_quantity l - units_held held (line_productId l)))
     (filter (\<lambda>l. line_quantity l > units_held held (line_productId l)) ls)"

definition shrink_lines :: "held_map \<Rightarrow> CartLine list \<Rightarrow> StockLine list" where
  "shrink_lines held ls = map (\<lambda>l. mkLine (line_productId l) (units_held held (line_productId l) - line_quantity l))
     (filter (\<lambda>l. line_quantity l < units_held held (line_productId l)) ls)"

definition written_lines :: "held_map \<Rightarrow> CartLine list \<Rightarrow> CartLine list" where
  "written_lines held ls = filter (\<lambda>l. line_quantity l \<noteq> units_held held (line_productId l) \<and> line_quantity l \<noteq> 0) ls"

definition removed_ids :: "held_map \<Rightarrow> CartLine list \<Rightarrow> string list" where
  "removed_ids held ls = map line_productId
     (filter (\<lambda>l. line_quantity l \<noteq> units_held held (line_productId l) \<and> line_quantity l = 0) ls)"

definition settle_one :: "CartLine \<Rightarrow> held_map \<Rightarrow> held_map" where
  "settle_one l held = (if line_quantity l = units_held held (line_productId l) then held
     else if line_quantity l = 0 then AList.delete (line_productId l) held
     else AList.update (line_productId l) (line_quantity l) held)"

lemmas plan_lists = grow_lines_def shrink_lines_def written_lines_def removed_ids_def

lemma mkLine_id [simp]: "mkLine (line_productId l) (line_quantity l) = l"
  by (simp add: mkLine_def)

lemma mkLine_fields [simp]: "line_productId (mkLine p q) = p" "line_quantity (mkLine p q) = q"
  by (simp_all add: mkLine_def)

lemma units_held_settle_one:
  "units_held (settle_one l held) p = (if p = line_productId l then line_quantity l else units_held held p)"
  by (simp add: settle_one_def)

lemma plan_lists_cong:
  assumes "\<And>l. l \<in> set ls \<Longrightarrow> units_held h (line_productId l) = units_held h' (line_productId l)"
  shows "grow_lines h ls = grow_lines h' ls" "shrink_lines h ls = shrink_lines h' ls"
    "written_lines h ls = written_lines h' ls" "removed_ids h ls = removed_ids h' ls"
  using assms unfolding plan_lists by (auto intro!: map_cong filter_cong)

text \<open>The loop in closed form: each line is judged against what the cart held at the start.\<close>

lemma plan_loop_closed:
  "distinct (map line_productId ls) \<Longrightarrow>
   plan_loop settled ch ls =
     (fold settle_one ls settled,
      ch\<lparr>writes := writes ch @ written_lines settled ls, removals := removals ch @ removed_ids settled ls,
         to_reserve := to_reserve ch @ grow_lines settled ls,
         to_release := to_release ch @ shrink_lines settled ls\<rparr>)"
proof (induction ls arbitrary: settled ch)
  case Nil
  then show ?case by (simp add: plan_lists)
next
  case (Cons l ls)
  have other: "units_held (settle_one l settled) (line_productId m) = units_held settled (line_productId m)"
    if "m \<in> set ls" for m
    using Cons.prems that by (metis distinct.simps(2) image_eqI list.simps(9) list.set_map units_held_settle_one)
  note IH = Cons.IH [of "settle_one l settled"] and same = plan_lists_cong [OF other]
  have "distinct (map line_productId ls)" using Cons.prems by simp
  with IH same show ?case
    by (auto simp: Let_def settle_one_def plan_lists simp del: mkLine_def)
qed

lemma planChanges_closed:
  assumes "distinct (map line_productId request)"
  shows "planChanges held request =
    \<lparr>writes = written_lines held request, removals = removed_ids held request,
     to_reserve = grow_lines held request, to_release = shrink_lines held request,
     plan_size = length (fold settle_one request held)\<rparr>"
  using plan_loop_closed [OF assms, of held no_changes] by (simp add: planChanges_def no_changes_def)


definition valid_request :: "CartLine list \<Rightarrow> bool" where
  "valid_request ls \<longleftrightarrow> distinct (map line_productId ls) \<and> list_all (\<lambda>l. 0 \<le> line_quantity l) ls"

lemma valid_request_Cons:
  "valid_request (l # ls) \<Longrightarrow> valid_request ls \<and> 0 \<le> line_quantity l \<and> line_productId l \<notin> line_productId ` set ls"
  by (simp add: valid_request_def)

lemma line_units_Nil [simp]: "line_units [] p = 0"
  by (simp add: line_units_def)

lemma line_units_Cons [simp]:
  "line_units (l # ls) p = (if line_productId l = p then line_quantity l else 0) + line_units ls p"
  by (simp add: line_units_def)

lemma line_units_append [simp]: "line_units (xs @ ys) p = line_units xs p + line_units ys p"
  by (induction xs) simp_all

lemma line_units_absent: "p \<notin> line_productId ` set ls \<Longrightarrow> line_units ls p = 0"
  by (induction ls) auto

lemma settled_units:
  "distinct (map line_productId ls) \<Longrightarrow> units_held (fold settle_one ls held) p = wanted held ls p"
proof (induction ls arbitrary: held)
  case Nil
  then show ?case by (simp add: wanted_def)
next
  case (Cons l ls)
  then have "units_held (fold settle_one (l # ls) held) p = wanted (settle_one l held) ls p" by simp
  also have "\<dots> = wanted held (l # ls) p"
    using Cons.prems
    by (auto simp: wanted_def units_held_settle_one find_None_iff split: option.splits dest!: find_Some_mem)
  finally show ?case .
qed

lemma settled_positive:
  "list_all (\<lambda>l. 0 \<le> line_quantity l) ls \<Longrightarrow> positive_map held \<Longrightarrow> positive_map (fold settle_one ls held)"
  by (induction ls arbitrary: held) (auto simp: settle_one_def positive_map_update positive_map_delete)

lemma moved_units:
  "distinct (map line_productId ls) \<Longrightarrow>
   units_held held p + line_units (grow_lines held ls) p - line_units (shrink_lines held ls) p = wanted held ls p"
proof (induction ls)
  case Nil
  then show ?case by (simp add: plan_lists wanted_def)
next
  case (Cons l ls)
  have rest: "p = line_productId l \<Longrightarrow> line_units (grow_lines held ls) p = 0 \<and> line_units (shrink_lines held ls) p = 0"
    using Cons.prems by (auto simp: plan_lists intro!: line_units_absent)
  have "p = line_productId l \<Longrightarrow> wanted held (l # ls) p = line_quantity l"
    and "p \<noteq> line_productId l \<Longrightarrow> wanted held (l # ls) p = wanted held ls p"
    by (auto simp: wanted_def)
  with Cons rest show ?case by (auto simp: plan_lists)
qed

lemma one_direction:
  "distinct (map line_productId ls) \<Longrightarrow>
   line_units (grow_lines held ls) p = 0 \<or> line_units (shrink_lines held ls) p = 0"
proof (induction ls)
  case (Cons l ls)
  have "p = line_productId l \<Longrightarrow> line_units (grow_lines held ls) p = 0 \<and> line_units (shrink_lines held ls) p = 0"
    using Cons.prems by (auto simp: plan_lists intro!: line_units_absent)
  with Cons show ?case by (cases "p = line_productId l") (auto simp: plan_lists)
qed (simp add: plan_lists)

definition apply_plan :: "CartChanges \<Rightarrow> held_map \<Rightarrow> held_map" where
  "apply_plan ch held = fold AList.delete (removals ch)
     (fold (\<lambda>l. AList.update (line_productId l) (line_quantity l)) (writes ch) held)"

lemma units_held_writes:
  "distinct (map line_productId ls) \<Longrightarrow>
   units_held (fold (\<lambda>l. AList.update (line_productId l) (line_quantity l)) ls held) p =
     (case find (\<lambda>l. line_productId l = p) ls of Some l \<Rightarrow> line_quantity l | None \<Rightarrow> units_held held p)"
proof (induction ls arbitrary: held)
  case (Cons l ls)
  then show ?case
    by (auto simp: find_None_iff split: option.splits dest!: find_Some_mem)
qed simp

lemma units_held_removals:
  "units_held (fold AList.delete ps held) p = (if p \<in> set ps then 0 else units_held held p)"
  by (induction ps arbitrary: held) auto

lemma find_distinct:
  "distinct (map f xs) \<Longrightarrow> find (\<lambda>x. f x = p) xs = Some x \<longleftrightarrow> x \<in> set xs \<and> f x = p"
  by (induction xs) auto

lemma apply_plan_units:
  assumes dist: "distinct (map line_productId request)"
  shows "units_held (apply_plan (planChanges held request) held) p = wanted held request p"
proof -
  have dw: "distinct (map line_productId (written_lines held request))"
    using dist by (simp add: plan_lists distinct_map_filter)
  show ?thesis
  proof (cases "find (\<lambda>l. line_productId l = p) request")
    case None
    then have "p \<notin> line_productId ` set request" by (auto simp: find_None_iff)
    then have "p \<notin> set (removed_ids held request)"
      and "find (\<lambda>l. line_productId l = p) (written_lines held request) = None"
      by (auto simp: plan_lists find_None_iff)
    with None show ?thesis
      by (simp add: apply_plan_def planChanges_closed [OF dist] units_held_removals units_held_writes [OF dw] wanted_def)
  next
    case (Some l)
    then have l: "l \<in> set request" "line_productId l = p" using find_distinct [OF dist] by auto
    have rem: "p \<in> set (removed_ids held request) \<longleftrightarrow> line_quantity l \<noteq> units_held held p \<and> line_quantity l = 0"
      using l dist by (auto simp: plan_lists distinct_map dest: inj_onD)
    have wr: "find (\<lambda>l. line_productId l = p) (written_lines held request) =
        (if line_quantity l \<noteq> units_held held p \<and> line_quantity l \<noteq> 0 then Some l else None)"
    proof (cases "line_quantity l \<noteq> units_held held p \<and> line_quantity l \<noteq> 0")
      case True
      then show ?thesis using l find_distinct [OF dw, of p l] by (simp add: plan_lists)
    next
      case False
      then have "\<And>m. m \<in> set (written_lines held request) \<Longrightarrow> line_productId m \<noteq> p"
        using l dist by (auto simp: plan_lists distinct_map dest: inj_onD)
      with False show ?thesis by (auto simp: find_None_iff)
    qed
    from Some rem wr show ?thesis
      by (auto simp: apply_plan_def planChanges_closed [OF dist] units_held_removals units_held_writes [OF dw] wanted_def)
  qed
qed

text \<open>
  Property C8. The plan turns absolute quantities into exact deltas: for every product, what the
  cart holds plus what the plan reserves minus what it releases is what the request asks for (or
  what was held, when the request does not name the product); no product is both reserved and
  released; and applying the plan's writes and removals to the stored cart yields those same
  quantities, with the size the plan announces.
\<close>

theorem planChanges_exact:
  assumes "valid_request request" and "positive_map held"
  shows "let ch = planChanges held request in
    (\<forall>p. units_held held p + line_units (to_reserve ch) p - line_units (to_release ch) p = wanted held request p \<and>
         (line_units (to_reserve ch) p = 0 \<or> line_units (to_release ch) p = 0) \<and>
         units_held (apply_plan ch held) p = wanted held request p) \<and>
    plan_size ch = card {p. 0 < wanted held request p}"
proof -
  have dist: "distinct (map line_productId request)" and nonneg: "list_all (\<lambda>l. 0 \<le> line_quantity l) request"
    using assms(1) by (simp_all add: valid_request_def)
  let ?s = "fold settle_one request held"
  have pos: "positive_map ?s" by (rule settled_positive [OF nonneg assms(2)])
  have "0 < wanted held request p \<longleftrightarrow> p \<in> fst ` set ?s" for p
    using units_held_zero_iff [OF pos, of p] units_held_nonneg [OF pos, of p]
    unfolding settled_units [OF dist] by linarith
  then have "{p. 0 < wanted held request p} = fst ` set ?s" by auto
  moreover have "card (fst ` set ?s) = length ?s"
    using pos by (metis positive_map_def distinct_card length_map set_map)
  ultimately show ?thesis
    using moved_units [OF dist] one_direction [OF dist] apply_plan_units [OF dist]
    by (simp add: Let_def planChanges_closed [OF dist])
qed

theorem planChanges_exact_witness:
  "let ch = planChanges [(''a'', 5), (''b'', 2)] [mkLine ''a'' 10, mkLine ''b'' 0, mkLine ''c'' 1] in
     line_units (to_reserve ch) ''a'' = 5 \<and> line_units (to_release ch) ''b'' = 2 \<and> plan_size ch = 2"
proof -
  let ?r = "[mkLine ''a'' 10, mkLine ''b'' 0, mkLine ''c'' 1]" and ?h = "[(''a'', 5::int), (''b'', 2)]"
  have v: "valid_request ?r" and h: "positive_map ?h"
    by (simp_all add: valid_request_def positive_map_def)
  have sz: "plan_size (planChanges ?h ?r) = 2" by code_simp
  have "wanted ?h ?r ''a'' = 10" "wanted ?h ?r ''b'' = 0" "units_held ?h ''a'' = 5" "units_held ?h ''b'' = 2"
    by code_simp+
  moreover have "line_units (to_release (planChanges ?h ?r)) ''a'' = 0"
    "line_units (to_reserve (planChanges ?h ?r)) ''b'' = 0"
    by code_simp+
  ultimately show ?thesis
    using planChanges_exact [OF v h, unfolded Let_def, THEN conjunct1, rule_format, of "''a''"]
      planChanges_exact [OF v h, unfolded Let_def, THEN conjunct1, rule_format, of "''b''"] sz
    by (simp add: Let_def)
qed


section \<open>A plan's batches fit the inventory's bulk endpoints\<close>

lemma plan_batch_ids:
  assumes "distinct (map line_productId request)"
  shows "distinct (map line_productId (grow_lines held request))"
    and "distinct (map line_productId (shrink_lines held request))"
  using assms by (simp_all add: plan_lists comp_def distinct_map_filter)

lemma plan_batch_positive:
  "list_all (\<lambda>l. 0 < line_quantity l) (grow_lines held request)"
  "list_all (\<lambda>l. 0 < line_quantity l) (shrink_lines held request)"
  by (auto simp: plan_lists list_all_iff)

lemma grow_lines_length:
  assumes "valid_request request" and "positive_map held"
  shows "length (grow_lines held request) \<le> length (fold settle_one request held)"
proof -
  have dist: "distinct (map line_productId request)" and nonneg: "list_all (\<lambda>l. 0 \<le> line_quantity l) request"
    using assms(1) by (simp_all add: valid_request_def)
  let ?s = "fold settle_one request held"
  have pos: "positive_map ?s" by (rule settled_positive [OF nonneg assms(2)])
  have "line_productId l \<in> fst ` set ?s" if "l \<in> set (grow_lines held request)" for l
  proof -
    from that obtain m where m: "m \<in> set request" "line_productId l = line_productId m"
      "line_quantity m > units_held held (line_productId m)"
      by (auto simp: plan_lists)
    then have "wanted held request (line_productId m) = line_quantity m"
      using find_distinct [OF dist, of "line_productId m" m] by (simp add: wanted_def)
    with m show ?thesis
      using units_held_zero_iff [OF pos, of "line_productId m"] units_held_nonneg [OF assms(2), of "line_productId m"]
      unfolding settled_units [OF dist] by auto
  qed
  then have "set (map line_productId (grow_lines held request)) \<subseteq> fst ` set ?s" by auto
  then have "card (set (map line_productId (grow_lines held request))) \<le> card (fst ` set ?s)"
    by (intro card_mono) auto
  then show ?thesis
    using distinct_card [OF plan_batch_ids(1) [OF dist, of held]] card_image_le [of "set ?s" fst] card_length [of ?s]
    by simp
qed

lemma shrink_lines_length:
  assumes "valid_request request" and "positive_map held"
  shows "length (shrink_lines held request) \<le> length held"
proof -
  have dist: "distinct (map line_productId request)" and nonneg: "list_all (\<lambda>l. 0 \<le> line_quantity l) request"
    using assms(1) by (simp_all add: valid_request_def)
  have "line_productId l \<in> fst ` set held" if "l \<in> set (shrink_lines held request)" for l
    using that nonneg units_held_zero_iff [OF assms(2), of "line_productId l"]
    by (force simp: plan_lists list_all_iff)
  then have "set (map line_productId (shrink_lines held request)) \<subseteq> fst ` set held" by auto
  then have "card (set (map line_productId (shrink_lines held request))) \<le> card (fst ` set held)"
    by (intro card_mono) auto
  then show ?thesis
    using distinct_card [OF plan_batch_ids(2) [OF dist, of held]] card_image_le [of "set held" fst] card_length [of held]
    by simp
qed

text \<open>
  Whatever a plan sends to inventory is a batch inventory accepts: as long as the cart
  started within the cap and the plan does not exceed it, each non-empty batch has distinct
  products, positive quantities and at most fifty lines, and the settled cart is within the cap
  again, so that a later release of the whole cart fits one call too.
\<close>

theorem plan_batches_valid:
  assumes "valid_request request" and "positive_map held" and "length held \<le> MAX_BULK_LINES"
    and "\<not> exceedsBulkLimit (planChanges held request)"
  shows "(to_reserve (planChanges held request) \<noteq> [] \<longrightarrow>
            valid_bulk \<lparr>bulk_items = to_reserve (planChanges held request), bulk_reason = r, bulk_reference = ref\<rparr>) \<and>
         (to_release (planChanges held request) \<noteq> [] \<longrightarrow>
            valid_bulk \<lparr>bulk_items = to_release (planChanges held request), bulk_reason = r, bulk_reference = ref\<rparr>) \<and>
         card {p. 0 < units_held (apply_plan (planChanges held request) held) p} \<le> MAX_BULK_LINES"
proof -
  have dist: "distinct (map line_productId request)" and nonneg: "list_all (\<lambda>l. 0 \<le> line_quantity l) request"
    using assms(1) by (simp_all add: valid_request_def)
  have size: "length (fold settle_one request held) \<le> MAX_BULK_LINES"
    using assms(4) by (simp add: exceedsBulkLimit_def planChanges_closed [OF dist])
  have pos: "positive_map (fold settle_one request held)" by (rule settled_positive [OF nonneg assms(2)])
  have "units_held (apply_plan (planChanges held request) held) p = units_held (fold settle_one request held) p" for p
    using apply_plan_units [OF dist] settled_units [OF dist] by simp
  then have "{p. 0 < units_held (apply_plan (planChanges held request) held) p} \<subseteq> fst ` set (fold settle_one request held)"
    using units_held_zero_iff [OF pos] by (metis (mono_tags, lifting) less_irrefl mem_Collect_eq subsetI)
  then have "card {p. 0 < units_held (apply_plan (planChanges held request) held) p} \<le> MAX_BULK_LINES"
    using card_mono [of "fst ` set (fold settle_one request held)"] size
      card_image_le [of "set (fold settle_one request held)" fst] card_length [of "fold settle_one request held"]
    by (meson List.finite_set finite_imageI le_trans)
  then show ?thesis
    using grow_lines_length [OF assms(1,2)] shrink_lines_length [OF assms(1,2)] size assms(3)
      plan_batch_ids [OF dist] plan_batch_positive
    by (simp add: planChanges_closed [OF dist] valid_bulk_def)
qed

theorem plan_batches_valid_witness:
  "valid_bulk \<lparr>bulk_items = to_release (planChanges [(''a'', 5)] [mkLine ''a'' 2]), bulk_reason = None,
     bulk_reference = ''cart-1''\<rparr>"
proof -
  have "valid_request [mkLine ''a'' 2]" "positive_map [(''a'', 5)]" "length [(''a'', 5 :: int)] \<le> MAX_BULK_LINES"
    by (simp_all add: valid_request_def positive_map_def MAX_BULK_LINES_def)
  moreover have "\<not> exceedsBulkLimit (planChanges [(''a'', 5)] [mkLine ''a'' 2])"
    "to_release (planChanges [(''a'', 5)] [mkLine ''a'' 2]) \<noteq> []" by code_simp+
  ultimately show ?thesis
    using plan_batches_valid [of "[mkLine ''a'' 2]" "[(''a'', 5)]" None "''cart-1''"] by blast
qed

section \<open>Duplicates\<close>

definition mentions :: "CartLine list \<Rightarrow> string \<Rightarrow> nat" where
  "mentions ls p = length (filter (\<lambda>l. line_productId l = p) ls)"

lemma mentions_simps [simp]:
  "mentions [] p = 0" "mentions (l # ls) p = (if line_productId l = p then 1 else 0) + mentions ls p"
  by (simp_all add: mentions_def)

lemma duplicates_loop_spec:
  "p \<in> set (duplicates_loop seen dups ls) \<longleftrightarrow>
     p \<in> set dups \<or> p \<in> set seen \<and> 1 \<le> mentions ls p \<or> 2 \<le> mentions ls p"
  by (induction seen dups ls rule: duplicates_loop.induct) (auto simp: Let_def)

text \<open>
  A request is refused as ambiguous exactly when it names a product more than once:
  the duplicates the planner reports are precisely the products mentioned at least twice.
\<close>

theorem duplicateProductIds_exact:
  "p \<in> set (duplicateProductIds ls) \<longleftrightarrow> 2 \<le> mentions ls p"
  by (simp add: duplicateProductIds_def duplicates_loop_spec)

lemma mentions_zero: "mentions ls p = 0 \<longleftrightarrow> p \<notin> line_productId ` set ls"
  by (induction ls) auto

lemma distinct_mentions: "distinct (map line_productId ls) \<longleftrightarrow> (\<forall>p. mentions ls p < 2)"
proof (induction ls)
  case (Cons l ls)
  have "mentions (l # ls) p < 2 \<longleftrightarrow>
      mentions ls p < 2 \<and> (p = line_productId l \<longrightarrow> mentions ls p = 0)" for p
    by auto
  then have "(\<forall>p. mentions (l # ls) p < 2) \<longleftrightarrow> (\<forall>p. mentions ls p < 2) \<and> mentions ls (line_productId l) = 0"
    by blast
  then show ?case using Cons.IH mentions_zero [of ls "line_productId l"] by (simp add: conj_commute)
qed simp

lemma no_duplicates_distinct: "duplicateProductIds ls = [] \<longleftrightarrow> distinct (map line_productId ls)"
proof -
  have "duplicateProductIds ls = [] \<longleftrightarrow> (\<forall>p. p \<notin> set (duplicateProductIds ls))"
    by (cases "duplicateProductIds ls") auto
  also have "\<dots> \<longleftrightarrow> (\<forall>p. mentions ls p < 2)"
    by (simp add: duplicateProductIds_def duplicates_loop_spec not_le)
  finally show ?thesis unfolding distinct_mentions .
qed

end
