(* ===== verification/CartStore.thy ===== *)
theory CartStore
  imports CartPlanner
begin

text \<open>
  The cart's Redis state and every access to it: the key names and lifetimes
  (\<^verbatim>\<open>services/cart/src/cart/cart.keys.ts\<close>), the Lua scripts (\<^verbatim>\<open>cart.scripts.ts\<close>) and the repository that
  calls them (\<^verbatim>\<open>cart.repository.ts\<close>). Redis is the state: hashes and strings with an optional
  expiry in milliseconds, sorted sets, and its clock; a key whose expiry has passed reads as absent.
  The key prefix the client adds to every name is left out, except where a notification hands a
  name back. Values reach the scripts as text, as they do on the wire.
\<close>

section \<open>Redis\<close>

record redis_db =
  clock :: int
  hashes :: "string \<Rightarrow> ((string \<times> string) list \<times> int option) option"
  strings :: "string \<Rightarrow> (string \<times> int option) option"
  zsets :: "string \<Rightarrow> (string \<times> int) list"

definition expired :: "redis_db \<Rightarrow> int option \<Rightarrow> bool" where
  "expired r e = (case e of None \<Rightarrow> False | Some t \<Rightarrow> t \<le> clock r)"

definition live_hash :: "redis_db \<Rightarrow> string \<Rightarrow> ((string \<times> string) list \<times> int option) option" where
  "live_hash r k = (case hashes r k of
     None \<Rightarrow> None | Some (h, e) \<Rightarrow> if expired r e then None else Some (h, e))"

definition live_string :: "redis_db \<Rightarrow> string \<Rightarrow> (string \<times> int option) option" where
  "live_string r k = (case strings r k of
     None \<Rightarrow> None | Some (v, e) \<Rightarrow> if expired r e then None else Some (v, e))"

definition HGETALL :: "redis_db \<Rightarrow> string \<Rightarrow> (string \<times> string) list" where
  "HGETALL r k = (case live_hash r k of None \<Rightarrow> [] | Some (h, _) \<Rightarrow> h)"

definition HSET :: "string \<Rightarrow> (string \<times> string) list \<Rightarrow> redis_db \<Rightarrow> redis_db" where
  "HSET k fvs r = (let (h, e) = (case live_hash r k of None \<Rightarrow> ([], None) | Some he \<Rightarrow> he) in
     r\<lparr>hashes := (hashes r)(k \<mapsto> (fold (\<lambda>(f, v). AList.update f v) fvs h, e))\<rparr>)"

text \<open>A hash that loses its last field is gone.\<close>

definition HDEL :: "string \<Rightarrow> string list \<Rightarrow> redis_db \<Rightarrow> redis_db" where
  "HDEL k fs r = (case live_hash r k of
     None \<Rightarrow> r
   | Some (h, e) \<Rightarrow>
       (let h' = fold AList.delete fs h in
        r\<lparr>hashes := (hashes r)(k := (if h' = [] then None else Some (h', e)))\<rparr>))"

definition EXPIRE_hash :: "string \<Rightarrow> int \<Rightarrow> redis_db \<Rightarrow> redis_db" where
  "EXPIRE_hash k secs r = (case live_hash r k of
     None \<Rightarrow> r | Some (h, _) \<Rightarrow> r\<lparr>hashes := (hashes r)(k \<mapsto> (h, Some (clock r + secs * 1000)))\<rparr>)"

definition EXPIRE_string :: "string \<Rightarrow> int \<Rightarrow> redis_db \<Rightarrow> redis_db" where
  "EXPIRE_string k secs r = (case live_string r k of
     None \<Rightarrow> r | Some (v, _) \<Rightarrow> r\<lparr>strings := (strings r)(k \<mapsto> (v, Some (clock r + secs * 1000)))\<rparr>)"

definition SET_EX :: "string \<Rightarrow> string \<Rightarrow> int \<Rightarrow> redis_db \<Rightarrow> redis_db" where
  "SET_EX k v secs r = r\<lparr>strings := (strings r)(k \<mapsto> (v, Some (clock r + secs * 1000)))\<rparr>"

definition DEL_hash :: "string \<Rightarrow> redis_db \<Rightarrow> redis_db" where
  "DEL_hash k r = r\<lparr>hashes := (hashes r)(k := None)\<rparr>"

definition DEL_string :: "string \<Rightarrow> redis_db \<Rightarrow> redis_db" where
  "DEL_string k r = r\<lparr>strings := (strings r)(k := None)\<rparr>"

definition ZADD :: "string \<Rightarrow> int \<Rightarrow> string \<Rightarrow> redis_db \<Rightarrow> redis_db" where
  "ZADD k score m r = r\<lparr>zsets := (zsets r)(k := AList.update m score (zsets r k))\<rparr>"

definition ZREM :: "string \<Rightarrow> string \<Rightarrow> redis_db \<Rightarrow> redis_db" where
  "ZREM k m r = r\<lparr>zsets := (zsets r)(k := AList.delete m (zsets r k))\<rparr>"

section \<open>Keys and lifetimes\<close>

record cart_env =
  CART_TTL_SECONDS :: int
  CART_TTL_GRACE_SECONDS :: int
  REDIS_KEY_PREFIX :: string
  host_clock :: "int \<Rightarrow> int"

definition sessionTtlSeconds :: "cart_env \<Rightarrow> int" where
  "sessionTtlSeconds env = CART_TTL_SECONDS env"

definition itemsTtlSeconds :: "cart_env \<Rightarrow> int" where
  "itemsTtlSeconds env = CART_TTL_SECONDS env + CART_TTL_GRACE_SECONDS env"

definition inFlightTtlSeconds :: "cart_env \<Rightarrow> int" where
  "inFlightTtlSeconds env = CART_TTL_GRACE_SECONDS env"

definition session_key :: "string \<Rightarrow> string" where "session_key sid = ''session:'' @ sid"
definition items_key :: "string \<Rightarrow> string" where "items_key sid = ''cart:'' @ sid"
definition writeLock :: "string \<Rightarrow> string" where "writeLock sid = ''lock:'' @ sid"
definition releaseLock :: "string \<Rightarrow> string" where "releaseLock sid = ''releasing:'' @ sid"
definition dueIndex :: string where "dueIndex = ''due''"

definition starts_with :: "string \<Rightarrow> string \<Rightarrow> bool" where
  "starts_with p s \<longleftrightarrow> take (length p) s = p"

definition sessionIdFromExpiredKey :: "cart_env \<Rightarrow> string \<Rightarrow> string option" where
  "sessionIdFromExpiredKey env key =
     (let prefix = REDIS_KEY_PREFIX env @ session_key '''' in
      if \<not> starts_with prefix key then None
      else let sid = drop (length prefix) key in if length sid > 0 then Some sid else None)"

section \<open>The scripts\<close>

fun flat_entries :: "(string \<times> string) list \<Rightarrow> string list" where
  "flat_entries [] = []"
| "flat_entries ((f, v) # rest) = f # v # flat_entries rest"

fun pairs :: "string list \<Rightarrow> (string \<times> string) list" where
  "pairs (f # v # rest) = (f, v) # pairs rest"
| "pairs _ = []"

text \<open>\<open>ARGV[n]\<close> is \<open>argv ! (n - 1)\<close>; the numeric arguments are whole numbers in decimal.\<close>

definition cartCommit :: "string \<Rightarrow> string \<Rightarrow> string \<Rightarrow> string list \<Rightarrow> redis_db \<Rightarrow> string list \<times> redis_db" where
  "cartCommit items session due argv r =
     (let pairCount = digits_val (argv ! 4);
          sets = take (pairCount * 2) (drop 5 argv);
          removed = drop (5 + pairCount * 2) argv;
          r1 = (if pairCount > 0 then HSET items (pairs sets) r else r);
          r2 = (if length removed > 0 then HDEL items removed r1 else r1);
          r3 = (if live_hash r2 items \<noteq> None
                then ZADD due (int (digits_val (argv ! 3))) (argv ! 0)
                       (SET_EX session (argv ! 0) (int (digits_val (argv ! 1)))
                         (EXPIRE_hash items (int (digits_val (argv ! 2))) r2))
                else ZREM due (argv ! 0) (DEL_string session r2))
      in (flat_entries (HGETALL r3 items), r3))"

definition cartTouch ::
  "string \<Rightarrow> string \<Rightarrow> string \<Rightarrow> string \<Rightarrow> int \<Rightarrow> int \<Rightarrow> int \<Rightarrow> redis_db \<Rightarrow> int \<times> redis_db" where
  "cartTouch session items due sid sessionTtl itemsTtl dueAt r =
     (if live_string r session = None then (0, r)
      else
        let r1 = EXPIRE_string session sessionTtl r;
            r2 = (if live_hash r1 items \<noteq> None
                  then ZADD due dueAt sid (EXPIRE_hash items itemsTtl r1) else r1)
        in (1, r2))"

definition cartTake :: "string \<Rightarrow> int \<Rightarrow> redis_db \<Rightarrow> string list \<times> redis_db" where
  "cartTake items secs r =
     (let reply = flat_entries (HGETALL r items) in
      (reply, if length reply > 0 then EXPIRE_hash items secs r else r))"

definition cartFinish :: "string \<Rightarrow> string \<Rightarrow> string \<Rightarrow> redis_db \<Rightarrow> redis_db" where
  "cartFinish items due sid r = ZREM due sid (DEL_hash items r)"

definition cartDiscard :: "string \<Rightarrow> string \<Rightarrow> string \<Rightarrow> string \<Rightarrow> redis_db \<Rightarrow> redis_db" where
  "cartDiscard items session due sid r = ZREM due sid (DEL_string session (DEL_hash items r))"

section \<open>The repository\<close>

text \<open>
  \<^verbatim>\<open>Date.now()\<close> reads the host's clock, not Redis's: \<open>host_clock env t\<close> is what it shows when Redis's
  shows \<open>t\<close>.
\<close>

definition dateNow :: "cart_env \<Rightarrow> redis_db \<Rightarrow> int" where
  "dateNow env r = host_clock env (clock r)"

definition dueAt :: "cart_env \<Rightarrow> redis_db \<Rightarrow> int" where
  "dueAt env r = dateNow env r + sessionTtlSeconds env * 1000"

definition repo_held :: "string \<Rightarrow> redis_db \<Rightarrow> held_map" where
  "repo_held sid r = heldQuantities (HGETALL r (items_key sid))"

definition repo_lines :: "(string \<Rightarrow> string \<Rightarrow> int) \<Rightarrow> string \<Rightarrow> redis_db \<Rightarrow> CartLine list" where
  "repo_lines localeCompare sid r = toCartLines localeCompare (repo_held sid r)"

definition commit_argv :: "cart_env \<Rightarrow> string \<Rightarrow> CartChanges \<Rightarrow> redis_db \<Rightarrow> string list" where
  "commit_argv env sid ch r =
     [sid, int_str (sessionTtlSeconds env), int_str (itemsTtlSeconds env), int_str (dueAt env r),
      int_str (int (length (writes ch)))]
     @ concat (map (\<lambda>l. [line_productId l, int_str (line_quantity l)]) (writes ch))
     @ removals ch"

definition repo_commit ::
  "cart_env \<Rightarrow> (string \<Rightarrow> string \<Rightarrow> int) \<Rightarrow> string \<Rightarrow> CartChanges \<Rightarrow> redis_db \<Rightarrow> CartLine list \<times> redis_db" where
  "repo_commit env localeCompare sid ch r =
     (let (settled, r') = cartCommit (items_key sid) (session_key sid) dueIndex (commit_argv env sid ch r) r
      in (toCartLines localeCompare (heldQuantities (pairs settled)), r'))"

definition repo_touch :: "cart_env \<Rightarrow> string \<Rightarrow> redis_db \<Rightarrow> bool \<times> redis_db" where
  "repo_touch env sid r =
     (let (alive, r') = cartTouch (session_key sid) (items_key sid) dueIndex sid
            (sessionTtlSeconds env) (itemsTtlSeconds env) (dueAt env r) r
      in (alive = 1, r'))"

definition startSession :: "cart_env \<Rightarrow> string \<Rightarrow> redis_db \<Rightarrow> redis_db" where
  "startSession env sid r = SET_EX (session_key sid) sid (sessionTtlSeconds env) r"

definition takeHeldLines ::
  "cart_env \<Rightarrow> (string \<Rightarrow> string \<Rightarrow> int) \<Rightarrow> string \<Rightarrow> redis_db \<Rightarrow> CartLine list \<times> redis_db" where
  "takeHeldLines env localeCompare sid r =
     (let (reply, r') = cartTake (items_key sid) (inFlightTtlSeconds env) r
      in (toCartLines localeCompare (heldQuantities (pairs reply)), r'))"

definition retire :: "string \<Rightarrow> redis_db \<Rightarrow> redis_db" where
  "retire sid r = cartFinish (items_key sid) dueIndex sid r"

definition discard :: "string \<Rightarrow> redis_db \<Rightarrow> redis_db" where
  "discard sid r = cartDiscard (items_key sid) (session_key sid) dueIndex sid r"

definition forget :: "string \<Rightarrow> redis_db \<Rightarrow> redis_db" where
  "forget sid r = ZREM dueIndex sid r"

definition scheduleRelease :: "string \<Rightarrow> int \<Rightarrow> redis_db \<Rightarrow> redis_db" where
  "scheduleRelease sid atMs r = ZADD dueIndex atMs sid r"

text \<open>Members by score, ties by name, the first \<open>limit\<close> of those due.\<close>

definition dueBefore :: "int \<Rightarrow> nat \<Rightarrow> redis_db \<Rightarrow> string list" where
  "dueBefore atMs limit r = take limit
     (map fst (sort_key snd (sort_key fst (filter (\<lambda>(m, score). score \<le> atMs) (zsets r dueIndex)))))"

definition sessionTtlMs :: "string \<Rightarrow> redis_db \<Rightarrow> int" where
  "sessionTtlMs sid r = (case live_string r (session_key sid) of
     None \<Rightarrow> -2 | Some (_, None) \<Rightarrow> -1 | Some (_, Some t) \<Rightarrow> t - clock r)"

section \<open>What the commands do to the stored hashes\<close>

lemma expired_frame [simp]:
  "expired (r\<lparr>hashes := H\<rparr>) e = expired r e" "expired (r\<lparr>strings := S\<rparr>) e = expired r e"
  "expired (r\<lparr>zsets := Z\<rparr>) e = expired r e"
  by (simp_all add: expired_def split: option.split)

definition hashes_ok :: "redis_db \<Rightarrow> bool" where
  "hashes_ok r \<longleftrightarrow> (\<forall>k h e. live_hash r k = Some (h, e) \<longrightarrow> h \<noteq> [])"

lemma live_hash_HSET:
  "live_hash (HSET k fvs r) k' =
     (if k' = k then Some (fold (\<lambda>(f, v). AList.update f v) fvs (HGETALL r k),
                           case live_hash r k of None \<Rightarrow> None | Some (_, e) \<Rightarrow> e)
      else live_hash r k')"
  by (auto simp: HSET_def live_hash_def HGETALL_def expired_def Let_def split: option.splits prod.splits if_splits)

lemma live_hash_HDEL:
  "live_hash (HDEL k fs r) k' =
     (if k' = k then (case live_hash r k of
        None \<Rightarrow> None
      | Some (h, e) \<Rightarrow> if fold AList.delete fs h = [] then None else Some (fold AList.delete fs h, e))
      else live_hash r k')"
  by (auto simp: HDEL_def live_hash_def Let_def split: option.splits prod.splits if_splits)

lemma live_hash_EXPIRE:
  "0 < secs \<Longrightarrow> live_hash (EXPIRE_hash k secs r) k' =
     (if k' = k then map_option (\<lambda>(h, _). (h, Some (clock r + secs * 1000))) (live_hash r k) else live_hash r k')"
  by (auto simp: EXPIRE_hash_def live_hash_def expired_def split: option.splits prod.splits if_splits)

lemma live_hash_frame [simp]:
  "live_hash (SET_EX k v n r) = live_hash r" "live_hash (ZADD k n m r) = live_hash r"
  "live_hash (ZREM k m r) = live_hash r" "live_hash (DEL_string k r) = live_hash r"
  "live_hash (EXPIRE_string k n r) = live_hash r"
  by (auto simp: fun_eq_iff live_hash_def expired_def SET_EX_def ZADD_def ZREM_def DEL_string_def
      EXPIRE_string_def split: option.splits)

lemma live_hash_DEL [simp]: "live_hash (DEL_hash k r) k' = (if k' = k then None else live_hash r k')"
  by (auto simp: live_hash_def DEL_hash_def split: option.splits)

lemma HGETALL_HSET:
  "HGETALL (HSET k fvs r) k' =
     (if k' = k then fold (\<lambda>(f, v). AList.update f v) fvs (HGETALL r k) else HGETALL r k')"
  by (simp add: HGETALL_def [of "HSET k fvs r"] live_hash_HSET) (simp add: HGETALL_def)

lemma fold_delete_Nil [simp]: "fold AList.delete fs [] = []"
  by (induction fs) simp_all

lemma HGETALL_HDEL:
  "HGETALL (HDEL k fs r) k' = (if k' = k then fold AList.delete fs (HGETALL r k) else HGETALL r k')"
  by (auto simp: HGETALL_def live_hash_HDEL split: option.splits)

lemma HGETALL_EXPIRE: "0 < secs \<Longrightarrow> HGETALL (EXPIRE_hash k secs r) k' = HGETALL r k'"
  by (auto simp: HGETALL_def live_hash_EXPIRE split: option.splits)

lemma HGETALL_frame [simp]:
  "HGETALL (SET_EX k v n r) = HGETALL r" "HGETALL (ZADD k n m r) = HGETALL r"
  "HGETALL (ZREM k m r) = HGETALL r" "HGETALL (DEL_string k r) = HGETALL r"
  "HGETALL (EXPIRE_string k n r) = HGETALL r"
  by (simp_all add: fun_eq_iff HGETALL_def)

lemma HGETALL_DEL [simp]: "HGETALL (DEL_hash k r) k' = (if k' = k then [] else HGETALL r k')"
  by (simp add: HGETALL_def)

lemma clock_frame [simp]:
  "clock (SET_EX k v n r) = clock r" "clock (ZADD k n m r) = clock r" "clock (ZREM k m r) = clock r"
  "clock (DEL_string k r) = clock r" "clock (DEL_hash k r) = clock r" "clock (HSET k fvs r) = clock r"
  "clock (HDEL k fs r) = clock r" "clock (EXPIRE_hash k n r) = clock r" "clock (EXPIRE_string k n r) = clock r"
  by (auto simp: SET_EX_def ZADD_def ZREM_def DEL_string_def DEL_hash_def HSET_def HDEL_def
      EXPIRE_hash_def EXPIRE_string_def Let_def split: option.splits prod.splits)

lemma live_hash_iff: "hashes_ok r \<Longrightarrow> live_hash r k \<noteq> None \<longleftrightarrow> HGETALL r k \<noteq> []"
  by (auto simp: hashes_ok_def HGETALL_def split: option.splits)

section \<open>A stored cart\<close>

text \<open>The text form of a cart's quantities, as the commit script stores it.\<close>

definition cart_hash :: "held_map \<Rightarrow> (string \<times> string) list" where
  "cart_hash held = map (\<lambda>(p, q). (p, int_str q)) held"

definition storable :: "held_map \<Rightarrow> bool" where
  "storable held \<longleftrightarrow> positive_map held \<and> '''' \<notin> fst ` set held"

definition carts_ok :: "redis_db \<Rightarrow> bool" where
  "carts_ok r \<longleftrightarrow> hashes_ok r \<and>
     (\<forall>sid. storable (repo_held sid r) \<and> HGETALL r (items_key sid) = cart_hash (repo_held sid r))"

lemma cart_hash_fst [simp]: "map fst (cart_hash held) = map fst held"
  by (simp add: cart_hash_def case_prod_beta comp_def)

lemma held_loop_cart_hash:
  "list_all (\<lambda>(p, q). 0 < q \<and> p \<noteq> []) held \<Longrightarrow> distinct (map fst held) \<Longrightarrow>
   set (map fst acc) \<inter> set (map fst held) = {} \<Longrightarrow> held_loop acc (cart_hash held) = acc @ held"
proof (induction held arbitrary: acc)
  case (Cons pq held)
  obtain p q where pq: "pq = (p, q)" by (cases pq)
  have "AList.update p q acc = acc @ [(p, q)]"
    using Cons.prems(3) pq by (induction acc) auto
  with Cons pq show ?case by (auto simp: cart_hash_def js_Number_int_str)
qed (simp add: cart_hash_def)

lemma heldQuantities_cart_hash: "storable held \<Longrightarrow> heldQuantities (cart_hash held) = held"
  unfolding heldQuantities_def
  by (subst held_loop_cart_hash) (force simp: storable_def positive_map_def list_all_iff)+

lemma cart_hash_update: "AList.update p (int_str q) (cart_hash held) = cart_hash (AList.update p q held)"
  by (induction held) (auto simp: cart_hash_def)

lemma cart_hash_delete: "AList.delete p (cart_hash held) = cart_hash (AList.delete p held)"
  by (induction held) (auto simp: cart_hash_def)

lemma cart_hash_writes:
  "fold (\<lambda>(f, v). AList.update f v) (map (\<lambda>l. (line_productId l, int_str (line_quantity l))) ws) (cart_hash held) =
     cart_hash (fold (\<lambda>l. AList.update (line_productId l) (line_quantity l)) ws held)"
  by (induction ws arbitrary: held) (simp_all add: cart_hash_update)

lemma cart_hash_removals: "fold AList.delete ps (cart_hash held) = cart_hash (fold AList.delete ps held)"
  by (induction ps arbitrary: held) (simp_all add: cart_hash_delete)

lemma storable_update: "storable held \<Longrightarrow> 0 < q \<Longrightarrow> p \<noteq> [] \<Longrightarrow> storable (AList.update p q held)"
  by (auto simp: storable_def positive_map_update dom_update)

lemma storable_delete: "storable held \<Longrightarrow> storable (AList.delete p held)"
  using dom_delete_subset [of p held] positive_map_delete [of held p] by (auto simp: storable_def AList.delete_eq)

lemma storable_writes:
  "storable held \<Longrightarrow> list_all (\<lambda>l. 0 < line_quantity l \<and> line_productId l \<noteq> []) ws \<Longrightarrow>
   storable (fold (\<lambda>l. AList.update (line_productId l) (line_quantity l)) ws held)"
  by (induction ws arbitrary: held) (auto simp: storable_update)

lemma storable_removals: "storable held \<Longrightarrow> storable (fold AList.delete ps held)"
  by (induction ps arbitrary: held) (auto simp: storable_delete)

lemma pairs_flat: "pairs (flat_entries es) = es"
  by (induction es rule: flat_entries.induct) simp_all

section \<open>The commit script reads back what the repository wrote\<close>

lemma digits_val_int_str: "0 \<le> n \<Longrightarrow> int (digits_val (int_str n)) = n"
  by (simp add: int_str_def digits_val_nat_digits)

lemma flat_writes_length: "length (concat (map (\<lambda>l. [line_productId l, int_str (line_quantity l)]) ws)) = length ws * 2"
  by (induction ws) simp_all

lemma pairs_writes:
  "pairs (concat (map (\<lambda>l. [line_productId l, int_str (line_quantity l)]) ws)) =
     map (\<lambda>l. (line_productId l, int_str (line_quantity l))) ws"
  by (induction ws) simp_all

lemma commit_argv_fields:
  "commit_argv env sid ch r ! 0 = sid"
  "commit_argv env sid ch r ! 1 = int_str (sessionTtlSeconds env)"
  "commit_argv env sid ch r ! 2 = int_str (itemsTtlSeconds env)"
  "commit_argv env sid ch r ! 3 = int_str (dueAt env r)"
  "digits_val (commit_argv env sid ch r ! 4) = length (writes ch)"
  by (simp_all add: commit_argv_def nth_append digits_val_nat_digits int_str_def numeral_eq_Suc)

lemma commit_argv_sets:
  "take (length (writes ch) * 2) (drop 5 (commit_argv env sid ch r)) =
     concat (map (\<lambda>l. [line_productId l, int_str (line_quantity l)]) (writes ch))"
  "drop (5 + length (writes ch) * 2) (commit_argv env sid ch r) = removals ch"
proof -
  let ?flat = "concat (map (\<lambda>l. [line_productId l, int_str (line_quantity l)]) (writes ch))"
  obtain hd5 where argv: "commit_argv env sid ch r = hd5 @ ?flat @ removals ch" and hd5: "length hd5 = 5"
    by (simp add: commit_argv_def)
  have len: "length ?flat = length (writes ch) * 2" by (rule flat_writes_length)
  show "take (length (writes ch) * 2) (drop 5 (commit_argv env sid ch r)) = ?flat"
    unfolding argv using hd5 len by simp
  show "drop (5 + length (writes ch) * 2) (commit_argv env sid ch r) = removals ch"
    unfolding argv using hd5 len by simp
qed

text \<open>The contents a commit leaves in the cart's hash, before the lifetimes are re-armed.\<close>

definition committed :: "string \<Rightarrow> CartChanges \<Rightarrow> redis_db \<Rightarrow> redis_db" where
  "committed sid ch r =
     (let r1 = (if writes ch \<noteq> [] then HSET (items_key sid)
                  (map (\<lambda>l. (line_productId l, int_str (line_quantity l))) (writes ch)) r else r)
      in if removals ch \<noteq> [] then HDEL (items_key sid) (removals ch) r1 else r1)"

definition lifetimes_ok :: "cart_env \<Rightarrow> bool" where
  "lifetimes_ok env \<longleftrightarrow> 0 < CART_TTL_SECONDS env \<and> 0 < CART_TTL_GRACE_SECONDS env \<and>
     (\<forall>t. 0 \<le> t \<longrightarrow> 0 \<le> host_clock env t)"

lemma lifetimes_positive:
  assumes "lifetimes_ok env"
  shows "0 < sessionTtlSeconds env" "0 < itemsTtlSeconds env" "0 < inFlightTtlSeconds env"
  using assms by (simp_all add: lifetimes_ok_def sessionTtlSeconds_def itemsTtlSeconds_def inFlightTtlSeconds_def)

lemma cartCommit_eq:
  assumes "lifetimes_ok env" and "0 \<le> clock r"
  shows "cartCommit (items_key sid) (session_key sid) dueIndex (commit_argv env sid ch r) r =
    (let r2 = committed sid ch r;
         r3 = (if live_hash r2 (items_key sid) \<noteq> None
               then ZADD dueIndex (dueAt env r) sid (SET_EX (session_key sid) sid (sessionTtlSeconds env)
                      (EXPIRE_hash (items_key sid) (itemsTtlSeconds env) r2))
               else ZREM dueIndex sid (DEL_string (session_key sid) r2))
     in (flat_entries (HGETALL r3 (items_key sid)), r3))"
proof -
  note pos = lifetimes_positive [OF assms(1)]
  have due: "0 \<le> dueAt env r" using assms pos(1) by (simp add: dueAt_def dateNow_def lifetimes_ok_def)
  note nums = digits_val_int_str [OF less_imp_le [OF pos(1)]] digits_val_int_str [OF less_imp_le [OF pos(2)]]
    digits_val_int_str [OF due]
  show ?thesis
    unfolding cartCommit_def committed_def Let_def commit_argv_fields commit_argv_sets pairs_writes nums
      length_greater_0_conv ..
qed

lemma HGETALL_committed:
  assumes "HGETALL r (items_key sid) = cart_hash held"
  shows "HGETALL (committed sid ch r) k =
    (if k = items_key sid then cart_hash (apply_plan ch held) else HGETALL r k)"
  using assms
  by (auto simp: committed_def Let_def HGETALL_HSET HGETALL_HDEL cart_hash_writes cart_hash_removals apply_plan_def)

lemma hashes_ok_committed:
  assumes "hashes_ok r" shows "hashes_ok (committed sid ch r)"
proof -
  have upd: "fold (\<lambda>(f, v). AList.update f v) fvs h \<noteq> []" if "fvs \<noteq> []" for fvs and h :: "(string \<times> string) list"
  proof -
    obtain fs f v where "fvs = fs @ [(f, v)]" using \<open>fvs \<noteq> []\<close> by (metis rev_exhaust surj_pair)
    then show ?thesis by simp
  qed
  have "hashes_ok (HSET k fvs r)" if "fvs \<noteq> []" for k fvs
    using assms upd [OF that] by (auto simp: hashes_ok_def live_hash_HSET)
  moreover have "hashes_ok r' \<Longrightarrow> hashes_ok (HDEL k fs r')" for k fs r'
    by (auto simp: hashes_ok_def live_hash_HDEL split: if_splits option.splits)
  ultimately show ?thesis using assms by (simp add: committed_def Let_def)
qed

lemma items_key_eq [simp]: "items_key a = items_key b \<longleftrightarrow> a = b"
  by (simp add: items_key_def)

definition storable_changes :: "CartChanges \<Rightarrow> bool" where
  "storable_changes ch \<longleftrightarrow> list_all (\<lambda>l. 0 < line_quantity l \<and> line_productId l \<noteq> []) (writes ch)"

lemma storable_apply_plan: "storable held \<Longrightarrow> storable_changes ch \<Longrightarrow> storable (apply_plan ch held)"
  unfolding apply_plan_def by (intro storable_removals storable_writes) (simp_all add: storable_changes_def)

lemma carts_okD:
  assumes "carts_ok r"
  shows "hashes_ok r" "storable (repo_held sid r)" "HGETALL r (items_key sid) = cart_hash (repo_held sid r)"
  using assms by (simp_all add: carts_ok_def)

lemma repo_commit_HGETALL:
  assumes ok: "carts_ok r" and life: "lifetimes_ok env" and "0 \<le> clock r"
  shows "HGETALL (snd (repo_commit env lc sid ch r)) k =
    (if k = items_key sid then cart_hash (apply_plan ch (repo_held sid r)) else HGETALL r k)"
  using HGETALL_committed [OF carts_okD(3) [OF ok, of sid], of ch] lifetimes_positive [OF life]
  by (simp add: repo_commit_def cartCommit_eq [OF life assms(3)] Let_def HGETALL_EXPIRE)

lemma repo_commit_held:
  assumes ok: "carts_ok r" and life: "lifetimes_ok env" and clk: "0 \<le> clock r" and ch: "storable_changes ch"
  shows "repo_held s (snd (repo_commit env lc sid ch r)) =
    (if s = sid then apply_plan ch (repo_held sid r) else repo_held s r)"
  using repo_commit_HGETALL [OF ok life clk, of lc sid ch "items_key s"] carts_okD(2) [OF ok, of sid]
  by (simp add: repo_held_def heldQuantities_cart_hash storable_apply_plan [OF _ ch])

lemma repo_commit_lines:
  assumes ok: "carts_ok r" and life: "lifetimes_ok env" and clk: "0 \<le> clock r" and ch: "storable_changes ch"
  shows "fst (repo_commit env lc sid ch r) = toCartLines lc (apply_plan ch (repo_held sid r))"
  using repo_commit_HGETALL [OF ok life clk, of lc sid ch "items_key sid"] carts_okD(2) [OF ok, of sid]
  by (simp add: repo_commit_def cartCommit_eq [OF life clk] Let_def pairs_flat heldQuantities_cart_hash
      storable_apply_plan [OF _ ch])

lemma hashes_ok_frame [simp]:
  "hashes_ok (SET_EX k v n r) = hashes_ok r" "hashes_ok (ZADD k n m r) = hashes_ok r"
  "hashes_ok (ZREM k m r) = hashes_ok r" "hashes_ok (DEL_string k r) = hashes_ok r"
  "hashes_ok (EXPIRE_string k n r) = hashes_ok r"
  by (simp_all add: hashes_ok_def)

lemma hashes_ok_EXPIRE: "0 < n \<Longrightarrow> hashes_ok r \<Longrightarrow> hashes_ok (EXPIRE_hash k n r)"
  by (auto simp: hashes_ok_def live_hash_EXPIRE)

lemma repo_commit_ok:
  assumes ok: "carts_ok r" and life: "lifetimes_ok env" and clk: "0 \<le> clock r" and ch: "storable_changes ch"
  shows "carts_ok (snd (repo_commit env lc sid ch r))"
proof -
  have "hashes_ok (snd (repo_commit env lc sid ch r))"
    using hashes_ok_committed [OF carts_okD(1) [OF ok], of sid ch] lifetimes_positive [OF life]
    by (simp add: repo_commit_def cartCommit_eq [OF life clk] Let_def hashes_ok_EXPIRE)
  then show ?thesis
    using carts_okD(2,3) [OF ok] storable_apply_plan [OF carts_okD(2) [OF ok] ch]
    by (simp add: carts_ok_def repo_commit_held [OF assms] repo_commit_HGETALL [OF ok life clk])
qed

section \<open>The other repository operations\<close>

lemma repo_held_cong: "HGETALL r' (items_key sid) = HGETALL r (items_key sid) \<Longrightarrow> repo_held sid r' = repo_held sid r"
  by (simp add: repo_held_def)

lemma carts_ok_cong: "carts_ok r \<Longrightarrow> HGETALL r' = HGETALL r \<Longrightarrow> hashes_ok r' \<Longrightarrow> carts_ok r'"
  by (simp add: carts_ok_def repo_held_def)

lemma touch_frame:
  assumes "lifetimes_ok env"
  shows "HGETALL (snd (repo_touch env sid r)) = HGETALL r"
    and "hashes_ok r \<Longrightarrow> hashes_ok (snd (repo_touch env sid r))"
    and "clock (snd (repo_touch env sid r)) = clock r"
  using lifetimes_positive [OF assms]
  by (auto simp: repo_touch_def cartTouch_def Let_def HGETALL_EXPIRE hashes_ok_EXPIRE fun_eq_iff)

lemma startSession_frame:
  "HGETALL (startSession env sid r) = HGETALL r" "hashes_ok (startSession env sid r) = hashes_ok r"
  "clock (startSession env sid r) = clock r"
  by (simp_all add: startSession_def)

lemma zsets_EXPIRE [simp]: "zsets (EXPIRE_hash k n r) = zsets r"
  by (auto simp: EXPIRE_hash_def split: option.splits)

lemma take_frame:
  assumes "lifetimes_ok env"
  shows "HGETALL (snd (takeHeldLines env lc sid r)) = HGETALL r"
    and "hashes_ok r \<Longrightarrow> hashes_ok (snd (takeHeldLines env lc sid r))"
    and "clock (snd (takeHeldLines env lc sid r)) = clock r"
    and "zsets (snd (takeHeldLines env lc sid r)) = zsets r"
    and "fst (takeHeldLines env lc sid r) = repo_lines lc sid r"
  using lifetimes_positive [OF assms]
  by (auto simp: takeHeldLines_def cartTake_def Let_def HGETALL_EXPIRE hashes_ok_EXPIRE fun_eq_iff
      repo_lines_def repo_held_def pairs_flat)

lemma retire_held: "repo_held s (retire sid r) = (if s = sid then [] else repo_held s r)"
  by (simp add: retire_def cartFinish_def repo_held_def heldQuantities_def)

lemma discard_held: "repo_held s (discard sid r) = (if s = sid then [] else repo_held s r)"
  by (simp add: discard_def cartDiscard_def repo_held_def heldQuantities_def)

lemma hashes_ok_DEL: "hashes_ok r \<Longrightarrow> hashes_ok (DEL_hash k r)"
  by (auto simp: hashes_ok_def split: if_splits)

lemma carts_ok_DEL:
  assumes "carts_ok r"
  shows "carts_ok (DEL_hash (items_key sid) r)"
  using assms hashes_ok_DEL
  by (auto simp: carts_ok_def repo_held_def heldQuantities_def cart_hash_def storable_def)

lemma carts_ok_strings [simp]:
  "carts_ok (SET_EX k v n r) = carts_ok r" "carts_ok (ZADD k n m r) = carts_ok r"
  "carts_ok (ZREM k m r) = carts_ok r" "carts_ok (DEL_string k r) = carts_ok r"
  "carts_ok (EXPIRE_string k n r) = carts_ok r"
  by (simp_all add: carts_ok_def repo_held_def)

lemma repository_keeps_carts:
  assumes "carts_ok r" and "lifetimes_ok env"
  shows "carts_ok (snd (repo_touch env sid r))" "carts_ok (startSession env sid r)"
    "carts_ok (snd (takeHeldLines env lc sid r))" "carts_ok (retire sid r)" "carts_ok (discard sid r)"
    "carts_ok (forget sid r)" "carts_ok (scheduleRelease sid t r)"
  using assms carts_okD(1) [OF assms(1)]
  by (auto intro!: carts_ok_cong [OF assms(1)] simp: touch_frame take_frame startSession_frame
      retire_def cartFinish_def discard_def cartDiscard_def forget_def scheduleRelease_def carts_ok_DEL)

text \<open>Every cart that holds something is on the sweeper's queue.\<close>

definition queued :: "redis_db \<Rightarrow> string \<Rightarrow> bool" where
  "queued r sid \<longleftrightarrow> sid \<in> fst ` set (zsets r dueIndex)"

definition all_queued :: "redis_db \<Rightarrow> bool" where
  "all_queued r \<longleftrightarrow> (\<forall>sid. repo_held sid r \<noteq> [] \<longrightarrow> queued r sid)"

lemma queued_frame [simp]:
  "queued (SET_EX k v n r) = queued r" "queued (DEL_string k r) = queued r" "queued (DEL_hash k r) = queued r"
  "queued (HSET k fvs r) = queued r" "queued (HDEL k fs r) = queued r"
  "queued (EXPIRE_hash k n r) = queued r" "queued (EXPIRE_string k n r) = queued r"
  by (auto simp: fun_eq_iff queued_def SET_EX_def DEL_string_def DEL_hash_def HSET_def HDEL_def
      EXPIRE_hash_def EXPIRE_string_def Let_def split: option.splits prod.splits)

lemma queued_ZADD [simp]: "queued (ZADD dueIndex n m r) sid \<longleftrightarrow> sid = m \<or> queued r sid"
  by (auto simp: queued_def ZADD_def dom_update)

lemma queued_ZREM [simp]: "queued (ZREM dueIndex m r) sid \<longleftrightarrow> sid \<noteq> m \<and> queued r sid"
  by (force simp: queued_def ZREM_def AList.delete_eq)

lemma live_committed:
  assumes "carts_ok r"
  shows "live_hash (committed sid ch r) (items_key sid) \<noteq> None \<longleftrightarrow> apply_plan ch (repo_held sid r) \<noteq> []"
proof -
  have "HGETALL (committed sid ch r) (items_key sid) = cart_hash (apply_plan ch (repo_held sid r))"
    using HGETALL_committed [OF carts_okD(3) [OF assms, of sid]] by simp
  then show ?thesis
    using live_hash_iff [OF hashes_ok_committed [OF carts_okD(1) [OF assms]], of sid ch "items_key sid"]
    by (simp add: cart_hash_def)
qed

lemma committed_queued [simp]: "queued (committed sid ch r) = queued r"
  by (simp add: committed_def Let_def)

lemma repo_commit_queued:
  assumes ok: "carts_ok r" and life: "lifetimes_ok env" and clk: "0 \<le> clock r"
  shows "queued (snd (repo_commit env lc sid ch r)) s \<longleftrightarrow>
    (if s = sid then apply_plan ch (repo_held sid r) \<noteq> [] else queued r s)"
  using live_committed [OF ok, of sid ch]
  by (auto simp: repo_commit_def cartCommit_eq [OF life clk] Let_def)

lemma repository_keeps_queued:
  assumes "carts_ok r" and "lifetimes_ok env" and "all_queued r"
  shows "all_queued (snd (repo_touch env sid r))" "all_queued (startSession env sid r)"
    "all_queued (snd (takeHeldLines env lc sid r))" "all_queued (retire sid r)" "all_queued (discard sid r)"
    "repo_held sid r = [] \<Longrightarrow> all_queued (forget sid r)" "all_queued (scheduleRelease sid t r)"
proof -
  have "queued (snd (repo_touch env sid r)) s" if "queued r s" for s
    using that by (auto simp: repo_touch_def cartTouch_def Let_def)
  then show "all_queued (snd (repo_touch env sid r))"
    using assms(3) by (simp add: all_queued_def repo_held_cong [OF fun_cong [OF touch_frame(1) [OF assms(2)]]])
  have "queued (snd (takeHeldLines env lc sid r)) s = queued r s" for s
    by (simp add: queued_def take_frame(4) [OF assms(2)])
  then show "all_queued (snd (takeHeldLines env lc sid r))"
    using assms(3) by (simp add: all_queued_def repo_held_cong [OF fun_cong [OF take_frame(1) [OF assms(2)]]])
  show "all_queued (startSession env sid r)" "all_queued (scheduleRelease sid t r)"
    using assms(3) by (auto simp: all_queued_def repo_held_def startSession_def scheduleRelease_def)
  show "repo_held sid r = [] \<Longrightarrow> all_queued (forget sid r)"
    using assms(3) by (auto simp: all_queued_def repo_held_def forget_def)
  show "all_queued (retire sid r)" "all_queued (discard sid r)"
    using assms(3) by (auto simp: all_queued_def retire_held discard_held) (auto simp: retire_def
      cartFinish_def discard_def cartDiscard_def)
qed

section \<open>Properties of the store\<close>

lemma mset_insert_line: "mset (insert_line lc l ls) = add_mset l (mset ls)"
  by (induction ls) auto

lemma mset_toCartLines: "mset (toCartLines lc held) = mset (map (\<lambda>(p, q). mkLine p q) held)"
proof -
  have "mset (foldr (insert_line lc) ls []) = mset ls" for ls
    by (induction ls) (simp_all add: mset_insert_line)
  then show ?thesis by (simp add: toCartLines_def)
qed

lemma toCartLines_Nil_iff: "toCartLines lc held = [] \<longleftrightarrow> held = []"
  using arg_cong [OF mset_toCartLines [of lc held], of size] by auto

lemma planChanges_storable:
  assumes "valid_request request" and "list_all (\<lambda>l. line_productId l \<noteq> []) request"
  shows "storable_changes (planChanges held request)"
proof -
  have dist: "distinct (map line_productId request)" and "list_all (\<lambda>l. 0 \<le> line_quantity l) request"
    using assms(1) by (simp_all add: valid_request_def)
  then show ?thesis
    using assms(2) by (auto simp: storable_changes_def planChanges_closed [OF dist] plan_lists list_all_iff
        order.order_iff_strict)
qed

lemma live_string_frame [simp]:
  "live_string (ZADD k n m r) = live_string r" "live_string (ZREM k m r) = live_string r"
  by (auto simp: fun_eq_iff live_string_def expired_def ZADD_def ZREM_def split: option.splits)

lemma live_string_SET_EX:
  "0 < n \<Longrightarrow> live_string (SET_EX k v n r) k' =
     (if k' = k then Some (v, Some (clock r + n * 1000)) else live_string r k')"
  by (auto simp: live_string_def expired_def SET_EX_def split: option.splits)

lemma live_string_DEL [simp]: "live_string (DEL_string k r) k' = (if k' = k then None else live_string r k')"
  by (auto simp: live_string_def DEL_string_def split: option.splits)

lemma clock_committed [simp]: "clock (committed sid ch r) = clock r"
  by (simp add: committed_def Let_def)

lemma repo_commit_lifetimes:
  assumes ok: "carts_ok r" and life: "lifetimes_ok env" and clk: "0 \<le> clock r"
  shows "if apply_plan ch (repo_held sid r) = []
    then live_string (snd (repo_commit env lc sid ch r)) (session_key sid) = None
    else live_string (snd (repo_commit env lc sid ch r)) (session_key sid) =
           Some (sid, Some (clock r + sessionTtlSeconds env * 1000)) \<and>
         map_option snd (live_hash (snd (repo_commit env lc sid ch r)) (items_key sid)) =
           Some (Some (clock r + itemsTtlSeconds env * 1000))"
  using live_committed [OF ok, of sid ch] lifetimes_positive [OF life]
  by (auto simp: repo_commit_def cartCommit_eq [OF life clk] Let_def live_string_SET_EX live_hash_EXPIRE)

text \<open>
  Property C9. Committing a plan settles the cart: afterwards the stored cart holds exactly the
  quantities the request wanted, the reply lists exactly those lines, and no other cart has
  changed. A cart that still holds something has a live session, is on the sweeper's queue and
  has its items outlive the session by the grace period; a cart that ended up empty has neither a
  session nor a queue entry.
\<close>

theorem commit_settles_cart:
  assumes "carts_ok r" and "lifetimes_ok env" and "0 \<le> clock r" and "valid_request request"
    and "list_all (\<lambda>l. line_productId l \<noteq> []) request"
    and "(lines, r') = repo_commit env lc sid (planChanges (repo_held sid r) request) r"
  shows "(\<forall>p. units_held (repo_held sid r') p = wanted (repo_held sid r) request p) \<and>
    mset lines = mset (map (\<lambda>(p, q). mkLine p q) (repo_held sid r')) \<and>
    (\<forall>s. s \<noteq> sid \<longrightarrow> repo_held s r' = repo_held s r) \<and>
    (if repo_held sid r' = [] then live_string r' (session_key sid) = None \<and> \<not> queued r' sid
     else live_string r' (session_key sid) = Some (sid, Some (clock r + CART_TTL_SECONDS env * 1000)) \<and>
          map_option snd (live_hash r' (items_key sid)) =
            Some (Some (clock r + CART_TTL_SECONDS env * 1000 + CART_TTL_GRACE_SECONDS env * 1000)) \<and>
          queued r' sid)"
proof -
  let ?ch = "planChanges (repo_held sid r) request"
  have r': "r' = snd (repo_commit env lc sid ?ch r)" and ls: "lines = fst (repo_commit env lc sid ?ch r)"
    using assms(6) by (metis snd_conv, metis fst_conv)
  have ch: "storable_changes ?ch" by (rule planChanges_storable [OF assms(4,5)])
  have dist: "distinct (map line_productId request)" using assms(4) by (simp add: valid_request_def)
  note held = repo_commit_held [OF assms(1-3) ch, of _ lc sid, folded r']
  show ?thesis
    using repo_commit_lifetimes [OF assms(1-3), of ?ch sid lc, folded r']
      repo_commit_queued [OF assms(1-3), of lc sid ?ch sid, folded r'] apply_plan_units [OF dist]
    by (auto simp: held ls repo_commit_lines [OF assms(1-3) ch] mset_toCartLines sessionTtlSeconds_def
        itemsTtlSeconds_def algebra_simps split: if_splits)
qed

definition sample_env :: cart_env where
  "sample_env = \<lparr>CART_TTL_SECONDS = 900, CART_TTL_GRACE_SECONDS = 300, REDIS_KEY_PREFIX = ''cart-service:'',
     host_clock = (\<lambda>t. t + 3)\<rparr>"

definition empty_redis :: redis_db where
  "empty_redis = \<lparr>clock = 0, hashes = (\<lambda>_. None), strings = (\<lambda>_. None), zsets = (\<lambda>_. [])\<rparr>"

lemma empty_redis_ok: "carts_ok empty_redis"
  by (simp add: carts_ok_def hashes_ok_def repo_held_def HGETALL_def live_hash_def empty_redis_def
      heldQuantities_def cart_hash_def storable_def)

lemma sample_lifetimes: "lifetimes_ok sample_env"
  by (simp add: lifetimes_ok_def sample_env_def)

theorem commit_settles_cart_witness:
  "queued (snd (repo_commit sample_env (\<lambda>_ _. 0) ''s'' (planChanges [] [mkLine ''p1'' 3]) empty_redis)) ''s''"
proof -
  let ?c = "repo_commit sample_env (\<lambda>_ _. 0) ''s'' (planChanges [] [mkLine ''p1'' 3]) empty_redis"
  have h: "repo_held ''s'' empty_redis = []" by code_simp
  have clk: "0 \<le> clock empty_redis" and v: "valid_request [mkLine ''p1'' 3]"
    and ne: "list_all (\<lambda>l. line_productId l \<noteq> []) [mkLine ''p1'' 3]"
    by (simp_all add: empty_redis_def valid_request_def)
  have eq: "(fst ?c, snd ?c) = repo_commit sample_env (\<lambda>_ _. 0) ''s''
      (planChanges (repo_held ''s'' empty_redis) [mkLine ''p1'' 3]) empty_redis" by (simp add: h)
  have "apply_plan (planChanges [] [mkLine ''p1'' 3]) [] = [(''p1'', 3)]" by code_simp
  then have "repo_held ''s'' (snd ?c) \<noteq> []"
    using repo_commit_held [OF empty_redis_ok sample_lifetimes clk planChanges_storable [OF v ne]] by (simp add: h)
  then show ?thesis
    using commit_settles_cart [OF empty_redis_ok sample_lifetimes clk v ne eq] by simp
qed

lemma session_key_append: "session_key sid = ''session:'' @ sid"
  by (simp add: session_key_def)

lemma starts_with_append: "starts_with p s \<longleftrightarrow> (\<exists>rest. s = p @ rest)"
  unfolding starts_with_def by (metis append_eq_conv_conj append_take_drop_id)

lemma sessionId_of_key:
  "sessionIdFromExpiredKey env key = Some sid \<longleftrightarrow> sid \<noteq> [] \<and> key = REDIS_KEY_PREFIX env @ ''session:'' @ sid"
  "sessionIdFromExpiredKey env key = None \<longleftrightarrow>
     \<not> (\<exists>sid. sid \<noteq> [] \<and> key = REDIS_KEY_PREFIX env @ ''session:'' @ sid)"
proof -
  have *: "sessionIdFromExpiredKey env ((REDIS_KEY_PREFIX env @ ''session:'') @ rest) =
      (if rest = [] then None else Some rest)" for rest
    by (simp add: sessionIdFromExpiredKey_def session_key_append starts_with_def Let_def del: append_assoc)
  have **: "\<not> (\<exists>rest. key = (REDIS_KEY_PREFIX env @ ''session:'') @ rest) \<Longrightarrow> sessionIdFromExpiredKey env key = None"
    by (simp add: sessionIdFromExpiredKey_def session_key_append starts_with_append Let_def del: append_assoc)
  show "sessionIdFromExpiredKey env key = Some sid \<longleftrightarrow> sid \<noteq> [] \<and> key = REDIS_KEY_PREFIX env @ ''session:'' @ sid"
    using * ** by (metis append_assoc option.distinct(1) option.inject)
  show "sessionIdFromExpiredKey env key = None \<longleftrightarrow>
     \<not> (\<exists>sid. sid \<noteq> [] \<and> key = REDIS_KEY_PREFIX env @ ''session:'' @ sid)"
    using * ** by (metis append_assoc option.distinct(1))
qed

text \<open>
  An expiry notification names a cart exactly when the expired key is that cart's
  session key, as Redis stores it: the id is recovered from the fully prefixed name, and the keys
  of items, locks and the queue never pass for a session.
\<close>

theorem sessionIdFromExpiredKey_exact:
  "(sessionIdFromExpiredKey env key = Some sid \<longleftrightarrow>
      sid \<noteq> [] \<and> key = REDIS_KEY_PREFIX env @ session_key sid) \<and>
   sessionIdFromExpiredKey env (REDIS_KEY_PREFIX env @ items_key sid) = None \<and>
   sessionIdFromExpiredKey env (REDIS_KEY_PREFIX env @ writeLock sid) = None \<and>
   sessionIdFromExpiredKey env (REDIS_KEY_PREFIX env @ releaseLock sid) = None \<and>
   sessionIdFromExpiredKey env (REDIS_KEY_PREFIX env @ dueIndex) = None"
proof (intro conjI)
  show "sessionIdFromExpiredKey env key = Some sid \<longleftrightarrow>
      sid \<noteq> [] \<and> key = REDIS_KEY_PREFIX env @ session_key sid"
    by (auto simp: sessionId_of_key session_key_append split: if_splits)
qed (simp_all add: sessionId_of_key session_key_append items_key_def writeLock_def releaseLock_def dueIndex_def)

end
