(* ===== verification/RedisLock.thy ===== *)
theory RedisLock
  imports CartStore
begin

text \<open>
  The advisory lock (\<^verbatim>\<open>services/cart/src/redis/redis.lock.ts\<close>): taking it with a token nobody else has,
  giving it back only while it is still one's own, and running work under it. The second half is a
  step relation of any number of clients and a clock, in which no two of them hold a lock at once.
\<close>

section \<open>The lock operations\<close>

record Lock =
  lock_key :: string
  lock_token :: string

text \<open>\<^verbatim>\<open>SET key token PX ttl NX\<close>\<close>

definition SET_PX_NX :: "string \<Rightarrow> string \<Rightarrow> int \<Rightarrow> redis_db \<Rightarrow> bool \<times> redis_db" where
  "SET_PX_NX k v ms r =
     (if live_string r k \<noteq> None then (False, r)
      else (True, r\<lparr>strings := (strings r)(k \<mapsto> (v, Some (clock r + ms)))\<rparr>))"

text \<open>
  The attempts of \<open>acquire\<close>: \<open>waiting n\<close> is what the rest of the world does to the store while this
  client sleeps before an attempt with \<open>n\<close> more to follow.
\<close>

fun try_lock ::
  "(nat \<Rightarrow> redis_db \<Rightarrow> redis_db) \<Rightarrow> string \<Rightarrow> string \<Rightarrow> int \<Rightarrow> nat \<Rightarrow> redis_db \<Rightarrow> Lock option \<times> redis_db" where
  "try_lock waiting key token ttlMs retries r =
     (case SET_PX_NX key token ttlMs r of
        (True, r') \<Rightarrow> (Some \<lparr>lock_key = key, lock_token = token\<rparr>, r')
      | (False, r') \<Rightarrow>
          (case retries of
             0 \<Rightarrow> (None, r')
           | Suc n \<Rightarrow> try_lock waiting key token ttlMs n (waiting n r')))"

declare try_lock.simps [simp del]

definition acquire ::
  "(nat \<Rightarrow> redis_db \<Rightarrow> redis_db) \<Rightarrow> string \<Rightarrow> string \<Rightarrow> int \<Rightarrow> nat \<Rightarrow> redis_db \<Rightarrow> Lock option \<times> redis_db" where
  "acquire waiting token key ttlMs retries r = try_lock waiting key token ttlMs retries r"

definition lockRelease :: "string \<Rightarrow> string \<Rightarrow> redis_db \<Rightarrow> redis_db" where
  "lockRelease key token r =
     (case live_string r key of
        Some (v, _) \<Rightarrow> if v = token then DEL_string key r else r
      | None \<Rightarrow> r)"

text \<open>Never throws: when Redis does not answer, the lock is left to lapse.\<close>

definition release_lock :: "bool \<Rightarrow> Lock \<Rightarrow> redis_db \<Rightarrow> redis_db" where
  "release_lock answered lock r = (if answered then lockRelease (lock_key lock) (lock_token lock) r else r)"

section \<open>Lemmas\<close>

lemma live_string_write:
  "live_string (r\<lparr>strings := (strings r)(k \<mapsto> (v, e))\<rparr>) k' =
     (if k' = k then (if expired r e then None else Some (v, e)) else live_string r k')"
proof -
  have frame: "expired (r\<lparr>strings := S\<rparr>) = expired r" for S
    by (simp add: expired_def fun_eq_iff split: option.split)
  show ?thesis unfolding live_string_def frame by simp
qed

lemma live_string_SET_PX_NX:
  "SET_PX_NX k v ms r = (True, r') \<Longrightarrow> 0 < ms \<Longrightarrow>
     live_string r k = None \<and> clock r' = clock r \<and>
     live_string r' k' = (if k' = k then Some (v, Some (clock r + ms)) else live_string r k')"
  by (cases "live_string r k") (auto simp: SET_PX_NX_def live_string_write expired_def)

lemma SET_PX_NX_taken: "SET_PX_NX k v ms r = (False, r') \<Longrightarrow> r' = r"
  by (auto simp: SET_PX_NX_def split: if_splits)

lemma lockRelease_other:
  assumes "live_string r key \<noteq> None \<Longrightarrow> fst (the (live_string r key)) \<noteq> token"
  shows "lockRelease key token r = r"
  using assms by (auto simp: lockRelease_def split: option.splits)

lemma lockRelease_frame:
  "HGETALL (lockRelease k t r) = HGETALL r" "hashes_ok (lockRelease k t r) = hashes_ok r"
  "clock (lockRelease k t r) = clock r" "carts_ok (lockRelease k t r) = carts_ok r"
  "zsets (lockRelease k t r) = zsets r"
  by (auto simp: lockRelease_def DEL_string_def split: option.splits)
     (auto simp flip: DEL_string_def)

section \<open>Many clients\<close>

text \<open>
  A client that took the lock relies on it until its lifetime is over. The state is the store,
  the leases clients rely on (key, token, deadline), the acquisitions under way (key, token, ttl)
  and the tokens drawn so far. An acquisition draws one token, a random identifier nobody has drawn
  before, and tries with it until it is answered OK, gives up, or throws because the answer to an
  attempt that did take the lock is lost; then the store carries a lock nobody relies on.
\<close>

type_synonym lease = "string \<times> string \<times> int"

type_synonym lock_world = "redis_db \<times> lease list \<times> lease list \<times> string set"

inductive lock_step :: "lock_world \<Rightarrow> lock_world \<Rightarrow> bool" where
  begun: "token \<notin> used \<Longrightarrow> 0 < ttl \<Longrightarrow>
    lock_step (r, leases, tries, used) (r, leases, (key, token, ttl) # tries, insert token used)"
| taken: "(key, token, ttl) \<in> set tries \<Longrightarrow> SET_PX_NX key token ttl r = (True, r') \<Longrightarrow>
    lock_step (r, leases, tries, used)
      (r', (key, token, clock r + ttl) # leases, removeAll (key, token, ttl) tries, used)"
| unheard: "(key, token, ttl) \<in> set tries \<Longrightarrow> SET_PX_NX key token ttl r = (True, r') \<Longrightarrow>
    lock_step (r, leases, tries, used) (r', leases, removeAll (key, token, ttl) tries, used)"
| refused: "(key, token, ttl) \<in> set tries \<Longrightarrow> SET_PX_NX key token ttl r = (False, r') \<Longrightarrow>
    lock_step (r, leases, tries, used) (r', leases, tries, used)"
| gave_up: "lock_step (r, leases, tries, used) (r, leases, removeAll t tries, used)"
| released: "(key, token, d) \<in> set leases \<Longrightarrow>
    lock_step (r, leases, tries, used)
      (release_lock answered \<lparr>lock_key = key, lock_token = token\<rparr> r,
       removeAll (key, token, d) leases, tries, used)"
| time: "0 \<le> dt \<Longrightarrow> lock_step (r, leases, tries, used) (r\<lparr>clock := clock r + dt\<rparr>, leases, tries, used)"

inductive lock_reachable :: "lock_world \<Rightarrow> bool" where
  start: "lock_reachable (r, [], [], {})"
| step: "lock_reachable s \<Longrightarrow> lock_step s s' \<Longrightarrow> lock_reachable s'"

text \<open>Every token belongs to one acquisition, and a lease within its lifetime is in the store.\<close>

definition tokens_ok :: "lease list \<Rightarrow> lease list \<Rightarrow> string set \<Rightarrow> bool" where
  "tokens_ok leases tries used \<longleftrightarrow>
     distinct (map (fst \<circ> snd) (leases @ tries)) \<and> (fst \<circ> snd) ` set (leases @ tries) \<subseteq> used"

definition leases_ok :: "lock_world \<Rightarrow> bool" where
  "leases_ok = (\<lambda>(r, leases, tries, used). tokens_ok leases tries used \<and>
     (\<forall>(k, t, ms) \<in> set tries. 0 < ms) \<and>
     (\<forall>(k, t, d) \<in> set leases. clock r < d \<longrightarrow> live_string r k = Some (t, Some d)))"

lemma live_string_later:
  "live_string r k = Some (v, Some d) \<Longrightarrow> 0 \<le> dt \<Longrightarrow> clock r + dt < d \<Longrightarrow>
   live_string (r\<lparr>clock := clock r + dt\<rparr>) k = Some (v, Some d)"
  by (auto simp: live_string_def expired_def split: option.splits if_splits)

lemma distinct_map_removeAll: "distinct (map f xs) \<Longrightarrow> distinct (map f (removeAll x xs))"
  by (induction xs) auto

lemma distinct_map_same: "distinct (map f xs) \<Longrightarrow> x \<in> set xs \<Longrightarrow> y \<in> set xs \<Longrightarrow> f x = f y \<Longrightarrow> x = y"
  by (auto simp: distinct_map dest: inj_onD)

lemma tokens_ok_drop:
  "tokens_ok leases tries used \<Longrightarrow> tokens_ok (removeAll x leases) (removeAll y tries) used"
  by (auto simp: tokens_ok_def distinct_map_removeAll)

lemma tokens_ok_take:
  assumes "tokens_ok leases tries used" and "(key, token, ttl) \<in> set tries"
  shows "tokens_ok ((key, token, d) # leases) (removeAll (key, token, ttl) tries) used"
proof -
  have "token \<notin> (fst \<circ> snd) ` set (removeAll (key, token, ttl) tries)"
  proof -
    have "distinct (map (fst \<circ> snd) tries)" using assms(1) by (simp add: tokens_ok_def)
    then have "x = (key, token, ttl)" if "x \<in> set tries" "(fst \<circ> snd) x = token" for x
      using distinct_map_same [of "fst \<circ> snd" tries x "(key, token, ttl)"] assms(2) that by simp
    then show ?thesis by auto
  qed
  moreover have "token \<notin> (fst \<circ> snd) ` set leases" "token \<in> used"
    using assms by (force simp: tokens_ok_def)+
  ultimately show ?thesis
    using assms(1) by (auto simp: tokens_ok_def distinct_map_removeAll)
qed

lemma store_taken:
  assumes "SET_PX_NX key token ttl r = (True, r')" and "0 < ttl"
    and "\<forall>(k, t, d) \<in> set leases. clock r < d \<longrightarrow> live_string r k = Some (t, Some d)"
  shows "\<forall>(k, t, d) \<in> set leases. clock r' < d \<longrightarrow> live_string r' k = Some (t, Some d)"
    and "live_string r' key = Some (token, Some (clock r + ttl))" and "clock r' = clock r"
proof -
  note set = live_string_SET_PX_NX [OF assms(1,2)]
  show "\<forall>(k, t, d) \<in> set leases. clock r' < d \<longrightarrow> live_string r' k = Some (t, Some d)"
    using assms(3) set by (auto split: prod.splits)
qed (use live_string_SET_PX_NX [OF assms(1,2)] in simp_all)

lemma leases_ok_step:
  assumes "lock_step s s'" and "leases_ok s"
  shows "leases_ok s'"
  using assms
proof (induction rule: lock_step.induct)
  case (begun token used ttl r leases tries key)
  then show ?case by (auto simp: leases_ok_def tokens_ok_def)
next
  case (taken key token ttl tries r r' leases used)
  then have "0 < ttl" by (auto simp: leases_ok_def)
  with taken show ?case
    using store_taken [OF taken(2), of leases] tokens_ok_take [of leases tries used key token ttl]
    by (auto simp: leases_ok_def)
next
  case (unheard key token ttl tries r r' leases used)
  then have "0 < ttl" by (auto simp: leases_ok_def)
  with unheard show ?case
    using store_taken(1) [OF unheard(2), of leases] tokens_ok_drop [of leases tries used "(key, token, 0)" "(key, token, ttl)"]
    by (auto simp: leases_ok_def tokens_ok_def distinct_map_removeAll)
next
  case (refused key token ttl tries r r' leases used)
  then show ?case by (auto dest!: SET_PX_NX_taken)
next
  case (gave_up r leases tries used t)
  then show ?case by (auto simp: leases_ok_def tokens_ok_def distinct_map_removeAll)
next
  case (released key token d leases r tries used answered)
  let ?r = "release_lock answered \<lparr>lock_key = key, lock_token = token\<rparr> r"
  have once: "t \<noteq> token" if "(k, t, e) \<in> set leases" "(k, t, e) \<noteq> (key, token, d)" for k t e
    using released(1,2) that distinct_map_same [of "fst \<circ> snd" leases "(k, t, e)" "(key, token, d)"]
    by (auto simp: leases_ok_def tokens_ok_def)
  have "clock ?r = clock r" by (simp add: release_lock_def lockRelease_frame)
  moreover have "live_string ?r k = Some (t, Some e)"
    if "(k, t, e) \<in> set leases" "(k, t, e) \<noteq> (key, token, d)" "clock r < e" for k t e
    using released(2) that(1,3) once [OF that(1,2)]
    by (fastforce simp: leases_ok_def release_lock_def lockRelease_def split: option.splits)
  ultimately show ?case
    using released(2) by (auto simp: leases_ok_def tokens_ok_def distinct_map_removeAll)
next
  case (time dt r leases tries used)
  then show ?case by (force simp: leases_ok_def intro: live_string_later)
qed

lemma reachable_leases_ok: "lock_reachable s \<Longrightarrow> leases_ok s"
  by (induction rule: lock_reachable.induct) (auto simp: leases_ok_step, simp add: leases_ok_def tokens_ok_def)

text \<open>
  Property C10. The lock excludes: however clients take, lose and give back locks, no two different
  holders of the same lock are ever both within their lifetime, and the store still carries the
  token of the one that is, so a holder whose lock has lapsed can never delete its successor's.
\<close>

theorem lock_mutual_exclusion:
  assumes "lock_reachable (r, leases, tries, used)" and "(k, t1, d1) \<in> set leases" and "clock r < d1"
  shows "live_string r k = Some (t1, Some d1) \<and>
         (\<forall>t2 d2. (k, t2, d2) \<in> set leases \<and> clock r < d2 \<longrightarrow> t2 = t1 \<and> d2 = d1)"
proof -
  have lease: "live_string r k = Some (t, Some d)" if "(k, t, d) \<in> set leases" "clock r < d" for t d
    using reachable_leases_ok [OF assms(1)] that by (auto simp: leases_ok_def)
  show ?thesis using lease [OF assms(2,3)] by (auto dest!: lease)
qed

lemma sample_lock_run:
  "lock_reachable (empty_redis\<lparr>strings := (strings empty_redis)(''lock:s'' \<mapsto> (''a'', Some 100))\<rparr>,
     [(''lock:s'', ''a'', 100)], [], {''a''})"
proof -
  have "SET_PX_NX ''lock:s'' ''a'' 100 empty_redis =
      (True, empty_redis\<lparr>strings := (strings empty_redis)(''lock:s'' \<mapsto> (''a'', Some 100))\<rparr>)"
    by (simp add: SET_PX_NX_def live_string_def empty_redis_def)
  from lock_step.taken [OF _ this, of "[(''lock:s'', ''a'', 100)]" "[]" "{''a''}"]
  have "lock_step (empty_redis, [], [(''lock:s'', ''a'', 100)], {''a''})
      (empty_redis\<lparr>strings := (strings empty_redis)(''lock:s'' \<mapsto> (''a'', Some 100))\<rparr>,
       [(''lock:s'', ''a'', 100)], [], {''a''})"
    by (simp add: empty_redis_def)
  moreover have "lock_step (empty_redis, [], [], {}) (empty_redis, [], [(''lock:s'', ''a'', 100)], {''a''})"
    by (rule lock_step.begun) simp_all
  ultimately show ?thesis by (blast intro: lock_reachable.intros)
qed

theorem lock_mutual_exclusion_witness:
  "live_string (empty_redis\<lparr>strings := (strings empty_redis)(''lock:s'' \<mapsto> (''a'', Some 100))\<rparr>) ''lock:s'' =
     Some (''a'', Some 100)"
  using lock_mutual_exclusion [OF sample_lock_run, of "''lock:s''" "''a''" 100]
  by (simp add: empty_redis_def)
end
