(* ===== verification/CartService.thy ===== *)
theory CartService
  imports RedisLock InventoryProperties
begin

text \<open>
  The cart service (\<^verbatim>\<open>services/cart/src/cart/cart.service.ts\<close>) with its HTTP face
  (\<^verbatim>\<open>cart.controller.ts\<close>) and the expiry watcher (\<^verbatim>\<open>cart-expiry.watcher.ts\<close>). The world is the Redis
  store and whatever state the inventory behind the ports has. Every Redis call has a verdict: it
  answered, it failed before doing anything, or it was carried out but the reply was lost. The
  calls of one operation are numbered in program order; calls of one operation see one reading of
  the clock, apart from the time spent waiting for a lock.
\<close>

section \<open>The world, errors and ports\<close>

record StockFailure =
  failure_productId :: string
  failure_code :: string
  failure_message :: string
  failure_requested :: "int option"
  failure_available :: "int option"
  failure_reserved :: "int option"

datatype cart_error =
  BadRequestException string
| ConflictException string
| InsufficientStockException string "StockFailure list"
| NotFoundException string
| ServiceUnavailableException string
| RedisError string

definition isInsufficientStock :: "cart_error \<Rightarrow> bool" where
  "isInsufficientStock e = (case e of InsufficientStockException _ _ \<Rightarrow> True | _ \<Rightarrow> False)"

datatype verdict = Answered | Failed cart_error | LostReply cart_error

record 'inv cart_world =
  redis :: redis_db
  inventory :: 'inv

type_synonym ('inv, 'a) cart_act = "('inv cart_world, cart_error, 'a) act"

text \<open>
  The two inventory ports of \<^verbatim>\<open>inventory.port.ts\<close>. The first argument numbers the calls an operation
  makes, so that each can meet a different network; the text is the reason recorded in the ledger.
\<close>

record 'inv inventory_ports =
  port_reserveMany :: "nat \<Rightarrow> StockLine list \<Rightarrow> string \<Rightarrow> string \<Rightarrow> ('inv, cart_error, unit) act"
  port_transferHold :: "nat \<Rightarrow> StockLine list \<Rightarrow> string \<Rightarrow> string \<Rightarrow> string \<Rightarrow> ('inv, cart_error, unit) act"
  dispatch_releaseMany :: "nat \<Rightarrow> StockLine list \<Rightarrow> string \<Rightarrow> string \<Rightarrow> ('inv, cart_error, unit) act"

definition redis_call :: "verdict \<Rightarrow> (redis_db \<Rightarrow> 'a \<times> redis_db) \<Rightarrow> ('inv, 'a) cart_act" where
  "redis_call v f = (\<lambda>w. case v of
     Answered \<Rightarrow> (Inr (fst (f (redis w))), w\<lparr>redis := snd (f (redis w))\<rparr>)
   | Failed e \<Rightarrow> (Inl e, w)
   | LostReply e \<Rightarrow> (Inl e, w\<lparr>redis := snd (f (redis w))\<rparr>))"

definition redis_do :: "verdict \<Rightarrow> (redis_db \<Rightarrow> redis_db) \<Rightarrow> ('inv, unit) cart_act" where
  "redis_do v f = redis_call v (\<lambda>r. ((), f r))"

definition redis_get :: "verdict \<Rightarrow> (redis_db \<Rightarrow> 'a) \<Rightarrow> ('inv, 'a) cart_act" where
  "redis_get v f = redis_call v (\<lambda>r. (f r, r))"

definition on_inventory :: "('inv, cart_error, 'a) act \<Rightarrow> ('inv, 'a) cart_act" where
  "on_inventory m = (\<lambda>w. case m (inventory w) of (res, i) \<Rightarrow> (res, w\<lparr>inventory := i\<rparr>))"

text \<open>\<^verbatim>\<open>try { m } catch (e) { undo; throw e }\<close>, where \<open>undo\<close> absorbs its own failures.\<close>

definition undoing :: "('inv, unit) cart_act \<Rightarrow> ('inv, 'a) cart_act \<Rightarrow> ('inv, 'a) cart_act" where
  "undoing undo m = (\<lambda>w. case m w of (Inr a, w') \<Rightarrow> (Inr a, w') | (Inl e, w') \<Rightarrow> (Inl e, snd (undo w')))"

record cart_service_env = cart_env +
  CART_LOCK_TTL_MS :: int
  CART_LOCK_RETRIES :: nat
  CART_RELEASE_LOCK_SECONDS :: int
  CART_RELEASE_RETRY_DELAY_MS :: int
  CART_SWEEP_BATCH :: nat

text \<open>
  What the runtime and the rest of the world contribute to an operation: the verdicts of its Redis
  calls, the tokens its locks draw, and what happens to the store while it waits for a lock.
\<close>

record cart_io =
  redis_verdict :: "nat \<Rightarrow> verdict"
  lock_uuid :: "nat \<Rightarrow> string"
  lock_waiting :: "nat \<Rightarrow> redis_db \<Rightarrow> redis_db"

definition withLock ::
  "verdict \<Rightarrow> verdict \<Rightarrow> (nat \<Rightarrow> redis_db \<Rightarrow> redis_db) \<Rightarrow> string \<Rightarrow> string \<Rightarrow> int \<Rightarrow> nat
     \<Rightarrow> ('inv, 'a) cart_act \<Rightarrow> ('inv, 'a option) cart_act" where
  "withLock taking giving waiting token key ttlMs retries work =
     and_then (redis_call taking (acquire waiting token key ttlMs retries)) (\<lambda>lock.
     case lock of
       None \<Rightarrow> ret None
     | Some l \<Rightarrow> (\<lambda>w. case work w of (res, w') \<Rightarrow>
         (map_sum id Some res, w'\<lparr>redis := release_lock (giving = Answered) l (redis w')\<rparr>)))"

section \<open>The service\<close>

definition CART_UPDATE_REASON :: string where "CART_UPDATE_REASON = ''Cart updated''"
definition CART_ROLLBACK_REASON :: string where "CART_ROLLBACK_REASON = ''Rolling back a failed cart update''"
definition CART_CHECKOUT_REASON :: string where "CART_CHECKOUT_REASON = ''Cart checked out''"

definition rollback ::
  "'inv inventory_ports \<Rightarrow> StockLine list \<Rightarrow> StockLine list \<Rightarrow> string \<Rightarrow> ('inv, unit) cart_act" where
  "rollback ports back_reserved back_released sid =
     (if back_reserved = [] \<and> back_released = [] then ret ()
      else catching
        (and_then (if back_reserved \<noteq> []
                   then on_inventory (dispatch_releaseMany ports 2 back_reserved sid CART_ROLLBACK_REASON)
                   else ret ()) (\<lambda>_.
         if back_released \<noteq> []
         then on_inventory (port_reserveMany ports 3 back_released sid CART_ROLLBACK_REASON)
         else ret ()))
        (\<lambda>_. ret ()))"

definition applyChanges ::
  "'inv inventory_ports \<Rightarrow> cart_service_env \<Rightarrow> (string \<Rightarrow> string \<Rightarrow> int) \<Rightarrow> verdict \<Rightarrow> CartChanges \<Rightarrow> string
     \<Rightarrow> ('inv, CartLine list) cart_act" where
  "applyChanges ports env lc committing ch sid =
     and_then (undoing (rollback ports [] [] sid)
       (if to_reserve ch \<noteq> []
        then on_inventory (port_reserveMany ports 0 (to_reserve ch) sid CART_UPDATE_REASON)
        else ret ())) (\<lambda>_.
     and_then (undoing (rollback ports (to_reserve ch) [] sid)
       (if to_release ch \<noteq> []
        then on_inventory (dispatch_releaseMany ports 1 (to_release ch) sid CART_UPDATE_REASON)
        else ret ())) (\<lambda>_.
     undoing (rollback ports (to_reserve ch) (to_release ch) sid)
       (redis_call committing (repo_commit (cart_env.truncate env) lc sid ch))))"

definition applyRequested ::
  "'inv inventory_ports \<Rightarrow> cart_service_env \<Rightarrow> (string \<Rightarrow> string \<Rightarrow> int) \<Rightarrow> cart_io \<Rightarrow> CartLine list \<Rightarrow> string
     \<Rightarrow> ('inv, CartLine list) cart_act" where
  "applyRequested ports env lc io request sid =
     and_then (redis_get (redis_verdict io 1) (repo_held sid)) (\<lambda>held.
     let changes = planChanges held request in
     if exceedsBulkLimit changes then
       throw (BadRequestException (''A cart may hold at most '' @ int_str (int MAX_BULK_LINES) @ '' distinct products''))
     else if isNoop changes then
       and_then (redis_call (redis_verdict io 2) (repo_touch (cart_env.truncate env) sid)) (\<lambda>_.
       redis_get (redis_verdict io 3) (repo_lines lc sid))
     else applyChanges ports env lc (redis_verdict io 2) changes sid)"

definition busy :: cart_error where
  "busy = ServiceUnavailableException ''Another update to this cart is still in progress; try again''"

definition setLines ::
  "'inv inventory_ports \<Rightarrow> cart_service_env \<Rightarrow> (string \<Rightarrow> string \<Rightarrow> int) \<Rightarrow> cart_io \<Rightarrow> CartLine list \<Rightarrow> string
     \<Rightarrow> ('inv, CartLine list) cart_act" where
  "setLines ports env lc io request sid =
     (let duplicates = duplicateProductIds request in
      if length duplicates > 0 then
        throw (BadRequestException (''Each productId may appear only once; combine duplicates into a single line (''
          @ join_with '', '' duplicates @ '')''))
      else
        and_then (withLock (redis_verdict io 0) (redis_verdict io 4) (lock_waiting io) (lock_uuid io 0)
          (writeLock sid) (CART_LOCK_TTL_MS env) (CART_LOCK_RETRIES env)
          (applyRequested ports env lc io request sid)) (\<lambda>settled.
        case settled of None \<Rightarrow> throw busy | Some ls \<Rightarrow> ret ls))"

definition service_lines ::
  "(string \<Rightarrow> string \<Rightarrow> int) \<Rightarrow> verdict \<Rightarrow> string \<Rightarrow> ('inv, CartLine list) cart_act" where
  "service_lines lc v sid = redis_get v (repo_lines lc sid)"

definition touchSession :: "cart_service_env \<Rightarrow> verdict \<Rightarrow> string \<Rightarrow> ('inv, bool) cart_act" where
  "touchSession env v sid = redis_call v (repo_touch (cart_env.truncate env) sid)"

record ResolvedSession =
  cartSessionId :: string
  created :: bool

definition resolveSession ::
  "cart_service_env \<Rightarrow> cart_io \<Rightarrow> string \<Rightarrow> string option \<Rightarrow> ('inv, ResolvedSession) cart_act" where
  "resolveSession env io uuid claimed =
     and_then (case claimed of
         Some sid \<Rightarrow> if sid = '''' then ret False else touchSession env (redis_verdict io 5) sid
       | None \<Rightarrow> ret False) (\<lambda>live.
     if live then ret \<lparr>cartSessionId = the claimed, created = False\<rparr>
     else and_then (redis_do (redis_verdict io 6) (startSession (cart_env.truncate env) uuid)) (\<lambda>_.
       ret \<lparr>cartSessionId = uuid, created = True\<rparr>))"

record CheckoutResult =
  checkout_cart :: string
  checkout_order :: string
  checkout_lines :: "CartLine list"

definition checkout_work ::
  "'inv inventory_ports \<Rightarrow> (string \<Rightarrow> string \<Rightarrow> int) \<Rightarrow> cart_io \<Rightarrow> string \<Rightarrow> string \<Rightarrow> ('inv, CheckoutResult) cart_act" where
  "checkout_work ports lc io sid orderId =
     and_then (redis_get (redis_verdict io 1) (repo_lines lc sid)) (\<lambda>ls.
     if length ls = 0 then throw (ConflictException ''This cart is empty'')
     else
       and_then (on_inventory (port_transferHold ports 0 ls sid orderId CART_CHECKOUT_REASON)) (\<lambda>_.
       and_then (redis_do (redis_verdict io 2) (discard sid)) (\<lambda>_.
       ret \<lparr>checkout_cart = sid, checkout_order = orderId, checkout_lines = ls\<rparr>)))"

definition checkout ::
  "'inv inventory_ports \<Rightarrow> cart_service_env \<Rightarrow> (string \<Rightarrow> string \<Rightarrow> int) \<Rightarrow> cart_io \<Rightarrow> string \<Rightarrow> string
     \<Rightarrow> ('inv, CheckoutResult) cart_act" where
  "checkout ports env lc io sid orderId =
     and_then (withLock (redis_verdict io 0) (redis_verdict io 4) (lock_waiting io) (lock_uuid io 0)
       (writeLock sid) (CART_LOCK_TTL_MS env) (CART_LOCK_RETRIES env) (checkout_work ports lc io sid orderId))
     (\<lambda>settled. case settled of None \<Rightarrow> throw busy | Some r \<Rightarrow> ret r)"

datatype ReleaseCause = CauseExpired | CauseSwept | CauseAbandoned
datatype ReleaseSkip = SkipLocked | SkipEmpty | SkipNotHeld

fun cause_text :: "ReleaseCause \<Rightarrow> string" where
  "cause_text CauseExpired = ''expired''"
| "cause_text CauseSwept = ''swept''"
| "cause_text CauseAbandoned = ''abandoned''"

record ReleaseOutcome =
  released_flag :: bool
  skipped :: "ReleaseSkip option"
  released_lines :: nat

definition releaseHeld ::
  "'inv inventory_ports \<Rightarrow> cart_service_env \<Rightarrow> cart_io \<Rightarrow> string \<Rightarrow> CartLine list \<Rightarrow> ReleaseCause
     \<Rightarrow> ('inv, ReleaseOutcome) cart_act" where
  "releaseHeld ports env io sid held cause =
     and_then (catching
       (and_then (on_inventory (dispatch_releaseMany ports 0 held sid (''Cart '' @ cause_text cause))) (\<lambda>_. ret None))
       (\<lambda>e. if isInsufficientStock e then
              and_then (redis_do (redis_verdict io 3) (retire sid)) (\<lambda>_.
              ret (Some \<lparr>released_flag = False, skipped = Some SkipNotHeld, released_lines = length held\<rparr>))
            else
              and_then (redis_do (redis_verdict io 3)
                (\<lambda>r. scheduleRelease sid (dateNow (cart_env.truncate env) r + CART_RELEASE_RETRY_DELAY_MS env) r)) (\<lambda>_. throw e)))
     (\<lambda>early. case early of
        Some outcome \<Rightarrow> ret outcome
      | None \<Rightarrow>
          and_then (redis_do (redis_verdict io 3) (retire sid)) (\<lambda>_.
          ret \<lparr>released_flag = True, skipped = None, released_lines = length held\<rparr>))"

definition release_work ::
  "'inv inventory_ports \<Rightarrow> cart_service_env \<Rightarrow> (string \<Rightarrow> string \<Rightarrow> int) \<Rightarrow> cart_io \<Rightarrow> string \<Rightarrow> ReleaseCause
     \<Rightarrow> ('inv, ReleaseOutcome) cart_act" where
  "release_work ports env lc io sid cause =
     and_then (redis_call (redis_verdict io 2) (takeHeldLines (cart_env.truncate env) lc sid)) (\<lambda>held.
     if length held = 0 then
       and_then (redis_do (redis_verdict io 3) (forget sid)) (\<lambda>_.
       ret \<lparr>released_flag = False, skipped = Some SkipEmpty, released_lines = 0\<rparr>)
     else releaseHeld ports env io sid held cause)"

definition releaseSession ::
  "'inv inventory_ports \<Rightarrow> cart_service_env \<Rightarrow> (string \<Rightarrow> string \<Rightarrow> int) \<Rightarrow> cart_io \<Rightarrow> string \<Rightarrow> ReleaseCause
     \<Rightarrow> ('inv, ReleaseOutcome) cart_act" where
  "releaseSession ports env lc io sid cause =
     and_then (withLock (redis_verdict io 0) (redis_verdict io 5) (lock_waiting io) (lock_uuid io 0)
       (releaseLock sid) (CART_RELEASE_LOCK_SECONDS env * 1000) 0
       (withLock (redis_verdict io 1) (redis_verdict io 4) (lock_waiting io) (lock_uuid io 1)
         (writeLock sid) (CART_LOCK_TTL_MS env) (CART_LOCK_RETRIES env)
         (release_work ports env lc io sid cause))) (\<lambda>outcome.
     ret (case outcome of
            Some (Some o') \<Rightarrow> o'
          | _ \<Rightarrow> \<lparr>released_flag = False, skipped = Some SkipLocked, released_lines = 0\<rparr>))"

section \<open>The HTTP face\<close>

definition valid_dto :: "CartLine list \<Rightarrow> bool" where
  "valid_dto items \<longleftrightarrow> 1 \<le> length items \<and> length items \<le> MAX_BULK_LINES \<and>
     list_all (\<lambda>l. line_productId l \<noteq> [] \<and> 0 \<le> line_quantity l) items"

text \<open>A header's trimmed value; an empty one counts as absent.\<close>

definition header_value :: "string option \<Rightarrow> string option" where
  "header_value raw = (case raw of
     None \<Rightarrow> None | Some v \<Rightarrow> (let t = js_trim v in if t = '''' then None else Some t))"

definition setItems ::
  "'inv inventory_ports \<Rightarrow> cart_service_env \<Rightarrow> (string \<Rightarrow> string \<Rightarrow> int) \<Rightarrow> cart_io \<Rightarrow> string
     \<Rightarrow> CartLine list \<Rightarrow> string option \<Rightarrow> ('inv, string \<times> CartLine list) cart_act" where
  "setItems ports env lc io uuid items sessionHeader =
     (if \<not> valid_dto items then throw (BadRequestException ''Bad Request'')
      else
        and_then (resolveSession env io uuid (header_value sessionHeader)) (\<lambda>resolved.
        and_then (setLines ports env lc io items (cartSessionId resolved)) (\<lambda>ls.
        ret (cartSessionId resolved, ls))))"

definition requireSession :: "cart_service_env \<Rightarrow> verdict \<Rightarrow> string option \<Rightarrow> ('inv, string) cart_act" where
  "requireSession env v claimed = (case claimed of
     None \<Rightarrow> throw (NotFoundException (''No cart session; send one in the '' @ quote ''cart-session-id'' @ '' header''))
   | Some sid \<Rightarrow>
       and_then (touchSession env v sid) (\<lambda>live.
       if \<not> live then throw (NotFoundException ''This cart has expired'') else ret sid))"

definition getCart ::
  "cart_service_env \<Rightarrow> (string \<Rightarrow> string \<Rightarrow> int) \<Rightarrow> cart_io \<Rightarrow> string option \<Rightarrow> ('inv, CartLine list) cart_act" where
  "getCart env lc io sessionHeader =
     and_then (requireSession env (redis_verdict io 5) (header_value sessionHeader)) (\<lambda>sid.
     service_lines lc (redis_verdict io 6) sid)"

definition checkout_route ::
  "'inv inventory_ports \<Rightarrow> cart_service_env \<Rightarrow> (string \<Rightarrow> string \<Rightarrow> int) \<Rightarrow> cart_io \<Rightarrow> (string \<Rightarrow> bool)
     \<Rightarrow> string \<Rightarrow> string option \<Rightarrow> ('inv, CheckoutResult) cart_act" where
  "checkout_route ports env lc io is_uuid orderId sessionHeader =
     (if \<not> is_uuid orderId then throw (BadRequestException ''Bad Request'')
      else
        and_then (requireSession env (redis_verdict io 5) (header_value sessionHeader)) (\<lambda>sid.
        checkout ports env lc io sid orderId))"

definition abandon ::
  "'inv inventory_ports \<Rightarrow> cart_service_env \<Rightarrow> (string \<Rightarrow> string \<Rightarrow> int) \<Rightarrow> cart_io \<Rightarrow> string option
     \<Rightarrow> ('inv, unit) cart_act" where
  "abandon ports env lc io sessionHeader = (case header_value sessionHeader of
     None \<Rightarrow> ret ()
   | Some sid \<Rightarrow> and_then (releaseSession ports env lc io sid CauseAbandoned) (\<lambda>_. ret ()))"

section \<open>The expiry watcher\<close>

definition watcher_release ::
  "'inv inventory_ports \<Rightarrow> cart_service_env \<Rightarrow> (string \<Rightarrow> string \<Rightarrow> int) \<Rightarrow> cart_io \<Rightarrow> string \<Rightarrow> ReleaseCause
     \<Rightarrow> ('inv, unit) cart_act" where
  "watcher_release ports env lc io sid cause =
     catching (and_then (releaseSession ports env lc io sid cause) (\<lambda>_. ret ())) (\<lambda>_. ret ())"

definition onExpiry ::
  "'inv inventory_ports \<Rightarrow> cart_service_env \<Rightarrow> (string \<Rightarrow> string \<Rightarrow> int) \<Rightarrow> cart_io \<Rightarrow> string \<Rightarrow> string \<Rightarrow> string
     \<Rightarrow> ('inv, unit) cart_act" where
  "onExpiry ports env lc io subscribed channel key =
     (if channel \<noteq> subscribed then ret ()
      else case sessionIdFromExpiredKey (cart_env.truncate env) key of
        None \<Rightarrow> ret ()
      | Some sid \<Rightarrow> watcher_release ports env lc io sid CauseExpired)"

text \<open>One round of the sweep; each cart of the batch meets its own environment.\<close>

fun sweep_batch ::
  "'inv inventory_ports \<Rightarrow> cart_service_env \<Rightarrow> (string \<Rightarrow> string \<Rightarrow> int) \<Rightarrow> (string \<Rightarrow> cart_io) \<Rightarrow> string list
     \<Rightarrow> ('inv, unit) cart_act" where
  "sweep_batch ports env lc io [] = ret ()"
| "sweep_batch ports env lc io (sid # rest) =
     and_then (redis_get (redis_verdict (io sid) 6) (sessionTtlMs sid)) (\<lambda>ttlMs.
     and_then (if 0 \<le> ttlMs
               then redis_do (redis_verdict (io sid) 7) (\<lambda>r. scheduleRelease sid (dateNow (cart_env.truncate env) r + ttlMs) r)
               else watcher_release ports env lc (io sid) sid CauseSwept) (\<lambda>_.
     sweep_batch ports env lc io rest))"

definition sweep ::
  "'inv inventory_ports \<Rightarrow> cart_service_env \<Rightarrow> (string \<Rightarrow> string \<Rightarrow> int) \<Rightarrow> (string \<Rightarrow> cart_io) \<Rightarrow> verdict
     \<Rightarrow> ('inv, unit) cart_act" where
  "sweep ports env lc io listing =
     catching
       (and_then (redis_get listing (\<lambda>r. dueBefore (dateNow (cart_env.truncate env) r) (CART_SWEEP_BATCH env) r)) (\<lambda>due.
        sweep_batch ports env lc io due))
       (\<lambda>_. ret ())"

section \<open>The store stays well-formed\<close>

text \<open>What every operation keeps of the Redis store, for any inventory and any verdicts.\<close>

definition store_ok :: "redis_db \<Rightarrow> bool" where
  "store_ok r \<longleftrightarrow> carts_ok r \<and> all_queued r \<and> 0 \<le> clock r"

definition waiting_ok :: "cart_io \<Rightarrow> bool" where
  "waiting_ok io \<longleftrightarrow> (\<forall>n r. store_ok r \<longrightarrow> store_ok (lock_waiting io n r))"

lemma keeps_redis_call [keeps_intros]:
  "(\<And>r. P r \<Longrightarrow> P (snd (f r))) \<Longrightarrow> keeps (\<lambda>w. P (redis w)) (redis_call v f)"
  by (auto simp: keeps_def redis_call_def split: verdict.splits)

lemma keeps_redis_do [keeps_intros]: "(\<And>r. P r \<Longrightarrow> P (f r)) \<Longrightarrow> keeps (\<lambda>w. P (redis w)) (redis_do v f)"
  unfolding redis_do_def by (rule keeps_redis_call) simp

lemma keeps_redis_get [keeps_intros]: "keeps (\<lambda>w. P (redis w)) (redis_get v f)"
  unfolding redis_get_def by (rule keeps_redis_call) simp

lemma keeps_on_inventory [keeps_intros]: "keeps (\<lambda>w. P (redis w)) (on_inventory m)"
  by (auto simp: keeps_def on_inventory_def split: prod.splits)

lemma keeps_undoing [keeps_intros]:
  "keeps P undo \<Longrightarrow> keeps P m \<Longrightarrow> keeps P (undoing undo m)"
  by (fastforce simp: keeps_def undoing_def split: prod.splits sum.splits)

lemma store_ok_strings: "store_ok (r\<lparr>strings := S\<rparr>) = store_ok r"
proof -
  have "live_hash (r\<lparr>strings := S\<rparr>) = live_hash r"
    by (auto simp: fun_eq_iff live_hash_def split: option.split)
  then have "HGETALL (r\<lparr>strings := S\<rparr>) = HGETALL r" "hashes_ok (r\<lparr>strings := S\<rparr>) = hashes_ok r"
    by (simp_all add: fun_eq_iff HGETALL_def hashes_ok_def)
  then show ?thesis
    by (simp add: store_ok_def carts_ok_def all_queued_def repo_held_def queued_def)
qed

lemma store_ok_lockRelease: "store_ok r \<Longrightarrow> store_ok (release_lock b l r)"
  by (auto simp: release_lock_def lockRelease_def DEL_string_def store_ok_strings split: option.splits)

lemma store_ok_SET_PX_NX: "store_ok r \<Longrightarrow> store_ok (snd (SET_PX_NX k v ms r))"
  by (auto simp: SET_PX_NX_def store_ok_strings)

lemma store_ok_try_lock:
  "(\<And>n r. store_ok r \<Longrightarrow> store_ok (waiting n r)) \<Longrightarrow> store_ok r \<Longrightarrow>
     store_ok (snd (try_lock waiting key token ttl n r))"
proof (induction n arbitrary: r)
  case 0
  then show ?case
    using store_ok_SET_PX_NX [OF 0(2), of key token ttl]
    by (auto simp: try_lock.simps [of _ _ _ _ 0] split: prod.splits bool.splits)
next
  case (Suc n)
  then show ?case
    using store_ok_SET_PX_NX [OF Suc(3), of key token ttl]
    by (auto simp: try_lock.simps [of _ _ _ _ "Suc n"] split: prod.splits bool.splits)
qed

lemma keeps_withLock:
  assumes "waiting_ok io" and "keeps (\<lambda>w. store_ok (redis w)) work"
  shows "keeps (\<lambda>w. store_ok (redis w)) (withLock v1 v2 (lock_waiting io) token key ttl retries work)"
proof -
  have "keeps (\<lambda>w. store_ok (redis w))
      (\<lambda>w. case work w of (res, w') \<Rightarrow> (map_sum id Some res, w'\<lparr>redis := release_lock b l (redis w')\<rparr>))" for b l
    using assms(2) by (auto simp: keeps_def split: prod.splits) (metis snd_conv store_ok_lockRelease)
  then show ?thesis
    unfolding withLock_def
    using assms(1) by (auto intro!: keeps_intros split: option.split
        simp: acquire_def waiting_ok_def store_ok_try_lock)
qed

lemma store_ok_repository:
  assumes "lifetimes_ok env" and "store_ok r"
  shows "store_ok (snd (repo_touch env sid r))" "store_ok (startSession env sid r)"
    "store_ok (snd (takeHeldLines env lc sid r))" "store_ok (retire sid r)" "store_ok (discard sid r)"
    "repo_held sid r = [] \<Longrightarrow> store_ok (forget sid r)" "store_ok (scheduleRelease sid t r)"
  using assms repository_keeps_carts [of r env] repository_keeps_queued [of r env]
  by (auto simp: store_ok_def touch_frame startSession_frame take_frame)
     (simp_all add: retire_def cartFinish_def discard_def cartDiscard_def forget_def scheduleRelease_def)

lemma clock_repo_commit:
  assumes "lifetimes_ok env" and "0 \<le> clock r"
  shows "clock (snd (repo_commit env lc sid ch r)) = clock r"
  by (simp add: repo_commit_def cartCommit_eq [OF assms] Let_def)

lemma store_ok_commit:
  assumes "lifetimes_ok env" and "store_ok r" and ch: "storable_changes ch"
  shows "store_ok (snd (repo_commit env lc sid ch r))"
proof -
  have r: "carts_ok r" "all_queued r" "0 \<le> clock r" using assms(2) by (simp_all add: store_ok_def)
  have "all_queued (snd (repo_commit env lc sid ch r))"
    using r(2) by (auto simp: all_queued_def repo_commit_held [OF r(1) assms(1) r(3) ch]
        repo_commit_queued [OF r(1) assms(1) r(3)])
  then show ?thesis
    using repo_commit_ok [OF r(1) assms(1) r(3) ch] r(3)
    by (simp add: store_ok_def clock_repo_commit [OF assms(1) r(3)])
qed

abbreviation keeps_store :: "('inv, 'a) cart_act \<Rightarrow> bool" where
  "keeps_store \<equiv> keeps (\<lambda>w. store_ok (redis w))"

lemma keeps_rollback [keeps_intros]: "keeps (\<lambda>w. P (redis w)) (rollback ports a b sid)"
  unfolding rollback_def by (auto intro!: keeps_intros)

lemma valid_dto_request:
  "valid_dto request \<Longrightarrow> distinct (map line_productId request) \<Longrightarrow>
     valid_request request \<and> list_all (\<lambda>l. line_productId l \<noteq> []) request"
  by (auto simp: valid_dto_def valid_request_def list_all_iff)

lemma keeps_applyRequested:
  assumes "lifetimes_ok (cart_env.truncate env)" and "valid_dto request" and "distinct (map line_productId request)"
  shows "keeps_store (applyRequested ports env lc io request sid)"
proof -
  have ch: "storable_changes (planChanges held request)" for held
    using valid_dto_request [OF assms(2,3)] planChanges_storable by blast
  show ?thesis
    unfolding applyRequested_def applyChanges_def Let_def
    by (auto intro!: keeps_intros store_ok_commit [OF assms(1) _ ch] store_ok_repository [OF assms(1)])
qed

lemma keeps_setLines:
  assumes "lifetimes_ok (cart_env.truncate env)" and "waiting_ok io" and "valid_dto request"
  shows "keeps_store (setLines ports env lc io request sid)"
  unfolding setLines_def Let_def
  using assms no_duplicates_distinct [of request]
  by (auto intro!: keeps_intros keeps_withLock keeps_applyRequested split: option.split)

lemma keeps_checkout:
  assumes "lifetimes_ok (cart_env.truncate env)" and "waiting_ok io"
  shows "keeps_store (checkout ports env lc io sid orderId)"
  unfolding checkout_def checkout_work_def
  using assms by (auto intro!: keeps_intros keeps_withLock store_ok_repository split: option.split)

lemma keeps_releaseHeld:
  assumes "lifetimes_ok (cart_env.truncate env)"
  shows "keeps_store (releaseHeld ports env io sid held cause)"
  unfolding releaseHeld_def
  using assms by (auto intro!: keeps_intros store_ok_repository split: option.split)

text \<open>An empty cart is dropped from the queue only after the lines were read as empty.\<close>

lemma keeps_release_work:
  assumes life: "lifetimes_ok (cart_env.truncate env)"
  shows "keeps_store (release_work ports env lc io sid cause)"
proof (rule keepsI)
  fix w :: "'a cart_world"
  assume ok: "store_ok (redis w)"
  let ?take = "takeHeldLines (cart_env.truncate env) lc sid (redis w)"
  have ok': "store_ok (snd ?take)" using store_ok_repository(3) [OF life ok] .
  have same: "repo_held sid (snd ?take) = repo_held sid (redis w)"
    by (rule repo_held_cong) (simp add: take_frame(1) [OF life])
  have empty: "fst ?take = [] \<Longrightarrow> store_ok (forget sid (snd ?take))"
    using store_ok_repository(6) [OF life ok'] same
    by (simp add: take_frame(5) [OF life] repo_lines_def toCartLines_Nil_iff)
  show "store_ok (redis (snd (release_work ports env lc io sid cause w)))"
  proof (cases "redis_verdict io 2")
    case Answered
    show ?thesis
    proof (cases "fst ?take = []")
      case True
      with Answered ok' empty show ?thesis
        by (cases "redis_verdict io 3")
          (auto simp: release_work_def redis_call_def redis_do_def and_then_def)
    next
      case False
      with Answered ok' show ?thesis
        using keepsD [OF keeps_releaseHeld [OF life], of "w\<lparr>redis := snd ?take\<rparr>"]
        by (simp add: release_work_def redis_call_def and_then_def)
    qed
  qed (simp_all add: release_work_def redis_call_def and_then_def ok ok')
qed

lemma keeps_releaseSession:
  assumes "lifetimes_ok (cart_env.truncate env)" and "waiting_ok io"
  shows "keeps_store (releaseSession ports env lc io sid cause)"
  unfolding releaseSession_def
  using assms by (intro keeps_intros keeps_withLock keeps_release_work)

lemma keeps_resolveSession:
  assumes "lifetimes_ok (cart_env.truncate env)"
  shows "keeps_store (resolveSession env io uuid claimed)"
  unfolding resolveSession_def touchSession_def
  using assms by (auto intro!: keeps_intros store_ok_repository split: option.split)

lemma keeps_requireSession:
  assumes "lifetimes_ok (cart_env.truncate env)"
  shows "keeps_store (requireSession env v claimed)"
  unfolding requireSession_def touchSession_def
  using assms by (auto intro!: keeps_intros store_ok_repository split: option.split)

lemma keeps_watcher_release:
  assumes "lifetimes_ok (cart_env.truncate env)" and "waiting_ok io"
  shows "keeps_store (watcher_release ports env lc io sid cause)"
  unfolding watcher_release_def using assms by (intro keeps_intros keeps_releaseSession)

lemma keeps_sweep_batch:
  assumes "lifetimes_ok (cart_env.truncate env)" and "\<And>s. waiting_ok (io s)"
  shows "keeps_store (sweep_batch ports env lc io sids)"
  using assms
  by (induction sids) (auto intro!: keeps_intros keeps_watcher_release store_ok_repository)

section \<open>Reachable stores\<close>

text \<open>
  Everything that happens to the store: requests, expiry notifications, sweeps, and time. Each meets
  its own inventory, ports, verdicts and reasonable waiting.
\<close>

datatype cart_event =
  SetItems "CartLine list" "string option" string
| GetCart "string option"
| Checkout string "string option"
| Abandon "string option"
| KeyExpired string string string
| Sweep
| Tick int

fun cart_event_run ::
  "'inv inventory_ports \<Rightarrow> cart_service_env \<Rightarrow> (string \<Rightarrow> string \<Rightarrow> int) \<Rightarrow> cart_io \<Rightarrow> (string \<Rightarrow> bool)
     \<Rightarrow> cart_event \<Rightarrow> 'inv cart_world \<Rightarrow> 'inv cart_world" where
  "cart_event_run ports env lc io is_uuid (SetItems items h uuid) w = snd (setItems ports env lc io uuid items h w)"
| "cart_event_run ports env lc io is_uuid (GetCart h) w = snd (getCart env lc io h w)"
| "cart_event_run ports env lc io is_uuid (Checkout orderId h) w =
     snd (checkout_route ports env lc io is_uuid orderId h w)"
| "cart_event_run ports env lc io is_uuid (Abandon h) w = snd (abandon ports env lc io h w)"
| "cart_event_run ports env lc io is_uuid (KeyExpired subscribed channel key) w =
     snd (onExpiry ports env lc io subscribed channel key w)"
| "cart_event_run ports env lc io is_uuid Sweep w = snd (sweep ports env lc (\<lambda>_. io) (redis_verdict io 8) w)"
| "cart_event_run ports env lc io is_uuid (Tick dt) w =
     w\<lparr>redis := (redis w)\<lparr>clock := clock (redis w) + \<bar>dt\<bar>\<rparr>\<rparr>"

inductive cart_reachable ::
  "'inv inventory_ports \<Rightarrow> cart_service_env \<Rightarrow> (string \<Rightarrow> string \<Rightarrow> int) \<Rightarrow> (string \<Rightarrow> bool) \<Rightarrow> 'inv cart_world \<Rightarrow> bool"
  for ports env lc is_uuid where
  boot: "cart_reachable ports env lc is_uuid \<lparr>redis = empty_redis, inventory = i\<rparr>"
| event: "cart_reachable ports env lc is_uuid w \<Longrightarrow> waiting_ok io \<Longrightarrow>
     cart_reachable ports env lc is_uuid (cart_event_run ports env lc io is_uuid e w)"
| elsewhere: "cart_reachable ports env lc is_uuid w \<Longrightarrow>
     cart_reachable ports env lc is_uuid (w\<lparr>inventory := i\<rparr>)"

lemma HGETALL_later: "0 \<le> dt \<Longrightarrow> HGETALL (r\<lparr>clock := clock r + dt\<rparr>) k \<in> {HGETALL r k, []}"
  by (auto simp: HGETALL_def live_hash_def expired_def split: option.splits if_splits)

lemma store_ok_tick:
  assumes "store_ok r" and "0 \<le> dt"
  shows "store_ok (r\<lparr>clock := clock r + dt\<rparr>)"
proof -
  let ?r = "r\<lparr>clock := clock r + dt\<rparr>"
  have "hashes_ok ?r"
    using assms by (fastforce simp: store_ok_def carts_ok_def hashes_ok_def live_hash_def expired_def
        split: option.splits if_splits)
  moreover have "repo_held sid ?r = repo_held sid r \<and> HGETALL ?r (items_key sid) = HGETALL r (items_key sid) \<or>
      repo_held sid ?r = [] \<and> HGETALL ?r (items_key sid) = []" for sid
    using HGETALL_later [OF assms(2), of r "items_key sid"] by (auto simp: repo_held_def heldQuantities_def)
  ultimately show ?thesis
    using assms by (auto simp: store_ok_def carts_ok_def all_queued_def queued_def)
      (metis cart_hash_def list.simps(8) storable_def positive_map_Nil empty_iff image_empty list.set(1))+
qed

lemma cart_event_keeps:
  fixes ports :: "'i inventory_ports"
  assumes life: "lifetimes_ok (cart_env.truncate env)" and wait: "waiting_ok io" and ok: "store_ok (redis w)"
  shows "store_ok (redis (cart_event_run ports env lc io is_uuid e w))"
proof -
  note keeps = keeps_resolveSession [OF life] keeps_requireSession [OF life] keeps_setLines [OF life wait]
    keeps_checkout [OF life wait] keeps_releaseSession [OF life wait] keeps_watcher_release [OF life wait]
  have "keeps_store (setItems ports env lc io uuid items h)" for uuid items h
    unfolding setItems_def using keeps by (auto intro!: keeps_intros)
  moreover have "keeps_store (getCart env lc io h :: ('i, CartLine list) cart_act)" for h
    unfolding getCart_def service_lines_def using keeps by (auto intro!: keeps_intros)
  moreover have "keeps_store (checkout_route ports env lc io is_uuid orderId h)" for orderId h
    unfolding checkout_route_def using keeps by (auto intro!: keeps_intros)
  moreover have "keeps_store (abandon ports env lc io h)" for h
    unfolding abandon_def using keeps by (auto intro!: keeps_intros split: option.split)
  moreover have "keeps_store (onExpiry ports env lc io s c k)" for s c k
    unfolding onExpiry_def using keeps by (auto intro!: keeps_intros split: option.split)
  moreover have "keeps_store (sweep ports env lc (\<lambda>_. io) v)" for v
    unfolding sweep_def using keeps_sweep_batch [OF life wait] by (auto intro!: keeps_intros)
  ultimately show ?thesis
    using ok store_ok_tick [OF ok] by (cases e) (simp_all add: keeps_def)
qed

lemma store_ok_empty: "store_ok empty_redis"
  using empty_redis_ok
  by (simp add: store_ok_def all_queued_def repo_held_def HGETALL_def live_hash_def empty_redis_def
      heldQuantities_def)

lemma reachable_store_ok:
  assumes life: "lifetimes_ok (cart_env.truncate env)"
  shows "cart_reachable ports env lc is_uuid w \<Longrightarrow> store_ok (redis w)"
proof (induction rule: cart_reachable.induct)
  case (boot i)
  then show ?case by (simp add: store_ok_empty)
next
  case (event w io e)
  then show ?case by (blast intro: cart_event_keeps [OF life])
qed simp

text \<open>
  Property C11. No cart is ever forgotten while it holds stock: whatever requests, expiry
  notifications, sweeps, Redis failures and lost replies there are, every cart whose stored lines
  are not empty is on the sweeper's queue, and what is stored is always readable as positive whole
  quantities of distinct products.
\<close>

theorem carts_stay_queued:
  assumes "lifetimes_ok (cart_env.truncate env)" and "cart_reachable ports env lc is_uuid w"
    and "repo_held sid (redis w) \<noteq> []"
  shows "queued (redis w) sid \<and> positive_map (repo_held sid (redis w)) \<and>
         HGETALL (redis w) (items_key sid) = cart_hash (repo_held sid (redis w))"
  using reachable_store_ok [OF assms(1,2)] assms(3)
  by (simp add: store_ok_def all_queued_def carts_ok_def storable_def)

section \<open>What the cart relies on of the inventory ports\<close>

text \<open>
  The contract of the two ports, over the levels (on hand, reserved) of each product: a call that
  resolves has moved exactly the units of its batch; a call that rejects has moved nothing, unless
  its reply was lost; and the opposite of a batch that was once accepted gets through when the network
  does and the levels allow it.
\<close>

definition stock_batch :: "StockLine list \<Rightarrow> bool" where
  "stock_batch ls \<longleftrightarrow> valid_bulk \<lparr>bulk_items = ls, bulk_reason = None, bulk_reference = ''''\<rparr>"

locale stock_ports =
  fixes ports :: "'inv inventory_ports"
    and levels :: "'inv \<Rightarrow> string \<Rightarrow> (int \<times> int) option"
    and invar :: "'inv \<Rightarrow> bool"
    and lost :: "nat \<Rightarrow> bool"
    and up :: "nat \<Rightarrow> bool"
  assumes invar_levels: "invar i \<Longrightarrow> levels i p = Some (q, r) \<Longrightarrow> 0 \<le> r \<and> r \<le> q"
    and reserve_resolves: "invar i \<Longrightarrow> stock_batch ls \<Longrightarrow> port_reserveMany ports n ls ref why i = (Inr u, i') \<Longrightarrow>
           levels i' p = moved_by 1 ls p (levels i p)"
    and reserve_rejects: "invar i \<Longrightarrow> stock_batch ls \<Longrightarrow> \<not> lost n \<Longrightarrow>
           port_reserveMany ports n ls ref why i = (Inl e, i') \<Longrightarrow> levels i' p = levels i p"
    and release_resolves: "invar i \<Longrightarrow> stock_batch ls \<Longrightarrow> dispatch_releaseMany ports n ls ref why i = (Inr u, i') \<Longrightarrow>
           levels i' p = moved_by (- 1) ls p (levels i p)"
    and release_rejects: "invar i \<Longrightarrow> stock_batch ls \<Longrightarrow> \<not> lost n \<Longrightarrow>
           dispatch_releaseMany ports n ls ref why i = (Inl e, i') \<Longrightarrow> levels i' p = levels i p"
    and reserve_invar: "invar i \<Longrightarrow> stock_batch ls \<Longrightarrow> invar (snd (port_reserveMany ports n ls ref why i))"
    and release_invar: "invar i \<Longrightarrow> stock_batch ls \<Longrightarrow> invar (snd (dispatch_releaseMany ports n ls ref why i))"
    and release_held: "invar i \<Longrightarrow> stock_batch ls \<Longrightarrow> up n \<Longrightarrow>
           port_reserveMany ports m ls ref why j = (Inr u, j') \<Longrightarrow>
           list_all (\<lambda>l. \<exists>q r. levels i (line_productId l) = Some (q, r) \<and> line_quantity l \<le> r) ls \<Longrightarrow>
           \<exists>i'. dispatch_releaseMany ports n ls ref CART_ROLLBACK_REASON i = (Inr (), i')"
    and reserve_available: "invar i \<Longrightarrow> stock_batch ls \<Longrightarrow> up n \<Longrightarrow>
           dispatch_releaseMany ports m ls ref why j = (Inr u, j') \<Longrightarrow>
           list_all (\<lambda>l. \<exists>q r. levels i (line_productId l) = Some (q, r) \<and> line_quantity l \<le> q - r) ls \<Longrightarrow>
           \<exists>i'. port_reserveMany ports n ls ref CART_ROLLBACK_REASON i = (Inr (), i')"
    and moved_known: "invar i \<Longrightarrow> stock_batch ls \<Longrightarrow> l \<in> set ls \<Longrightarrow>
           port_reserveMany ports n ls ref why i = (Inr u, i') \<or> dispatch_releaseMany ports n ls ref why i = (Inr u, i') \<Longrightarrow>
           levels i (line_productId l) \<noteq> None"
begin

lemma batch_positive: "stock_batch ls \<Longrightarrow> l \<in> set ls \<Longrightarrow> 0 < line_quantity l"
  by (auto simp: stock_batch_def valid_bulk_def list_all_iff)

lemma batch_units: "stock_batch ls \<Longrightarrow> l \<in> set ls \<Longrightarrow> requested_units ls (line_productId l) = line_quantity l"
  by (simp add: stock_batch_def valid_bulk_def requested_units_mem)

text \<open>What a reservation took can be handed back, as long as those products have not moved since.\<close>

lemma reserve_undone:
  assumes inv: "invar i" and batch: "stock_batch ls"
    and before: "invar j" and run: "port_reserveMany ports n ls ref why j = (Inr u, j')"
    and same: "\<And>l. l \<in> set ls \<Longrightarrow> levels i (line_productId l) = levels j' (line_productId l)" and up: "up m"
  shows "\<exists>i2. dispatch_releaseMany ports m ls ref CART_ROLLBACK_REASON i = (Inr (), i2) \<and> invar i2"
proof -
  have "\<exists>q r. levels i (line_productId l) = Some (q, r) \<and> line_quantity l \<le> r" if l: "l \<in> set ls" for l
  proof -
    obtain q r where lv: "levels j (line_productId l) = Some (q, r)"
      using moved_known [OF before batch l] run by fastforce
    then have "levels i (line_productId l) = Some (q, r + line_quantity l)"
      using reserve_resolves [OF before batch run] batch_units [OF batch l] same [OF l] by (simp add: moved_by_def)
    then show ?thesis using invar_levels [OF before lv] by simp
  qed
  then obtain i2 where res: "dispatch_releaseMany ports m ls ref CART_ROLLBACK_REASON i = (Inr (), i2)"
    using release_held [OF inv batch up run] by (auto simp: list_all_iff)
  then show ?thesis using release_invar [OF inv batch, of m ref CART_ROLLBACK_REASON] by auto
qed

text \<open>And what a release gave back can be taken again, as long as nobody else took it in between.\<close>

lemma release_undone:
  assumes inv: "invar i" and batch: "stock_batch ls"
    and before: "invar j" and run: "dispatch_releaseMany ports n ls ref why j = (Inr u, j')"
    and same: "\<And>l. l \<in> set ls \<Longrightarrow> levels i (line_productId l) = levels j' (line_productId l)" and up: "up m"
  shows "\<exists>i2. port_reserveMany ports m ls ref CART_ROLLBACK_REASON i = (Inr (), i2) \<and> invar i2"
proof -
  have "\<exists>q r. levels i (line_productId l) = Some (q, r) \<and> line_quantity l \<le> q - r" if l: "l \<in> set ls" for l
  proof -
    obtain q r where lv: "levels j (line_productId l) = Some (q, r)"
      using moved_known [OF before batch l] run by fastforce
    then have "levels i (line_productId l) = Some (q, r - line_quantity l)"
      using release_resolves [OF before batch run] batch_units [OF batch l] same [OF l] by (simp add: moved_by_def)
    then show ?thesis using invar_levels [OF before lv] by simp
  qed
  then obtain i2 where res: "port_reserveMany ports m ls ref CART_ROLLBACK_REASON i = (Inr (), i2)"
    using reserve_available [OF inv batch up run] by (auto simp: list_all_iff)
  then show ?thesis using reserve_invar [OF inv batch, of m ref CART_ROLLBACK_REASON] by auto
qed

end

section \<open>The update saga\<close>

lemma moved_by_Nil [simp]: "moved_by s [] p lv = lv"
  by (cases lv) (auto simp: moved_by_def requested_units_def)

lemma moved_by_untouched: "requested_units ls p = 0 \<Longrightarrow> moved_by s ls p lv = lv"
  by (cases lv) (auto simp: moved_by_def)

lemma requested_line_units: "distinct (map line_productId ls) \<Longrightarrow> requested_units ls p = line_units ls p"
proof (induction ls)
  case (Cons l ls)
  then show ?case
    by (auto simp: requested_units_def line_units_absent)
qed (simp add: requested_units_def)

context stock_ports
begin

lemma on_reserve_resolves:
  assumes "invar (inventory w)" and "ls \<noteq> [] \<longrightarrow> stock_batch ls"
    and "(if ls \<noteq> [] then on_inventory (port_reserveMany ports n ls ref why) else ret ()) w = (Inr u, w')"
  shows "redis w' = redis w \<and> invar (inventory w') \<and>
         (\<forall>p. levels (inventory w') p = moved_by 1 ls p (levels (inventory w) p))"
  using assms reserve_resolves [of "inventory w" ls n ref why u] reserve_invar [of "inventory w" ls n ref why]
  by (cases "port_reserveMany ports n ls ref why (inventory w)")
    (auto simp: on_inventory_def split: if_splits)

lemma on_release_resolves:
  assumes "invar (inventory w)" and "ls \<noteq> [] \<longrightarrow> stock_batch ls"
    and "(if ls \<noteq> [] then on_inventory (dispatch_releaseMany ports n ls ref why) else ret ()) w = (Inr u, w')"
  shows "redis w' = redis w \<and> invar (inventory w') \<and>
         (\<forall>p. levels (inventory w') p = moved_by (- 1) ls p (levels (inventory w) p))"
  using assms release_resolves [of "inventory w" ls n ref why u] release_invar [of "inventory w" ls n ref why]
  by (cases "dispatch_releaseMany ports n ls ref why (inventory w)")
    (auto simp: on_inventory_def split: if_splits)

lemma undoing_Inr: "undoing u m w = (Inr a, w') \<longleftrightarrow> m w = (Inr a, w')"
  by (auto simp: undoing_def split: prod.splits sum.splits)

lemma applyChanges_resolves:
  assumes inv: "invar (inventory w)" and G: "to_reserve ch \<noteq> [] \<longrightarrow> stock_batch (to_reserve ch)"
    and S: "to_release ch \<noteq> [] \<longrightarrow> stock_batch (to_release ch)"
    and run: "applyChanges ports env lc v ch sid w = (Inr ls, w')"
  shows "invar (inventory w') \<and>
    (\<forall>p. levels (inventory w') p = moved_by (- 1) (to_release ch) p (moved_by 1 (to_reserve ch) p (levels (inventory w) p))) \<and>
    (ls, redis w') = repo_commit (cart_env.truncate env) lc sid ch (redis w)"
proof -
  obtain u1 w1 u2 w2 where 1: "(if to_reserve ch \<noteq> [] then on_inventory (port_reserveMany ports 0 (to_reserve ch) sid CART_UPDATE_REASON)
        else ret ()) w = (Inr u1, w1)"
    and 2: "(if to_release ch \<noteq> [] then on_inventory (dispatch_releaseMany ports 1 (to_release ch) sid CART_UPDATE_REASON)
        else ret ()) w1 = (Inr u2, w2)"
    and 3: "redis_call v (repo_commit (cart_env.truncate env) lc sid ch) w2 = (Inr ls, w')"
    using run unfolding applyChanges_def and_then_Inr_iff undoing_Inr by blast
  note r1 = on_reserve_resolves [OF inv G 1]
  note r2 = on_release_resolves [OF conjunct1 [OF conjunct2 [OF r1]] S 2]
  have "v = Answered" "inventory w' = inventory w2"
    "(ls, redis w') = repo_commit (cart_env.truncate env) lc sid ch (redis w2)"
    using 3 by (auto simp: redis_call_def split: verdict.splits)
  with r1 r2 show ?thesis by simp
qed

end

context stock_ports
begin

lemma on_reserve_rejects:
  assumes "invar (inventory w)" and "ls \<noteq> [] \<longrightarrow> stock_batch ls" and "\<not> lost n"
    and "(if ls \<noteq> [] then on_inventory (port_reserveMany ports n ls ref why) else ret ()) w = (Inl e, w')"
  shows "redis w' = redis w \<and> invar (inventory w') \<and> (\<forall>p. levels (inventory w') p = levels (inventory w) p)"
  using assms reserve_rejects [of "inventory w" ls n ref why e] reserve_invar [of "inventory w" ls n ref why]
  by (cases "port_reserveMany ports n ls ref why (inventory w)")
    (auto simp: on_inventory_def split: if_splits)

lemma on_release_rejects:
  assumes "invar (inventory w)" and "ls \<noteq> [] \<longrightarrow> stock_batch ls" and "\<not> lost n"
    and "(if ls \<noteq> [] then on_inventory (dispatch_releaseMany ports n ls ref why) else ret ()) w = (Inl e, w')"
  shows "redis w' = redis w \<and> invar (inventory w') \<and> (\<forall>p. levels (inventory w') p = levels (inventory w) p)"
  using assms release_rejects [of "inventory w" ls n ref why e] release_invar [of "inventory w" ls n ref why]
  by (cases "dispatch_releaseMany ports n ls ref why (inventory w)")
    (auto simp: on_inventory_def split: if_splits)

lemma undoing_Inl:
  "undoing u m w = (Inl e, w') \<longleftrightarrow> (\<exists>w1. m w = (Inl e, w1) \<and> w' = snd (u w1))"
  by (auto simp: undoing_def split: prod.splits sum.splits)

text \<open>
  Rolling back both halves, at a state whose levels are those after the reservation and the
  release: \<open>w0\<close> is where the reservation ran, \<open>w1\<close> where the release did.
\<close>

lemma rollback_restores:
  assumes inv: "invar (inventory w0)" "invar (inventory w1)" "invar (inventory w)"
    and G: "G \<noteq> [] \<longrightarrow> stock_batch G" and S: "S \<noteq> [] \<longrightarrow> stock_batch S"
    and up: "up 2" "up 3"
    and apart: "\<And>p. requested_units G p = 0 \<or> requested_units S p = 0"
    and ran1: "(if G \<noteq> [] then on_inventory (port_reserveMany ports 0 G sid why) else ret ()) w0 = (Inr u, w1)"
    and ran2: "(if S \<noteq> [] then on_inventory (dispatch_releaseMany ports 1 S sid why) else ret ()) w1 = (Inr u', w2)"
    and now: "\<And>p. levels (inventory w) p = levels (inventory w2) p"
  shows "redis (snd (rollback ports G S sid w)) = redis w \<and>
         (\<forall>p. levels (inventory (snd (rollback ports G S sid w))) p = levels (inventory w0) p)"
proof -
  have lv1: "levels (inventory w1) p = moved_by 1 G p (levels (inventory w0) p)" for p
    using on_reserve_resolves [OF inv(1) G ran1] by blast
  have lv2: "levels (inventory w) p = moved_by (- 1) S p (levels (inventory w1) p)" for p
    using on_release_resolves [OF inv(2) S ran2] now by simp
  have handed: "\<exists>i. (if G \<noteq> [] then on_inventory (dispatch_releaseMany ports 2 G sid CART_ROLLBACK_REASON) else ret ()) w =
      (Inr (), w\<lparr>inventory := i\<rparr>) \<and> invar i \<and> (\<forall>p. levels i p = moved_by (- 1) G p (levels (inventory w) p))"
  proof (cases "G = []")
    case True
    then show ?thesis using inv(3) by (auto intro!: exI [of _ "inventory w"])
  next
    case False
    then have batch: "stock_batch G" using G by simp
    have same: "levels (inventory w) (line_productId l) = levels (inventory w1) (line_productId l)" if "l \<in> set G" for l
      using apart [of "line_productId l"] batch_units [OF batch that] batch_positive [OF batch that] lv2
      by (simp add: moved_by_untouched)
    obtain v where "port_reserveMany ports 0 G sid why (inventory w0) = (Inr v, inventory w1)"
      using ran1 False by (auto simp: on_inventory_def split: prod.splits)
    from reserve_undone [OF inv(3) batch inv(1) this same up(1)]
    obtain i where i: "dispatch_releaseMany ports 2 G sid CART_ROLLBACK_REASON (inventory w) = (Inr (), i)" "invar i"
      by blast
    with False release_resolves [OF inv(3) batch i(1)] show ?thesis
      by (intro exI [of _ i]) (simp add: on_inventory_def)
  qed
  then obtain i where i: "(if G \<noteq> [] then on_inventory (dispatch_releaseMany ports 2 G sid CART_ROLLBACK_REASON) else ret ()) w =
      (Inr (), w\<lparr>inventory := i\<rparr>)" "invar i" "\<And>p. levels i p = moved_by (- 1) G p (levels (inventory w) p)"
    by blast
  have "\<exists>j. (if S \<noteq> [] then on_inventory (port_reserveMany ports 3 S sid CART_ROLLBACK_REASON) else ret ())
      (w\<lparr>inventory := i\<rparr>) = (Inr (), w\<lparr>inventory := j\<rparr>) \<and> (\<forall>p. levels j p = moved_by 1 S p (levels i p))"
  proof (cases "S = []")
    case True
    then show ?thesis by (auto intro!: exI [of _ i])
  next
    case False
    then have batch: "stock_batch S" using S by simp
    obtain v where run: "dispatch_releaseMany ports 1 S sid why (inventory w1) = (Inr v, inventory w2)"
      using ran2 False by (auto simp: on_inventory_def split: prod.splits)
    have same: "levels i (line_productId l) = levels (inventory w2) (line_productId l)" if "l \<in> set S" for l
      using apart [of "line_productId l"] batch_units [OF batch that] batch_positive [OF batch that] now i(3)
      by (simp add: moved_by_untouched)
    from release_undone [OF i(2) batch inv(2) run same up(2)]
    obtain j where j: "port_reserveMany ports 3 S sid CART_ROLLBACK_REASON i = (Inr (), j)" by blast
    with False reserve_resolves [OF i(2) batch j] show ?thesis
      by (intro exI [of _ j]) (simp add: on_inventory_def)
  qed
  then obtain j where j: "(if S \<noteq> [] then on_inventory (port_reserveMany ports 3 S sid CART_ROLLBACK_REASON) else ret ())
      (w\<lparr>inventory := i\<rparr>) = (Inr (), w\<lparr>inventory := j\<rparr>)" "\<And>p. levels j p = moved_by 1 S p (levels i p)"
    by blast
  have total: "levels j p = levels (inventory w0) p" for p
    using apart [of p] by (cases "levels (inventory w0) p") (auto simp: j(2) i(3) lv2 lv1 moved_by_def)
  have "rollback ports G S sid w = (Inr (), if G = [] \<and> S = [] then w else w\<lparr>inventory := j\<rparr>)"
    using i(1) j(1) by (auto simp: rollback_def catching_def and_then_def)
  moreover have "G = [] \<Longrightarrow> S = [] \<Longrightarrow> levels (inventory w) p = levels (inventory w0) p" for p
    using lv1 lv2 by simp
  ultimately show ?thesis using total by simp
qed

lemma applyChanges_rejects:
  assumes inv: "invar (inventory w)" and G: "to_reserve ch \<noteq> [] \<longrightarrow> stock_batch (to_reserve ch)"
    and S: "to_release ch \<noteq> [] \<longrightarrow> stock_batch (to_release ch)"
    and net: "up 2" "up 3" "\<not> lost 0" "\<not> lost 1"
    and apart: "\<And>p. requested_units (to_reserve ch) p = 0 \<or> requested_units (to_release ch) p = 0"
    and v: "\<And>e. v \<noteq> LostReply e" and run: "applyChanges ports env lc v ch sid w = (Inl e, w')"
  shows "redis w' = redis w \<and> (\<forall>p. levels (inventory w') p = levels (inventory w) p)"
proof -
  let ?res = "\<lambda>w. (if to_reserve ch \<noteq> [] then on_inventory (port_reserveMany ports 0 (to_reserve ch) sid CART_UPDATE_REASON)
        else ret ()) w"
  let ?rel = "\<lambda>w. (if to_release ch \<noteq> [] then on_inventory (dispatch_releaseMany ports 1 (to_release ch) sid CART_UPDATE_REASON)
        else ret ()) w"
  from run consider w1 where "?res w = (Inl e, w1)" "w' = snd (rollback ports [] [] sid w1)"
    | u1 w1 w2 where "?res w = (Inr u1, w1)" "?rel w1 = (Inl e, w2)" "w' = snd (rollback ports (to_reserve ch) [] sid w2)"
    | u1 w1 u2 w2 w3 where "?res w = (Inr u1, w1)" "?rel w1 = (Inr u2, w2)"
        "redis_call v (repo_commit (cart_env.truncate env) lc sid ch) w2 = (Inl e, w3)"
        "w' = snd (rollback ports (to_reserve ch) (to_release ch) sid w3)"
    unfolding applyChanges_def and_then_Inl_iff undoing_Inr undoing_Inl by blast
  then show ?thesis
  proof cases
    case 1
    then show ?thesis using on_reserve_rejects [OF inv G net(3) 1(1)] by (simp add: rollback_def)
  next
    case 2
    note r1 = on_reserve_resolves [OF inv G 2(1)]
    then have inv1: "invar (inventory w1)" by blast
    note r2 = on_release_rejects [OF inv1 S net(4) 2(2)]
    have "redis (snd (rollback ports (to_reserve ch) [] sid w2)) = redis w2 \<and>
        (\<forall>p. levels (inventory (snd (rollback ports (to_reserve ch) [] sid w2))) p = levels (inventory w) p)"
      using r2 by (intro rollback_restores [OF inv inv1 _ G _ net(1,2) _ 2(1)])
        (auto simp: requested_units_def)
    with r1 r2 2(3) show ?thesis by simp
  next
    case 3
    note r1 = on_reserve_resolves [OF inv G 3(1)]
    then have inv1: "invar (inventory w1)" by blast
    note r2 = on_release_resolves [OF inv1 S 3(2)]
    have w3: "w3 = w2" using 3(3) v by (auto simp: redis_call_def split: verdict.splits)
    have "redis (snd (rollback ports (to_reserve ch) (to_release ch) sid w2)) = redis w2 \<and>
        (\<forall>p. levels (inventory (snd (rollback ports (to_reserve ch) (to_release ch) sid w2))) p = levels (inventory w) p)"
      using r2 by (intro rollback_restores [OF inv inv1 _ G S net(1,2) apart 3(1,2)]) auto
    with r1 r2 3(4) w3 show ?thesis by simp
  qed
qed

end

section \<open>Setting a cart's lines, end to end\<close>

lemma repo_held_strings [simp]: "repo_held s (r\<lparr>strings := S\<rparr>) = repo_held s r"
proof -
  have "live_hash (r\<lparr>strings := S\<rparr>) = live_hash r"
    by (auto simp: fun_eq_iff live_hash_def split: option.split)
  then show ?thesis by (simp add: repo_held_def HGETALL_def)
qed

lemma repo_held_release_lock [simp]: "repo_held s (release_lock b l r) = repo_held s r"
  by (auto simp: release_lock_def lockRelease_def DEL_string_def split: option.split)

text \<open>A lock nobody holds is taken at the first attempt.\<close>

lemma withLock_free:
  assumes "live_string (redis w) key = None"
  shows "\<exists>S l. withLock Answered giving waiting token key ttl n work w =
    (case work (w\<lparr>redis := (redis w)\<lparr>strings := S\<rparr>\<rparr>) of
       (res, w') \<Rightarrow> (map_sum id Some res, w'\<lparr>redis := release_lock (giving = Answered) l (redis w')\<rparr>))"
  using assms
  by (auto simp: withLock_def and_then_def redis_call_def acquire_def try_lock.simps [of _ _ _ _ n] SET_PX_NX_def)

text \<open>One update of a cart nobody else is updating: the work runs on the store with the lock in it.\<close>

lemma setLines_locked:
  assumes dist: "distinct (map line_productId request)"
    and free: "live_string (redis w) (writeLock sid) = None" "redis_verdict io 0 = Answered"
  shows "\<exists>S b l. setLines ports env lc io request sid w =
    (case applyRequested ports env lc io request sid (w\<lparr>redis := (redis w)\<lparr>strings := S\<rparr>\<rparr>) of
       (res, w') \<Rightarrow> (res, w'\<lparr>redis := release_lock b l (redis w')\<rparr>))"
proof -
  obtain S l where lock: "withLock (redis_verdict io 0) (redis_verdict io 4) (lock_waiting io) (lock_uuid io 0)
      (writeLock sid) (CART_LOCK_TTL_MS env) (CART_LOCK_RETRIES env) (applyRequested ports env lc io request sid) w =
    (case applyRequested ports env lc io request sid (w\<lparr>redis := (redis w)\<lparr>strings := S\<rparr>\<rparr>) of
       (res, w') \<Rightarrow> (map_sum id Some res, w'\<lparr>redis := release_lock (redis_verdict io 4 = Answered) l (redis w')\<rparr>))"
    using withLock_free [OF free(1)] unfolding free(2) by blast
  obtain res w' where run: "applyRequested ports env lc io request sid (w\<lparr>redis := (redis w)\<lparr>strings := S\<rparr>\<rparr>) = (res, w')"
    by fastforce
  have "setLines ports env lc io request sid w =
      (res, w'\<lparr>redis := release_lock (redis_verdict io 4 = Answered) l (redis w')\<rparr>)"
    using dist lock run
    by (cases res) (simp_all add: setLines_def Let_def no_duplicates_distinct and_then_def)
  then show ?thesis using run by (intro exI [of _ S] exI [of _ "redis_verdict io 4 = Answered"] exI [of _ l]) simp
qed

lemma applyRequested_run:
  assumes "redis_verdict io 1 = Answered"
  shows "applyRequested ports env lc io request sid w =
    (let changes = planChanges (repo_held sid (redis w)) request in
     if exceedsBulkLimit changes then
       throw (BadRequestException (''A cart may hold at most '' @ int_str (int MAX_BULK_LINES) @ '' distinct products''))
     else if isNoop changes then
       and_then (redis_call (redis_verdict io 2) (repo_touch (cart_env.truncate env) sid)) (\<lambda>_.
       redis_get (redis_verdict io 3) (repo_lines lc sid))
     else applyChanges ports env lc (redis_verdict io 2) changes sid) w"
  by (simp add: applyRequested_def redis_get_def redis_call_def and_then_def assms [unfolded One_nat_def])

definition in_step ::
  "(string \<Rightarrow> (int \<times> int) option) \<Rightarrow> (string \<Rightarrow> (int \<times> int) option) \<Rightarrow> (string \<Rightarrow> int) \<Rightarrow> (string \<Rightarrow> int) \<Rightarrow> bool" where
  "in_step before after had has \<longleftrightarrow>
     (\<forall>p. after p = map_option (\<lambda>(q, r). (q, r + (has p - had p))) (before p))"

lemma in_step_refl: "in_step lv lv h h"
  by (simp add: in_step_def option.map_id)

definition same_carts :: "redis_db \<Rightarrow> redis_db \<Rightarrow> bool" where
  "same_carts r r' \<longleftrightarrow> (\<forall>s. repo_held s r' = repo_held s r)"

context stock_ports
begin

definition network_fair :: "cart_io \<Rightarrow> bool" where
  "network_fair io \<longleftrightarrow> up 2 \<and> up 3 \<and> \<not> lost 0 \<and> \<not> lost 1 \<and> (\<forall>e. redis_verdict io 2 \<noteq> LostReply e)"

lemma plan_valid_batches:
  assumes "valid_request request" and "storable held" and "length held \<le> MAX_BULK_LINES"
    and "\<not> exceedsBulkLimit (planChanges held request)"
  shows "to_reserve (planChanges held request) \<noteq> [] \<longrightarrow> stock_batch (to_reserve (planChanges held request))"
    and "to_release (planChanges held request) \<noteq> [] \<longrightarrow> stock_batch (to_release (planChanges held request))"
proof -
  have dist: "distinct (map line_productId request)" using assms(1) by (simp add: valid_request_def)
  have pos: "positive_map held" using assms(2) by (simp add: storable_def)
  have "length (fold settle_one request held) \<le> MAX_BULK_LINES"
    using assms(4) by (simp add: exceedsBulkLimit_def planChanges_closed [OF dist])
  then show "to_reserve (planChanges held request) \<noteq> [] \<longrightarrow> stock_batch (to_reserve (planChanges held request))"
    and "to_release (planChanges held request) \<noteq> [] \<longrightarrow> stock_batch (to_release (planChanges held request))"
    using grow_lines_length [OF assms(1) pos] shrink_lines_length [OF assms(1) pos] assms(3)
      plan_batch_ids [OF dist, of held] plan_batch_positive [of held request]
    by (simp_all add: planChanges_closed [OF dist] stock_batch_def valid_bulk_def)
qed

lemma applyChanges_exact:
  assumes ok: "store_ok (redis w)" and life: "lifetimes_ok (cart_env.truncate env)"
    and req: "valid_request request" "list_all (\<lambda>l. line_productId l \<noteq> []) request"
    and held: "held = repo_held sid (redis w)" and small: "length held \<le> MAX_BULK_LINES"
    and inv: "invar (inventory w)"
    and net: "network_fair io" and fits: "\<not> exceedsBulkLimit (planChanges held request)"
  shows "case applyChanges ports env lc (redis_verdict io 2) (planChanges held request) sid w of
      (Inr ls, w') \<Rightarrow>
        in_step (levels (inventory w)) (levels (inventory w')) (units_held held) (units_held (repo_held sid (redis w'))) \<and>
        (\<forall>p. units_held (repo_held sid (redis w')) p = wanted held request p) \<and>
        (\<forall>s. s \<noteq> sid \<longrightarrow> repo_held s (redis w') = repo_held s (redis w))
    | (Inl e, w') \<Rightarrow> levels (inventory w') = levels (inventory w) \<and> same_carts (redis w) (redis w')"
proof -
  let ?ch = "planChanges held request"
  have dist: "distinct (map line_productId request)" using req(1) by (simp add: valid_request_def)
  have carts: "carts_ok (redis w)" "0 \<le> clock (redis w)" using ok by (simp_all add: store_ok_def)
  have "storable held" using carts_okD(2) [OF carts(1)] held by simp
  note batches = plan_valid_batches [OF req(1) this small fits]
  note plan = planChanges_closed [OF dist, of held]
  have units: "requested_units (to_reserve ?ch) p = line_units (grow_lines held request) p"
    "requested_units (to_release ?ch) p = line_units (shrink_lines held request) p" for p
    using plan_batch_ids [OF dist, of held] by (simp_all add: plan requested_line_units)
  obtain res w' where run: "applyChanges ports env lc (redis_verdict io 2) ?ch sid w = (res, w')" by fastforce
  show ?thesis
  proof (cases res)
    case (Inr ls)
    note r = applyChanges_resolves [OF inv batches run [unfolded Inr]]
    have ch: "storable_changes ?ch" by (rule planChanges_storable [OF req])
    have snd: "redis w' = snd (repo_commit (cart_env.truncate env) lc sid ?ch (redis w))"
      using r by (metis snd_conv)
    have held': "repo_held s (redis w') = (if s = sid then apply_plan ?ch held else repo_held s (redis w))" for s
      unfolding snd held by (rule repo_commit_held [OF carts(1) life carts(2)]) (use ch held in simp)
    have "levels (inventory w') p = map_option (\<lambda>(q, r). (q, r + (wanted held request p - units_held held p))) (levels (inventory w) p)" for p
      using r moved_units [OF dist, of held p]
      by (cases "levels (inventory w) p") (auto simp: moved_by_def units)
    then show ?thesis
      using run Inr apply_plan_units [OF dist, of held] by (simp add: in_step_def held')
  next
    case (Inl e)
    have "redis w' = redis w \<and> (\<forall>p. levels (inventory w') p = levels (inventory w) p)"
    proof (rule applyChanges_rejects [OF inv batches])
      show "requested_units (to_reserve ?ch) p = 0 \<or> requested_units (to_release ?ch) p = 0" for p
        using one_direction [OF dist, of held p] by (simp add: units)
      show "applyChanges ports env lc (redis_verdict io 2) ?ch sid w = (Inl e, w')" using run Inl by simp
    qed (use net in \<open>auto simp: network_fair_def\<close>)
    then show ?thesis using run Inl by (simp add: same_carts_def fun_eq_iff)
  qed
qed

end

context stock_ports
begin

lemma noop_wanted:
  assumes "distinct (map line_productId request)" and "isNoop (planChanges held request)"
  shows "wanted held request p = units_held held p"
proof -
  have "grow_lines held request = []" "shrink_lines held request = []"
    using assms by (simp_all add: isNoop_def planChanges_closed [OF assms(1)])
  then show ?thesis using moved_units [OF assms(1), of held p] by simp
qed

definition update_exact ::
  "CartLine list \<Rightarrow> string \<Rightarrow> 'inv cart_world \<Rightarrow> (cart_error + CartLine list) \<times> 'inv cart_world \<Rightarrow> bool" where
  "update_exact request sid w = (\<lambda>(res, w'). case res of
     Inr _ \<Rightarrow>
       in_step (levels (inventory w)) (levels (inventory w'))
         (units_held (repo_held sid (redis w))) (units_held (repo_held sid (redis w'))) \<and>
       (\<forall>p. units_held (repo_held sid (redis w')) p = wanted (repo_held sid (redis w)) request p) \<and>
       (\<forall>s. s \<noteq> sid \<longrightarrow> repo_held s (redis w') = repo_held s (redis w))
   | Inl _ \<Rightarrow> levels (inventory w') = levels (inventory w) \<and> same_carts (redis w) (redis w'))"

lemma update_exact_noop:
  assumes dist: "distinct (map line_productId request)" and noop: "isNoop (planChanges (repo_held sid (redis w)) request)"
    and life: "lifetimes_ok (cart_env.truncate env)"
  shows "update_exact request sid w
    (and_then (redis_call v (repo_touch (cart_env.truncate env) sid)) (\<lambda>_. redis_get v' (repo_lines lc sid)) w)"
proof -
  have "repo_held s (snd (repo_touch (cart_env.truncate env) sid r)) = repo_held s r" for s r
    by (rule repo_held_cong) (simp add: touch_frame(1) [OF life])
  then show ?thesis
    using noop_wanted [OF dist noop] in_step_refl
    by (auto simp: update_exact_def and_then_def redis_call_def redis_get_def same_carts_def split: verdict.splits)
qed

lemma applyRequested_exact:
  assumes ok: "store_ok (redis w)" and life: "lifetimes_ok (cart_env.truncate env)"
    and req: "valid_request request" "list_all (\<lambda>l. line_productId l \<noteq> []) request"
    and small: "length (repo_held sid (redis w)) \<le> MAX_BULK_LINES"
    and inv: "invar (inventory w)"
    and net: "network_fair io"
  shows "update_exact request sid w (applyRequested ports env lc io request sid w)"
proof (cases "redis_verdict io 1")
  case Answered
  let ?held = "repo_held sid (redis w)"
  have dist: "distinct (map line_productId request)" using req(1) by (simp add: valid_request_def)
  note run = applyRequested_run [OF Answered]
  show ?thesis
  proof (cases "exceedsBulkLimit (planChanges ?held request)")
    case True
    then show ?thesis by (simp add: run update_exact_def same_carts_def Let_def)
  next
    case False
    show ?thesis
    proof (cases "isNoop (planChanges ?held request)")
      case True
      then show ?thesis using False update_exact_noop [OF dist True life] by (simp add: run Let_def)
    next
      case noop: False
      then show ?thesis
        using False applyChanges_exact [OF ok life req refl small inv net False, of lc]
        by (auto simp: run Let_def update_exact_def split: prod.splits sum.splits)
    qed
  qed
qed (simp_all add: applyRequested_def redis_get_def redis_call_def and_then_def update_exact_def same_carts_def)

lemma setLines_exact:
  assumes ok: "store_ok (redis w)" and life: "lifetimes_ok (cart_env.truncate env)" and dto: "valid_dto request"
    and small: "length (repo_held sid (redis w)) \<le> MAX_BULK_LINES"
    and inv: "invar (inventory w)"
    and net: "network_fair io" and free: "live_string (redis w) (writeLock sid) = None" "redis_verdict io 0 = Answered"
  shows "update_exact request sid w (setLines ports env lc io request sid w)"
proof (cases "distinct (map line_productId request)")
  case False
  then show ?thesis
    by (simp add: setLines_def Let_def no_duplicates_distinct update_exact_def same_carts_def)
next
  case True
  note req = valid_dto_request [OF dto True, THEN conjunct1] valid_dto_request [OF dto True, THEN conjunct2]
  obtain S b l where lock: "setLines ports env lc io request sid w =
    (case applyRequested ports env lc io request sid (w\<lparr>redis := (redis w)\<lparr>strings := S\<rparr>\<rparr>) of
       (res, w') \<Rightarrow> (res, w'\<lparr>redis := release_lock b l (redis w')\<rparr>))"
    using setLines_locked [OF True free] by blast
  let ?w = "w\<lparr>redis := (redis w)\<lparr>strings := S\<rparr>\<rparr>"
  obtain res w' where run: "applyRequested ports env lc io request sid ?w = (res, w')" by fastforce
  have "update_exact request sid ?w (res, w')"
    using applyRequested_exact [where w = ?w and sid = sid and lc = lc, OF _ life req _ _ net] ok small inv
    by (simp add: run store_ok_strings)
  moreover have "setLines ports env lc io request sid w = (res, w'\<lparr>redis := release_lock b l (redis w')\<rparr>)"
    by (simp add: lock run)
  ultimately show ?thesis
    by (auto simp: update_exact_def same_carts_def split: sum.splits)
qed

end

section \<open>A sample run\<close>

text \<open>A first update on an empty store, with an inventory that grants everything.\<close>

definition sample_service_env :: cart_service_env where
  "sample_service_env = \<lparr>CART_TTL_SECONDS = 900, CART_TTL_GRACE_SECONDS = 300, REDIS_KEY_PREFIX = ''cart-service:'', host_clock = (\<lambda>t. t + 3),
     CART_LOCK_TTL_MS = 5000, CART_LOCK_RETRIES = 3, CART_RELEASE_LOCK_SECONDS = 60, CART_RELEASE_RETRY_DELAY_MS = 1000,
     CART_SWEEP_BATCH = 10\<rparr>"

definition sample_io :: cart_io where
  "sample_io = \<lparr>redis_verdict = (\<lambda>_. Answered), lock_uuid = (\<lambda>_. ''t''), lock_waiting = (\<lambda>_ r. r)\<rparr>"

definition willing_ports :: "unit inventory_ports" where
  "willing_ports = \<lparr>port_reserveMany = (\<lambda>_ _ _ _. ret ()), port_transferHold = (\<lambda>_ _ _ _ _. ret ()),
     dispatch_releaseMany = (\<lambda>_ _ _ _. ret ())\<rparr>"

lemma sample_service_life: "lifetimes_ok (cart_env.truncate sample_service_env)"
  by (simp add: lifetimes_ok_def sample_service_env_def cart_env.defs)


lemma plan_first: "planChanges [] [mkLine ''p1'' 3] = \<lparr>writes = [mkLine ''p1'' 3], removals = [], to_reserve = [mkLine ''p1'' 3],
   to_release = [], plan_size = Suc 0\<rparr>"
  by code_simp

lemma try_lock_free:
  "live_string r key = None \<Longrightarrow> try_lock waiting key token ttl n r =
     (Some \<lparr>lock_key = key, lock_token = token\<rparr>, r\<lparr>strings := (strings r)(key \<mapsto> (token, Some (clock r + ttl)))\<rparr>)"
  by (simp add: try_lock.simps [of _ _ _ _ n] SET_PX_NX_def)

lemma sample_free: "live_string (startSession (cart_env.truncate sample_service_env) ''u'' empty_redis) (writeLock ''u'') = None"
  by (simp add: startSession_def SET_EX_def live_string_write writeLock_def session_key_append)
     (simp add: live_string_def empty_redis_def)

lemma no_cart: "repo_held s empty_redis = []" "clock empty_redis = 0"
  by (simp_all add: repo_held_def HGETALL_def live_hash_def empty_redis_def heldQuantities_def)

lemma first_commit:
  "repo_held ''u'' (snd (repo_commit (cart_env.truncate sample_service_env) lc ''u''
     (planChanges [] [mkLine ''p1'' 3]) (empty_redis\<lparr>strings := S\<rparr>))) = [(''p1'', 3)]"
proof -
  have ch: "storable_changes (planChanges [] [mkLine ''p1'' 3])"
    by (rule planChanges_storable) (simp_all add: valid_request_def)
  have "apply_plan (planChanges [] [mkLine ''p1'' 3]) [] = [(''p1'', 3)]" by code_simp
  then show ?thesis
    using repo_commit_held [OF _ sample_service_life _ ch, of "empty_redis\<lparr>strings := S\<rparr>"] no_cart
      store_ok_empty store_ok_strings [where r = empty_redis and S = S]
    by (simp add: store_ok_def)
qed

lemma sample_cart:
  "repo_held ''u'' (redis (cart_event_run willing_ports sample_service_env (\<lambda>_ _. 0) sample_io (\<lambda>_. True)
   (SetItems [mkLine ''p1'' 3] None ''u'') \<lparr>redis = empty_redis, inventory = ()\<rparr>)) = [(''p1'', 3)]"
  by (simp add: setItems_def valid_dto_def MAX_BULK_LINES_def resolveSession_def header_value_def and_then_def
      redis_do_def redis_call_def sample_io_def ret_def setLines_def duplicateProductIds_def withLock_def acquire_def
      try_lock_free [OF sample_free])
    (simp add: applyRequested_def redis_get_def redis_call_def and_then_def startSession_def SET_EX_def no_cart Let_def
      plan_first exceedsBulkLimit_def isNoop_def applyChanges_def undoing_def MAX_BULK_LINES_def on_inventory_def
      willing_ports_def ret_def first_commit [unfolded plan_first])

theorem carts_stay_queued_witness:
  "queued (redis (cart_event_run willing_ports sample_service_env (\<lambda>_ _. 0) sample_io (\<lambda>_. True)
     (SetItems [mkLine ''p1'' 3] None ''u'') \<lparr>redis = empty_redis, inventory = ()\<rparr>)) ''u''"
proof -
  have "waiting_ok sample_io" by (simp add: waiting_ok_def sample_io_def)
  then have "cart_reachable willing_ports sample_service_env (\<lambda>_ _. 0) (\<lambda>_. True)
      (cart_event_run willing_ports sample_service_env (\<lambda>_ _. 0) sample_io (\<lambda>_. True)
        (SetItems [mkLine ''p1'' 3] None ''u'') \<lparr>redis = empty_redis, inventory = ()\<rparr>)"
    by (intro cart_reachable.intros)
  from carts_stay_queued [OF sample_service_life this, of "''u''"] show ?thesis
    unfolding sample_cart by simp
qed

end
