(* ===== verification/InventoryWire.thy ===== *)
theory InventoryWire
  imports InventoryQueries
begin

text \<open>
  What an HTTP client of the inventory service sees: the envelope of an answer (\<^verbatim>\<open>utils/api-response.ts\<close>,
  \<^verbatim>\<open>middlewares/error-handler.ts\<close>), the JSON of an error's details, and the verdict of the database behind
  a request. Shared by the cart's adapter and the product service's client.
\<close>

datatype db_verdict = DbCommits | DbFails string "string list" string

definition db_fault :: "db_verdict \<Rightarrow> thrown option" where
  "db_fault v = (case v of DbCommits \<Rightarrow> None | DbFails c target msg \<Rightarrow> Some (ThrownPrisma c target msg))"

definition present :: "string \<Rightarrow> ('a \<Rightarrow> json) \<Rightarrow> 'a option \<Rightarrow> (string \<times> json) list" where
  "present k f v = (case v of None \<Rightarrow> [] | Some x \<Rightarrow> [(k, f x)])"

definition detail_fields :: "ErrorDetail \<Rightarrow> (string \<times> json) list" where
  "detail_fields d = present ''field'' JString (field d) @ [(''message'', JString (detail_message d))]
     @ present ''productId'' JString (detail_productId d) @ present ''code'' JString (detail_code d)
     @ present ''requested'' JInt (requested d) @ present ''available'' JInt (detail_available d)
     @ present ''reserved'' JInt (detail_reserved d)"

definition detail_json :: "ErrorDetail \<Rightarrow> json" where
  "detail_json d = JObject (detail_fields d)"

text \<open>The envelope of an answer: its status, its data, and the error's message and details.\<close>

record wire_response =
  wire_status :: int
  wire_data :: "InventoryItemView list"
  wire_message :: "string option"
  wire_details :: "json option"

definition answer :: "bool \<Rightarrow> thrown + response \<Rightarrow> wire_response" where
  "answer production r = (case r of
     Inr (status, items) \<Rightarrow> \<lparr>wire_status = status, wire_data = items, wire_message = None, wire_details = None\<rparr>
   | Inl e \<Rightarrow> (case snd (errorHandler production False None e) of
        Some (status, body) \<Rightarrow> \<lparr>wire_status = status, wire_data = [], wire_message = Some (body_message body),
           wire_details = map_option (\<lambda>ds. JArray (map detail_json ds)) (body_details body)\<rparr>
      | None \<Rightarrow> \<lparr>wire_status = 500, wire_data = [], wire_message = None, wire_details = None\<rparr>))"

definition or_else :: "'a option \<Rightarrow> 'a \<Rightarrow> 'a" where
  "or_else v d = (case v of None \<Rightarrow> d | Some x \<Rightarrow> x)"

section \<open>Lemmas\<close>

text \<open>An error answers with a status outside 2xx; its details travel to the per-line failures.\<close>

lemma answer_error:
  "wire_status (answer pr (Inl e)) = statusCode (toAppError e)"
  "wire_details (answer pr (Inl e)) = map_option (\<lambda>ds. JArray (map detail_json ds)) (details (toAppError e))"
  by (simp_all add: answer_def errorHandler_def Let_def)

lemma obj_get_present [simp]: "obj_get (present k f v) k' = (if k = k' then map_option f v else None)"
  by (cases v) (simp_all add: present_def obj_get_def)

end
