(* ===== verification/InventoryClient.thy ===== *)
theory InventoryClient
  imports CartService InventoryWire
begin

text \<open>
  The cart's inventory adapter over HTTP
  (\<^verbatim>\<open>services/cart/src/inventory/inventory.http.adapter.ts\<close>) in front of the inventory service's own
  routes: the body the adapter sends is validated, handled and answered by \<open>handle_request\<close>, and the
  answer is translated back. The calls of one operation are numbered; each may reach the service
  and be answered, never reach it, or be carried out with the answer lost (a timeout), and the
  database behind the service may refuse to commit. Lookups (\<open>findByProductId(s)\<close>) are not here.
\<close>

section \<open>The wire\<close>

record http_env =
  he_is_uuid :: "string \<Rightarrow> bool"
  he_net :: "nat \<Rightarrow> net_verdict"
  he_db :: "nat \<Rightarrow> db_verdict"
  he_now :: "nat \<Rightarrow> int"
  he_production :: bool

text \<open>The JSON the adapter posts.\<close>

definition line_json :: "StockLine \<Rightarrow> json" where
  "line_json l = JObject [(''productId'', JString (line_productId l)), (''quantity'', JInt (line_quantity l))]"

definition bulk_body :: "StockLine list \<Rightarrow> string \<Rightarrow> string \<Rightarrow> json" where
  "bulk_body ls ref why = JObject ([(''items'', JArray (map line_json ls)), (''reference'', JString ref)]
     @ (if why \<noteq> '''' then [(''reason'', JString why)] else []))"

section \<open>The adapter\<close>

definition json_string :: "json option \<Rightarrow> string option" where
  "json_string v = (case v of Some (JString s) \<Rightarrow> Some s | _ \<Rightarrow> None)"

definition json_int :: "json option \<Rightarrow> int option" where
  "json_int v = (case v of Some (JInt n) \<Rightarrow> Some n | _ \<Rightarrow> None)"

definition toStockFailure :: "json \<Rightarrow> StockFailure list" where
  "toStockFailure detail = (case detail of
     JObject fs \<Rightarrow>
       (case json_string (obj_get fs ''productId'') of
          None \<Rightarrow> []
        | Some pid \<Rightarrow>
            [\<lparr>failure_productId = pid,
              failure_code = or_else (json_string (obj_get fs ''code'')) ''CONFLICT'',
              failure_message = or_else (json_string (obj_get fs ''message'')) ''Line was rejected'',
              failure_requested = json_int (obj_get fs ''requested''),
              failure_available = json_int (obj_get fs ''available''),
              failure_reserved = json_int (obj_get fs ''reserved'')\<rparr>])
   | _ \<Rightarrow> [])"

definition toStockFailures :: "json option \<Rightarrow> StockFailure list" where
  "toStockFailures dets = (case dets of Some (JArray ds) \<Rightarrow> concat (map toStockFailure ds) | _ \<Rightarrow> [])"

definition toException :: "wire_response \<Rightarrow> cart_error" where
  "toException resp =
     (let msg = or_else (wire_message resp) (''HTTP '' @ int_str (wire_status resp))
      in if 500 \<le> wire_status resp then ServiceUnavailableException (''Inventory service failed: '' @ msg)
         else if wire_status resp = 409 then InsufficientStockException msg (toStockFailures (wire_details resp))
         else BadRequestException (''Inventory rejected the request: '' @ msg))"

definition http_request ::
  "http_env \<Rightarrow> nat \<Rightarrow> InventoryRequest \<Rightarrow> (inventory_db, cart_error, InventoryItemView list) act" where
  "http_request E n req = (\<lambda>db.
     let (r, db') = handle_request (he_is_uuid E) (\<lambda>_. db_fault (he_db E n)) '''' (he_now E n) req db;
         resp = answer (he_production E) r;
         unreachable = ServiceUnavailableException ''Inventory service is unreachable''
     in case he_net E n of
          Unreachable \<Rightarrow> (Inl unreachable, db)
        | ReplyLost \<Rightarrow> (Inl unreachable, db')
        | Delivered \<Rightarrow>
            (if 200 \<le> wire_status resp \<and> wire_status resp < 300 then Inr (wire_data resp)
             else Inl (toException resp), db'))"

datatype bulk_transition = ReserveLines | ReleaseLines

fun bulk_request :: "bulk_transition \<Rightarrow> json \<Rightarrow> InventoryRequest" where
  "bulk_request ReserveLines = PostBulkReserve"
| "bulk_request ReleaseLines = PostBulkRelease"

definition bulk ::
  "http_env \<Rightarrow> nat \<Rightarrow> bulk_transition \<Rightarrow> StockLine list \<Rightarrow> string \<Rightarrow> string
     \<Rightarrow> (inventory_db, cart_error, InventoryItemView list) act" where
  "bulk E n t items ref why =
     (if items = [] then ret []
      else if \<not> distinct (map line_productId items) then
        throw (BadRequestException ''Each productId may appear only once; combine duplicates into a single line'')
      else if length items > MAX_BULK_LINES then
        throw (BadRequestException
          (''A cart may hold at most '' @ int_str (int MAX_BULK_LINES) @ '' distinct products''))
      else http_request E n (bulk_request t (bulk_body items ref why)))"

definition http_reserveMany ::
  "http_env \<Rightarrow> nat \<Rightarrow> StockLine list \<Rightarrow> string \<Rightarrow> string \<Rightarrow> (inventory_db, cart_error, InventoryItemView list) act" where
  "http_reserveMany E n items ref why = bulk E n ReserveLines items ref why"

definition http_releaseMany ::
  "http_env \<Rightarrow> nat \<Rightarrow> StockLine list \<Rightarrow> string \<Rightarrow> string \<Rightarrow> (inventory_db, cart_error, unit) act" where
  "http_releaseMany E n items ref why = and_then (bulk E n ReleaseLines items ref why) (\<lambda>_. ret ())"

text \<open>The compensation's own failure is logged and dropped; the first error is the one thrown.\<close>

definition transferHold ::
  "http_env \<Rightarrow> nat \<Rightarrow> StockLine list \<Rightarrow> string \<Rightarrow> string \<Rightarrow> string option \<Rightarrow> (inventory_db, cart_error, unit) act" where
  "transferHold E n items src dst why =
     (if items = [] then ret ()
      else and_then (bulk E n ReleaseLines items src (or_else why ''Hold transferred out'')) (\<lambda>_.
        catching
          (and_then (bulk E (n + 1) ReserveLines items dst (or_else why ''Hold transferred in'')) (\<lambda>_. ret ()))
          (\<lambda>e. and_then
             (catching
               (and_then (bulk E (n + 2) ReserveLines items src ''Rolling back a failed hold transfer'') (\<lambda>_. ret ()))
               (\<lambda>_. ret ()))
             (\<lambda>_. throw e))))"

definition http_ports :: "http_env \<Rightarrow> inventory_db inventory_ports" where
  "http_ports E = \<lparr>port_reserveMany = (\<lambda>n ls ref why. and_then (http_reserveMany E n ls ref why) (\<lambda>_. ret ())),
     port_transferHold = (\<lambda>n ls src dst why. transferHold E n ls src dst (Some why)),
     dispatch_releaseMany = http_releaseMany E\<rparr>"

section \<open>What the service makes of the adapter's body\<close>

definition accepted_lines :: "(string \<Rightarrow> bool) \<Rightarrow> StockLine list \<Rightarrow> bool" where
  "accepted_lines is_uuid ls \<longleftrightarrow> ls \<noteq> [] \<and> length ls \<le> MAX_BULK_LINES \<and> distinct (map line_productId ls) \<and>
     list_all (\<lambda>l. is_uuid (line_productId l) \<and> 1 \<le> line_quantity l \<and> line_quantity l \<le> 1000000000) ls"

definition accepted_text :: "nat \<Rightarrow> string \<Rightarrow> bool" where
  "accepted_text n s \<longleftrightarrow> 1 \<le> length (js_trim s) \<and> length (js_trim s) \<le> n"

definition accepted :: "(string \<Rightarrow> bool) \<Rightarrow> StockLine list \<Rightarrow> string \<Rightarrow> string \<Rightarrow> bool" where
  "accepted is_uuid ls ref why \<longleftrightarrow> accepted_lines is_uuid ls \<and> accepted_text 120 ref \<and> (why \<noteq> '''' \<longrightarrow> accepted_text 500 why)"

definition bulk_input :: "StockLine list \<Rightarrow> string \<Rightarrow> string \<Rightarrow> BulkStockInput" where
  "bulk_input ls ref why = \<lparr>bulk_items = ls, bulk_reason = (if why = '''' then None else Some (js_trim why)),
     bulk_reference = js_trim ref\<rparr>"

lemma line_schema_json:
  "bulkStockLineSchema is_uuid (line_json l) =
     (if is_uuid (line_productId l) \<and> 1 \<le> line_quantity l \<and> line_quantity l \<le> 1000000000 then Some l else None)"
  by (simp add: bulkStockLineSchema_def line_json_def strict_keys_def obj_get_def schema_defs uuidField_def)

lemma all_some_guard: "all_some (map (\<lambda>x. if P x then Some x else None) xs) = (if list_all P xs then Some xs else None)"
  by (induction xs) auto

lemma lines_schema_json:
  "bulkStockLines is_uuid (JArray (map line_json ls)) = (if accepted_lines is_uuid ls then Some ls else None)"
  by (auto simp: bulkStockLines_def comp_def line_schema_json all_some_guard accepted_lines_def Suc_le_eq)

lemma trimmed_string_text:
  "trimmed_string (Suc 0) n (JString s) = (if accepted_text n s then Some (js_trim s) else None)"
  by (simp add: trimmed_string_def accepted_text_def Let_def)

lemma bulk_schema_json:
  "bulkReserveStockSchema is_uuid (bulk_body ls ref why) =
     (if accepted is_uuid ls ref why then Some (bulk_input ls ref why) else None)"
  by (simp add: bulkReserveStockSchema_def bulk_body_def strict_keys_def obj_get_def
      required_def optional_def lines_schema_json trimmed_string_text accepted_def bulk_input_def)

lemma accepted_valid: "accepted is_uuid ls ref why \<Longrightarrow> valid_bulk (bulk_input ls ref why)"
  using bulk_schema_valid [of is_uuid "bulk_body ls ref why"] by (simp add: bulk_schema_json)

lemma bulk_input_items [simp]: "bulk_items (bulk_input ls ref why) = ls"
  by (simp add: bulk_input_def)

section \<open>The outcome of one call\<close>

fun transition_sign :: "bulk_transition \<Rightarrow> int" where
  "transition_sign ReserveLines = 1"
| "transition_sign ReleaseLines = - 1"

fun can_move :: "bulk_transition \<Rightarrow> inventory_db \<Rightarrow> StockLine \<Rightarrow> bool" where
  "can_move ReserveLines = can_reserve"
| "can_move ReleaseLines = can_release"

fun service_bulk ::
  "bulk_transition \<Rightarrow> thrown option \<Rightarrow> int \<Rightarrow> BulkStockInput \<Rightarrow> (inventory_db, thrown, InventoryItemView list) act" where
  "service_bulk ReserveLines flt now input = reserveMany flt now input"
| "service_bulk ReleaseLines flt now input = releaseMany flt now input None"

lemma reserveMany_fault: "reserveMany (Some e) now input db = (Inl e, db)"
  by (simp add: reserveMany_def applyBulkChange_def applyBulkStockChange_def and_then_def)

lemma service_bulk_fault: "service_bulk t (Some e) now input db = (Inl e, db)"
  by (cases t) (simp_all add: reserveMany_fault releaseMany_fault)

lemma service_bulk_serves:
  assumes "inventory_ok db" "valid_bulk input" "list_all (can_move t db) (bulk_items input)"
  obtains views db' where "service_bulk t None now input db = (Inr views, db')" "inventory_ok db'"
    "\<And>p. levels_of db' p = moved_by (transition_sign t) (bulk_items input) p (levels_of db p)"
proof -
  obtain views db' where run: "service_bulk t None now input db = (Inr views, db')"
    using reserveMany_total [OF assms(1,2)] releaseMany_total [OF assms(1,2) claim_nothing] assms(3)
    by (cases t) (simp_all, blast+)
  moreover have "inventory_ok db'"
    using run keepsD [OF bulk_keeps(1) [OF assms(2)] assms(1)] keepsD [OF bulk_keeps(2) [OF assms(2)] assms(1)]
    by (cases t) (simp_all, (metis snd_conv)+)
  moreover have "levels_of db' p = moved_by (transition_sign t) (bulk_items input) p (levels_of db p)" for p
    using run reserveMany_effect [OF assms(1,2)] releaseMany_effect [OF assms(1,2)] by (cases t) simp_all
  ultimately show ?thesis using that by blast
qed

lemma service_bulk_refuses:
  assumes "inventory_ok db" "valid_bulk input" "\<not> list_all (can_move t db) (bulk_items input)"
  obtains msg fs where "service_bulk t None now input db = (Inl (ThrownApp (ConflictError msg (Some fs))), db)"
    "map detail_productId fs = map (\<lambda>l. Some (line_productId l)) (filter (\<lambda>l. \<not> can_move t db l) (bulk_items input))"
proof (cases t)
  case ReserveLines
  then show ?thesis
    using reserve_p.applyBulkChange_refused [OF assms(1) claim_nothing, of input now "''reserved''"] assms(3) that
    by (auto simp: reserve_lines_ok [OF assms(1,2)] reserveMany_def)
next
  case ReleaseLines
  then show ?thesis using releaseMany_refused [OF assms(1,2) claim_nothing] assms(3) that by auto
qed

lemma handle_bulk:
  "handle_request is_uuid flt uuid now (bulk_request t (bulk_body ls ref why)) db =
     (if accepted is_uuid ls ref why
      then (case service_bulk t (flt 0) now (bulk_input ls ref why) db of
              (Inr items, db') \<Rightarrow> (Inr (200, items), db') | (Inl e, db') \<Rightarrow> (Inl e, db'))
      else (Inl invalidRequest, db))"
  by (cases t) (auto simp: bulk_schema_json validated_def and_then_def split: prod.split sum.split)

text \<open>Every field of a detail the service sends arrives in the failure the cart reads.\<close>

lemma toStockFailure_detail:
  "toStockFailure (detail_json d) = (case detail_productId d of None \<Rightarrow> [] | Some p \<Rightarrow>
     [\<lparr>failure_productId = p, failure_code = or_else (detail_code d) ''CONFLICT'', failure_message = detail_message d,
       failure_requested = requested d, failure_available = detail_available d, failure_reserved = detail_reserved d\<rparr>])"
proof -
  note fields = detail_fields_def obj_get_append obj_get_Cons
  have "json_string (obj_get (detail_fields d) ''productId'') = detail_productId d"
    by (cases "detail_productId d"; simp add: fields json_string_def)
  moreover have "json_string (obj_get (detail_fields d) ''code'') = detail_code d"
    by (cases "detail_code d"; simp add: fields json_string_def)
  moreover have "json_string (obj_get (detail_fields d) ''message'') = Some (detail_message d)"
    by (simp add: fields json_string_def)
  moreover have "json_int (obj_get (detail_fields d) ''requested'') = requested d"
    by (cases "requested d"; simp add: fields json_int_def)
  moreover have "json_int (obj_get (detail_fields d) ''available'') = detail_available d"
    by (cases "detail_available d"; simp add: fields json_int_def)
  moreover have "json_int (obj_get (detail_fields d) ''reserved'') = detail_reserved d"
    by (cases "detail_reserved d"; simp add: fields json_int_def)
  ultimately show ?thesis
    by (cases "detail_productId d") (simp_all add: toStockFailure_def detail_json_def or_else_def)
qed

lemma detail_json_failure:
  "map failure_productId (toStockFailure (detail_json d)) = (case detail_productId d of None \<Rightarrow> [] | Some p \<Rightarrow> [p])"
  by (simp add: toStockFailure_detail split: option.split)

lemma failures_ids:
  "map detail_productId ds = map Some ps \<Longrightarrow> map failure_productId (concat (map (toStockFailure \<circ> detail_json) ds)) = ps"
  by (induction ds arbitrary: ps) (auto simp: detail_json_failure)

lemma toException_conflict:
  assumes "map detail_productId fs = map Some ps"
  obtains m failures where
    "toException (answer pr (Inl (ThrownApp (ConflictError msg (Some fs))))) = InsufficientStockException m failures"
    "map failure_productId failures = ps"
proof -
  have "details (ConflictError msg (Some fs)) = Some fs" by (simp add: app_error_defs)
  then have "toException (answer pr (Inl (ThrownApp (ConflictError msg (Some fs))))) =
      InsufficientStockException (or_else (wire_message (answer pr (Inl (ThrownApp (ConflictError msg (Some fs))))))
        (''HTTP '' @ int_str 409)) (concat (map (toStockFailure \<circ> detail_json) fs))"
    by (simp add: toException_def Let_def answer_error toStockFailures_def comp_def)
  then show ?thesis using that failures_ids [OF assms] by blast
qed

text \<open>
  One call of the adapter on a well-formed batch: either it was carried out, and then the levels
  moved by exactly its units; or nothing changed. The caller is told which, unless the answer is
  lost; and a call that gets through to a body the service accepts is refused only for lack of
  stock, line by line.
\<close>

definition clear :: "http_env \<Rightarrow> nat \<Rightarrow> bool" where
  "clear E n \<longleftrightarrow> he_net E n = Delivered \<and> he_db E n = DbCommits"

lemma http_error:
  "handle_request (he_is_uuid E) (\<lambda>_. db_fault (he_db E n)) '''' (he_now E n) req db = (Inl e, db1) \<Longrightarrow>
     he_net E n = Delivered \<Longrightarrow> 400 \<le> statusCode (toAppError e) \<Longrightarrow>
     http_request E n req db = (Inl (toException (answer (he_production E) (Inl e))), db1)"
  by (simp add: http_request_def answer_error)

lemma http_served:
  "handle_request (he_is_uuid E) (\<lambda>_. db_fault (he_db E n)) '''' (he_now E n) req db = (Inr (200, items), db1) \<Longrightarrow>
     he_net E n = Delivered \<Longrightarrow> http_request E n req db = (Inr items, db1)"
  by (simp add: http_request_def answer_def)

lemma handle_bulk_cases:
  assumes ok: "inventory_ok db"
  obtains (served) items db1 where "accepted (he_is_uuid E) ls ref why" "he_db E n = DbCommits" "list_all (can_move t db) ls"
      "handle_request (he_is_uuid E) (\<lambda>_. db_fault (he_db E n)) '''' (he_now E n) (bulk_request t (bulk_body ls ref why)) db =
         (Inr (200, items), db1)"
      "inventory_ok db1" "\<And>p. levels_of db1 p = moved_by (transition_sign t) ls p (levels_of db p)"
  | (refused) msg fs where "accepted (he_is_uuid E) ls ref why" "he_db E n = DbCommits" "\<not> list_all (can_move t db) ls"
      "handle_request (he_is_uuid E) (\<lambda>_. db_fault (he_db E n)) '''' (he_now E n) (bulk_request t (bulk_body ls ref why)) db =
         (Inl (ThrownApp (ConflictError msg (Some fs))), db)"
      "map detail_productId fs = map (\<lambda>l. Some (line_productId l)) (filter (\<lambda>l. \<not> can_move t db l) ls)"
  | (failed) e where "\<not> (accepted (he_is_uuid E) ls ref why \<and> he_db E n = DbCommits)"
      "handle_request (he_is_uuid E) (\<lambda>_. db_fault (he_db E n)) '''' (he_now E n) (bulk_request t (bulk_body ls ref why)) db =
         (Inl e, db)" "400 \<le> statusCode (toAppError e)"
proof (cases "accepted (he_is_uuid E) ls ref why")
  case False
  then show ?thesis using failed by (simp add: handle_bulk invalidRequest_def)
next
  case acc: True
  note valid = accepted_valid [OF acc]
  show ?thesis
  proof (cases "he_db E n")
    case (DbFails c target msg)
    then show ?thesis
      using acc failed toAppError_foreign_status [of "ThrownPrisma c target msg"]
      by (simp add: handle_bulk db_fault_def service_bulk_fault del: toAppError.simps)
  next
    case DbCommits
    show ?thesis
    proof (cases "list_all (can_move t db) ls")
      case True
      then obtain views db1 where "service_bulk t None (he_now E n) (bulk_input ls ref why) db = (Inr views, db1)"
        "inventory_ok db1" "\<And>p. levels_of db1 p = moved_by (transition_sign t) ls p (levels_of db p)"
        using service_bulk_serves [OF ok valid, of t "he_now E n"] by (metis bulk_input_items)
      then show ?thesis using served acc DbCommits True by (simp add: handle_bulk db_fault_def)
    next
      case False
      then obtain msg fs where "service_bulk t None (he_now E n) (bulk_input ls ref why) db =
          (Inl (ThrownApp (ConflictError msg (Some fs))), db)"
        "map detail_productId fs = map (\<lambda>l. Some (line_productId l)) (filter (\<lambda>l. \<not> can_move t db l) ls)"
        using service_bulk_refuses [OF ok valid, of t "he_now E n"] by (metis bulk_input_items)
      then show ?thesis using refused acc DbCommits False by (simp add: handle_bulk db_fault_def)
    qed
  qed
qed

lemma bulk_sends:
  "stock_batch ls \<Longrightarrow> bulk E n t ls ref why = http_request E n (bulk_request t (bulk_body ls ref why))"
  by (simp add: bulk_def stock_batch_def valid_bulk_def)

lemma bulk_resolves:
  assumes ok: "inventory_ok db" and batch: "stock_batch ls" and run: "bulk E n t ls ref why db = (Inr items, db')"
  shows "accepted (he_is_uuid E) ls ref why \<and> list_all (can_move t db) ls \<and>
         (\<forall>p. levels_of db' p = moved_by (transition_sign t) ls p (levels_of db p))"
proof -
  have net: "he_net E n = Delivered"
    using run by (auto simp: bulk_sends [OF batch] http_request_def Let_def split: net_verdict.splits prod.splits)
  show ?thesis
    by (rule handle_bulk_cases [OF ok, of E ls ref why n t])
      (use run net in \<open>auto simp: bulk_sends [OF batch] http_served http_error\<close>)
qed

lemma bulk_accepted:
  assumes batch: "stock_batch ls" and run: "bulk E n t ls ref why db = (Inr items, db')"
  shows "accepted (he_is_uuid E) ls ref why"
  using run
  by (auto simp: bulk_sends [OF batch] http_request_def handle_bulk answer_error invalidRequest_def Let_def
      split: net_verdict.splits if_splits)

lemma bulk_rejects:
  assumes ok: "inventory_ok db" and batch: "stock_batch ls" and run: "bulk E n t ls ref why db = (Inl e, db')"
    and net: "he_net E n \<noteq> ReplyLost"
  shows "db' = db"
proof (cases "he_net E n")
  case Delivered
  show ?thesis
    by (rule handle_bulk_cases [OF ok, of E ls ref why n t])
      (use run Delivered in \<open>auto simp: bulk_sends [OF batch] http_served http_error\<close>)
next
  case Unreachable
  then show ?thesis
    using run by (auto simp: bulk_sends [OF batch] http_request_def Let_def split: prod.splits)
qed (use net in simp)

lemma bulk_keeps_ok: "inventory_ok db \<Longrightarrow> inventory_ok (snd (bulk E n t ls ref why db))"
  using keepsD [OF handle_request_keeps, of db]
  by (auto simp: bulk_def http_request_def Let_def split: net_verdict.splits prod.splits) (metis snd_conv)+

lemma bulk_clear:
  assumes ok: "inventory_ok db" and batch: "stock_batch ls" and net: "clear E n"
    and acc: "accepted (he_is_uuid E) ls ref why" and can: "list_all (can_move t db) ls"
  obtains items db' where "bulk E n t ls ref why db = (Inr items, db')"
  by (rule handle_bulk_cases [OF ok, of E ls ref why n t])
    (use acc can net that in \<open>auto simp: bulk_sends [OF batch] http_served clear_def\<close>)

section \<open>The adapter provides the ports\<close>

lemma can_move_levels:
  "can_reserve db l \<longleftrightarrow> (\<exists>q r. levels_of db (line_productId l) = Some (q, r) \<and> line_quantity l \<le> q - r)"
  "can_release db l \<longleftrightarrow> (\<exists>q r. levels_of db (line_productId l) = Some (q, r) \<and> line_quantity l \<le> r)"
  by (auto simp: can_reserve_def can_release_def levels_of_def availableStock_def split: option.splits)

lemma rollback_accepted:
  "accepted is_uuid ls ref why \<Longrightarrow> accepted is_uuid ls ref CART_ROLLBACK_REASON"
proof -
  have "accepted_text 500 CART_ROLLBACK_REASON" by code_simp
  then show "accepted is_uuid ls ref why \<Longrightarrow> accepted is_uuid ls ref CART_ROLLBACK_REASON"
    by (simp add: accepted_def)
qed

lemma port_calls:
  "port_reserveMany (http_ports E) n ls ref why db = (case bulk E n ReserveLines ls ref why db of
     (Inr _, db') \<Rightarrow> (Inr (), db') | (Inl e, db') \<Rightarrow> (Inl e, db'))"
  "dispatch_releaseMany (http_ports E) n ls ref why db = (case bulk E n ReleaseLines ls ref why db of
     (Inr _, db') \<Rightarrow> (Inr (), db') | (Inl e, db') \<Rightarrow> (Inl e, db'))"
  by (simp_all add: http_ports_def http_reserveMany_def http_releaseMany_def and_then_def split: prod.split sum.split)

lemma port_results:
  "port_reserveMany (http_ports E) n ls ref why db = (Inr u, db') \<longleftrightarrow> (\<exists>items. bulk E n ReserveLines ls ref why db = (Inr items, db'))"
  "port_reserveMany (http_ports E) n ls ref why db = (Inl e, db') \<longleftrightarrow> bulk E n ReserveLines ls ref why db = (Inl e, db')"
  "dispatch_releaseMany (http_ports E) n ls ref why db = (Inr u, db') \<longleftrightarrow> (\<exists>items. bulk E n ReleaseLines ls ref why db = (Inr items, db'))"
  "dispatch_releaseMany (http_ports E) n ls ref why db = (Inl e, db') \<longleftrightarrow> bulk E n ReleaseLines ls ref why db = (Inl e, db')"
  "snd (port_reserveMany (http_ports E) n ls ref why db) = snd (bulk E n ReserveLines ls ref why db)"
  "snd (dispatch_releaseMany (http_ports E) n ls ref why db) = snd (bulk E n ReleaseLines ls ref why db)"
  by (auto simp: port_calls split: prod.splits sum.splits)

interpretation http: stock_ports "http_ports E" levels_of inventory_ok "\<lambda>n. he_net E n = ReplyLost" "clear E" for E
proof unfold_locales
  fix db p q r assume "inventory_ok db" "levels_of db p = Some (q, r)"
  then show "0 \<le> r \<and> r \<le> q"
    using row_stock_ok [of db p] by (auto simp: levels_of_def stock_ok_def)
next
  fix db db' ls n ref why u p assume "inventory_ok db" "stock_batch ls"
  then show "port_reserveMany (http_ports E) n ls ref why db = (Inr u, db') \<Longrightarrow> levels_of db' p = moved_by 1 ls p (levels_of db p)"
    and "dispatch_releaseMany (http_ports E) n ls ref why db = (Inr u, db') \<Longrightarrow> levels_of db' p = moved_by (- 1) ls p (levels_of db p)"
    using bulk_resolves [of db ls E n] by (fastforce simp: port_results)+
next
  fix db db' ls n ref why e p assume "inventory_ok db" "stock_batch ls" "he_net E n \<noteq> ReplyLost"
  then show "port_reserveMany (http_ports E) n ls ref why db = (Inl e, db') \<Longrightarrow> levels_of db' p = levels_of db p"
    and "dispatch_releaseMany (http_ports E) n ls ref why db = (Inl e, db') \<Longrightarrow> levels_of db' p = levels_of db p"
    using bulk_rejects [of db ls E n] by (simp_all add: port_results, blast+)
next
  fix db ls n ref why assume "inventory_ok db"
  then show "inventory_ok (snd (port_reserveMany (http_ports E) n ls ref why db))"
    and "inventory_ok (snd (dispatch_releaseMany (http_ports E) n ls ref why db))"
    by (simp_all add: port_results bulk_keeps_ok)
next
  fix db ls n m ref why j u j'
  assume *: "inventory_ok db" "stock_batch ls" "clear E n"
    and ran: "port_reserveMany (http_ports E) m ls ref why j = (Inr u, j')"
    and held: "list_all (\<lambda>l. \<exists>q r. levels_of db (line_productId l) = Some (q, r) \<and> line_quantity l \<le> r) ls"
  have "accepted (he_is_uuid E) ls ref CART_ROLLBACK_REASON"
    using ran by (auto simp: port_results intro: bulk_accepted [OF *(2), THEN rollback_accepted])
  with * held show "\<exists>i'. dispatch_releaseMany (http_ports E) n ls ref CART_ROLLBACK_REASON db = (Inr (), i')"
    by (auto simp: port_results can_move_levels list_all_iff intro: bulk_clear [of db ls E n ref _ ReleaseLines])
next
  fix db ls n m ref why j u j'
  assume *: "inventory_ok db" "stock_batch ls" "clear E n"
    and ran: "dispatch_releaseMany (http_ports E) m ls ref why j = (Inr u, j')"
    and free: "list_all (\<lambda>l. \<exists>q r. levels_of db (line_productId l) = Some (q, r) \<and> line_quantity l \<le> q - r) ls"
  have "accepted (he_is_uuid E) ls ref CART_ROLLBACK_REASON"
    using ran by (auto simp: port_results intro: bulk_accepted [OF *(2), THEN rollback_accepted])
  with * free show "\<exists>i'. port_reserveMany (http_ports E) n ls ref CART_ROLLBACK_REASON db = (Inr (), i')"
    by (auto simp: port_results can_move_levels list_all_iff intro: bulk_clear [of db ls E n ref _ ReserveLines])
next
  fix db ls l n ref why u i'
  assume *: "inventory_ok db" "stock_batch ls" "l \<in> set ls"
    and ran: "port_reserveMany (http_ports E) n ls ref why db = (Inr u, i') \<or>
       dispatch_releaseMany (http_ports E) n ls ref why db = (Inr u, i')"
  then obtain t items where "bulk E n t ls ref why db = (Inr items, i')" by (auto simp: port_results)
  from bulk_resolves [OF *(1,2) this] *(3) have "can_move t db l" by (auto simp: list_all_iff)
  then show "levels_of db (line_productId l) \<noteq> None"
    by (cases t) (auto simp: can_move_levels)
qed

section \<open>The update of a cart, over both services\<close>

text \<open>
  What setting a cart's lines has done: on success the cart is what was asked for, other carts are
  untouched and the inventory's reserved counts moved by exactly the difference; on failure every
  cart and every stock level is as before.
\<close>

definition cart_update_exact ::
  "CartLine list \<Rightarrow> string \<Rightarrow> inventory_db cart_world \<Rightarrow> (cart_error + CartLine list) \<times> inventory_db cart_world \<Rightarrow> bool" where
  "cart_update_exact request sid w = (\<lambda>(res, w'). case res of
     Inr _ \<Rightarrow>
       in_step (levels_of (inventory w)) (levels_of (inventory w'))
         (units_held (repo_held sid (redis w))) (units_held (repo_held sid (redis w'))) \<and>
       (\<forall>p. units_held (repo_held sid (redis w')) p = wanted (repo_held sid (redis w)) request p) \<and>
       (\<forall>s. s \<noteq> sid \<longrightarrow> repo_held s (redis w') = repo_held s (redis w))
   | Inl _ \<Rightarrow> levels_of (inventory w') = levels_of (inventory w) \<and> same_carts (redis w) (redis w'))"

text \<open>
  Property C12. An undisturbed cart update is atomic across the two services: whatever inventory or Redis refuse
  on the way, \<open>setLines\<close> either ends with the cart holding exactly what was asked for and the
  inventory's reserved counts moved by exactly the difference, or with every cart and every stock
  level as they were. The provisos: the cart's lock is free and Redis answers the call that takes it,
  no other request runs in between, the two compensating calls get through to inventory and its database, and
  no reply is lost after the call was carried out. (What a lost reply does is
  \<open>lost_reply_strands_units\<close> below.)
\<close>

theorem setLines_atomic:
  assumes "store_ok (redis w)" and "lifetimes_ok (cart_env.truncate env)" and "inventory_ok (inventory w)"
    and "valid_dto request" and "length (repo_held sid (redis w)) \<le> MAX_BULK_LINES"
    and "live_string (redis w) (writeLock sid) = None" and "redis_verdict io 0 = Answered"
    and "clear E 2" "clear E 3" "he_net E 0 \<noteq> ReplyLost" "he_net E 1 \<noteq> ReplyLost"
    and "\<forall>e. redis_verdict io 2 \<noteq> LostReply e"
  shows "cart_update_exact request sid w (setLines (http_ports E) env lc io request sid w)"
proof -
  have "http.network_fair E io" using assms(8-12) by (simp add: http.network_fair_def)
  from http.setLines_exact [OF assms(1,2,4,5,3) this assms(6,7), of lc]
  show ?thesis unfolding http.update_exact_def cart_update_exact_def .
qed

definition sample_http :: http_env where
  "sample_http = \<lparr>he_is_uuid = (\<lambda>_. True), he_net = (\<lambda>_. Delivered), he_db = (\<lambda>_. DbCommits), he_now = (\<lambda>_. 7),
     he_production = True\<rparr>"

lemma sample_clear: "clear sample_http n"
  by (simp add: clear_def sample_http_def)

theorem setLines_atomic_witness:
  "cart_update_exact [mkLine ''p1'' 3] ''u'' \<lparr>redis = empty_redis, inventory = sample_stock\<rparr>
     (setLines (http_ports sample_http) sample_service_env (\<lambda>_ _. 0) sample_io [mkLine ''p1'' 3] ''u''
        \<lparr>redis = empty_redis, inventory = sample_stock\<rparr>)"
  by (rule setLines_atomic)
    (simp_all add: store_ok_empty sample_service_life reachable_inventory_ok [OF sample_reachable] valid_dto_def
      no_cart MAX_BULK_LINES_def sample_clear, simp_all add: live_string_def empty_redis_def sample_io_def sample_http_def)

section \<open>What the shopper is told\<close>

text \<open>
  Property C13. A reservation inventory can read and its database serves is decided on the stock alone, and the cart
  is told everything it needs. Provided inventory's schema accepts the body (product ids that are UUIDs, no repeated line,
  the bounds on lines, quantities, reference and reason), the request and its answer get through and the database commits: when every
  line is covered the call resolves and exactly the requested units are held; otherwise it throws
  \<open>InsufficientStockException\<close> with one failure for each line that is not covered, in the order of the
  request, and inventory is untouched. (A body the schema refuses throws another error, and so does a failing network or
  database.)
\<close>

theorem reservation_reported:
  assumes "inventory_ok db" and "clear E n" and "accepted (he_is_uuid E) ls ref why"
  shows "if list_all (can_reserve db) ls
    then \<exists>items db'. http_reserveMany E n ls ref why db = (Inr items, db') \<and>
           (\<forall>p. levels_of db' p = moved_by 1 ls p (levels_of db p))
    else \<exists>msg failures. http_reserveMany E n ls ref why db = (Inl (InsufficientStockException msg failures), db) \<and>
           map failure_productId failures = map line_productId (filter (\<lambda>l. \<not> can_reserve db l) ls)"
proof -
  have batch: "stock_batch ls" using accepted_valid [OF assms(3)] by (simp add: stock_batch_def valid_bulk_def)
  have net: "he_net E n = Delivered" "he_db E n = DbCommits" using assms(2) by (simp_all add: clear_def)
  show ?thesis
  proof (rule handle_bulk_cases [OF assms(1), of E ls ref why n ReserveLines])
    fix items db1
    assume "list_all (can_move ReserveLines db) ls"
      and "handle_request (he_is_uuid E) (\<lambda>_. db_fault (he_db E n)) [] (he_now E n)
         (bulk_request ReserveLines (bulk_body ls ref why)) db = (Inr (200, items), db1)"
      and "\<And>p. levels_of db1 p = moved_by (transition_sign ReserveLines) ls p (levels_of db p)"
    then show ?thesis
      using http_served [OF _ net(1)] by (simp add: http_reserveMany_def bulk_sends [OF batch])
  next
    fix msg fs
    assume no: "\<not> list_all (can_move ReserveLines db) ls"
      and run: "handle_request (he_is_uuid E) (\<lambda>_. db_fault (he_db E n)) [] (he_now E n)
         (bulk_request ReserveLines (bulk_body ls ref why)) db = (Inl (ThrownApp (ConflictError msg (Some fs))), db)"
      and fs: "map detail_productId fs = map (\<lambda>l. Some (line_productId l)) (filter (\<lambda>l. \<not> can_move ReserveLines db l) ls)"
    have "map detail_productId fs = map Some (map line_productId (filter (\<lambda>l. \<not> can_move ReserveLines db l) ls))"
      using fs by simp
    then obtain m failures where "toException (answer (he_production E) (Inl (ThrownApp (ConflictError msg (Some fs))))) =
        InsufficientStockException m failures" "map failure_productId failures = map line_productId (filter (\<lambda>l. \<not> can_reserve db l) ls)"
      using toException_conflict by (metis can_move.simps(1))
    then show ?thesis using no http_error [OF run net(1)] by (simp add: http_reserveMany_def bulk_sends [OF batch])
  qed (use assms(3) net in simp_all)
qed

theorem reservation_reported_witness:
  "\<exists>msg failures. http_reserveMany sample_http 0 (bulk_items (sample_lines 11)) ''cart-1'' ''Cart updated'' sample_stock =
     (Inl (InsufficientStockException msg failures), sample_stock) \<and> map failure_productId failures = [''p1'']"
proof -
  have acc: "accepted (he_is_uuid sample_http) (bulk_items (sample_lines 11)) ''cart-1'' ''Cart updated''"
    and no: "\<not> list_all (can_reserve sample_stock) (bulk_items (sample_lines 11))"
    and who: "map line_productId (filter (\<lambda>l. \<not> can_reserve sample_stock l) (bulk_items (sample_lines 11))) = [''p1'']"
    by code_simp+
  show ?thesis
    using reservation_reported [OF reachable_inventory_ok [OF sample_reachable] sample_clear acc, of 0] no who by auto
qed

section \<open>Transferring a hold\<close>

lemma accepted_batch: "accepted is_uuid ls ref why \<Longrightarrow> stock_batch ls"
  using accepted_valid [of is_uuid ls ref why] by (simp add: stock_batch_def valid_bulk_def)

lemma bulk_unaccepted:
  assumes "\<not> accepted (he_is_uuid E) ls ref why" and "ls \<noteq> []" and "clear E n"
  obtains e where "bulk E n t ls ref why db = (Inl e, db)"
proof -
  have "\<exists>e. bulk E n t ls ref why db = (Inl e, db)"
    using assms
    by (auto simp: bulk_def throw_def http_request_def handle_bulk answer_error invalidRequest_def clear_def)
  then show ?thesis using that by blast
qed

lemma bulk_decided:
  assumes ok: "inventory_ok db" and net: "clear E n" and ne: "ls \<noteq> []"
  obtains (moved) items db' where "accepted (he_is_uuid E) ls ref why" "list_all (can_move t db) ls"
      "bulk E n t ls ref why db = (Inr items, db')" "inventory_ok db'"
      "\<And>p. levels_of db' p = moved_by (transition_sign t) ls p (levels_of db p)"
  | (refused) e where "\<not> (accepted (he_is_uuid E) ls ref why \<and> list_all (can_move t db) ls)"
      "bulk E n t ls ref why db = (Inl e, db)"
proof (cases "accepted (he_is_uuid E) ls ref why")
  case False
  then show ?thesis using bulk_unaccepted [OF False ne net] refused by metis
next
  case acc: True
  note batch = accepted_batch [OF acc]
  show ?thesis
  proof (cases "bulk E n t ls ref why db")
    case (Pair res db')
    show ?thesis
    proof (cases res)
      case (Inr items)
      then show ?thesis
        using Pair moved bulk_resolves [OF ok batch] bulk_keeps_ok [OF ok, of E n t ls ref why] by simp
    next
      case (Inl e)
      have "\<not> list_all (can_move t db) ls"
        using Pair Inl bulk_clear [OF ok batch net acc] by (metis Inl_Inr_False fst_conv)
      moreover have "db' = db" using Pair Inl bulk_rejects [OF ok batch] net by (simp add: clear_def)
      ultimately show ?thesis using Pair Inl refused by simp
    qed
  qed
qed

text \<open>What a release freed can be taken again at once.\<close>

lemma released_reservable:
  assumes "inventory_ok db" and "stock_batch ls" and "list_all (can_release db) ls"
    and "\<And>p. levels_of db' p = moved_by (- 1) ls p (levels_of db p)"
  shows "list_all (can_reserve db') ls"
  unfolding list_all_iff
proof
  fix l assume l: "l \<in> set ls"
  then obtain q r where lv: "levels_of db (line_productId l) = Some (q, r)"
    using assms(3) by (auto simp: list_all_iff can_move_levels)
  then have "r \<le> q" using http.invar_levels [OF assms(1)] by blast
  moreover have "requested_units ls (line_productId l) = line_quantity l"
    using assms(2) l by (simp add: stock_batch_def valid_bulk_def requested_units_mem)
  ultimately show "can_reserve db' l"
    using lv assms(4) by (simp add: can_move_levels moved_by_def)
qed

lemma moved_there_and_back: "moved_by 1 ls p (moved_by (- 1) ls p lv) = lv"
  by (cases lv) (auto simp: moved_by_def)

text \<open>
  Transferring a hold at checkout never changes how much stock is held: with inventory
  reachable and nobody taking the units in between, the levels after \<open>transferHold\<close> are the levels
  before it whether it resolves or throws (its compensation puts the hold back), and it resolves
  exactly when the units were held and inventory accepts both bodies.
\<close>

theorem transferHold_neutral:
  assumes "inventory_ok db" and "clear E n" "clear E (n + 1)" "clear E (n + 2)"
    and "transferHold E n ls src dst why db = (res, db')"
  shows "levels_of db' = levels_of db \<and> inventory_ok db' \<and>
    ((\<exists>u. res = Inr u) \<longleftrightarrow> ls = [] \<or>
       list_all (can_release db) ls \<and>
       accepted (he_is_uuid E) ls src (or_else why ''Hold transferred out'') \<and>
       accepted (he_is_uuid E) ls dst (or_else why ''Hold transferred in''))"
proof (cases "ls = []")
  case True
  then show ?thesis using assms by (auto simp: transferHold_def)
next
  case ne: False
  let ?out = "or_else why ''Hold transferred out''" and ?in = "or_else why ''Hold transferred in''"
  let ?undo = "''Rolling back a failed hold transfer''"
  show ?thesis
  proof (cases rule: bulk_decided [OF assms(1,2) ne, of src ?out ReleaseLines, case_names moved refused])
    case (refused e)
    then show ?thesis using assms(1,5) ne by (auto simp: transferHold_def and_then_def)
  next
    case out: (moved items db1)
    note free = released_reservable [OF assms(1) accepted_batch [OF out(1)] _ out(5) [unfolded transition_sign.simps]]
    have can: "list_all (can_move ReserveLines db1) ls" using out(2) free by simp
    have undo_ok: "accepted (he_is_uuid E) ls src ?undo"
    proof -
      have "accepted_text 500 ?undo" by code_simp
      then show ?thesis using out(1) by (simp add: accepted_def)
    qed
    show ?thesis
    proof (cases rule: bulk_decided [OF out(4) assms(3) ne, of dst ?in ReserveLines, case_names moved refused])
      case (moved items2 db2)
      then show ?thesis
        using assms(5) ne out by (auto simp: transferHold_def and_then_def catching_def fun_eq_iff moved_there_and_back)
    next
      case (refused e)
      obtain items3 db3 where restored: "bulk E (n + 2) ReserveLines ls src ?undo db1 = (Inr items3, db3)"
        using bulk_clear [OF out(4) accepted_batch [OF undo_ok] assms(4) undo_ok can] by blast
      have "levels_of db3 p = levels_of db p" for p
        using bulk_resolves [OF out(4) accepted_batch [OF undo_ok] restored] out(5) by (simp add: moved_there_and_back)
      moreover have "inventory_ok db3" using bulk_keeps_ok [OF out(4), of E "n + 2"] restored by (metis snd_conv)
      ultimately show ?thesis
        using assms(5) ne out restored refused can
        by (auto simp: transferHold_def and_then_def catching_def fun_eq_iff)
    qed
  qed
qed

theorem transferHold_neutral_witness:
  "levels_of (snd (transferHold sample_http 0 (bulk_items (sample_lines 2)) ''cart-1'' ''order-1'' None sample_stock)) =
     levels_of sample_stock"
proof -
  obtain res db' where run: "transferHold sample_http 0 (bulk_items (sample_lines 2)) ''cart-1'' ''order-1'' None sample_stock =
      (res, db')" by fastforce
  show ?thesis
    using transferHold_neutral [OF reachable_inventory_ok [OF sample_reachable] sample_clear sample_clear sample_clear run]
      run by simp
qed

section \<open>A reservation whose reply is lost\<close>

lemma bulk_reply_lost:
  assumes "inventory_ok db" and "he_net E n = ReplyLost" "he_db E n = DbCommits"
    and "accepted (he_is_uuid E) ls ref why" and "list_all (can_reserve db) ls"
  obtains db' where "bulk E n ReserveLines ls ref why db =
      (Inl (ServiceUnavailableException ''Inventory service is unreachable''), db')"
    "\<And>p. levels_of db' p = moved_by 1 ls p (levels_of db p)"
  by (rule handle_bulk_cases [OF assms(1), of E ls ref why n ReserveLines])
    (use assms that in \<open>auto simp: bulk_sends [OF accepted_batch [OF assms(4)]] http_request_def\<close>)

text \<open>
  Property C14. The atomicity of a cart update does rest on hearing back from inventory: when the
  reservation is carried out but its reply is lost, the shopper gets a 503, no cart changes and
  nothing is rolled back, yet the units stay reserved at inventory, held by no cart.
\<close>

theorem lost_reply_strands_units:
  fixes w :: "inventory_db cart_world"
  assumes "ch = planChanges (repo_held sid (redis w)) request"
    and "distinct (map line_productId request)" and "inventory_ok (inventory w)"
    and "live_string (redis w) (writeLock sid) = None" and "redis_verdict io 0 = Answered" "redis_verdict io 1 = Answered"
    and "\<not> exceedsBulkLimit ch"
    and "he_net E 0 = ReplyLost" "he_db E 0 = DbCommits"
    and "accepted (he_is_uuid E) (to_reserve ch) sid CART_UPDATE_REASON"
    and "list_all (can_reserve (inventory w)) (to_reserve ch)"
  shows "\<exists>w'. setLines (http_ports E) env lc io request sid w =
      (Inl (ServiceUnavailableException ''Inventory service is unreachable''), w') \<and> same_carts (redis w) (redis w') \<and>
      (\<forall>p. levels_of (inventory w') p = moved_by 1 (to_reserve ch) p (levels_of (inventory w) p))"
proof -
  obtain S b l where run: "setLines (http_ports E) env lc io request sid w =
    (case applyRequested (http_ports E) env lc io request sid (w\<lparr>redis := (redis w)\<lparr>strings := S\<rparr>\<rparr>) of
       (res, w') \<Rightarrow> (res, w'\<lparr>redis := release_lock b l (redis w')\<rparr>))"
    using setLines_locked [OF assms(2,4,5)] by blast
  obtain db' where call: "bulk E 0 ReserveLines (to_reserve ch) sid CART_UPDATE_REASON (inventory w) =
      (Inl (ServiceUnavailableException ''Inventory service is unreachable''), db')"
    and lv: "\<And>p. levels_of db' p = moved_by 1 (to_reserve ch) p (levels_of (inventory w) p)"
    using bulk_reply_lost [OF assms(3,8-11)] by blast
  have ne: "to_reserve ch \<noteq> []" using assms(10) by (auto simp: accepted_def accepted_lines_def)
  let ?w = "w\<lparr>redis := (redis w)\<lparr>strings := S\<rparr>\<rparr>"
  have port: "port_reserveMany (http_ports E) 0 (to_reserve ch) sid CART_UPDATE_REASON (inventory w) =
      (Inl (ServiceUnavailableException ''Inventory service is unreachable''), db')"
    using call by (simp add: port_results)
  have "applyRequested (http_ports E) env lc io request sid ?w =
      applyChanges (http_ports E) env lc (redis_verdict io 2) ch sid ?w"
    using assms(7) ne unfolding assms(1) by (simp add: applyRequested_run [OF assms(6)] isNoop_def)
  also have "\<dots> = (Inl (ServiceUnavailableException ''Inventory service is unreachable''), ?w\<lparr>inventory := db'\<rparr>)"
    using ne by (simp add: applyChanges_def undoing_def and_then_def on_inventory_def port rollback_def)
  finally show ?thesis using lv by (simp add: run same_carts_def)
qed

theorem lost_reply_strands_units_witness:
  "\<exists>w'. setLines (http_ports (sample_http\<lparr>he_net := (\<lambda>_. ReplyLost)\<rparr>)) sample_service_env (\<lambda>_ _. 0) sample_io
       [mkLine ''p1'' 3] ''u'' \<lparr>redis = empty_redis, inventory = sample_stock\<rparr> =
      (Inl (ServiceUnavailableException ''Inventory service is unreachable''), w') \<and>
      repo_held ''u'' (redis w') = [] \<and> levels_of (inventory w') ''p1'' = Some (10, 3)"
proof -
  let ?E = "sample_http\<lparr>he_net := (\<lambda>_. ReplyLost)\<rparr>" and ?w = "\<lparr>redis = empty_redis, inventory = sample_stock\<rparr>"
  have acc: "accepted (\<lambda>_. True) [mkLine ''p1'' 3] ''u'' CART_UPDATE_REASON"
    and can: "can_reserve sample_stock (mkLine ''p1'' 3)"
    and lv: "levels_of sample_stock ''p1'' = Some (10, 0)" and units: "requested_units [mkLine ''p1'' 3] ''p1'' = 3"
    by code_simp+
  have "\<exists>w'. setLines (http_ports ?E) sample_service_env (\<lambda>_ _. 0) sample_io [mkLine ''p1'' 3] ''u'' ?w =
      (Inl (ServiceUnavailableException ''Inventory service is unreachable''), w') \<and> same_carts (redis ?w) (redis w') \<and>
      (\<forall>p. levels_of (inventory w') p = moved_by 1 (to_reserve (planChanges (repo_held ''u'' (redis ?w)) [mkLine ''p1'' 3])) p
         (levels_of (inventory ?w) p))"
    by (rule lost_reply_strands_units [OF refl])
      (simp_all add: no_cart plan_first exceedsBulkLimit_def MAX_BULK_LINES_def reachable_inventory_ok [OF sample_reachable] can,
        simp_all add: live_string_def empty_redis_def sample_io_def sample_http_def acc)
  then show ?thesis by (auto simp: no_cart plan_first same_carts_def moved_by_def lv units)
qed

end
