(* ===== verification/InventoryDispatch.thy ===== *)
theory InventoryDispatch
  imports InventoryClient InventoryConsumer
begin

text \<open>
  The cart's fire-and-forget port over RabbitMQ
  (\<^verbatim>\<open>services/cart/src/inventory/inventory.messages.ts\<close> and \<^verbatim>\<open>inventory.amqp.adapter.ts\<close>): the message it
  builds, the broker's answer, and what inventory's consumer makes of the message when it is
  delivered. The broker is its queue of undelivered messages; a publish is confirmed, refused
  (unreachable, nacked), or accepted with the confirm lost.
\<close>

section \<open>Messages\<close>

record InventoryMessage =
  msg_messageId :: string
  msg_type :: InventoryRoutingKey
  msg_occurredAt :: string
  msg_correlationId :: "string option"
  msg_actor :: "string option"
  msg_items :: "StockLine list"
  msg_reference :: string
  msg_reason :: "string option"

definition buildStockChangeMessage ::
  "InventoryRoutingKey \<Rightarrow> StockLine list \<Rightarrow> string \<Rightarrow> string option \<Rightarrow> string \<Rightarrow> string \<Rightarrow> string option \<Rightarrow> string option
     \<Rightarrow> InventoryMessage" where
  "buildStockChangeMessage ty items ref why now_iso mid cid act =
     \<lparr>msg_messageId = mid, msg_type = ty, msg_occurredAt = now_iso, msg_correlationId = cid, msg_actor = act,
      msg_items = items, msg_reference = ref, msg_reason = why\<rparr>"

definition routingKeyFor :: "InventoryMessage \<Rightarrow> string" where
  "routingKeyFor m = routing_key_text (msg_type m)"

text \<open>\<^verbatim>\<open>JSON.stringify\<close>: a field that is \<open>undefined\<close> is left out.\<close>

definition message_json :: "InventoryMessage \<Rightarrow> json" where
  "message_json m = JObject ([(''messageId'', JString (msg_messageId m)), (''type'', JString (routing_key_text (msg_type m))),
       (''occurredAt'', JString (msg_occurredAt m))]
     @ present ''correlationId'' JString (msg_correlationId m) @ present ''actor'' JString (msg_actor m)
     @ [(''payload'', JObject ([(''items'', JArray (map line_json (msg_items m))), (''reference'', JString (msg_reference m))]
          @ present ''reason'' JString (msg_reason m)))])"

section \<open>The adapter\<close>

datatype publish_verdict = Confirmed | PublishFailed string | ConfirmLost string

record amqp_env =
  ae_uuid :: string
  ae_now :: string
  ae_correlationId :: "string option"
  ae_actor :: "string option"
  ae_publish :: publish_verdict

text \<open>A queued message carries its routing key and body. \<open>BrokerUnavailableError\<close> is the only failure of a publish.\<close>

definition publish :: "publish_verdict \<Rightarrow> InventoryMessage \<Rightarrow> ((string \<times> json) list, cart_error, unit) act" where
  "publish v m = (\<lambda>q. case v of
     Confirmed \<Rightarrow> (Inr (), q @ [(routingKeyFor m, message_json m)])
   | PublishFailed _ \<Rightarrow> (Inl (ServiceUnavailableException ''Message broker is unreachable''), q)
   | ConfirmLost _ \<Rightarrow> (Inl (ServiceUnavailableException ''Message broker is unreachable''),
       q @ [(routingKeyFor m, message_json m)]))"

definition amqp_releaseMany ::
  "amqp_env \<Rightarrow> StockLine list \<Rightarrow> string \<Rightarrow> string option \<Rightarrow> ((string \<times> json) list, cart_error, unit) act" where
  "amqp_releaseMany A items ref why =
     (if items = [] then ret ()
      else publish (ae_publish A)
        (buildStockChangeMessage KeyRelease items ref why (ae_now A) (ae_uuid A) (ae_correlationId A) (ae_actor A)))"

section \<open>The consumer reads what the adapter wrote\<close>

definition optional_text :: "nat \<Rightarrow> string option \<Rightarrow> bool" where
  "optional_text n v \<longleftrightarrow> (case v of None \<Rightarrow> True | Some s \<Rightarrow> accepted_text n s)"

definition envelope_ok :: "(string \<Rightarrow> bool) \<Rightarrow> amqp_env \<Rightarrow> bool" where
  "envelope_ok is_datetime A \<longleftrightarrow> accepted_text 120 (ae_uuid A) \<and> is_datetime (ae_now A) \<and>
     optional_text 200 (ae_correlationId A) \<and> optional_text 120 (ae_actor A)"

definition release_event :: "amqp_env \<Rightarrow> StockLine list \<Rightarrow> string \<Rightarrow> string \<Rightarrow> StockEvent" where
  "release_event A ls ref why =
     \<lparr>event_messageId = js_trim (ae_uuid A), event_type = KeyRelease, occurredAt = ae_now A,
      correlationId = map_option js_trim (ae_correlationId A), event_actor = map_option js_trim (ae_actor A),
      payload = bulk_input ls ref why\<rparr>"

lemma optional_present:
  "optional (trimmed_string (Suc 0) n) (map_option JString v) =
     (if optional_text n v then Some (map_option js_trim v) else None)"
  by (cases v) (simp_all add: optional_def optional_text_def trimmed_string_text)

lemma event_type_text: "event_type_enum (JString (routing_key_text k)) = Some k"
  by (cases k) (simp_all add: event_type_enum_def)

lemma payload_schema:
  assumes "why \<noteq> ''''"
  shows "bulkReserveStockSchema is_uuid
      (JObject [(''items'', JArray (map line_json ls)), (''reference'', JString ref), (''reason'', JString why)]) =
    (if accepted is_uuid ls ref why then Some (bulk_input ls ref why) else None)"
  using bulk_schema_json [of is_uuid ls ref why] assms by (simp add: bulk_body_def present_def)

lemma message_fields:
  "message_json m = JObject fs \<Longrightarrow> obj_get fs ''messageId'' = Some (JString (msg_messageId m)) \<and>
     obj_get fs ''type'' = Some (JString (routing_key_text (msg_type m))) \<and>
     obj_get fs ''occurredAt'' = Some (JString (msg_occurredAt m)) \<and>
     obj_get fs ''correlationId'' = map_option JString (msg_correlationId m) \<and>
     obj_get fs ''actor'' = map_option JString (msg_actor m) \<and>
     obj_get fs ''payload'' = Some (JObject ([(''items'', JArray (map line_json (msg_items m))), (''reference'', JString (msg_reference m))]
          @ present ''reason'' JString (msg_reason m)))"
  by (cases "msg_correlationId m"; cases "msg_actor m")
    (auto simp: message_json_def obj_get_append obj_get_Cons obj_get_def [of "[]"])

lemma release_message_parsed:
  assumes why: "why \<noteq> ''''"
  shows "stockEventSchema is_uuid is_datetime (message_json
      (buildStockChangeMessage KeyRelease ls ref (Some why) (ae_now A) (ae_uuid A) (ae_correlationId A) (ae_actor A))) =
    (if envelope_ok is_datetime A \<and> accepted is_uuid ls ref why then Some (release_event A ls ref why) else None)"
proof -
  let ?m = "buildStockChangeMessage KeyRelease ls ref (Some why) (ae_now A) (ae_uuid A) (ae_correlationId A) (ae_actor A)"
  obtain fs where fs: "message_json ?m = JObject fs" by (simp add: message_json_def)
  note f = message_fields [OF fs, unfolded buildStockChangeMessage_def InventoryMessage.simps]
  show ?thesis
    using f
    by (simp add: fs stockEventSchema_def required_def trimmed_string_text datetimeField_def event_type_text
        optional_present payload_schema [OF why] envelope_ok_def release_event_def present_def del: routing_key_text.simps)
qed

section \<open>A queued release does what the HTTP release does\<close>

lemma consumer_release_event:
  assumes "why \<noteq> ''''" and "envelope_ok is_datetime A" and "accepted is_uuid ls ref why"
    and "\<not> processed db (js_trim (ae_uuid A))" and "inventory_ok db"
  shows "\<exists>out db'. consumer_handle is_uuid is_datetime None now (Some (message_json
      (buildStockChangeMessage KeyRelease ls ref (Some why) (ae_now A) (ae_uuid A) (ae_correlationId A) (ae_actor A)))) db =
        (Inr out, db') \<and>
      (if list_all (can_release db) ls
       then out = Ack \<and> (\<forall>p. levels_of db' p = moved_by (- 1) ls p (levels_of db p)) \<and> processed db' (js_trim (ae_uuid A))
       else out = Reject \<and> db' = db)"
proof -
  let ?ev = "release_event A ls ref why"
  have fresh: "\<not> processed db (key_messageId (event_key ?ev))" using assms(4) by (simp add: release_event_def)
  obtain db1 where claim: "claim_message now (Some (event_key ?ev)) db = (Inr (), db1)"
    using claim_fresh [OF fresh] by blast
  note valid = accepted_valid [OF assms(3)]
  have handle: "consumer_handle is_uuid is_datetime None now (Some (message_json
      (buildStockChangeMessage KeyRelease ls ref (Some why) (ae_now A) (ae_uuid A) (ae_correlationId A) (ae_actor A)))) db =
      consumer_release None now ?ev db"
    using assms(2,3) by (simp add: consumer_handle_def consumer_parse_def release_message_parsed [OF assms(1)]) (simp add: release_event_def)
  have pl: "payload ?ev = bulk_input ls ref why" by (simp add: release_event_def)
  show ?thesis
  proof (cases "list_all (can_release db) ls")
    case True
    then obtain views db' where run: "releaseMany None now (payload ?ev) (Some (event_key ?ev)) db = (Inr views, db')"
      using releaseMany_total [OF assms(5) valid claim] pl by auto
    have "processed db' (js_trim (ae_uuid A))"
      using releaseMany_remembers [OF assms(5) valid run [unfolded pl]] by (simp add: release_event_def)
    then show ?thesis
      using True run releaseMany_effect [OF assms(5) valid run [unfolded pl]]
      by (simp add: handle consumer_release_cases)
  next
    case False
    then obtain msg fs where "releaseMany None now (payload ?ev) (Some (event_key ?ev)) db =
        (Inl (ThrownApp (ConflictError msg (Some fs))), db)"
      using releaseMany_refused [OF assms(5) valid claim] pl by auto
    with False show ?thesis by (simp add: handle consumer_release_cases)
  qed
qed

text \<open>
  Property C15. The two transports of a release agree where the consumer can read the message: delivering the message
  the AMQP adapter queued leaves the same stock levels as the HTTP adapter's call would have, is acknowledged
  when that call would resolve and dead-lettered when it would throw. The provisos: the lines, the reference and the non-empty reason
  pass inventory's schema; the time, the correlation id and the actor fit the consumer's envelope (over
  HTTP a longer actor is cut off, over AMQP it dead-letters the message); the publish is confirmed and the message id
  has not been processed before; the HTTP call gets through and neither path meets a failing database.
\<close>

theorem transports_agree:
  assumes "inventory_ok db" and "clear E n" and "he_is_uuid E = is_uuid"
    and "ae_publish A = Confirmed" and "envelope_ok is_datetime A" and "\<not> processed db (js_trim (ae_uuid A))"
    and "why \<noteq> ''''" and "accepted is_uuid ls ref why"
    and "http_releaseMany E n ls ref why db = (direct, db1)"
  shows "\<exists>body out db2. amqp_releaseMany A ls ref (Some why) q = (Inr (), q @ [(''inventory.stock.release'', body)]) \<and>
      consumer_handle is_uuid is_datetime None now (Some body) db = (Inr out, db2) \<and>
      levels_of db2 = levels_of db1 \<and>
      (out = Ack \<longleftrightarrow> (\<exists>u. direct = Inr u)) \<and> (out = Reject \<longleftrightarrow> (\<exists>e. direct = Inl e))"
proof -
  note batch = accepted_batch [OF assms(8)]
  have ne: "ls \<noteq> []" using assms(8) by (auto simp: accepted_def accepted_lines_def)
  let ?m = "buildStockChangeMessage KeyRelease ls ref (Some why) (ae_now A) (ae_uuid A) (ae_correlationId A) (ae_actor A)"
  obtain out db2 where out: "consumer_handle is_uuid is_datetime None now (Some (message_json ?m)) db = (Inr out, db2)"
    "if list_all (can_release db) ls
     then out = Ack \<and> (\<forall>p. levels_of db2 p = moved_by (- 1) ls p (levels_of db p)) \<and> processed db2 (js_trim (ae_uuid A))
     else out = Reject \<and> db2 = db"
    using consumer_release_event [OF assms(7,5,8,6,1)] by blast
  have queued: "amqp_releaseMany A ls ref (Some why) q = (Inr (), q @ [(''inventory.stock.release'', message_json ?m)])"
    using ne assms(4) by (simp add: amqp_releaseMany_def publish_def routingKeyFor_def) (simp add: buildStockChangeMessage_def)
  show ?thesis
  proof (cases rule: bulk_decided [OF assms(1,2) ne, of ref why ReleaseLines, case_names moved refused])
    case (moved items db')
    then have "direct = Inr () \<and> db1 = db'" using assms(9) by (simp add: http_releaseMany_def and_then_def)
    with moved out queued show ?thesis by (intro exI [of _ "message_json ?m"] exI [of _ out] exI [of _ db2]) (auto simp: fun_eq_iff)
  next
    case (refused e)
    then have "direct = Inl e \<and> db1 = db" using assms(9) by (simp add: http_releaseMany_def and_then_def)
    with refused out queued assms(3,8) show ?thesis by (intro exI [of _ "message_json ?m"] exI [of _ out] exI [of _ db2]) auto
  qed
qed

definition sample_amqp :: amqp_env where
  "sample_amqp = \<lparr>ae_uuid = ''m-1'', ae_now = ''2026-01-01T00:00:00Z'', ae_correlationId = Some ''r-1'', ae_actor = None,
     ae_publish = Confirmed\<rparr>"

theorem transports_agree_witness:
  "\<exists>body out db2. amqp_releaseMany sample_amqp (bulk_items (sample_lines 2)) ''cart-1'' (Some ''Cart expired'') [] =
        (Inr (), [(''inventory.stock.release'', body)]) \<and>
      consumer_handle (\<lambda>_. True) (\<lambda>_. True) None 9 (Some body) sample_held = (Inr out, db2) \<and>
      levels_of db2 = levels_of (snd (http_releaseMany sample_http 0 (bulk_items (sample_lines 2)) ''cart-1'' ''Cart expired'' sample_held))"
proof -
  obtain direct db1 where run: "http_releaseMany sample_http 0 (bulk_items (sample_lines 2)) ''cart-1'' ''Cart expired'' sample_held =
      (direct, db1)" by fastforce
  have acc: "accepted (\<lambda>_. True) (bulk_items (sample_lines 2)) ''cart-1'' ''Cart expired''"
    and env: "envelope_ok (\<lambda>_. True) sample_amqp"
    and fresh: "\<not> processed sample_held (js_trim (ae_uuid sample_amqp))"
    by code_simp+
  have "he_is_uuid sample_http = (\<lambda>_. True)" "ae_publish sample_amqp = Confirmed"
    by (simp_all add: sample_http_def sample_amqp_def)
  from transports_agree [OF reachable_inventory_ok [OF sample_held_reachable] sample_clear this env fresh _ acc run, of "[]" 9]
  show ?thesis by (auto simp: run)
qed

end
