(* ===== verification/BrokerConsumer.thy ===== *)
theory BrokerConsumer
  imports InventoryConsumer
begin

text \<open>
  The inventory service's connection to the broker
  (\<^verbatim>\<open>services/inventory/src/messaging/rabbitmq.consumer.ts\<close>): connecting, consuming, settling deliveries, reconnecting
  after a loss, stopping. The class awaits, so its methods interleave with events; each function below is what runs
  without interruption, from one \<^verbatim>\<open>await\<close> or event to the next, and \<open>cstep\<close> lets them happen in every order the
  event loop allows. A connection and its one channel have the same number. The broker is the environment: it hands
  out the messages of its queue, forgets a delivery when it is acked or rejected on its open channel, and takes
  back what is not settled when the channel goes. Logging and the declared topology are not represented.
\<close>

section \<open>State\<close>

datatype ConsumerState = Idle | Connected | Disconnected | Stopped

text \<open>How far \<^verbatim>\<open>open()\<close> has come, and who awaits it. \<open>Consumed\<close>: the broker has answered, the code has not gone on yet.\<close>

datatype open_stage = Connecting | Declaring | Consuming | Consumed

datatype opener = Boot | Reconnect

datatype stop_stage = Cancelling | Draining

datatype task_stage = Handling | Sleeping

record consumer =
  cs_state :: ConsumerState
  cs_connection :: "nat option"
  cs_channel :: "nat option"
  cs_consumerTag :: bool
  cs_inFlight :: nat
  cs_attempts :: nat
  cs_reconnectTimer :: "nat option"
  cs_onDrained :: bool
  cs_opening :: "(nat \<times> open_stage \<times> opener) option"
  cs_stopping :: "(nat option \<times> stop_stage) option"
  cs_tasks :: "(nat \<times> nat \<times> task_stage) list"
  cs_listening :: "nat set"
  cs_closing :: "nat set"
  cs_next :: nat

text \<open>
  The broker's side: open connections and channels, the queue, what is out unacked, and what has left it. The rest
  is history: all deliveries, what their handlers decided, the calls of \<^verbatim>\<open>stop()\<close>, and whether a connection or channel
  was ever lost between the broker's answer to \<^verbatim>\<open>consume\<close> and the code that awaited it.
\<close>

record broker =
  br_connections :: "nat set"
  br_channels :: "nat set"
  br_queue :: "string list"
  br_unacked :: "(nat \<times> nat \<times> string) list"
  br_acked :: "string list"
  br_dead :: "string list"
  br_deliveries :: "(nat \<times> nat \<times> string) list"
  br_verdicts :: "(nat \<times> ConsumeOutcome option) list"
  br_stops :: nat
  br_raced :: bool

type_synonym line = "consumer \<times> broker"

definition initial_line :: "string list \<Rightarrow> line" where
  "initial_line queue =
     (\<lparr>cs_state = Idle, cs_connection = None, cs_channel = None, cs_consumerTag = False, cs_inFlight = 0, cs_attempts = 0,
       cs_reconnectTimer = None, cs_onDrained = False, cs_opening = None, cs_stopping = None, cs_tasks = [], cs_listening = {},
       cs_closing = {}, cs_next = 0\<rparr>,
      \<lparr>br_connections = {}, br_channels = {}, br_queue = queue, br_unacked = [], br_acked = [], br_dead = [], br_deliveries = [],
       br_verdicts = [], br_stops = 0, br_raced = False\<rparr>)"

section \<open>Opening and reconnecting\<close>

definition cs_connected :: "consumer \<Rightarrow> bool" where
  "cs_connected s \<longleftrightarrow> cs_state s = Connected \<and> cs_channel s \<noteq> None"

definition closeQuietly :: "nat \<Rightarrow> consumer \<Rightarrow> consumer" where
  "closeQuietly c s = s\<lparr>cs_closing := insert c (cs_closing s)\<rparr>"

definition begin_open :: "opener \<Rightarrow> consumer \<Rightarrow> consumer" where
  "begin_open k s = s\<lparr>cs_opening := Some (cs_next s, Connecting, k), cs_next := cs_next s + 1\<rparr>"

definition consumer_start :: "consumer \<Rightarrow> string + consumer" where
  "consumer_start s = (if cs_state s \<noteq> Idle then Inl ''RabbitMqConsumer cannot start'' else Inr (begin_open Boot s))"

definition scheduleReconnect :: "nat \<Rightarrow> consumer \<Rightarrow> consumer" where
  "scheduleReconnect maxRetryDelayMs s =
     (if cs_reconnectTimer s \<noteq> None \<or> cs_state s \<noteq> Disconnected then s
      else let attempts = cs_attempts s + 1
           in s\<lparr>cs_attempts := attempts, cs_reconnectTimer := Some (min (attempts * 500) maxRetryDelayMs)\<rparr>)"

text \<open>The timer's callback.\<close>

definition reconnect :: "consumer \<Rightarrow> consumer" where
  "reconnect s = (let s = s\<lparr>cs_reconnectTimer := None\<rparr> in if cs_state s \<noteq> Disconnected then s else begin_open Reconnect s)"

text \<open>
  \<^verbatim>\<open>open()\<close> after the topology is declared: a stop that came meanwhile wins, otherwise the connection is adopted before
  \<^verbatim>\<open>consume\<close> is sent.
\<close>

definition open_declared :: "nat \<Rightarrow> opener \<Rightarrow> consumer \<Rightarrow> consumer" where
  "open_declared c k s =
     (if cs_state s = Stopped then closeQuietly c (s\<lparr>cs_opening := None\<rparr>)
      else s\<lparr>cs_connection := Some c, cs_channel := Some c, cs_opening := Some (c, Consuming, k)\<rparr>)"

text \<open>\<^verbatim>\<open>open()\<close> after \<^verbatim>\<open>consume\<close> has been answered.\<close>

definition open_consumed :: "nat \<Rightarrow> consumer \<Rightarrow> consumer" where
  "open_consumed c s = s\<lparr>cs_listening := insert c (cs_listening s), cs_consumerTag := True, cs_state := Connected, cs_attempts := 0,
     cs_opening := None\<rparr>"

text \<open>A step of \<^verbatim>\<open>open()\<close> failed; \<^verbatim>\<open>start()\<close> passes the error on, \<^verbatim>\<open>reconnect()\<close> tries again later.\<close>

definition open_failed :: "nat \<Rightarrow> nat \<Rightarrow> open_stage \<Rightarrow> opener \<Rightarrow> consumer \<Rightarrow> consumer" where
  "open_failed maxRetryDelayMs c stage k s =
     (let s = s\<lparr>cs_opening := None\<rparr>;
          s = (if stage = Connecting then s else closeQuietly c (s\<lparr>cs_connection := None, cs_channel := None\<rparr>))
      in case k of Boot \<Rightarrow> s | Reconnect \<Rightarrow> scheduleReconnect maxRetryDelayMs s)"

definition onChannelClosed :: "nat \<Rightarrow> consumer \<Rightarrow> consumer" where
  "onChannelClosed c s =
     (if cs_channel s \<noteq> Some c then s
      else closeQuietly c (s\<lparr>cs_channel := None, cs_consumerTag := False,
             cs_state := (if cs_state s = Connected then Disconnected else cs_state s)\<rparr>))"

definition onConnectionClosed :: "nat \<Rightarrow> nat \<Rightarrow> consumer \<Rightarrow> consumer" where
  "onConnectionClosed maxRetryDelayMs c s =
     (if cs_connection s \<noteq> Some c then s
      else let s = s\<lparr>cs_connection := None, cs_channel := None, cs_consumerTag := False\<rparr>
           in if cs_state s = Stopped then s else scheduleReconnect maxRetryDelayMs (s\<lparr>cs_state := Disconnected\<rparr>))"

section \<open>Deliveries\<close>

definition onDelivery :: "nat \<Rightarrow> nat \<Rightarrow> consumer \<Rightarrow> consumer" where
  "onDelivery tag c s = s\<lparr>cs_inFlight := cs_inFlight s + 1, cs_tasks := cs_tasks s @ [(tag, c, Handling)]\<rparr>"

definition onCancelledByServer :: "nat \<Rightarrow> consumer \<Rightarrow> consumer" where
  "onCancelledByServer c s = (if cs_channel s = Some c then closeQuietly c s else s)"

text \<open>The \<^verbatim>\<open>finally\<close> of a delivery: the last one running wakes a waiting \<^verbatim>\<open>stop()\<close>.\<close>

definition finish_task :: "nat \<Rightarrow> consumer \<Rightarrow> consumer" where
  "finish_task tag s = s\<lparr>cs_tasks := delete_rows fst tag (cs_tasks s), cs_inFlight := cs_inFlight s - 1,
     cs_onDrained := (cs_onDrained s \<and> cs_inFlight s - 1 \<noteq> 0)\<rparr>"

definition settle :: "nat \<Rightarrow> nat \<Rightarrow> ConsumeOutcome \<Rightarrow> broker \<Rightarrow> broker" where
  "settle tag c outcome b =
     (if c \<notin> br_channels b then b
      else case find_row fst tag (br_unacked b) of
        None \<Rightarrow> b
      | Some (_, _, m) \<Rightarrow>
          (let b = b\<lparr>br_unacked := delete_rows fst tag (br_unacked b)\<rparr>
           in case outcome of
                Ack \<Rightarrow> b\<lparr>br_acked := br_acked b @ [m]\<rparr>
              | Reject \<Rightarrow> b\<lparr>br_dead := br_dead b @ [m]\<rparr>
              | Requeue \<Rightarrow> b\<lparr>br_queue := m # br_queue b\<rparr>))"

text \<open>\<^verbatim>\<open>process\<close> when the handler has decided (\<open>None\<close>: it threw), and after the pause before a requeue.\<close>

definition process_handled :: "nat \<Rightarrow> nat \<Rightarrow> ConsumeOutcome option \<Rightarrow> line \<Rightarrow> line" where
  "process_handled tag c handled = (\<lambda>(s, b).
     let outcome = (case handled of None \<Rightarrow> Requeue | Some x \<Rightarrow> x)
     in if cs_channel s \<noteq> Some c then (finish_task tag s, b)
        else if outcome = Requeue then (s\<lparr>cs_tasks := update_rows fst tag (\<lambda>(t, ch, _). (t, ch, Sleeping)) (cs_tasks s)\<rparr>, b)
        else (finish_task tag s, settle tag c outcome b))"

definition process_slept :: "nat \<Rightarrow> nat \<Rightarrow> line \<Rightarrow> line" where
  "process_slept tag c = (\<lambda>(s, b).
     if cs_channel s \<noteq> Some c then (finish_task tag s, b) else (finish_task tag s, settle tag c Requeue b))"

section \<open>Stopping\<close>

definition consumer_stop :: "consumer \<Rightarrow> consumer" where
  "consumer_stop s =
     (if cs_state s = Stopped then s
      else s\<lparr>cs_state := Stopped, cs_reconnectTimer := None,
             cs_stopping := Some (cs_connection s, if cs_channel s \<noteq> None \<and> cs_consumerTag s then Cancelling else Draining),
             cs_onDrained := (if cs_channel s \<noteq> None \<and> cs_consumerTag s then cs_onDrained s else cs_inFlight s \<noteq> 0)\<rparr>)"

text \<open>\<^verbatim>\<open>cancel\<close> is answered or has failed: \<^verbatim>\<open>waitForDrain\<close>.\<close>

definition waitForDrain :: "nat option \<Rightarrow> consumer \<Rightarrow> consumer" where
  "waitForDrain connection s = s\<lparr>cs_stopping := Some (connection, Draining), cs_onDrained := (cs_inFlight s \<noteq> 0)\<rparr>"

definition drain_timed_out :: "consumer \<Rightarrow> consumer" where
  "drain_timed_out s = s\<lparr>cs_onDrained := False\<rparr>"

definition stop_drained :: "nat option \<Rightarrow> consumer \<Rightarrow> consumer" where
  "stop_drained connection s =
     (let s = s\<lparr>cs_stopping := None, cs_connection := None, cs_channel := None, cs_consumerTag := False\<rparr>
      in case connection of None \<Rightarrow> s | Some c \<Rightarrow> closeQuietly c s)"

section \<open>The event loop\<close>

definition answered_late :: "nat \<Rightarrow> consumer \<Rightarrow> bool" where
  "answered_late c s \<longleftrightarrow> (case cs_opening s of Some (c', Consumed, _) \<Rightarrow> c' = c | _ \<Rightarrow> False)"

definition message_of :: "nat \<times> nat \<times> string \<Rightarrow> string" where
  "message_of d = (case d of (_, _, m) \<Rightarrow> m)"

definition lose_channel :: "bool \<Rightarrow> nat \<Rightarrow> broker \<Rightarrow> broker" where
  "lose_channel raced c b = b\<lparr>br_channels := br_channels b - {c}, br_raced := (br_raced b \<or> raced),
     br_queue := map message_of (filter (\<lambda>d. fst (snd d) = c) (br_unacked b)) @ br_queue b,
     br_unacked := filter (\<lambda>d. fst (snd d) \<noteq> c) (br_unacked b)\<rparr>"

text \<open>
  What may happen next. \<^verbatim>\<open>start()\<close> and \<^verbatim>\<open>stop()\<close> are called once, by \<^verbatim>\<open>server.ts\<close>. A timer fires only when no \<^verbatim>\<open>open()\<close> is
  waiting: the library rejects what is pending on a connection when it announces its loss, and continuations run
  before timers.
\<close>

inductive cstep :: "nat \<Rightarrow> line \<Rightarrow> line \<Rightarrow> bool" for M :: nat where
  start: "cs_opening s = None \<Longrightarrow> consumer_start s = Inr s' \<Longrightarrow> cstep M (s, b) (s', b)"
| connect_ok: "cs_opening s = Some (c, Connecting, k) \<Longrightarrow>
    cstep M (s, b) (s\<lparr>cs_opening := Some (c, Declaring, k)\<rparr>, b\<lparr>br_connections := insert c (br_connections b), br_channels := insert c (br_channels b)\<rparr>)"
| declared: "cs_opening s = Some (c, Declaring, k) \<Longrightarrow> cstep M (s, b) (open_declared c k s, b)"
| consume_ok: "cs_opening s = Some (c, Consuming, k) \<Longrightarrow> c \<in> br_channels b \<Longrightarrow> c \<in> br_connections b \<Longrightarrow>
    cstep M (s, b) (s\<lparr>cs_opening := Some (c, Consumed, k)\<rparr>, b)"
| consumed: "cs_opening s = Some (c, Consumed, k) \<Longrightarrow> cstep M (s, b) (open_consumed c s, b)"
| open_fails: "cs_opening s = Some (c, stage, k) \<Longrightarrow> stage \<noteq> Consumed \<Longrightarrow> cstep M (s, b) (open_failed M c stage k s, b)"
| channel_lost: "c \<in> br_channels b \<Longrightarrow> cstep M (s, b) (if c \<in> cs_listening s then onChannelClosed c s else s, lose_channel (answered_late c s) c b)"
| connection_lost: "c \<in> br_connections b \<Longrightarrow>
    cstep M (s, b) (onConnectionClosed M c s, (lose_channel (answered_late c s) c b)\<lparr>br_connections := br_connections b - {c}\<rparr>)"
| timer: "cs_reconnectTimer s \<noteq> None \<Longrightarrow> cs_opening s = None \<Longrightarrow> cstep M (s, b) (reconnect s, b)"
| deliver: "c \<in> br_channels b \<Longrightarrow> br_queue b = m # ms \<Longrightarrow> tag = length (br_deliveries b) \<Longrightarrow>
    cstep M (s, b) (onDelivery tag c s, b\<lparr>br_queue := ms, br_unacked := br_unacked b @ [(tag, c, m)], br_deliveries := br_deliveries b @ [(tag, c, m)]\<rparr>)"
| cancelled: "c \<in> br_channels b \<Longrightarrow> cstep M (s, b) (onCancelledByServer c s, b)"
| handled: "find_row fst tag (cs_tasks s) = Some (tag, c, Handling) \<Longrightarrow> cstep M (s, b) (process_handled tag c outcome (s, b\<lparr>br_verdicts := br_verdicts b @ [(tag, outcome)]\<rparr>))"
| slept: "find_row fst tag (cs_tasks s) = Some (tag, c, Sleeping) \<Longrightarrow> cstep M (s, b) (process_slept tag c (s, b))"
| stop: "cs_stopping s = None \<Longrightarrow> cstep M (s, b) (consumer_stop s, b\<lparr>br_stops := br_stops b + 1\<rparr>)"
| cancel_done: "cs_stopping s = Some (connection, Cancelling) \<Longrightarrow> cstep M (s, b) (waitForDrain connection s, b)"
| drain_timeout: "cs_stopping s = Some (connection, Draining) \<Longrightarrow> cs_onDrained s \<Longrightarrow> cstep M (s, b) (drain_timed_out s, b)"
| drained: "cs_stopping s = Some (connection, Draining) \<Longrightarrow> \<not> cs_onDrained s \<Longrightarrow> cstep M (s, b) (stop_drained connection s, b)"

inductive creach :: "nat \<Rightarrow> string list \<Rightarrow> line \<Rightarrow> bool" for M :: nat and Q :: "string list" where
  initial: "creach M Q (initial_line Q)"
| further: "creach M Q l \<Longrightarrow> cstep M l l' \<Longrightarrow> creach M Q l'"

section \<open>Nothing gets lost\<close>

text \<open>Every message is waiting, out with a consumer, or gone on the word of the handler of one of its deliveries.\<close>

definition decided :: "broker \<Rightarrow> ConsumeOutcome \<Rightarrow> string \<Rightarrow> bool" where
  "decided b x m \<longleftrightarrow> (\<exists>tag c. (tag, c, m) \<in> set (br_deliveries b) \<and> (tag, Some x) \<in> set (br_verdicts b))"

definition broker_ok :: "string list \<Rightarrow> broker \<Rightarrow> bool" where
  "broker_ok Q b \<longleftrightarrow>
     mset Q = mset (br_queue b) + mset (map message_of (br_unacked b)) + mset (br_acked b) + mset (br_dead b) \<and>
     distinct (map fst (br_unacked b)) \<and> set (br_unacked b) \<subseteq> set (br_deliveries b) \<and>
     map fst (br_deliveries b) = [0..<length (br_deliveries b)] \<and>
     (\<forall>(tag, c, m) \<in> set (br_unacked b). c \<in> br_channels b) \<and>
     list_all (decided b Ack) (br_acked b) \<and> list_all (decided b Reject) (br_dead b)"

definition tasks_ok :: "line \<Rightarrow> bool" where
  "tasks_ok = (\<lambda>(s, b). cs_inFlight s = length (cs_tasks s) \<and> distinct (map fst (cs_tasks s)) \<and>
     (\<forall>(tag, c, st) \<in> set (cs_tasks s). (tag, c) \<in> (\<lambda>(t, ch, m). (t, ch)) ` set (br_deliveries b)))"

lemma mset_delete_row:
  "distinct (map fst rows) \<Longrightarrow> find_row fst k rows = Some r \<Longrightarrow> mset (map f rows) = add_mset (f r) (mset (map f (delete_rows fst k rows)))"
proof (induction rows)
  case (Cons x rows)
  show ?case
  proof (cases "fst x = k")
    case True
    then have "k \<notin> fst ` set rows" using Cons.prems(1) by auto
    then show ?thesis using True Cons.prems(2) by (simp add: delete_rows_absent)
  next
    case False
    then show ?thesis using Cons by simp
  qed
qed simp

lemma delete_rows_set: "set (delete_rows key k rows) \<subseteq> set rows"
  by (auto simp: delete_rows_def)

lemma decided_more:
  "list_all (decided b x) xs \<Longrightarrow> set (br_deliveries b) \<subseteq> set (br_deliveries b') \<Longrightarrow> set (br_verdicts b) \<subseteq> set (br_verdicts b') \<Longrightarrow>
     list_all (decided b' x) xs"
  unfolding decided_def list_all_iff by blast

lemma decided_unaffected [simp]:
  "decided (b\<lparr>br_connections := y\<rparr>) = decided b" "decided (b\<lparr>br_channels := z\<rparr>) = decided b" "decided (b\<lparr>br_stops := n\<rparr>) = decided b"
  by (simp_all add: decided_def fun_eq_iff)

lemma settle_ok:
  assumes ok: "broker_ok Q b" and said: "outcome = Requeue \<or> (tag, Some outcome) \<in> set (br_verdicts b)"
  shows "broker_ok Q (settle tag c outcome b)" "br_deliveries (settle tag c outcome b) = br_deliveries b"
proof -
  show "br_deliveries (settle tag c outcome b) = br_deliveries b"
    by (auto simp: settle_def Let_def split: option.split ConsumeOutcome.split)
  show "broker_ok Q (settle tag c outcome b)"
  proof (cases "c \<in> br_channels b \<and> find_row fst tag (br_unacked b) \<noteq> None")
    case True
    then obtain r where r: "find_row fst tag (br_unacked b) = Some r" by blast
    obtain c' m where f: "find_row fst tag (br_unacked b) = Some (tag, c', m)"
      using r find_row_SomeD(2) [OF r] by (cases r) auto
    have d: "(tag, c', m) \<in> set (br_deliveries b)" using ok find_row_SomeD(1) [OF f] by (auto simp: broker_ok_def)
    have sub: "set (delete_rows fst tag (br_unacked b)) \<subseteq> set (br_unacked b)" by (rule delete_rows_set)
    have "mset (map message_of (br_unacked b)) = add_mset m (mset (map message_of (delete_rows fst tag (br_unacked b))))"
      using mset_delete_row [of "br_unacked b" tag "(tag, c', m)" message_of] ok f by (simp add: broker_ok_def message_of_def)
    moreover have "distinct (map fst (delete_rows fst tag (br_unacked b)))" using ok by (simp add: broker_ok_def distinct_map_delete_rows)
    moreover have "outcome \<noteq> Requeue \<Longrightarrow> decided b outcome m" using d said by (auto simp: decided_def)
    ultimately show ?thesis
      using True f ok sub
      by (cases outcome) (auto simp: settle_def Let_def broker_ok_def decided_def list_all_iff)
  qed (use ok in \<open>auto simp: settle_def split: option.splits\<close>)
qed

lemma mset_split_channel:
  "mset (map message_of us) = mset (map message_of (filter (\<lambda>d. fst (snd d) = c) us)) + mset (map message_of (filter (\<lambda>d. fst (snd d) \<noteq> c) us))"
  by (induction us) auto

lemma lose_channel_ok: "broker_ok Q b \<Longrightarrow> broker_ok Q (lose_channel raced c b)"
  using mset_split_channel [of "br_unacked b" c]
  by (auto simp: broker_ok_def lose_channel_def decided_def list_all_iff distinct_map_filter)

text \<open>Which operations leave the running deliveries alone.\<close>

lemma consumer_ops_tasks:
  "cs_tasks (begin_open k s) = cs_tasks s" "cs_inFlight (begin_open k s) = cs_inFlight s"
  "cs_tasks (closeQuietly c s) = cs_tasks s" "cs_inFlight (closeQuietly c s) = cs_inFlight s"
  "cs_tasks (scheduleReconnect M s) = cs_tasks s" "cs_inFlight (scheduleReconnect M s) = cs_inFlight s"
  by (simp_all add: begin_open_def closeQuietly_def scheduleReconnect_def Let_def)

lemma connection_ops_tasks:
  "cs_tasks (reconnect s) = cs_tasks s" "cs_inFlight (reconnect s) = cs_inFlight s"
  "cs_tasks (open_declared c k s) = cs_tasks s" "cs_inFlight (open_declared c k s) = cs_inFlight s"
  "cs_tasks (open_consumed c s) = cs_tasks s" "cs_inFlight (open_consumed c s) = cs_inFlight s"
  "cs_tasks (open_failed M c stage k s) = cs_tasks s" "cs_inFlight (open_failed M c stage k s) = cs_inFlight s"
  "cs_tasks (onChannelClosed c s) = cs_tasks s" "cs_inFlight (onChannelClosed c s) = cs_inFlight s"
  "cs_tasks (onConnectionClosed M c s) = cs_tasks s" "cs_inFlight (onConnectionClosed M c s) = cs_inFlight s"
  "cs_tasks (onCancelledByServer c s) = cs_tasks s" "cs_inFlight (onCancelledByServer c s) = cs_inFlight s"
  "cs_tasks (consumer_stop s) = cs_tasks s" "cs_inFlight (consumer_stop s) = cs_inFlight s"
  "cs_tasks (waitForDrain x s) = cs_tasks s" "cs_inFlight (waitForDrain x s) = cs_inFlight s"
  "cs_tasks (drain_timed_out s) = cs_tasks s" "cs_inFlight (drain_timed_out s) = cs_inFlight s"
  "cs_tasks (stop_drained x s) = cs_tasks s" "cs_inFlight (stop_drained x s) = cs_inFlight s"
  by (simp_all add: reconnect_def open_declared_def open_consumed_def open_failed_def onChannelClosed_def onConnectionClosed_def
      onCancelledByServer_def consumer_stop_def waitForDrain_def drain_timed_out_def stop_drained_def Let_def consumer_ops_tasks
      split: opener.split option.split)

lemmas tasks_unchanged = consumer_ops_tasks connection_ops_tasks

lemma delete_row_length: "distinct (map fst rows) \<Longrightarrow> find_row fst k rows = Some r \<Longrightarrow> length (delete_rows fst k rows) = length rows - 1"
  using arg_cong [OF mset_delete_row [of rows k r "\<lambda>x. x"], of size] by (simp add: size_mset [symmetric] del: size_mset)

lemma finish_task_ok:
  assumes "tasks_ok (s, b)" "find_row fst tag (cs_tasks s) = Some r" "br_deliveries b' = br_deliveries b"
  shows "tasks_ok (finish_task tag s, b')"
  using assms delete_rows_set [of fst tag "cs_tasks s"] delete_row_length [of "cs_tasks s" tag r]
  by (auto simp: tasks_ok_def finish_task_def distinct_map_delete_rows)

lemma sleeping_ok:
  assumes "tasks_ok (s, b)"
  shows "tasks_ok (s\<lparr>cs_tasks := update_rows fst tag (\<lambda>(t, ch, _). (t, ch, Sleeping)) (cs_tasks s)\<rparr>, b)"
proof -
  have "map fst (update_rows fst tag (\<lambda>(t, ch, _). (t, ch, Sleeping)) (cs_tasks s)) = map fst (cs_tasks s)"
    by (rule map_key_update_rows) (simp split: prod.split)
  moreover have "length (update_rows fst tag (\<lambda>(t, ch, _). (t, ch, Sleeping)) (cs_tasks s)) = length (cs_tasks s)" by (simp add: update_rows_def)
  moreover have "(tag', c) \<in> (\<lambda>(t, ch, st). (t, ch)) ` set (cs_tasks s)"
    if "(tag', c, st) \<in> set (update_rows fst tag (\<lambda>(t, ch, _). (t, ch, Sleeping)) (cs_tasks s))" for tag' c st
    using that unfolding set_update_rows by (force split: if_splits)
  ultimately show ?thesis using assms by (fastforce simp: tasks_ok_def)
qed

lemma line_ok_step:
  assumes "cstep M (s, b) (s', b')" "broker_ok Q b" "tasks_ok (s, b)"
  shows "broker_ok Q b' \<and> tasks_ok (s', b')"
  using assms(1)
proof (cases rule: cstep.cases)
  case (deliver c m ms tag)
  have "map fst (br_deliveries b) = [0..<length (br_deliveries b)]" using assms(2) by (simp add: broker_ok_def)
  then have new: "length (br_deliveries b) \<notin> fst ` set (br_deliveries b)" by (metis atLeastLessThan_iff image_set less_irrefl set_upt)
  then have "length (br_deliveries b) \<notin> fst ` set (br_unacked b)" using assms(2) by (auto simp: broker_ok_def)
  moreover have "length (br_deliveries b) \<notin> fst ` set (cs_tasks s)" 
  proof
    assume "length (br_deliveries b) \<in> fst ` set (cs_tasks s)"
    then obtain c st where "(length (br_deliveries b), c, st) \<in> set (cs_tasks s)" by auto
    then have "(length (br_deliveries b), c) \<in> (\<lambda>(t, ch, m). (t, ch)) ` set (br_deliveries b)" using assms(3) by (auto simp: tasks_ok_def)
    then show False using new by force
  qed
  moreover have "list_all (decided b x) xs \<Longrightarrow> list_all (decided b' x) xs" for x xs
    using deliver(2) by (auto elim!: decided_more)
  ultimately have "broker_ok Q b'" using deliver assms(2) by (auto simp: broker_ok_def message_of_def)
  moreover have "tasks_ok (s', b')"
    using deliver assms(3) \<open>length (br_deliveries b) \<notin> fst ` set (cs_tasks s)\<close> by (auto simp: tasks_ok_def onDelivery_def)
  ultimately show ?thesis by blast
next
  case (handled tag c outcome)
  let ?b = "b\<lparr>br_verdicts := br_verdicts b @ [(tag, outcome)]\<rparr>"
  have "list_all (decided b x) xs \<Longrightarrow> list_all (decided ?b x) xs" for x xs by (auto elim!: decided_more)
  then have ok: "broker_ok Q ?b" "tasks_ok (s, ?b)" using assms(2,3) by (auto simp: broker_ok_def tasks_ok_def)
  let ?x = "case outcome of None \<Rightarrow> Requeue | Some x \<Rightarrow> x"
  have said: "?x = Requeue \<or> (tag, Some ?x) \<in> set (br_verdicts ?b)" by (cases outcome) auto
  show ?thesis
    using handled ok settle_ok [OF ok(1) said, of c] finish_task_ok [OF ok(2), of tag] sleeping_ok [OF ok(2), of tag]
    by (auto simp: process_handled_def Let_def split: if_splits)
next
  case (slept tag c)
  then show ?thesis
    using settle_ok [OF assms(2), of Requeue tag c] finish_task_ok [OF assms(3), of tag] assms(2)
    by (auto simp: process_slept_def split: if_splits)
next
  case (channel_lost c)
  then show ?thesis
    using assms(2,3) lose_channel_ok by (auto simp: tasks_ok_def lose_channel_def tasks_unchanged intro: lose_channel_ok [unfolded lose_channel_def])
next
  case (connection_lost c)
  have "broker_ok Q (x\<lparr>br_connections := y\<rparr>) = broker_ok Q x" for x y by (simp add: broker_ok_def)
  then show ?thesis
    using connection_lost assms(2,3) lose_channel_ok by (auto simp: tasks_ok_def lose_channel_def tasks_unchanged)
next
  case (connect_ok c k)
  then show ?thesis using assms(2,3) by (auto simp: broker_ok_def tasks_ok_def decided_def list_all_iff)
qed (use assms(2,3) in \<open>auto simp: tasks_ok_def tasks_unchanged consumer_start_def broker_ok_def decided_def split: if_splits\<close>)

lemma reach_line_ok: "creach M Q l \<Longrightarrow> broker_ok Q (snd l) \<and> tasks_ok l"
proof (induction rule: creach.induct)
  case initial
  show ?case by (simp add: initial_line_def broker_ok_def tasks_ok_def)
next
  case (further l l')
  then show ?case using line_ok_step [of M "fst l" "snd l" "fst l'" "snd l'" Q] by simp
qed

text \<open>
  Property C37. At least once, and only on the handler's word: whatever is lost, reconnected, timed out or stopped and in
  whatever order, every message that was in the queue is still there, is out unacked on an open channel (and so comes back when
  that goes), or has left: acked, after a handler of one of its deliveries said so, or dead-lettered, after one rejected it. No
  message is duplicated or settled twice, and the count of deliveries in flight is exact.
\<close>

theorem deliveries_settled_soundly:
  assumes "creach M Q (s, b)"
  shows "mset Q = mset (br_queue b) + mset (map message_of (br_unacked b)) + mset (br_acked b) + mset (br_dead b) \<and>
    (\<forall>(tag, c, m) \<in> set (br_unacked b). c \<in> br_channels b) \<and>
    list_all (decided b Ack) (br_acked b) \<and> list_all (decided b Reject) (br_dead b) \<and> cs_inFlight s = length (cs_tasks s)"
  using reach_line_ok [OF assms] by (simp add: broker_ok_def tasks_ok_def)

section \<open>Every loss is repaired\<close>

text \<open>Something is under way that ends in a new connection.\<close>

definition recovering :: "line \<Rightarrow> bool" where
  "recovering = (\<lambda>(s, b). cs_reconnectTimer s \<noteq> None \<or> cs_opening s \<noteq> None \<or>
     (case cs_connection s of None \<Rightarrow> False | Some c \<Rightarrow> c \<in> br_connections b \<and> c \<in> cs_closing s))"

definition consuming :: "line \<Rightarrow> bool" where
  "consuming = (\<lambda>(s, b). case cs_channel s of None \<Rightarrow> False
     | Some c \<Rightarrow> cs_connection s = Some c \<and> c \<in> br_channels b \<and> c \<in> br_connections b \<and> c \<in> cs_listening s)"

definition opening_ok :: "line \<Rightarrow> bool" where
  "opening_ok = (\<lambda>(s, b). case cs_opening s of None \<Rightarrow> True
     | Some (c, stage, k) \<Rightarrow> c < cs_next s \<and> c \<notin> cs_listening s \<and> cs_state s \<noteq> Connected \<and>
         (k = Boot \<longrightarrow> cs_state s = Idle \<or> cs_reconnectTimer s \<noteq> None) \<and>
         (stage = Connecting \<longrightarrow> c \<notin> br_connections b) \<and>
         (stage = Consuming \<and> c \<in> br_connections b \<longrightarrow> cs_connection s = Some c \<and> cs_channel s = Some c) \<and>
         (stage = Consumed \<and> \<not> br_raced b \<longrightarrow> cs_connection s = Some c \<and> cs_channel s = Some c \<and> c \<in> br_connections b \<and> c \<in> br_channels b))"

definition link_ok :: "line \<Rightarrow> bool" where
  "link_ok = (\<lambda>(s, b). cs_stopping s = None \<and> cs_state s \<noteq> Stopped \<and> opening_ok (s, b) \<and>
     cs_listening s \<union> br_connections b \<subseteq> {..<cs_next s} \<and>
     (\<forall>c. cs_channel s = Some c \<longrightarrow> cs_connection s = Some c) \<and>
     (\<forall>c. cs_connection s = Some c \<longrightarrow> c \<in> br_connections b \<or> (\<exists>k. cs_opening s = Some (c, Consuming, k))) \<and>
     (cs_state s = Connected \<and> \<not> br_raced b \<longrightarrow> consuming (s, b)) \<and>
     (cs_state s = Disconnected \<longrightarrow> recovering (s, b)))"

lemmas link_defs = link_ok_def opening_ok_def consuming_def recovering_def

lemmas consumer_defs = begin_open_def closeQuietly_def scheduleReconnect_def reconnect_def open_declared_def open_consumed_def open_failed_def
  onChannelClosed_def onConnectionClosed_def onCancelledByServer_def onDelivery_def finish_task_def consumer_start_def Let_def

text \<open>What does not touch the connection does not matter.\<close>

lemma link_ok_deliveries:
  "link_ok (onDelivery tag c s, b\<lparr>br_queue := q, br_unacked := u, br_deliveries := d\<rparr>) = link_ok (s, b)"
  "link_ok (finish_task tag s, b) = link_ok (s, b)" "link_ok (s\<lparr>cs_tasks := ts\<rparr>, b) = link_ok (s, b)"
  "link_ok (s, b\<lparr>br_verdicts := v\<rparr>) = link_ok (s, b)" "link_ok (s, settle tag c x b) = link_ok (s, b)"
  by (simp_all add: link_defs onDelivery_def finish_task_def settle_def Let_def split: option.split ConsumeOutcome.split)

lemma answered_late_iff: "answered_late c s \<longleftrightarrow> (\<exists>k. cs_opening s = Some (c, Consumed, k))"
  by (auto simp: answered_late_def split: option.splits open_stage.splits)

lemma lost_broker [simp]:
  "br_connections (lose_channel raced c b) = br_connections b" "br_channels (lose_channel raced c b) = br_channels b - {c}"
  "br_raced (lose_channel raced c b) = (br_raced b \<or> raced)"
  by (simp_all add: lose_channel_def)

lemma link_okD:
  assumes "link_ok (s, b)"
  shows "cs_stopping s = None" "cs_state s \<noteq> Stopped" "opening_ok (s, b)" "cs_listening s \<union> br_connections b \<subseteq> {..<cs_next s}"
    "cs_channel s = Some c \<Longrightarrow> cs_connection s = Some c"
    "cs_connection s = Some c \<Longrightarrow> c \<in> br_connections b \<or> (\<exists>k. cs_opening s = Some (c, Consuming, k))"
    "cs_state s = Connected \<Longrightarrow> \<not> br_raced b \<Longrightarrow> consuming (s, b)" "cs_state s = Disconnected \<Longrightarrow> recovering (s, b)"
  using assms unfolding link_ok_def by blast+

lemma link_okI:
  assumes "cs_stopping s = None" "cs_state s \<noteq> Stopped" "opening_ok (s, b)" "cs_listening s \<union> br_connections b \<subseteq> {..<cs_next s}"
    "\<And>c. cs_channel s = Some c \<Longrightarrow> cs_connection s = Some c"
    "\<And>c. cs_connection s = Some c \<Longrightarrow> c \<in> br_connections b \<or> (\<exists>k. cs_opening s = Some (c, Consuming, k))"
    "cs_state s = Connected \<Longrightarrow> \<not> br_raced b \<Longrightarrow> consuming (s, b)" "cs_state s = Disconnected \<Longrightarrow> recovering (s, b)"
  shows "link_ok (s, b)"
  using assms unfolding link_ok_def by blast

lemma opening_okI:
  assumes "\<And>c stage k. cs_opening s = Some (c, stage, k) \<Longrightarrow> c < cs_next s \<and> c \<notin> cs_listening s \<and> cs_state s \<noteq> Connected \<and>
         (k = Boot \<longrightarrow> cs_state s = Idle \<or> cs_reconnectTimer s \<noteq> None) \<and>
         (stage = Connecting \<longrightarrow> c \<notin> br_connections b) \<and>
         (stage = Consuming \<and> c \<in> br_connections b \<longrightarrow> cs_connection s = Some c \<and> cs_channel s = Some c) \<and>
         (stage = Consumed \<and> \<not> br_raced b \<longrightarrow> cs_connection s = Some c \<and> cs_channel s = Some c \<and> c \<in> br_connections b \<and> c \<in> br_channels b)"
  shows "opening_ok (s, b)"
  using assms by (auto simp: opening_ok_def split: option.split)

lemma opening_okD:
  "opening_ok (s, b) \<Longrightarrow> cs_opening s = Some (c, stage, k) \<Longrightarrow> c < cs_next s \<and> c \<notin> cs_listening s \<and> cs_state s \<noteq> Connected \<and>
         (k = Boot \<longrightarrow> cs_state s = Idle \<or> cs_reconnectTimer s \<noteq> None) \<and>
         (stage = Connecting \<longrightarrow> c \<notin> br_connections b) \<and>
         (stage = Consuming \<and> c \<in> br_connections b \<longrightarrow> cs_connection s = Some c \<and> cs_channel s = Some c) \<and>
         (stage = Consumed \<and> \<not> br_raced b \<longrightarrow> cs_connection s = Some c \<and> cs_channel s = Some c \<and> c \<in> br_connections b \<and> c \<in> br_channels b)"
  by (simp add: opening_ok_def)

lemma link_ok_channel_lost:
  assumes ok: "link_ok (s, b)"
  shows "link_ok (if c \<in> cs_listening s then onChannelClosed c s else s, lose_channel (answered_late c s) c b)"
proof (cases "c \<in> cs_listening s \<and> cs_channel s = Some c")
  case True
  let ?s = "onChannelClosed c s" and ?b = "lose_channel (answered_late c s) c b"
  have "link_ok (?s, ?b)"
  proof (rule link_okI)
    have other: "cs_opening s \<noteq> Some (c, stage, k)" for stage k using opening_okD [OF link_okD(3) [OF ok]] True by blast
    show "opening_ok (?s, ?b)"
    proof (rule opening_okI)
      fix d stage k assume "cs_opening ?s = Some (d, stage, k)"
      then have o': "cs_opening s = Some (d, stage, k)" by (simp add: onChannelClosed_def closeQuietly_def split: if_splits)
      then have "d \<noteq> c" using other by blast
      then show "d < cs_next ?s \<and> d \<notin> cs_listening ?s \<and> cs_state ?s \<noteq> Connected \<and> (k = Boot \<longrightarrow> cs_state ?s = Idle \<or> cs_reconnectTimer ?s \<noteq> None) \<and>
         (stage = Connecting \<longrightarrow> d \<notin> br_connections ?b) \<and>
         (stage = Consuming \<and> d \<in> br_connections ?b \<longrightarrow> cs_connection ?s = Some d \<and> cs_channel ?s = Some d) \<and>
         (stage = Consumed \<and> \<not> br_raced ?b \<longrightarrow> cs_connection ?s = Some d \<and> cs_channel ?s = Some d \<and> d \<in> br_connections ?b \<and> d \<in> br_channels ?b)"
        using opening_okD [OF link_okD(3) [OF ok] o'] link_okD(5) [OF ok] True by (simp add: onChannelClosed_def closeQuietly_def)
    qed
    have "c \<in> br_connections b" using link_okD(5,6) [OF ok] True other by blast
    then show "cs_state ?s = Disconnected \<Longrightarrow> recovering (?s, ?b)"
      using True link_okD(5) [OF ok] by (simp add: recovering_def onChannelClosed_def closeQuietly_def)
  qed (use link_okD [OF ok] True in \<open>auto simp: onChannelClosed_def closeQuietly_def split: if_splits\<close>)
  then show ?thesis using True by simp
next
  case False
  then have same: "(if c \<in> cs_listening s then onChannelClosed c s else s) = s" by (simp add: onChannelClosed_def)
  have "link_ok (s, lose_channel (answered_late c s) c b)"
  proof (rule link_okI)
    show "opening_ok (s, lose_channel (answered_late c s) c b)"
    proof (rule opening_okI)
      fix d stage k assume o': "cs_opening s = Some (d, stage, k)"
      from opening_okD [OF link_okD(3) [OF ok] this] o'
      show "d < cs_next s \<and> d \<notin> cs_listening s \<and> cs_state s \<noteq> Connected \<and> (k = Boot \<longrightarrow> cs_state s = Idle \<or> cs_reconnectTimer s \<noteq> None) \<and>
         (stage = Connecting \<longrightarrow> d \<notin> br_connections (lose_channel (answered_late c s) c b)) \<and>
         (stage = Consuming \<and> d \<in> br_connections (lose_channel (answered_late c s) c b) \<longrightarrow> cs_connection s = Some d \<and> cs_channel s = Some d) \<and>
         (stage = Consumed \<and> \<not> br_raced (lose_channel (answered_late c s) c b) \<longrightarrow> cs_connection s = Some d \<and> cs_channel s = Some d \<and>
           d \<in> br_connections (lose_channel (answered_late c s) c b) \<and> d \<in> br_channels (lose_channel (answered_late c s) c b))"
        by (auto simp: answered_late_iff)
    qed
    show "cs_state s = Connected \<Longrightarrow> \<not> br_raced (lose_channel (answered_late c s) c b) \<Longrightarrow> consuming (s, lose_channel (answered_late c s) c b)"
      using link_okD(7) [OF ok] False by (auto simp: consuming_def split: option.splits)
    show "cs_state s = Disconnected \<Longrightarrow> recovering (s, lose_channel (answered_late c s) c b)"
      using link_okD(8) [OF ok] by (simp add: recovering_def split: option.splits)
  qed (use link_okD [OF ok] in auto)
  then show ?thesis using same by simp
qed

lemma link_ok_connection_lost:
  assumes ok: "link_ok (s, b)"
  shows "link_ok (onConnectionClosed M c s, (lose_channel (answered_late c s) c b)\<lparr>br_connections := br_connections b - {c}\<rparr>)"
    (is "link_ok (?s, ?b)")
proof (cases "cs_connection s = Some c")
  case True
  have s: "cs_connection ?s = None" "cs_channel ?s = None" "cs_state ?s = Disconnected" "cs_reconnectTimer ?s \<noteq> None" "cs_opening ?s = cs_opening s"
    "cs_next ?s = cs_next s" "cs_listening ?s = cs_listening s" "cs_stopping ?s = cs_stopping s"
    using True link_okD(2) [OF ok] by (auto simp: onConnectionClosed_def scheduleReconnect_def Let_def)
  show ?thesis
  proof (rule link_okI)
    show "opening_ok (?s, ?b)"
    proof (rule opening_okI)
      fix d stage k assume "cs_opening ?s = Some (d, stage, k)"
      then have o': "cs_opening s = Some (d, stage, k)" by (simp add: s)
      note d = opening_okD [OF link_okD(3) [OF ok] o']
      show "d < cs_next ?s \<and> d \<notin> cs_listening ?s \<and> cs_state ?s \<noteq> Connected \<and> (k = Boot \<longrightarrow> cs_state ?s = Idle \<or> cs_reconnectTimer ?s \<noteq> None) \<and>
         (stage = Connecting \<longrightarrow> d \<notin> br_connections ?b) \<and>
         (stage = Consuming \<and> d \<in> br_connections ?b \<longrightarrow> cs_connection ?s = Some d \<and> cs_channel ?s = Some d) \<and>
         (stage = Consumed \<and> \<not> br_raced ?b \<longrightarrow> cs_connection ?s = Some d \<and> cs_channel ?s = Some d \<and> d \<in> br_connections ?b \<and> d \<in> br_channels ?b)"
        using d o' True s by (cases stage) (auto simp: answered_late_iff)
    qed
  qed (use link_okD(1,4) [OF ok] s in \<open>auto simp: recovering_def\<close>)
next
  case False
  then have same: "?s = s" by (simp add: onConnectionClosed_def)
  have "link_ok (s, ?b)"
  proof (rule link_okI)
    show "opening_ok (s, ?b)"
    proof (rule opening_okI)
      fix d stage k assume o': "cs_opening s = Some (d, stage, k)"
      from opening_okD [OF link_okD(3) [OF ok] this] o' False
      show "d < cs_next s \<and> d \<notin> cs_listening s \<and> cs_state s \<noteq> Connected \<and> (k = Boot \<longrightarrow> cs_state s = Idle \<or> cs_reconnectTimer s \<noteq> None) \<and>
         (stage = Connecting \<longrightarrow> d \<notin> br_connections ?b) \<and>
         (stage = Consuming \<and> d \<in> br_connections ?b \<longrightarrow> cs_connection s = Some d \<and> cs_channel s = Some d) \<and>
         (stage = Consumed \<and> \<not> br_raced ?b \<longrightarrow> cs_connection s = Some d \<and> cs_channel s = Some d \<and> d \<in> br_connections ?b \<and> d \<in> br_channels ?b)"
        by (cases stage) (auto simp: answered_late_iff)
    qed
    show "cs_state s = Connected \<Longrightarrow> \<not> br_raced ?b \<Longrightarrow> consuming (s, ?b)"
      using link_okD(7) [OF ok] False by (auto simp: consuming_def split: option.splits)
    show "cs_state s = Disconnected \<Longrightarrow> recovering (s, ?b)"
      using link_okD(8) [OF ok] False by (auto simp: recovering_def split: option.splits)
    show "d \<in> br_connections ?b \<or> (\<exists>k. cs_opening s = Some (d, Consuming, k))" if "cs_connection s = Some d" for d
      using link_okD(6) [OF ok that] that False by auto
  qed (use link_okD(1,2,4,5) [OF ok] in auto)
  then show ?thesis using same by simp
qed

lemma link_ok_step:
  assumes "cstep M (s, b) (s', b')" "br_stops b = 0 \<longrightarrow> link_ok (s, b)" "br_stops b' = 0"
  shows "link_ok (s', b')"
proof -
  have stops: "br_stops (settle tag c x b) = br_stops b" for tag c x and b :: broker
    by (simp add: settle_def Let_def split: option.split ConsumeOutcome.split)
  have ok: "link_ok (s, b)"
    using assms by (cases rule: cstep.cases) (auto simp: lose_channel_def process_handled_def process_slept_def stops Let_def split: if_splits)
  from assms(1) show ?thesis
  proof (cases rule: cstep.cases)
    case start
    then show ?thesis using ok by (auto simp: link_defs consumer_defs split: if_splits option.splits)
  next
    case (connect_ok c k)
    then show ?thesis using ok by (auto simp: link_defs split: option.splits)
  next
    case (declared c k)
    then show ?thesis using ok by (auto simp: link_defs consumer_defs split: option.splits)
  next
    case (consume_ok c k)
    then show ?thesis using ok by (auto simp: link_defs split: option.splits)
  next
    case (consumed c k)
    then show ?thesis using ok by (auto simp: link_defs consumer_defs split: option.splits)
  next
    case (open_fails c stage k)
    then show ?thesis using ok by (cases k) (auto simp: link_defs consumer_defs split: option.splits)
  next
    case (channel_lost c)
    then show ?thesis using link_ok_channel_lost [OF ok] by simp
  next
    case (connection_lost c)
    then show ?thesis using link_ok_connection_lost [OF ok] by simp
  next
    case timer
    then show ?thesis using ok by (auto simp: link_defs consumer_defs split: option.splits)
  next
    case (deliver c m ms tag)
    then show ?thesis using ok by (simp add: link_ok_deliveries)
  next
    case (cancelled c)
    then show ?thesis using ok by (auto simp: link_defs consumer_defs split: option.splits)
  next
    case (handled tag c outcome)
    then show ?thesis using ok by (auto simp: process_handled_def Let_def link_ok_deliveries split: if_splits)
  next
    case (slept tag c)
    then show ?thesis using ok by (auto simp: process_slept_def link_ok_deliveries split: if_splits)
  next
    case stop
    then show ?thesis using assms(3) by simp
  next
    case (cancel_done connection)
    then show ?thesis using ok by (simp add: link_ok_def)
  next
    case (drain_timeout connection)
    then show ?thesis using ok by (simp add: link_ok_def)
  next
    case (drained connection)
    then show ?thesis using ok by (simp add: link_ok_def)
  qed
qed

lemma reach_link_ok: "creach M Q l \<Longrightarrow> br_stops (snd l) = 0 \<longrightarrow> link_ok l"
proof (induction rule: creach.induct)
  case initial
  show ?case by (simp add: initial_line_def link_defs)
next
  case (further l l')
  then show ?case using link_ok_step [of M "fst l" "snd l" "fst l'" "snd l'"] by simp
qed

text \<open>
  Property C38. A lost broker is always found again: as long as nobody calls \<^verbatim>\<open>stop()\<close>, a consumer that has noticed a loss has a
  reconnect scheduled, an \<^verbatim>\<open>open()\<close> under way, or a connection about to report its end; and one that says it is connected
  holds an open channel of an open connection and will notice when it goes, unless a connection was lost in the moment
  between the broker's answer to \<^verbatim>\<open>consume\<close> and the code awaiting it.
\<close>

theorem loss_is_repaired:
  assumes "creach M Q (s, b)" "br_stops b = 0"
  shows "(cs_state s = Disconnected \<longrightarrow> recovering (s, b)) \<and> (cs_state s = Connected \<and> \<not> br_raced b \<longrightarrow> consuming (s, b)) \<and> cs_state s \<noteq> Stopped"
  using reach_link_ok [OF assms(1)] assms(2) link_okD(2,7,8) by auto

section \<open>A run\<close>

text \<open>Connected, with one message delivered: where the examples start.\<close>

definition running :: line where
  "running =
     (\<lparr>cs_state = Connected, cs_connection = Some 0, cs_channel = Some 0, cs_consumerTag = True, cs_inFlight = 1, cs_attempts = 0,
       cs_reconnectTimer = None, cs_onDrained = False, cs_opening = None, cs_stopping = None, cs_tasks = [(0, 0, Handling)],
       cs_listening = {0}, cs_closing = {}, cs_next = 1\<rparr>,
      \<lparr>br_connections = {0}, br_channels = {0}, br_queue = [], br_unacked = [(0, 0, ''m'')], br_acked = [], br_dead = [],
       br_deliveries = [(0, 0, ''m'')], br_verdicts = [], br_stops = 0, br_raced = False\<rparr>)"

lemma reach_then: "creach M Q (s, b) \<Longrightarrow> cstep M (s, b) (s', b') \<Longrightarrow> creach M Q (s', b')"
  by (rule creach.further)

text \<open>The broker has answered \<^verbatim>\<open>consume\<close> on the first connection; the message came with the answer.\<close>

definition just_answered :: "bool \<Rightarrow> line" where
  "just_answered delivered =
     (\<lparr>cs_state = Idle, cs_connection = Some 0, cs_channel = Some 0, cs_consumerTag = False, cs_inFlight = (if delivered then 1 else 0),
       cs_attempts = 0, cs_reconnectTimer = None, cs_onDrained = False, cs_opening = Some (0, Consumed, Boot), cs_stopping = None,
       cs_tasks = (if delivered then [(0, 0, Handling)] else []), cs_listening = {}, cs_closing = {}, cs_next = 1\<rparr>,
      \<lparr>br_connections = {0}, br_channels = {0}, br_queue = (if delivered then [] else [''m'']),
       br_unacked = (if delivered then [(0, 0, ''m'')] else []), br_acked = [], br_dead = [],
       br_deliveries = (if delivered then [(0, 0, ''m'')] else []), br_verdicts = [], br_stops = 0, br_raced = False\<rparr>)"

lemma reach_just_answered: "creach M [''m''] (just_answered delivered)"
proof -
  let ?s0 = "fst (initial_line [''m''])" and ?b0 = "snd (initial_line [''m''])"
  have "creach M [''m''] (?s0, ?b0)" using creach.initial by simp
  then have "creach M [''m''] (begin_open Boot ?s0, ?b0)"
    by (rule reach_then) (rule cstep.start, simp_all add: initial_line_def consumer_start_def)
  then have "creach M [''m''] ((begin_open Boot ?s0)\<lparr>cs_opening := Some (0, Declaring, Boot)\<rparr>, ?b0\<lparr>br_connections := {0}, br_channels := {0}\<rparr>)"
    (is "creach _ _ (?s1, ?b1)")
    by (rule reach_then) (use cstep.connect_ok [of "begin_open Boot ?s0" 0 Boot M ?b0] in \<open>simp add: begin_open_def initial_line_def\<close>)
  then have "creach M [''m''] (open_declared 0 Boot ?s1, ?b1)"
    by (rule reach_then) (rule cstep.declared, simp)
  then have "creach M [''m''] ((open_declared 0 Boot ?s1)\<lparr>cs_opening := Some (0, Consumed, Boot)\<rparr>, ?b1)"
    by (rule reach_then) (rule cstep.consume_ok, simp_all add: open_declared_def begin_open_def initial_line_def)
  then have no: "creach M [''m''] (just_answered False)" by (simp add: just_answered_def open_declared_def begin_open_def initial_line_def)
  then have "creach M [''m''] (just_answered True)"
    by (rule creach.further) (use cstep.deliver [of 0 "snd (just_answered False)" "''m''" "[]" 0 M "fst (just_answered False)"] in
      \<open>simp add: just_answered_def onDelivery_def\<close>)
  with no show ?thesis by (cases delivered) simp_all
qed

lemma reach_running: "creach M [''m''] running"
  by (rule creach.further [OF reach_just_answered [of M True]])
    (use cstep.consumed [of "fst (just_answered True)" 0 Boot M "snd (just_answered True)"] in \<open>simp add: just_answered_def running_def open_consumed_def\<close>)

text \<open>The handler acks, and the message is gone on its word.\<close>

theorem deliveries_settled_soundly_witness:
  "\<exists>s b. creach 30000 [''m''] (s, b) \<and> br_acked b = [''m''] \<and> br_queue b = [] \<and> list_all (decided b Ack) (br_acked b)"
proof -
  let ?l = "process_handled 0 0 (Some Ack) (fst running, (snd running)\<lparr>br_verdicts := [(0, Some Ack)]\<rparr>)"
  have "creach 30000 [''m''] ?l"
    by (rule creach.further [OF reach_running])
      (use cstep.handled [of 0 "fst running" 0 30000 "snd running" "Some Ack"] in \<open>simp add: running_def\<close>)
  then have run: "creach 30000 [''m''] (fst ?l, snd ?l)" by simp
  have "br_acked (snd ?l) = [''m'']" "br_queue (snd ?l) = []"
    by (simp_all add: running_def process_handled_def Let_def settle_def)
  then show ?thesis using deliveries_settled_soundly [OF run] run by blast
qed

text \<open>The channel of a running consumer goes: the connection is asked to close, and its end will be the signal.\<close>

theorem loss_is_repaired_witness:
  "\<exists>s b. creach 30000 [''m''] (s, b) \<and> cs_state s = Disconnected \<and> recovering (s, b)"
proof -
  let ?s = "onChannelClosed 0 (fst running)" and ?b = "lose_channel False 0 (snd running)"
  have run: "creach 30000 [''m''] (?s, ?b)"
    by (rule creach.further [OF reach_running])
      (use cstep.channel_lost [of 0 "snd running" 30000 "fst running"] in \<open>simp add: running_def answered_late_def\<close>)
  have "cs_state ?s = Disconnected" "br_stops ?b = 0" by (simp_all add: running_def onChannelClosed_def closeQuietly_def lose_channel_def)
  then show ?thesis using loss_is_repaired [OF run] run by blast
qed

section \<open>Stopping, and the window in \<^verbatim>\<open>open()\<close>\<close>

lemmas stop_defs = consumer_defs consumer_stop_def waitForDrain_def drain_timed_out_def stop_drained_def

text \<open>
  A stop outside the window lasts: with no \<^verbatim>\<open>open()\<close> past its check of the state, nothing connects, consumes or schedules
  again, whatever happens.
\<close>

definition quiet_stop :: "consumer \<Rightarrow> bool" where
  "quiet_stop s \<longleftrightarrow> cs_state s = Stopped \<and> cs_reconnectTimer s = None \<and>
     (case cs_opening s of None \<Rightarrow> True | Some (_, stage, _) \<Rightarrow> stage = Connecting \<or> stage = Declaring)"

lemma stop_quiets: "\<forall>c k. cs_opening s \<noteq> Some (c, Consuming, k) \<and> cs_opening s \<noteq> Some (c, Consumed, k) \<Longrightarrow> cs_state s \<noteq> Stopped \<Longrightarrow> quiet_stop (consumer_stop s)"
  unfolding quiet_stop_def consumer_stop_def by (auto split: option.split) (metis open_stage.exhaust)+

lemma stop_is_final: "cstep M (s, b) (s', b') \<Longrightarrow> quiet_stop s \<Longrightarrow> quiet_stop s'"
  by (induction "(s, b)" "(s', b')" rule: cstep.induct)
    (auto simp: quiet_stop_def stop_defs process_handled_def process_slept_def finish_task_def onDelivery_def split: if_splits option.splits opener.splits)

text \<open>
  Inside it a stop is undone: \<^verbatim>\<open>open()\<close> sets the state back to connected, and a connection lost while the stop still waits
  for the running handler leads to a new connection after \<^verbatim>\<open>stop()\<close> has returned.
\<close>

lemma stop_undone:
  "\<exists>s b. creach 30000 [''m''] (s, b) \<and> br_stops b = 1 \<and> cs_stopping s = None \<and> cs_opening s = Some (1, Connecting, Reconnect)"
proof -
  let ?s = "fst (just_answered True)" and ?b = "snd (just_answered True)"
  let ?s1 = "consumer_stop ?s" and ?b1 = "?b\<lparr>br_stops := 1\<rparr>"
  have "creach 30000 [''m''] (?s1, ?b1)"
    by (rule creach.further [OF reach_just_answered [of 30000 True]])
      (use cstep.stop [of ?s 30000 ?b] in \<open>simp add: just_answered_def\<close>)
  then have "creach 30000 [''m''] (open_consumed 0 ?s1, ?b1)" (is "creach _ _ (?s2, _)")
    by (rule reach_then) (rule cstep.consumed [where k = Boot], simp add: just_answered_def consumer_stop_def)
  then have "creach 30000 [''m''] (onConnectionClosed 30000 0 ?s2, (lose_channel (answered_late 0 ?s2) 0 ?b1)\<lparr>br_connections := br_connections ?b1 - {0}\<rparr>)"
    (is "creach _ _ (?s3, ?b3)")
    by (rule reach_then) (rule cstep.connection_lost, simp add: just_answered_def)
  then have "creach 30000 [''m''] (drain_timed_out ?s3, ?b3)" (is "creach _ _ (?s4, _)")
    by (rule reach_then) (rule cstep.drain_timeout [where connection = "Some 0"], simp_all add: just_answered_def stop_defs)
  then have "creach 30000 [''m''] (stop_drained (Some 0) ?s4, ?b3)" (is "creach _ _ (?s5, _)")
    by (rule reach_then) (rule cstep.drained, simp_all add: just_answered_def stop_defs)
  then have "creach 30000 [''m''] (reconnect ?s5, ?b3)"
    by (rule reach_then) (rule cstep.timer, simp_all add: just_answered_def stop_defs)
  moreover have "br_stops ?b3 = 1" by (simp add: lose_channel_def)
  moreover have "cs_stopping (reconnect ?s5) = None" "cs_opening (reconnect ?s5) = Some (1, Connecting, Reconnect)"
    by (simp_all add: just_answered_def stop_defs)
  ultimately show ?thesis by blast
qed

text \<open>
  A connection lost inside the window is never found again: the consumer says it is connected with neither channel nor
  connection, the timer finds nothing to do, and no event short of \<^verbatim>\<open>stop()\<close> changes that.
\<close>

definition dead_end :: "consumer \<Rightarrow> bool" where
  "dead_end s \<longleftrightarrow> cs_state s = Connected \<and> cs_connection s = None \<and> cs_channel s = None \<and> cs_reconnectTimer s = None \<and>
     cs_opening s = None \<and> cs_stopping s = None"

lemma dead_end_stays:
  "cstep M (s, b) (s', b') \<Longrightarrow> dead_end s \<Longrightarrow> br_stops b' = br_stops b \<Longrightarrow> dead_end s'"
  by (induction "(s, b)" "(s', b')" rule: cstep.induct)
    (auto simp: dead_end_def stop_defs process_handled_def process_slept_def finish_task_def onDelivery_def split: if_splits)

lemma stuck_after_race: "\<exists>s b. creach 30000 [''m''] (s, b) \<and> dead_end s \<and> br_queue b = [''m''] \<and> br_stops b = 0"
proof -
  let ?s = "fst (just_answered False)" and ?b = "snd (just_answered False)"
  have "creach 30000 [''m''] (onConnectionClosed 30000 0 ?s, (lose_channel (answered_late 0 ?s) 0 ?b)\<lparr>br_connections := br_connections ?b - {0}\<rparr>)"
    (is "creach _ _ (?s1, ?b1)")
    by (rule creach.further [OF reach_just_answered [of 30000 False]])
      (use cstep.connection_lost [of 0 ?b 30000 ?s] in \<open>simp add: just_answered_def\<close>)
  then have "creach 30000 [''m''] (open_consumed 0 ?s1, ?b1)" (is "creach _ _ (?s2, _)")
    by (rule reach_then) (rule cstep.consumed [where k = Boot], simp add: just_answered_def stop_defs)
  then have "creach 30000 [''m''] (reconnect ?s2, ?b1)"
    by (rule reach_then) (rule cstep.timer, simp_all add: just_answered_def stop_defs)
  moreover have "dead_end (reconnect ?s2)" by (simp add: dead_end_def just_answered_def stop_defs)
  moreover have "br_queue ?b1 = [''m'']" "br_stops ?b1 = 0" by (simp_all add: just_answered_def lose_channel_def)
  ultimately show ?thesis by blast
qed

end
