(* ===== verification/BrokerTopology.thy ===== *)
theory BrokerTopology
  imports Prelude
begin

text \<open>
  What must exist on the broker (\<^verbatim>\<open>messaging.types.ts\<close> of the cart, \<^verbatim>\<open>messaging/types.ts\<close> of inventory), the order in which
  it is declared (\<^verbatim>\<open>declare\<close> of both clients), and the stock topology as each service writes it down
  (\<^verbatim>\<open>inventory.messages.ts\<close>, \<^verbatim>\<open>inventory-events.ts\<close>). The broker refuses a name that exists with other options.
\<close>

datatype ExchangeType = TopicExchange | DirectExchange | FanoutExchange | HeadersExchange

type_synonym amqp_options = "(string \<times> string) list"

record ExchangeSpec =
  ex_name :: string
  ex_type :: ExchangeType
  ex_options :: amqp_options

record QueueSpec =
  qu_name :: string
  qu_options :: amqp_options

record BindingSpec =
  bi_queue :: string
  bi_exchange :: string
  bi_pattern :: string

record MessagingTopology =
  tp_exchanges :: "ExchangeSpec list"
  tp_queues :: "QueueSpec list"
  tp_bindings :: "BindingSpec list"

text \<open>One call to the broker.\<close>

datatype broker_declaration = AssertExchange string ExchangeType amqp_options | AssertQueue string amqp_options | BindQueue string string string

text \<open>\<^verbatim>\<open>{ durable: true, ...options }\<close>\<close>

definition with_durable :: "amqp_options \<Rightarrow> amqp_options" where
  "with_durable opts = (if ''durable'' \<in> set (map fst opts) then opts else (''durable'', ''true'') # opts)"

definition declarations :: "MessagingTopology \<Rightarrow> broker_declaration list" where
  "declarations t =
     map (\<lambda>e. AssertExchange (ex_name e) (ex_type e) (with_durable (ex_options e))) (tp_exchanges t) @
     map (\<lambda>q. AssertQueue (qu_name q) (with_durable (qu_options q))) (tp_queues t) @
     map (\<lambda>b. BindQueue (bi_queue b) (bi_exchange b) (bi_pattern b)) (tp_bindings t)"

section \<open>The stock topology\<close>

text \<open>As the cart declares it.\<close>

definition cart_INVENTORY_TOPOLOGY :: MessagingTopology where
  "cart_INVENTORY_TOPOLOGY = \<lparr>
     tp_exchanges = [\<lparr>ex_name = ''inventory'', ex_type = TopicExchange, ex_options = [(''durable'', ''true'')]\<rparr>,
       \<lparr>ex_name = ''inventory.dlx'', ex_type = FanoutExchange, ex_options = [(''durable'', ''true'')]\<rparr>],
     tp_queues = [\<lparr>qu_name = ''inventory.stock'', qu_options = [(''durable'', ''true''), (''deadLetterExchange'', ''inventory.dlx'')]\<rparr>,
       \<lparr>qu_name = ''inventory.stock.dead'', qu_options = [(''durable'', ''true'')]\<rparr>],
     tp_bindings = [\<lparr>bi_queue = ''inventory.stock'', bi_exchange = ''inventory'', bi_pattern = ''inventory.stock.*''\<rparr>,
       \<lparr>bi_queue = ''inventory.stock.dead'', bi_exchange = ''inventory.dlx'', bi_pattern = ''''\<rparr>]\<rparr>"

text \<open>As inventory declares it.\<close>

definition INVENTORY_EXCHANGE :: string where "INVENTORY_EXCHANGE = ''inventory''"

definition INVENTORY_DEAD_LETTER_EXCHANGE :: string where "INVENTORY_DEAD_LETTER_EXCHANGE = ''inventory.dlx''"

definition INVENTORY_STOCK_QUEUE :: string where "INVENTORY_STOCK_QUEUE = ''inventory.stock''"

definition INVENTORY_STOCK_DEAD_QUEUE :: string where "INVENTORY_STOCK_DEAD_QUEUE = ''inventory.stock.dead''"

definition INVENTORY_STOCK_PATTERN :: string where "INVENTORY_STOCK_PATTERN = ''inventory.stock.*''"

definition INVENTORY_TOPOLOGY :: MessagingTopology where
  "INVENTORY_TOPOLOGY = \<lparr>
     tp_exchanges = [\<lparr>ex_name = INVENTORY_EXCHANGE, ex_type = TopicExchange, ex_options = [(''durable'', ''true'')]\<rparr>,
       \<lparr>ex_name = INVENTORY_DEAD_LETTER_EXCHANGE, ex_type = FanoutExchange, ex_options = [(''durable'', ''true'')]\<rparr>],
     tp_queues = [\<lparr>qu_name = INVENTORY_STOCK_QUEUE, qu_options = [(''durable'', ''true''), (''deadLetterExchange'', INVENTORY_DEAD_LETTER_EXCHANGE)]\<rparr>,
       \<lparr>qu_name = INVENTORY_STOCK_DEAD_QUEUE, qu_options = [(''durable'', ''true'')]\<rparr>],
     tp_bindings = [\<lparr>bi_queue = INVENTORY_STOCK_QUEUE, bi_exchange = INVENTORY_EXCHANGE, bi_pattern = INVENTORY_STOCK_PATTERN\<rparr>,
       \<lparr>bi_queue = INVENTORY_STOCK_DEAD_QUEUE, bi_exchange = INVENTORY_DEAD_LETTER_EXCHANGE, bi_pattern = ''''\<rparr>]\<rparr>"

text \<open>
  Both services make the same declarations, so the broker refuses neither what the other has declared.
\<close>

lemmas stock_names = INVENTORY_EXCHANGE_def INVENTORY_DEAD_LETTER_EXCHANGE_def INVENTORY_STOCK_QUEUE_def INVENTORY_STOCK_DEAD_QUEUE_def
  INVENTORY_STOCK_PATTERN_def

lemma topologies_identical: "declarations cart_INVENTORY_TOPOLOGY = declarations INVENTORY_TOPOLOGY"
  by (simp add: cart_INVENTORY_TOPOLOGY_def INVENTORY_TOPOLOGY_def stock_names)

end
