(* ===== verification/BrokerPublisher.thy ===== *)
theory BrokerPublisher
  imports BrokerTopology
begin

text \<open>
  The cart's connection to the broker (\<^verbatim>\<open>services/cart/src/messaging/rabbitmq.client.ts\<close>): connecting, declaring topology,
  publishing with confirms, waiting for a reconnect, shutting down. As in the consumer of inventory, each function is
  what runs without interruption and \<open>pstep\<close> lets them happen in every order the event loop allows; a connection and its
  one channel have the same number. The clock is part of the broker's side; it stands still while a continuation of a
  publish is ready or one of its timers is due, which is to say that timers are punctual. A broker that restarts may
  have forgotten what was declared. Logging is not represented.
\<close>

section \<open>State\<close>

datatype ClientState = ClDisabled | ClDisconnected | ClConnected | ClClosed

text \<open>One call of \<^verbatim>\<open>publish\<close>: its number, message, start and deadline.\<close>

record publish_call =
  ca_id :: nat
  ca_message :: string
  ca_since :: int
  ca_deadline :: int

text \<open>How a call ended; \<open>ChannelClosed\<close> is the library's own error for a publish on a closed channel.\<close>

datatype publish_outcome = Resolved | Unavailable string | ChannelClosed

text \<open>
  Where \<^verbatim>\<open>open()\<close> is: awaiting the connection, the channel, or a declaration (of a list of those still to make, the
  next topology's number before it); or answered, and about to go on.
\<close>

datatype pub_stage = PubConnecting | PubCreating | PubDeclaring nat "broker_declaration list" | PubAnswered nat "broker_declaration list"

datatype pub_opener = AtBoot | AtReconnect

text \<open>
  A waiter that was resolved, or a call whose channel is found, goes on in a continuation (\<open>pc_woken\<close>, the second with the
  channel). \<open>pc_outstanding\<close> are the calls awaiting a confirm, with the channel and the time their timer is set for;
  \<open>pc_registering\<close> the running calls of \<^verbatim>\<open>registerTopology\<close>. \<open>pc_asked\<close> and \<open>pc_settled\<close> are history.
\<close>

record publisher =
  pc_state :: ClientState
  pc_topologies :: "MessagingTopology list"
  pc_waiters :: "publish_call list"
  pc_connection :: "nat option"
  pc_channel :: "nat option"
  pc_attempts :: nat
  pc_reconnectTimer :: "nat option"
  pc_opening :: "(nat \<times> pub_stage \<times> pub_opener) option"
  pc_woken :: "(publish_call \<times> nat option) list"
  pc_outstanding :: "(publish_call \<times> nat \<times> int) list"
  pc_registering :: "(MessagingTopology \<times> nat \<times> broker_declaration list) list"
  pc_listening :: "nat set"
  pc_closing :: "nat set"
  pc_next :: nat
  pc_asked :: "string list"
  pc_settled :: "(nat \<times> publish_outcome) list"

text \<open>
  The broker: open connections and channels, what is declared, messages on the wire, messages it has taken, and confirms it has
  not delivered. \<open>bk_raced\<close>: a connection or channel was lost between an answer \<^verbatim>\<open>open()\<close> awaited and its continuation.
\<close>

record pub_broker =
  bk_now :: int
  bk_connections :: "nat set"
  bk_channels :: "nat set"
  bk_declared :: "broker_declaration set"
  bk_sent :: "(nat \<times> nat \<times> string) list"
  bk_stored :: "(nat \<times> string) list"
  bk_unconfirmed :: "(nat \<times> nat) list"
  bk_raced :: bool

type_synonym pub_line = "publisher \<times> pub_broker"

text \<open>\<^verbatim>\<open>RABBITMQ_URL\<close> is set or not.\<close>

definition initial_publisher :: "string option \<Rightarrow> publisher" where
  "initial_publisher url =
     \<lparr>pc_state = (if url = None then ClDisabled else ClDisconnected), pc_topologies = [], pc_waiters = [], pc_connection = None,
      pc_channel = None, pc_attempts = 0, pc_reconnectTimer = None, pc_opening = None, pc_woken = [], pc_outstanding = [],
      pc_registering = [], pc_listening = {}, pc_closing = {}, pc_next = 0, pc_asked = [], pc_settled = []\<rparr>"

definition initial_pub_broker :: pub_broker where
  "initial_pub_broker = \<lparr>bk_now = 0, bk_connections = {}, bk_channels = {}, bk_declared = {}, bk_sent = [], bk_stored = [],
     bk_unconfirmed = [], bk_raced = False\<rparr>"

definition pub_enabled :: "publisher \<Rightarrow> bool" where
  "pub_enabled s \<longleftrightarrow> pc_state s \<noteq> ClDisabled"

definition pub_connected :: "publisher \<Rightarrow> bool" where
  "pub_connected s \<longleftrightarrow> pc_state s = ClConnected \<and> pc_channel s \<noteq> None"

section \<open>Connecting\<close>

definition pub_closeQuietly :: "nat \<Rightarrow> publisher \<Rightarrow> publisher" where
  "pub_closeQuietly c s = s\<lparr>pc_closing := insert c (pc_closing s)\<rparr>"

definition pub_begin_open :: "pub_opener \<Rightarrow> publisher \<Rightarrow> publisher" where
  "pub_begin_open k s = s\<lparr>pc_opening := Some (pc_next s, PubConnecting, k), pc_next := pc_next s + 1\<rparr>"

text \<open>\<open>None\<close>: it throws.\<close>

definition pub_connect :: "publisher \<Rightarrow> publisher option" where
  "pub_connect s =
     (if pc_state s = ClDisabled then Some s
      else if pc_state s = ClClosed then None
      else Some (pub_begin_open AtBoot s))"

definition reconnectDelay :: "nat \<Rightarrow> nat \<Rightarrow> nat" where
  "reconnectDelay maxRetryDelayMs n = min (n * 500) maxRetryDelayMs"

definition pub_scheduleReconnect :: "nat \<Rightarrow> publisher \<Rightarrow> publisher" where
  "pub_scheduleReconnect M s =
     (if pc_reconnectTimer s \<noteq> None \<or> pc_state s \<noteq> ClDisconnected then s
      else let n = pc_attempts s + 1 in s\<lparr>pc_attempts := n, pc_reconnectTimer := Some (reconnectDelay M n)\<rparr>)"

text \<open>The timer's callback.\<close>

definition pub_reconnect :: "publisher \<Rightarrow> publisher" where
  "pub_reconnect s =
     (let s = s\<lparr>pc_reconnectTimer := None\<rparr> in if pc_state s \<noteq> ClDisconnected then s else pub_begin_open AtReconnect s)"

text \<open>
  The two loops of \<^verbatim>\<open>open()\<close> and \<^verbatim>\<open>declare\<close> as one: what is still to declare of the current topology, or the first topology from
  number \<open>n\<close> on that declares anything. The list is read when the loop gets there, so a topology registered meanwhile is included.
\<close>

fun next_declarations :: "nat \<Rightarrow> broker_declaration list \<Rightarrow> MessagingTopology list \<Rightarrow> (nat \<times> broker_declaration list) option" where
  "next_declarations n (d # ds) ts = Some (n, d # ds)"
| "next_declarations n [] [] = None"
| "next_declarations n [] (t # ts) = (case declarations t of [] \<Rightarrow> next_declarations (n + 1) [] ts | ds \<Rightarrow> Some (n + 1, ds))"

text \<open>The end of \<^verbatim>\<open>open()\<close>: shutting down wins, otherwise the connection is adopted and everybody who waits goes on.\<close>

definition open_adopt :: "nat \<Rightarrow> publisher \<Rightarrow> publisher" where
  "open_adopt c s =
     (if pc_state s = ClClosed then pub_closeQuietly c (s\<lparr>pc_opening := None\<rparr>)
      else s\<lparr>pc_listening := insert c (pc_listening s), pc_connection := Some c, pc_channel := Some c, pc_state := ClConnected,
             pc_attempts := 0, pc_opening := None, pc_waiters := [], pc_woken := pc_woken s @ map (\<lambda>w. (w, None)) (pc_waiters s)\<rparr>)"

definition open_continue :: "nat \<Rightarrow> pub_opener \<Rightarrow> nat \<Rightarrow> broker_declaration list \<Rightarrow> publisher \<Rightarrow> publisher" where
  "open_continue c k n ds s =
     (case next_declarations n ds (drop n (pc_topologies s)) of
        Some (n', ds') \<Rightarrow> s\<lparr>pc_opening := Some (c, PubDeclaring n' ds', k)\<rparr>
      | None \<Rightarrow> open_adopt c s)"

definition pub_open_failed :: "nat \<Rightarrow> nat \<Rightarrow> pub_stage \<Rightarrow> pub_opener \<Rightarrow> publisher \<Rightarrow> publisher" where
  "pub_open_failed M c stage k s =
     (let s = s\<lparr>pc_opening := None\<rparr>;
          s = (if stage = PubConnecting then s else pub_closeQuietly c s)
      in case k of AtBoot \<Rightarrow> s | AtReconnect \<Rightarrow> pub_scheduleReconnect M s)"

definition pub_onChannelClosed :: "nat \<Rightarrow> publisher \<Rightarrow> publisher" where
  "pub_onChannelClosed c s =
     (if pc_channel s \<noteq> Some c then s
      else pub_closeQuietly c (s\<lparr>pc_channel := None, pc_state := (if pc_state s = ClConnected then ClDisconnected else pc_state s)\<rparr>))"

definition pub_onConnectionClosed :: "nat \<Rightarrow> nat \<Rightarrow> publisher \<Rightarrow> publisher" where
  "pub_onConnectionClosed M c s =
     (if pc_connection s \<noteq> Some c then s
      else let s = s\<lparr>pc_connection := None, pc_channel := None\<rparr>
           in if pc_state s = ClClosed then s else pub_scheduleReconnect M (s\<lparr>pc_state := ClDisconnected\<rparr>))"

section \<open>Declaring\<close>

definition registerTopology :: "MessagingTopology \<Rightarrow> pub_line \<Rightarrow> publisher" where
  "registerTopology t = (\<lambda>(s, b).
     let s = s\<lparr>pc_topologies := pc_topologies s @ [t]\<rparr>
     in case pc_channel s of
          None \<Rightarrow> s
        | Some c \<Rightarrow> (if declarations t = [] \<or> c \<notin> bk_channels b then s
                     else s\<lparr>pc_registering := pc_registering s @ [(t, c, declarations t)]\<rparr>))"

definition register_answered :: "MessagingTopology \<Rightarrow> nat \<Rightarrow> broker_declaration list \<Rightarrow> publisher \<Rightarrow> publisher" where
  "register_answered t c ds s =
     s\<lparr>pc_registering := remove1 (t, c, ds) (pc_registering s) @ (if tl ds = [] then [] else [(t, c, tl ds)])\<rparr>"

definition register_failed :: "MessagingTopology \<Rightarrow> nat \<Rightarrow> broker_declaration list \<Rightarrow> publisher \<Rightarrow> publisher" where
  "register_failed t c ds s = s\<lparr>pc_registering := remove1 (t, c, ds) (pc_registering s)\<rparr>"

section \<open>Publishing\<close>

definition settle_calls :: "publish_outcome \<Rightarrow> publish_call list \<Rightarrow> publisher \<Rightarrow> publisher" where
  "settle_calls outcome calls s = s\<lparr>pc_settled := pc_settled s @ map (\<lambda>w. (ca_id w, outcome)) calls\<rparr>"

text \<open>\<^verbatim>\<open>publish\<close> up to its first \<^verbatim>\<open>await\<close>, with the first half of \<^verbatim>\<open>channelBy\<close>.\<close>

definition publish_begin :: "int \<Rightarrow> int \<Rightarrow> string \<Rightarrow> publisher \<Rightarrow> publisher" where
  "publish_begin T now m s =
     (let w = \<lparr>ca_id = length (pc_asked s), ca_message = m, ca_since = now, ca_deadline = now + T\<rparr>;
          s = s\<lparr>pc_asked := pc_asked s @ [m]\<rparr>
      in if \<not> pub_enabled s then settle_calls (Unavailable ''RabbitMQ is not configured; set RABBITMQ_URL'') [w] s
         else case pc_channel s of
           Some c \<Rightarrow> s\<lparr>pc_woken := pc_woken s @ [(w, Some c)]\<rparr>
         | None \<Rightarrow> (if pc_state s = ClClosed then settle_calls (Unavailable ''RabbitMQ client is closed'') [w] s
                    else s\<lparr>pc_waiters := pc_waiters s @ [w]\<rparr>))"

text \<open>The waiter's timer.\<close>

definition waiter_timed_out :: "publish_call \<Rightarrow> publisher \<Rightarrow> publisher" where
  "waiter_timed_out w s = settle_calls (Unavailable ''RabbitMQ is unreachable'') [w] (s\<lparr>pc_waiters := remove1 w (pc_waiters s)\<rparr>)"

text \<open>\<^verbatim>\<open>channelBy\<close> after the waiter was resolved.\<close>

definition channelBy_resumed :: "publish_call \<Rightarrow> publisher \<Rightarrow> publisher" where
  "channelBy_resumed w s =
     (let s = s\<lparr>pc_woken := remove1 (w, None) (pc_woken s)\<rparr>
      in case pc_channel s of
           None \<Rightarrow> settle_calls (Unavailable ''RabbitMQ connection was lost again'') [w] s
         | Some c \<Rightarrow> s\<lparr>pc_woken := pc_woken s @ [(w, Some c)]\<rparr>)"

text \<open>\<^verbatim>\<open>publish\<close> with its channel: the timer is set and the message handed over.\<close>

definition publish_handed :: "publish_call \<Rightarrow> nat \<Rightarrow> pub_line \<Rightarrow> pub_line" where
  "publish_handed w c = (\<lambda>(s, b).
     let s = s\<lparr>pc_woken := remove1 (w, Some c) (pc_woken s)\<rparr>
     in if c \<notin> bk_channels b then (settle_calls ChannelClosed [w] s, b)
        else (s\<lparr>pc_outstanding := pc_outstanding s @ [(w, c, bk_now b + max 0 (ca_deadline w - bk_now b))]\<rparr>,
              b\<lparr>bk_sent := bk_sent b @ [(ca_id w, c, ca_message w)]\<rparr>))"

text \<open>The confirm callback; a call that timed out has no promise left to settle.\<close>

definition on_confirm :: "nat \<Rightarrow> publish_outcome \<Rightarrow> publisher \<Rightarrow> publisher" where
  "on_confirm i outcome s =
     settle_calls outcome (map fst (filter (\<lambda>(w, _). ca_id w = i) (pc_outstanding s)))
       (s\<lparr>pc_outstanding := filter (\<lambda>(w, _). ca_id w \<noteq> i) (pc_outstanding s)\<rparr>)"

definition confirm_timed_out :: "publish_call \<Rightarrow> publisher \<Rightarrow> publisher" where
  "confirm_timed_out w s = on_confirm (ca_id w) (Unavailable ''no publisher confirm'') s"

text \<open>The library fails the confirms of a channel that closes.\<close>

definition unconfirmed_fail :: "nat \<Rightarrow> publisher \<Rightarrow> publisher" where
  "unconfirmed_fail c s =
     settle_calls (Unavailable ''broker did not confirm: channel closed'') (map fst (filter (\<lambda>(_, c', _). c' = c) (pc_outstanding s)))
       (s\<lparr>pc_outstanding := filter (\<lambda>(_, c', _). c' \<noteq> c) (pc_outstanding s)\<rparr>)"

section \<open>Shutting down\<close>

definition rejectWaiters :: "string \<Rightarrow> publisher \<Rightarrow> publisher" where
  "rejectWaiters e s = settle_calls (Unavailable e) (pc_waiters s) (s\<lparr>pc_waiters := []\<rparr>)"

definition onApplicationShutdown :: "publisher \<Rightarrow> publisher" where
  "onApplicationShutdown s =
     (if pc_state s = ClDisabled then s
      else let s = rejectWaiters ''RabbitMQ client is closed'' (s\<lparr>pc_state := ClClosed, pc_reconnectTimer := None\<rparr>);
               connection = pc_connection s;
               s = s\<lparr>pc_connection := None, pc_channel := None\<rparr>
           in case connection of None \<Rightarrow> s | Some c \<Rightarrow> pub_closeQuietly c s)"

section \<open>The event loop\<close>

definition answered_to :: "nat \<Rightarrow> publisher \<Rightarrow> bool" where
  "answered_to c s \<longleftrightarrow> (case pc_opening s of Some (c', PubAnswered n ds, _) \<Rightarrow> c' = c | _ \<Rightarrow> False)"

definition pub_lose_channel :: "bool \<Rightarrow> nat \<Rightarrow> pub_broker \<Rightarrow> pub_broker" where
  "pub_lose_channel raced c b = b\<lparr>bk_channels := bk_channels b - {c}, bk_raced := (bk_raced b \<or> raced),
     bk_sent := filter (\<lambda>(_, c', _). c' \<noteq> c) (bk_sent b), bk_unconfirmed := filter (\<lambda>(_, c'). c' \<noteq> c) (bk_unconfirmed b)\<rparr>"

definition channel_gone :: "nat \<Rightarrow> publisher \<Rightarrow> publisher" where
  "channel_gone c s = (let s = unconfirmed_fail c s in if c \<in> pc_listening s then pub_onChannelClosed c s else s)"

text \<open>No continuation of a publish is ready and none of its timers is due.\<close>

definition clock_free :: "pub_line \<Rightarrow> bool" where
  "clock_free = (\<lambda>(s, b). pc_woken s = [] \<and> (\<forall>w \<in> set (pc_waiters s). bk_now b < ca_deadline w) \<and>
     (\<forall>(w, c, due) \<in> set (pc_outstanding s). bk_now b < due))"

text \<open>
  What may happen next. \<^verbatim>\<open>connect()\<close> is called once, by the module's factory. The connection's loss is announced on the channel
  first. The broker takes a message, then confirms it, or refuses it.
\<close>

inductive pstep :: "int \<Rightarrow> nat \<Rightarrow> pub_line \<Rightarrow> pub_line \<Rightarrow> bool" for T :: int and M :: nat where
  connect: "pc_next s = 0 \<Longrightarrow> pub_connect s = Some s' \<Longrightarrow> pstep T M (s, b) (s', b)"
| connected: "pc_opening s = Some (c, PubConnecting, k) \<Longrightarrow>
    pstep T M (s, b) (s\<lparr>pc_opening := Some (c, PubCreating, k)\<rparr>, b\<lparr>bk_connections := insert c (bk_connections b)\<rparr>)"
| created: "pc_opening s = Some (c, PubCreating, k) \<Longrightarrow> c \<in> bk_connections b \<Longrightarrow>
    pstep T M (s, b) (s\<lparr>pc_opening := Some (c, PubAnswered 0 [], k)\<rparr>, b\<lparr>bk_channels := insert c (bk_channels b)\<rparr>)"
| declared: "pc_opening s = Some (c, PubDeclaring n (d # ds), k) \<Longrightarrow> c \<in> bk_channels b \<Longrightarrow>
    pstep T M (s, b) (s\<lparr>pc_opening := Some (c, PubAnswered n ds, k)\<rparr>, b\<lparr>bk_declared := insert d (bk_declared b)\<rparr>)"
| continued: "pc_opening s = Some (c, PubAnswered n ds, k) \<Longrightarrow> pstep T M (s, b) (open_continue c k n ds s, b)"
| open_fails: "pc_opening s = Some (c, stage, k) \<Longrightarrow> (\<forall>n ds. stage \<noteq> PubAnswered n ds) \<Longrightarrow> pstep T M (s, b) (pub_open_failed M c stage k s, b)"
| channel_lost: "c \<in> bk_channels b \<Longrightarrow> pstep T M (s, b) (channel_gone c s, pub_lose_channel (answered_to c s) c b)"
| connection_lost: "c \<in> bk_connections b \<Longrightarrow>
    pstep T M (s, b) (pub_onConnectionClosed M c (channel_gone c s),
      (pub_lose_channel (answered_to c s) c b)\<lparr>bk_connections := bk_connections b - {c}\<rparr>)"
| reconnect_timer: "pc_reconnectTimer s \<noteq> None \<Longrightarrow> pstep T M (s, b) (pub_reconnect s, b)"
| forgotten: "bk_connections b = {} \<Longrightarrow> pstep T M (s, b) (s, b\<lparr>bk_declared := {}\<rparr>)"
| register: "pstep T M (s, b) (registerTopology t (s, b), b)"
| register_ok: "(t, c, d # ds) \<in> set (pc_registering s) \<Longrightarrow> c \<in> bk_channels b \<Longrightarrow>
    pstep T M (s, b) (register_answered t c (d # ds) s, b\<lparr>bk_declared := insert d (bk_declared b)\<rparr>)"
| register_fails: "(t, c, ds) \<in> set (pc_registering s) \<Longrightarrow> c \<notin> bk_channels b \<Longrightarrow> pstep T M (s, b) (register_failed t c ds s, b)"
| publish: "pstep T M (s, b) (publish_begin T (bk_now b) m s, b)"
| waiter_due: "w \<in> set (pc_waiters s) \<Longrightarrow> ca_deadline w \<le> bk_now b \<Longrightarrow> pstep T M (s, b) (waiter_timed_out w s, b)"
| resumed: "(w, None) \<in> set (pc_woken s) \<Longrightarrow> pstep T M (s, b) (channelBy_resumed w s, b)"
| handed: "(w, Some c) \<in> set (pc_woken s) \<Longrightarrow> pstep T M (s, b) (publish_handed w c (s, b))"
| taken: "(i, c, m) \<in> set (bk_sent b) \<Longrightarrow> c \<in> bk_channels b \<Longrightarrow>
    pstep T M (s, b) (s, b\<lparr>bk_sent := remove1 (i, c, m) (bk_sent b), bk_stored := bk_stored b @ [(i, m)], bk_unconfirmed := bk_unconfirmed b @ [(i, c)]\<rparr>)"
| confirmed: "(i, c) \<in> set (bk_unconfirmed b) \<Longrightarrow> pstep T M (s, b) (on_confirm i Resolved s, b\<lparr>bk_unconfirmed := remove1 (i, c) (bk_unconfirmed b)\<rparr>)"
| nacked: "(i, c, m) \<in> set (bk_sent b) \<Longrightarrow>
    pstep T M (s, b) (on_confirm i (Unavailable ''broker did not confirm: message nacked'') s, b\<lparr>bk_sent := remove1 (i, c, m) (bk_sent b)\<rparr>)"
| confirm_due: "(w, c, due) \<in> set (pc_outstanding s) \<Longrightarrow> due \<le> bk_now b \<Longrightarrow> pstep T M (s, b) (confirm_timed_out w s, b)"
| shutdown: "pstep T M (s, b) (onApplicationShutdown s, b)"
| tick: "clock_free (s, b) \<Longrightarrow> pstep T M (s, b) (s, b\<lparr>bk_now := bk_now b + 1\<rparr>)"

inductive preach :: "int \<Rightarrow> nat \<Rightarrow> string option \<Rightarrow> pub_line \<Rightarrow> bool" for T :: int and M :: nat and url :: "string option" where
  initial: "preach T M url (initial_publisher url, initial_pub_broker)"
| further: "preach T M url l \<Longrightarrow> pstep T M l l' \<Longrightarrow> preach T M url l'"

end
