(* ===== verification/PublisherContract.thy ===== *)
theory PublisherContract
  imports BrokerPublisher
begin

text \<open>
  What the cart's broker client promises the caller of \<^verbatim>\<open>publish\<close>: each call is settled once, in time, and resolves only on
  a confirm. The accounting is by multisets of call numbers: every operation moves calls between waiting, woken,
  outstanding and settled, and loses none.
\<close>

section \<open>Every call is settled once, in time, and on a confirm\<close>

text \<open>The calls that have not been handed over, and those not settled.\<close>

definition unsent :: "publisher \<Rightarrow> publish_call list" where
  "unsent s = pc_waiters s @ map fst (pc_woken s)"

definition unsettled :: "publisher \<Rightarrow> publish_call list" where
  "unsettled s = unsent s @ map fst (pc_outstanding s)"

definition calls_ok :: "publisher \<Rightarrow> bool" where
  "calls_ok s \<longleftrightarrow> image_mset ca_id (mset (unsettled s)) + image_mset fst (mset (pc_settled s)) = mset [0..<length (pc_asked s)]"

definition timing_ok :: "int \<Rightarrow> pub_line \<Rightarrow> bool" where
  "timing_ok T = (\<lambda>(s, b). (\<forall>w \<in> set (unsettled s). bk_now b \<le> ca_deadline w \<and> ca_deadline w = ca_since w + T) \<and>
     (\<forall>(w, c, due) \<in> set (pc_outstanding s). due = ca_deadline w))"

definition asked_for :: "publisher \<Rightarrow> nat \<Rightarrow> string \<Rightarrow> bool" where
  "asked_for s i m \<longleftrightarrow> i < length (pc_asked s) \<and> pc_asked s ! i = m"

definition carried :: "pub_broker \<Rightarrow> nat set" where
  "carried b = fst ` set (bk_sent b) \<union> fst ` set (bk_stored b)"

definition messages_ok :: "pub_line \<Rightarrow> bool" where
  "messages_ok = (\<lambda>(s, b). (\<forall>w \<in> set (unsettled s). asked_for s (ca_id w) (ca_message w)) \<and>
     (\<forall>(i, c, m) \<in> set (bk_sent b). asked_for s i m) \<and> (\<forall>(i, m) \<in> set (bk_stored b). asked_for s i m) \<and>
     distinct (map fst (bk_sent b) @ map fst (bk_stored b)) \<and>
     (\<forall>w \<in> set (unsent s). ca_id w \<notin> carried b) \<and>
     fst ` set (bk_unconfirmed b) \<subseteq> fst ` set (bk_stored b) \<and>
     (\<forall>i. (i, Resolved) \<in> set (pc_settled s) \<longrightarrow> i \<in> fst ` set (bk_stored b)))"

text \<open>All three read the same parts of the client.\<close>

definition calls_of :: "publisher \<Rightarrow> publish_call list \<times> (publish_call \<times> nat option) list \<times> (publish_call \<times> nat \<times> int) list \<times> (nat \<times> publish_outcome) list \<times> string list" where
  "calls_of s = (pc_waiters s, pc_woken s, pc_outstanding s, pc_settled s, pc_asked s)"

definition publish_ok :: "int \<Rightarrow> pub_line \<Rightarrow> bool" where
  "publish_ok T l \<longleftrightarrow> calls_ok (fst l) \<and> timing_ok T l \<and> messages_ok l"

lemmas publish_ok_defs = publish_ok_def calls_ok_def timing_ok_def messages_ok_def unsettled_def unsent_def asked_for_def

lemma messages_okI:
  assumes "\<And>w. w \<in> set (unsettled s) \<Longrightarrow> asked_for s (ca_id w) (ca_message w)" "\<And>i c m. (i, c, m) \<in> set (bk_sent b) \<Longrightarrow> asked_for s i m"
    "\<And>i m. (i, m) \<in> set (bk_stored b) \<Longrightarrow> asked_for s i m" "distinct (map fst (bk_sent b) @ map fst (bk_stored b))"
    "\<And>w. w \<in> set (unsent s) \<Longrightarrow> ca_id w \<notin> carried b" "fst ` set (bk_unconfirmed b) \<subseteq> fst ` set (bk_stored b)"
    "\<And>i. (i, Resolved) \<in> set (pc_settled s) \<Longrightarrow> i \<in> fst ` set (bk_stored b)"
  shows "messages_ok (s, b)"
  using assms by (auto simp: messages_ok_def)

lemma messages_okD:
  assumes "messages_ok (s, b)"
  shows "w \<in> set (unsettled s) \<Longrightarrow> asked_for s (ca_id w) (ca_message w)" "(i, c, m) \<in> set (bk_sent b) \<Longrightarrow> asked_for s i m"
    "(i, m) \<in> set (bk_stored b) \<Longrightarrow> asked_for s i m" "distinct (map fst (bk_sent b) @ map fst (bk_stored b))"
    "w \<in> set (unsent s) \<Longrightarrow> ca_id w \<notin> carried b" "fst ` set (bk_unconfirmed b) \<subseteq> fst ` set (bk_stored b)"
    "(i, Resolved) \<in> set (pc_settled s) \<Longrightarrow> i \<in> fst ` set (bk_stored b)"
  using assms by (auto simp: messages_ok_def)

lemma timing_okI:
  assumes "\<And>w. w \<in> set (unsettled s) \<Longrightarrow> bk_now b \<le> ca_deadline w" "\<And>w. w \<in> set (unsettled s) \<Longrightarrow> ca_deadline w = ca_since w + T"
    "\<And>w c due. (w, c, due) \<in> set (pc_outstanding s) \<Longrightarrow> due = ca_deadline w"
  shows "timing_ok T (s, b)"
  using assms unfolding timing_ok_def by blast

lemma timing_okD:
  assumes "timing_ok T (s, b)"
  shows "w \<in> set (unsettled s) \<Longrightarrow> bk_now b \<le> ca_deadline w" "w \<in> set (unsettled s) \<Longrightarrow> ca_deadline w = ca_since w + T"
    "(w, c, due) \<in> set (pc_outstanding s) \<Longrightarrow> due = ca_deadline w"
  using assms unfolding timing_ok_def by blast+

lemma timing_ok_clock: "bk_now b' = bk_now b \<Longrightarrow> timing_ok T (s, b') = timing_ok T (s, b)"
  unfolding timing_ok_def prod.case by metis

lemma publish_ok_calls: "calls_of s' = calls_of s \<Longrightarrow> publish_ok T (s', b) = publish_ok T (s, b)"
  by (simp add: calls_of_def publish_ok_defs)

lemma calls_of_connection:
  "calls_of (pub_closeQuietly c s) = calls_of s" "calls_of (pub_begin_open k s) = calls_of s" "calls_of (pub_scheduleReconnect M s) = calls_of s"
  "calls_of (s\<lparr>pc_opening := y\<rparr>) = calls_of s"
  by (simp_all add: calls_of_def pub_closeQuietly_def pub_begin_open_def pub_scheduleReconnect_def Let_def)

lemma calls_of_events:
  "calls_of (pub_reconnect s) = calls_of s" "calls_of (pub_open_failed M c stage k s) = calls_of s"
  "calls_of (pub_onChannelClosed c s) = calls_of s" "calls_of (pub_onConnectionClosed M c s) = calls_of s"
  "calls_of (registerTopology t (s, b)) = calls_of s" "calls_of (register_answered t c ds s) = calls_of s"
  "calls_of (register_failed t c ds s) = calls_of s" "pub_connect s = Some s' \<Longrightarrow> calls_of s' = calls_of s"
  by (auto simp: calls_of_def pub_reconnect_def pub_open_failed_def pub_onChannelClosed_def pub_onConnectionClosed_def registerTopology_def
      register_answered_def register_failed_def pub_connect_def pub_closeQuietly_def pub_begin_open_def pub_scheduleReconnect_def Let_def
      split: option.splits pub_opener.splits if_splits)

lemma image_mset_remove1: "x \<in> set xs \<Longrightarrow> image_mset f (mset xs) = add_mset (f x) (image_mset f (mset (remove1 x xs)))"
  by (metis image_mset_add_mset insert_DiffM mset_remove1 set_mset_mset)

lemma filter_split: "image_mset f (mset xs) = image_mset f (mset (filter P xs)) + image_mset f (mset (filter (\<lambda>x. \<not> P x) xs))"
  by (induction xs) auto

lemma calls_distinct:
  assumes "calls_ok s"
  shows "distinct (map ca_id (unsettled s))"
proof -
  have "distinct (map ca_id (unsettled s) @ map fst (pc_settled s))"
    using assms by (metis calls_ok_def distinct_upt image_mset_union mset_append mset_eq_imp_distinct_iff mset_map)
  then show ?thesis by simp
qed

lemma publish_ok_same:
  assumes "publish_ok T (s, b)" and all: "mset (unsettled s') = mset (unsettled s)" and "mset (unsent s') = mset (unsent s)"
    and same: "pc_outstanding s' = pc_outstanding s" "pc_settled s' = pc_settled s" "pc_asked s' = pc_asked s"
  shows "publish_ok T (s', b)"
proof -
  have sets: "set (unsettled s') = set (unsettled s)" "set (unsent s') = set (unsent s)" using assms(2,3) mset_eq_setD by blast+
  show ?thesis
    using assms(1) unfolding publish_ok_def calls_ok_def timing_ok_def messages_ok_def asked_for_def fst_conv prod.case all same sets .
qed

lemma settle_calls_fields [simp]:
  "unsettled (settle_calls outcome calls s) = unsettled s" "unsent (settle_calls outcome calls s) = unsent s"
  "pc_outstanding (settle_calls outcome calls s) = pc_outstanding s" "pc_asked (settle_calls outcome calls s) = pc_asked s"
  "asked_for (settle_calls outcome calls s) = asked_for s"
  "pc_settled (settle_calls outcome calls s) = pc_settled s @ map (\<lambda>w. (ca_id w, outcome)) calls"
  by (simp_all add: settle_calls_def unsettled_def unsent_def asked_for_def fun_eq_iff)

text \<open>Calls that stop waiting are settled, with nothing but a stored message resolved.\<close>

lemma settled_ok:
  assumes ok: "publish_ok T (s, b)"
    and left: "mset (unsettled s) = mset (unsettled s') + mset calls" and sub: "set (unsent s') \<subseteq> set (unsent s)"
    and out: "set (pc_outstanding s') \<subseteq> set (pc_outstanding s)" and same: "pc_settled s' = pc_settled s" "pc_asked s' = pc_asked s"
    and on: "outcome = Resolved \<Longrightarrow> ca_id ` set calls \<subseteq> fst ` set (bk_stored b)"
  shows "publish_ok T (settle_calls outcome calls s', b)"
proof -
  have set: "set (unsettled s') \<subseteq> set (unsettled s)" using arg_cong [OF left, of set_mset] by auto
  have "image_mset ca_id (mset (unsettled s)) = image_mset ca_id (mset (unsettled s')) + image_mset ca_id (mset calls)" using left by simp
  then have "calls_ok (settle_calls outcome calls s')"
    using ok same unfolding calls_ok_def publish_ok_def by (simp add: image_mset.compositionality comp_def ac_simps)
  moreover have "timing_ok T (settle_calls outcome calls s', b)"
    using ok set out unfolding timing_ok_def publish_ok_def by auto
  moreover have "messages_ok (settle_calls outcome calls s', b)"
  proof -
    have old: "messages_ok (s, b)" using ok by (simp add: publish_ok_def)
    have asked: "asked_for s' = asked_for s" using same by (simp add: asked_for_def fun_eq_iff)
    show ?thesis
      by (rule messages_okI) (use messages_okD [OF old] set sub same asked on in \<open>auto simp: subset_iff\<close>)
  qed
  ultimately show ?thesis by (simp add: publish_ok_def)
qed

text \<open>A new call waits, or is refused on the spot.\<close>

lemma asked_ok:
  assumes ok: "publish_ok T (s, b)" and T: "0 \<le> T"
    and left: "mset (unsettled s') = mset (unsettled s) + mset new" and sub: "set (unsent s') \<subseteq> set (unsent s) \<union> set new"
    and same: "pc_outstanding s' = pc_outstanding s" "pc_settled s' = pc_settled s @ refused" "pc_asked s' = pc_asked s @ [m]"
    and w: "w = \<lparr>ca_id = length (pc_asked s), ca_message = m, ca_since = bk_now b, ca_deadline = bk_now b + T\<rparr>"
    and way: "new = [w] \<and> refused = [] \<or> new = [] \<and> refused = [(ca_id w, Unavailable e)]"
  shows "publish_ok T (s', b)"
proof -
  have set: "set (unsettled s') = set (unsettled s) \<union> set new" using arg_cong [OF left, of set_mset] by auto
  have asked: "asked_for s i x \<Longrightarrow> asked_for s' i x" "asked_for s' (length (pc_asked s)) m" for i x
    using same by (auto simp: asked_for_def nth_append)
  have fresh: "length (pc_asked s) \<notin> carried b"
    using ok by (auto simp: carried_def publish_ok_def messages_ok_def asked_for_def)
  have "image_mset ca_id (mset (unsettled s')) = image_mset ca_id (mset (unsettled s)) + image_mset ca_id (mset new)" using left by simp
  then have "calls_ok s'" using ok same way w unfolding calls_ok_def publish_ok_def by auto
  moreover have "timing_ok T (s', b)" using ok set same way w T unfolding timing_ok_def publish_ok_def by auto
  moreover have "messages_ok (s', b)"
  proof -
    have old: "messages_ok (s, b)" using ok by (simp add: publish_ok_def)
    have "\<forall>v \<in> set new. ca_id v = length (pc_asked s) \<and> ca_message v = m" "(i, Resolved) \<in> set refused \<longleftrightarrow> False" for i using way w by auto
    then show ?thesis
      by (intro messages_okI) (use messages_okD [OF old] set sub same(2) asked fresh in auto)
  qed
  ultimately show ?thesis by (simp add: publish_ok_def)
qed

lemma begin_ok:
  assumes "publish_ok T (s, b)" "0 \<le> T"
  shows "publish_ok T (publish_begin T (bk_now b) m s, b)"
proof -
  let ?w = "\<lparr>ca_id = length (pc_asked s), ca_message = m, ca_since = bk_now b, ca_deadline = bk_now b + T\<rparr>"
  show ?thesis
  proof (cases "pub_enabled s \<and> (pc_channel s \<noteq> None \<or> pc_state s \<noteq> ClClosed)")
    case True
    then show ?thesis
      by (intro asked_ok [OF assms, where new = "[?w]" and refused = "[]" and m = m and w = ?w])
        (auto simp: publish_begin_def pub_enabled_def Let_def unsettled_def unsent_def split: option.split)
  next
    case False
    then obtain e where "publish_begin T (bk_now b) m s = settle_calls (Unavailable e) [?w] (s\<lparr>pc_asked := pc_asked s @ [m]\<rparr>)"
      by (auto simp: publish_begin_def pub_enabled_def Let_def split: option.split)
    then show ?thesis
      by (intro asked_ok [OF assms, where new = "[]" and refused = "[(length (pc_asked s), Unavailable e)]" and m = m and w = ?w and e = e])
        (auto simp: unsettled_def unsent_def settle_calls_def)
  qed
qed

text \<open>What the operations of a call do.\<close>

lemma waiter_ok:
  assumes "publish_ok T (s, b)" "w \<in> set (pc_waiters s)"
  shows "publish_ok T (waiter_timed_out w s, b)"
  unfolding waiter_timed_out_def
proof (rule settled_ok [OF assms(1)])
  have "mset (pc_waiters s) = add_mset w (mset (remove1 w (pc_waiters s)))" using assms(2) by simp
  then show "mset (unsettled s) = mset (unsettled (s\<lparr>pc_waiters := remove1 w (pc_waiters s)\<rparr>)) + mset [w]" by (simp add: unsettled_def unsent_def)
  show "set (unsent (s\<lparr>pc_waiters := remove1 w (pc_waiters s)\<rparr>)) \<subseteq> set (unsent s)" using set_remove1_subset by (fastforce simp: unsent_def)
qed simp_all

lemma reject_ok: "publish_ok T (s, b) \<Longrightarrow> publish_ok T (rejectWaiters e s, b)"
  unfolding rejectWaiters_def by (rule settled_ok) (auto simp: unsettled_def unsent_def)

lemma woken_split:
  assumes "(w, c) \<in> set (pc_woken s)"
  shows "image_mset fst (mset (pc_woken s)) = add_mset w (image_mset fst (mset (remove1 (w, c) (pc_woken s))))"
  using image_mset_remove1 [OF assms, of fst] by simp

lemma resumed_ok:
  assumes ok: "publish_ok T (s, b)" and w: "(w, None) \<in> set (pc_woken s)"
  shows "publish_ok T (channelBy_resumed w s, b)"
proof (cases "pc_channel s")
  case None
  have "publish_ok T (settle_calls (Unavailable ''RabbitMQ connection was lost again'') [w] (s\<lparr>pc_woken := remove1 (w, None) (pc_woken s)\<rparr>), b)"
  proof (rule settled_ok [OF ok])
    show "mset (unsettled s) = mset (unsettled (s\<lparr>pc_woken := remove1 (w, None) (pc_woken s)\<rparr>)) + mset [w]"
      using woken_split [OF w] by (simp add: unsettled_def unsent_def)
    show "set (unsent (s\<lparr>pc_woken := remove1 (w, None) (pc_woken s)\<rparr>)) \<subseteq> set (unsent s)"
      using set_remove1_subset [of "(w, None)" "pc_woken s"] by (auto simp: unsent_def)
  qed simp_all
  then show ?thesis using None by (simp add: channelBy_resumed_def Let_def)
next
  case (Some c)
  let ?s = "s\<lparr>pc_woken := remove1 (w, None) (pc_woken s) @ [(w, Some c)]\<rparr>"
  have m: "mset (unsettled ?s) = mset (unsettled s)" "mset (unsent ?s) = mset (unsent s)"
    using woken_split [OF w] by (simp_all add: unsettled_def unsent_def)
  have "publish_ok T (?s, b)" by (rule publish_ok_same [OF ok m]) simp_all
  then show ?thesis using Some by (simp add: channelBy_resumed_def Let_def)
qed

lemma calls_id_unique: "publish_ok T (s, b) \<Longrightarrow> w \<in> set (unsettled s) \<Longrightarrow> w' \<in> set (unsettled s) \<Longrightarrow> ca_id w = ca_id w' \<Longrightarrow> w = w'"
  using calls_distinct [of s] by (auto simp: publish_ok_def distinct_map inj_on_def)

lemma handed_ok:
  assumes ok: "publish_ok T (s, b)" and w: "(w, Some c) \<in> set (pc_woken s)"
  shows "publish_ok T (publish_handed w c (s, b))"
proof -
  let ?s = "s\<lparr>pc_woken := remove1 (w, Some c) (pc_woken s)\<rparr>"
  have left: "mset (unsettled s) = mset (unsettled ?s) + mset [w]" and unsent: "mset (unsent s) = mset (unsent ?s) + mset [w]"
    using woken_split [OF w] by (simp_all add: unsettled_def unsent_def)
  have set: "set (unsent ?s) \<subseteq> set (unsent s)" "set (unsettled s) = insert w (set (unsettled ?s))" "w \<in> set (unsent s)"
    using arg_cong [OF left, of set_mset] arg_cong [OF unsent, of set_mset] by auto
  show ?thesis
  proof (cases "c \<in> bk_channels b")
    case False
    have "publish_ok T (settle_calls ChannelClosed [w] ?s, b)" by (rule settled_ok [OF ok left set(1)]) simp_all
    then show ?thesis using False by (simp add: publish_handed_def Let_def)
  next
    case True
    let ?due = "bk_now b + max 0 (ca_deadline w - bk_now b)"
    let ?s' = "?s\<lparr>pc_outstanding := pc_outstanding s @ [(w, c, ?due)]\<rparr>" and ?b = "b\<lparr>bk_sent := bk_sent b @ [(ca_id w, c, ca_message w)]\<rparr>"
    have all: "mset (unsettled ?s') = mset (unsettled s)" using left by (simp add: unsettled_def unsent_def)
    have gone: "ca_id v \<noteq> ca_id w" if "v \<in> set (unsent ?s)" for v
    proof -
      have "distinct (map ca_id (unsettled s))" using ok by (simp add: publish_ok_def calls_distinct)
      then have "distinct (map ca_id (unsettled ?s @ [w]))"
        using mset_eq_imp_distinct_iff [of "map ca_id (unsettled s)" "map ca_id (unsettled ?s @ [w])"] left by simp
      then have "ca_id w \<notin> ca_id ` set (unsettled ?s)" by simp
      moreover have "v \<in> set (unsettled ?s)" using that by (simp add: unsettled_def)
      ultimately show ?thesis by (metis imageI)
    qed
    have old: "messages_ok (s, b)" using ok by (simp add: publish_ok_def)
    have asked: "asked_for ?s' = asked_for s" by (simp add: asked_for_def fun_eq_iff)
    have "calls_ok ?s'" using ok all unfolding publish_ok_def calls_ok_def by simp
    moreover have "timing_ok T (?s', ?b)"
    proof (rule timing_okI)
      have t: "timing_ok T (s, b)" using ok by (simp add: publish_ok_def)
      show "bk_now ?b \<le> ca_deadline v" "ca_deadline v = ca_since v + T" if "v \<in> set (unsettled ?s')" for v
        using timing_okD(1,2) [OF t] that unfolding mset_eq_setD [OF all] by simp_all
      show "due = ca_deadline v" if "(v, c', due) \<in> set (pc_outstanding ?s')" for v c' due
        using that timing_okD(3) [OF t] timing_okD(1) [OF t, of w] set(2) by auto
    qed
    moreover have "messages_ok (?s', ?b)"
    proof (rule messages_okI)
      show "asked_for ?s' (ca_id v) (ca_message v)" if "v \<in> set (unsettled ?s')" for v
        using messages_okD(1) [OF old, of v] that by (simp add: asked mset_eq_setD [OF all])
      show "asked_for ?s' i m" if "(i, c', m) \<in> set (bk_sent ?b)" for i c' m
        using messages_okD(1) [OF old, of w] messages_okD(2) [OF old] that set(2) by (auto simp: asked)
      show "distinct (map fst (bk_sent ?b) @ map fst (bk_stored ?b))"
        using messages_okD(4) [OF old] messages_okD(5) [OF old set(3)] by (auto simp: carried_def)
      show "ca_id v \<notin> carried ?b" if "v \<in> set (unsent ?s')" for v
      proof -
        have "v \<in> set (unsent ?s)" using that by (simp add: unsent_def)
        then show ?thesis using messages_okD(5) [OF old, of v] gone [of v] set(1) by (auto simp: carried_def)
      qed
    qed (use messages_okD [OF old] in \<open>auto simp: asked\<close>)
    ultimately show ?thesis using True by (simp add: publish_handed_def Let_def publish_ok_def)
  qed
qed

lemma confirm_ok:
  assumes ok: "publish_ok T (s, b)" and on: "outcome = Resolved \<Longrightarrow> i \<in> fst ` set (bk_stored b)"
  shows "publish_ok T (on_confirm i outcome s, b)"
  unfolding on_confirm_def
proof (rule settled_ok [OF ok])
  let ?P = "\<lambda>(w, _). ca_id w = i"
  show "mset (unsettled s) = mset (unsettled (s\<lparr>pc_outstanding := filter (\<lambda>(w, _). ca_id w \<noteq> i) (pc_outstanding s)\<rparr>)) +
      mset (map fst (filter ?P (pc_outstanding s)))"
    using filter_split [of fst "pc_outstanding s" ?P] by (simp add: unsettled_def unsent_def case_prod_unfold)
qed (use on in \<open>auto simp: unsent_def simp flip: Domain_fst\<close>)

lemma refused_ok: "publish_ok T (s, b) \<Longrightarrow> publish_ok T (on_confirm i (Unavailable e) s, b)"
  by (rule confirm_ok) simp_all

lemma unconfirmed_ok:
  assumes "publish_ok T (s, b)"
  shows "publish_ok T (unconfirmed_fail c s, b)"
  unfolding unconfirmed_fail_def
proof (rule settled_ok [OF assms])
  let ?P = "\<lambda>(_, c', _). c' = c"
  show "mset (unsettled s) = mset (unsettled (s\<lparr>pc_outstanding := filter (\<lambda>(_, c', _). c' \<noteq> c) (pc_outstanding s)\<rparr>)) +
      mset (map fst (filter ?P (pc_outstanding s)))"
    using filter_split [of fst "pc_outstanding s" ?P] by (simp add: unsettled_def unsent_def case_prod_unfold)
qed (auto simp: unsent_def)

lemma channel_gone_ok: "publish_ok T (s, b) \<Longrightarrow> publish_ok T (channel_gone c s, b)"
  using unconfirmed_ok [of T s b c] publish_ok_calls [OF calls_of_events(3)] by (simp add: channel_gone_def Let_def)

text \<open>The broker's own steps.\<close>

lemma distinct_map_remove1: "distinct (map f xs) \<Longrightarrow> distinct (map f (remove1 x xs))"
  by (induction xs) (auto dest: in_set_remove1 [THEN iffD1, rotated] notin_set_remove1 intro: ccontr simp: image_iff dest!: set_remove1_subset [THEN subsetD])

lemma publish_ok_broker:
  "publish_ok T (s, b\<lparr>bk_connections := x\<rparr>) = publish_ok T (s, b)" "publish_ok T (s, b\<lparr>bk_channels := y\<rparr>) = publish_ok T (s, b)"
  "publish_ok T (s, b\<lparr>bk_declared := z\<rparr>) = publish_ok T (s, b)"
  by (simp_all add: publish_ok_def timing_ok_def messages_ok_def carried_def)

lemma less_carried_ok:
  assumes ok: "publish_ok T (s, b)" and "set (bk_sent b') \<subseteq> set (bk_sent b)" "distinct (map fst (bk_sent b)) \<Longrightarrow> distinct (map fst (bk_sent b'))" "bk_stored b' = bk_stored b" "bk_now b' = bk_now b"
    and "set (bk_unconfirmed b') \<subseteq> set (bk_unconfirmed b)"
  shows "publish_ok T (s, b')"
proof -
  have old: "messages_ok (s, b)" using ok by (simp add: publish_ok_def)
  note sub = assms(2)
  have d: "distinct (map fst (bk_sent b') @ map fst (bk_stored b'))" using messages_okD(4) [OF old] assms(3,4) sub by auto
  have c: "ca_id w \<notin> carried b'" if "w \<in> set (unsent s)" for w
    using messages_okD(5) [OF old that] sub assms(4) by (auto simp: carried_def)
  have a: "asked_for s i m" if "(i, c, m) \<in> set (bk_sent b')" for i c m using messages_okD(2) [OF old] that sub by blast
  have "fst ` set (bk_unconfirmed b') \<subseteq> fst ` set (bk_stored b')"
    using subset_trans [OF image_mono [OF assms(6)] messages_okD(6) [OF old]] by (simp only: assms(4))
  note u = this
  have "messages_ok (s, b')"
  proof (rule messages_okI)
    show "asked_for s (ca_id w) (ca_message w)" if "w \<in> set (unsettled s)" for w by (rule messages_okD(1) [OF old that])
    show "asked_for s i m" if "(i, m) \<in> set (bk_stored b')" for i m using messages_okD(3) [OF old] that by (simp only: assms(4))
    show "i \<in> fst ` set (bk_stored b')" if "(i, Resolved) \<in> set (pc_settled s)" for i using messages_okD(7) [OF old that] by (simp only: assms(4))
  qed (fact a c d u)+
  then show ?thesis using ok timing_ok_clock [OF assms(5)] by (simp add: publish_ok_def)
qed

lemma lose_ok: "publish_ok T (s, b) \<Longrightarrow> publish_ok T (s, pub_lose_channel raced c b)"
  by (rule less_carried_ok) (auto simp: pub_lose_channel_def distinct_map_filter)

lemma taken_ok:
  assumes ok: "publish_ok T (s, b)" and i: "(i, c, m) \<in> set (bk_sent b)"
  shows "publish_ok T (s, b\<lparr>bk_sent := remove1 (i, c, m) (bk_sent b), bk_stored := bk_stored b @ [(i, m)], bk_unconfirmed := bk_unconfirmed b @ [(i, c)]\<rparr>)"
    (is "publish_ok T (s, ?b)")
proof -
  have old: "messages_ok (s, b)" using ok by (simp add: publish_ok_def)
  have "mset (map fst (bk_sent ?b) @ map fst (bk_stored ?b)) = mset (map fst (bk_sent b) @ map fst (bk_stored b))"
    using image_mset_remove1 [OF i, of fst] by simp
  note m = mset_eq_imp_distinct_iff [OF this] mset_eq_setD [OF this]
  have sub: "set (bk_sent ?b) \<subseteq> set (bk_sent b)" by (simp add: set_remove1_subset)
  have "carried ?b = carried b" using m(2) by (simp add: carried_def image_Un [symmetric] del: set_remove1_eq)
  moreover have "distinct (map fst (bk_sent ?b) @ map fst (bk_stored ?b))" using messages_okD(4) [OF old] m(1) by blast
  moreover have "asked_for s j x" if "(j, x) \<in> set (bk_stored ?b)" for j x using messages_okD(2,3) [OF old] that i by auto
  moreover have "asked_for s j x" if "(j, c', x) \<in> set (bk_sent ?b)" for j c' x using messages_okD(2) [OF old] that sub by blast
  moreover have "fst ` set (bk_unconfirmed ?b) \<subseteq> fst ` set (bk_stored ?b)" using messages_okD(6) [OF old] by auto
  moreover have "j \<in> fst ` set (bk_stored ?b)" if "(j, Resolved) \<in> set (pc_settled s)" for j using messages_okD(7) [OF old that] by simp
  ultimately have "messages_ok (s, ?b)"
    by (intro messages_okI) (use messages_okD(1,5) [OF old] in blast)+
  then show ?thesis using ok timing_ok_clock [of ?b b T s] by (simp add: publish_ok_def)
qed

lemma tick_ok: "publish_ok T (s, b) \<Longrightarrow> clock_free (s, b) \<Longrightarrow> publish_ok T (s, b\<lparr>bk_now := bk_now b + 1\<rparr>)"
  unfolding publish_ok_def
proof (elim conjE, intro conjI)
  assume t: "timing_ok T (s, b)" and free: "clock_free (s, b)"
  show "timing_ok T (s, b\<lparr>bk_now := bk_now b + 1\<rparr>)"
  proof (rule timing_okI)
    fix w assume w: "w \<in> set (unsettled s)"
    show "ca_deadline w = ca_since w + T" by (rule timing_okD(2) [OF t w])
    have "bk_now b < ca_deadline w"
      using w free timing_okD(3) [OF t] by (auto simp: clock_free_def unsettled_def unsent_def)
    then show "bk_now (b\<lparr>bk_now := bk_now b + 1\<rparr>) \<le> ca_deadline w" by simp
  qed (rule timing_okD(3) [OF t])
qed (simp_all add: messages_ok_def carried_def)

lemma shutdown_ok:
  assumes "publish_ok T (s, b)"
  shows "publish_ok T (onApplicationShutdown s, b)"
proof -
  let ?s = "rejectWaiters ''RabbitMQ client is closed'' (s\<lparr>pc_state := ClClosed, pc_reconnectTimer := None\<rparr>)"
  have "publish_ok T (s\<lparr>pc_state := ClClosed, pc_reconnectTimer := None\<rparr>, b)"
    using assms publish_ok_calls [of "s\<lparr>pc_state := ClClosed, pc_reconnectTimer := None\<rparr>" s] by (simp add: calls_of_def)
  then have "publish_ok T (?s, b)" by (rule reject_ok)
  moreover have "calls_of (onApplicationShutdown s) = calls_of ?s" if "pc_state s \<noteq> ClDisabled"
    using that by (simp add: onApplicationShutdown_def rejectWaiters_def settle_calls_def Let_def calls_of_def pub_closeQuietly_def split: option.split)
  ultimately have "publish_ok T (onApplicationShutdown s, b)" if "pc_state s \<noteq> ClDisabled" using that publish_ok_calls by blast
  moreover have "onApplicationShutdown s = s" if "pc_state s = ClDisabled" using that by (simp add: onApplicationShutdown_def)
  ultimately show ?thesis using assms by metis
qed

lemma continue_ok:
  assumes "publish_ok T (s, b)"
  shows "publish_ok T (open_continue c k n ds s, b)"
proof -
  have "publish_ok T (open_adopt c s, b)"
  proof (cases "pc_state s = ClClosed")
    case True
    then show ?thesis using assms publish_ok_calls [of "open_adopt c s" s] by (simp add: open_adopt_def pub_closeQuietly_def calls_of_def)
  next
    case False
    have "mset (unsettled (open_adopt c s)) = mset (unsettled s)" "mset (unsent (open_adopt c s)) = mset (unsent s)"
      using False by (simp_all add: open_adopt_def unsettled_def unsent_def comp_def)
    then show ?thesis by (rule publish_ok_same [OF assms]) (use False in \<open>simp_all add: open_adopt_def\<close>)
  qed
  then show ?thesis using assms publish_ok_calls [OF calls_of_connection(4)] by (simp add: open_continue_def split: option.split)
qed

lemma publish_ok_step:
  assumes "pstep T M (s, b) (s', b')" "publish_ok T (s, b)" "0 \<le> T"
  shows "publish_ok T (s', b')"
  using assms(1)
proof (cases rule: pstep.cases)
  case (connect)
  then show ?thesis using assms(2) publish_ok_calls [OF calls_of_events(8)] by metis
next
  case (connection_lost c)
  have "publish_ok T (pub_onConnectionClosed M c (channel_gone c s), pub_lose_channel (answered_to c s) c b)"
    using channel_gone_ok [OF lose_ok [OF assms(2)]] by (simp add: publish_ok_calls [OF calls_of_events(4)])
  then show ?thesis using connection_lost by (simp add: publish_ok_broker)
next
  case (nacked i c m)
  have "publish_ok T (s, b')" by (rule less_carried_ok [OF assms(2)]) (auto simp: nacked distinct_map_remove1 dest: set_remove1_subset [THEN subsetD])
  then show ?thesis unfolding nacked(1) by (rule refused_ok)
next
  case (confirmed i c)
  have "messages_ok (s, b)" using assms(2) by (simp add: publish_ok_def)
  then have "i \<in> fst ` set (bk_stored b)" using subsetD [OF messages_okD(6) imageI [OF confirmed(3), of fst]] by simp
  then have "publish_ok T (s', b)" using confirmed confirm_ok [OF assms(2)] by simp
  then show ?thesis by (rule less_carried_ok) (simp_all add: confirmed set_remove1_subset)
qed (use assms(2,3) in \<open>simp_all add: publish_ok_broker publish_ok_calls [OF calls_of_events(1)] publish_ok_calls [OF calls_of_events(2)]
      publish_ok_calls [OF calls_of_events(5)] publish_ok_calls [OF calls_of_events(6)] publish_ok_calls [OF calls_of_events(7)]
      publish_ok_calls [OF calls_of_connection(4)] continue_ok channel_gone_ok lose_ok begin_ok waiter_ok resumed_ok handed_ok taken_ok
      confirm_timed_out_def refused_ok shutdown_ok tick_ok\<close>)

lemma reach_publish_ok: "preach T M url l \<Longrightarrow> 0 \<le> T \<Longrightarrow> publish_ok T l"
proof (induction rule: preach.induct)
  case initial
  show ?case by (simp add: initial_publisher_def initial_pub_broker_def publish_ok_defs carried_def)
next
  case (further l l')
  then show ?case using publish_ok_step [of T M "fst l" "snd l" "fst l'" "snd l'"] by simp
qed

text \<open>The clock is never stopped for good: what is ready or due can run, and is done after finitely many steps.\<close>

definition due_work :: "pub_line \<Rightarrow> nat" where
  "due_work = (\<lambda>(s, b). sum_list (map (\<lambda>(w, c). if c = None then 3 else 2) (pc_woken s)) +
     length (filter (\<lambda>w. ca_deadline w \<le> bk_now b) (pc_waiters s)) + length (filter (\<lambda>(w, c, due). due \<le> bk_now b) (pc_outstanding s)))"

lemma length_filter_remove1: "x \<in> set xs \<Longrightarrow> P x \<Longrightarrow> length (filter P (remove1 x xs)) < length (filter P xs)"
  by (induction xs) auto

lemma length_filter_drop: "x \<in> set xs \<Longrightarrow> P x \<Longrightarrow> \<not> Q x \<Longrightarrow> length (filter P (filter Q xs)) < length (filter P xs)"
  using length_filter_less [of x "filter P xs" Q] by (simp add: filter_filter conj_commute)

lemma woken_work:
  assumes "(w, c) \<in> set (pc_woken s)"
  shows "sum_list (map (\<lambda>(w, c). if c = None then 3 else 2 :: nat) (pc_woken s)) =
    (if c = None then 3 else 2) + sum_list (map (\<lambda>(w, c). if c = None then 3 else 2) (remove1 (w, c) (pc_woken s)))"
  using sum_list_map_remove1 [OF assms, of "\<lambda>(w, c). if c = None then 3 else 2 :: nat"] by simp

lemma due_step:
  assumes "\<not> clock_free (s, b)"
  shows "\<exists>s' b'. pstep T M (s, b) (s', b') \<and> due_work (s', b') < due_work (s, b) \<and> bk_now b' = bk_now b"
proof -
  consider w where "(w, None) \<in> set (pc_woken s)" | w c where "(w, Some c) \<in> set (pc_woken s)"
    | w where "w \<in> set (pc_waiters s)" "ca_deadline w \<le> bk_now b" | w c due where "(w, c, due) \<in> set (pc_outstanding s)" "due \<le> bk_now b"
  proof (cases "pc_woken s")
    case (Cons x xs)
    then show thesis using that(1) [of "fst x"] that(2) [of "fst x"] by (cases x; cases "snd x") auto
  next
    case Nil
    then show thesis using assms that(3,4) unfolding clock_free_def by (auto simp: not_less)
  qed
  then show ?thesis
  proof cases
    case (1 w)
    have "due_work (channelBy_resumed w s, b) < due_work (s, b)"
      using woken_work [OF 1] by (simp add: channelBy_resumed_def due_work_def settle_calls_def Let_def split: option.split)
    then show ?thesis using pstep.resumed [OF 1, of T M b] by blast
  next
    case (2 w c)
    obtain s' b' where r: "publish_handed w c (s, b) = (s', b')" by fastforce
    then have "due_work (s', b') < due_work (s, b) \<and> bk_now b' = bk_now b"
      using woken_work [OF 2] by (auto simp: publish_handed_def due_work_def settle_calls_def Let_def split: if_splits)
    then show ?thesis using pstep.handed [OF 2, of T M b] r by auto
  next
    case (3 w)
    have "due_work (waiter_timed_out w s, b) < due_work (s, b)"
      using length_filter_remove1 [OF 3(1), of "\<lambda>w. ca_deadline w \<le> bk_now b"] 3(2) by (simp add: waiter_timed_out_def due_work_def settle_calls_def)
    then show ?thesis using pstep.waiter_due [OF 3, of T M] by blast
  next
    case (4 w c due)
    have "due_work (confirm_timed_out w s, b) < due_work (s, b)"
      using length_filter_drop [OF 4(1), of "\<lambda>(w, c, due). due \<le> bk_now b" "\<lambda>(v, _). ca_id v \<noteq> ca_id w"] 4(2)
      by (simp add: confirm_timed_out_def on_confirm_def due_work_def settle_calls_def)
    then show ?thesis using pstep.confirm_due [OF 4, of T M] by blast
  qed
qed

lemma clock_goes_on: "\<exists>l'. rtranclp (pstep T M) (s, b) l' \<and> bk_now (snd l') = bk_now b + 1"
proof (induction "due_work (s, b)" arbitrary: s b rule: less_induct)
  case less
  show ?case
  proof (cases "clock_free (s, b)")
    case True
    then have "pstep T M (s, b) (s, b\<lparr>bk_now := bk_now b + 1\<rparr>)" by (rule pstep.tick)
    then show ?thesis by (intro exI [of _ "(s, b\<lparr>bk_now := bk_now b + 1\<rparr>)"]) auto
  next
    case False
    then obtain s' b' where step: "pstep T M (s, b) (s', b')" "due_work (s', b') < due_work (s, b)" "bk_now b' = bk_now b"
      using due_step by blast
    then show ?thesis using less [OF step(2)] by (metis converse_rtranclp_into_rtranclp)
  qed
qed

text \<open>
  Property C39. The promise of \<^verbatim>\<open>publish\<close>: under every interleaving of losses, reconnects, confirms, refusals, timers and a shutdown,
  every call is settled exactly once or still pending; a pending call is younger than the timeout, and the clock can always
  go on, so none hangs; a call resolves only when the broker has taken its very message; and the broker takes no
  message twice.
\<close>

theorem publish_contract:
  assumes "preach T M url (s, b)" "0 \<le> T"
  shows "distinct (map ca_id (unsettled s) @ map fst (pc_settled s)) \<and>
    set (map ca_id (unsettled s) @ map fst (pc_settled s)) = {..<length (pc_asked s)} \<and>
    (\<forall>w \<in> set (unsettled s). bk_now b \<le> ca_since w + T) \<and>
    (\<exists>l'. rtranclp (pstep T M) (s, b) l' \<and> bk_now (snd l') = bk_now b + 1) \<and>
    (\<forall>i. (i, Resolved) \<in> set (pc_settled s) \<longrightarrow> (i, pc_asked s ! i) \<in> set (bk_stored b)) \<and> distinct (map fst (bk_stored b))"
proof -
  have calls: "calls_ok s" and time: "timing_ok T (s, b)" and msgs: "messages_ok (s, b)"
    using reach_publish_ok [OF assms] by (simp_all add: publish_ok_def)
  have "mset (map ca_id (unsettled s) @ map fst (pc_settled s)) = mset [0..<length (pc_asked s)]" using calls by (simp add: calls_ok_def)
  then have "distinct (map ca_id (unsettled s) @ map fst (pc_settled s))"
    "set (map ca_id (unsettled s) @ map fst (pc_settled s)) = {..<length (pc_asked s)}"
    using mset_eq_imp_distinct_iff mset_eq_setD by (metis distinct_upt, metis atLeast_upt)
  moreover have "bk_now b \<le> ca_since w + T" if "w \<in> set (unsettled s)" for w using timing_okD(1,2) [OF time that] by simp
  moreover have "(i, pc_asked s ! i) \<in> set (bk_stored b)" if "(i, Resolved) \<in> set (pc_settled s)" for i
    using messages_okD(7) [OF msgs that] messages_okD(3) [OF msgs] by (auto simp: asked_for_def)
  moreover have "distinct (map fst (bk_stored b))" using messages_okD(4) [OF msgs] by simp
  ultimately show ?thesis using clock_goes_on by blast
qed

end
