(* ===== verification/PublisherTopology.thy ===== *)
theory PublisherTopology
  imports PublisherContract
begin

text \<open>
  The connection of the cart's broker client: what its fields say about each other, that a lost connection is replaced, and
  that every registered topology is declared before a message goes out. Runs of the client are at the end, with what
  happens when a connection is lost at the wrong moment.
\<close>

section \<open>The topology is there before the messages, and a lost broker is found again\<close>

text \<open>How the connection's fields belong together.\<close>

definition opening_idle :: "pub_line \<Rightarrow> bool" where
  "opening_idle = (\<lambda>(s, b). \<forall>c stage k. pc_opening s = Some (c, stage, k) \<longrightarrow>
     pc_state s \<in> {ClDisconnected, ClClosed} \<and> pc_connection s = None \<and> pc_reconnectTimer s = None \<and> c < pc_next s \<and> c \<notin> pc_listening s \<and>
     (k = AtBoot \<longleftrightarrow> pc_listening s = {}) \<and> (stage = PubConnecting \<longrightarrow> c \<notin> bk_connections b) \<and>
     (stage = PubConnecting \<or> stage = PubCreating \<longrightarrow> c \<notin> bk_channels b) \<and>
     (\<forall>n ds. stage = PubAnswered n ds \<longrightarrow> c \<in> bk_channels b \<or> bk_raced b))"

definition wired :: "pub_line \<Rightarrow> bool" where
  "wired = (\<lambda>(s, b). opening_idle (s, b) \<and> bk_channels b \<subseteq> bk_connections b \<and> (\<forall>c \<in> bk_connections b. c < pc_next s) \<and>
     (\<forall>c \<in> pc_listening s. c < pc_next s) \<and>
     (\<forall>c. pc_channel s = Some c \<longrightarrow> pc_connection s = Some c \<and> pc_state s = ClConnected) \<and>
     (\<forall>c. pc_connection s = Some c \<longrightarrow> c \<in> pc_listening s \<and> pc_state s \<in> {ClConnected, ClDisconnected} \<and> pc_reconnectTimer s = None) \<and>
     (pc_reconnectTimer s \<noteq> None \<longrightarrow> pc_state s = ClDisconnected \<and> pc_listening s \<noteq> {}) \<and>
     (pc_state s = ClConnected \<longrightarrow> (\<exists>c. pc_channel s = Some c \<and> (c \<in> bk_channels b \<or> bk_raced b))))"

text \<open>A client that lost its connection is on its way to the next.\<close>

definition pub_recovering :: "pub_line \<Rightarrow> bool" where
  "pub_recovering = (\<lambda>(s, b). pc_reconnectTimer s \<noteq> None \<or> (\<exists>c stage. pc_opening s = Some (c, stage, AtReconnect)) \<or>
     (\<exists>c. pc_connection s = Some c \<and> c \<in> pc_closing s \<and> c \<in> bk_connections b))"

definition found_again :: "pub_line \<Rightarrow> bool" where
  "found_again = (\<lambda>(s, b). pc_state s = ClDisconnected \<and> pc_listening s \<noteq> {} \<longrightarrow> pub_recovering (s, b))"

lemmas wired_defs = wired_def opening_idle_def found_again_def pub_recovering_def

lemmas pub_defs = pub_connect_def pub_begin_open_def pub_closeQuietly_def pub_scheduleReconnect_def pub_reconnect_def open_adopt_def
  pub_open_failed_def pub_onChannelClosed_def pub_onConnectionClosed_def onApplicationShutdown_def rejectWaiters_def Let_def

text \<open>What the calls do does not matter to the connection.\<close>

definition link_of :: "publisher \<Rightarrow> _" where
  "link_of s = (pc_state s, pc_connection s, pc_channel s, pc_reconnectTimer s, pc_opening s, pc_listening s, pc_closing s, pc_next s)"

lemma wired_link: "link_of s' = link_of s \<Longrightarrow> wired (s', b) = wired (s, b) \<and> found_again (s', b) = found_again (s, b)"
  by (simp add: link_of_def wired_defs)

lemma link_of_calls:
  "link_of (settle_calls outcome calls s) = link_of s" "link_of (on_confirm i outcome s) = link_of s" "link_of (confirm_timed_out w s) = link_of s"
  "link_of (waiter_timed_out w s) = link_of s" "link_of (channelBy_resumed w s) = link_of s" "link_of (unconfirmed_fail c s) = link_of s"
  "link_of (publish_begin T now m s) = link_of s" "link_of (registerTopology t (s, b)) = link_of s" "link_of (register_answered t c ds s) = link_of s"
  "link_of (register_failed t c ds s) = link_of s" "link_of (fst (publish_handed w c (s, b))) = link_of s"
  by (simp_all add: link_of_def settle_calls_def on_confirm_def confirm_timed_out_def waiter_timed_out_def channelBy_resumed_def unconfirmed_fail_def
      publish_begin_def registerTopology_def register_answered_def register_failed_def publish_handed_def Let_def split: option.split)

lemma wired_broker:
  "wired (s, b\<lparr>bk_declared := x\<rparr>) = wired (s, b)" "wired (s, b\<lparr>bk_sent := y\<rparr>) = wired (s, b)" "wired (s, b\<lparr>bk_now := z\<rparr>) = wired (s, b)"
  "wired (s, b\<lparr>bk_stored := u\<rparr>) = wired (s, b)" "wired (s, b\<lparr>bk_unconfirmed := v\<rparr>) = wired (s, b)"
  "found_again (s, b\<lparr>bk_declared := x\<rparr>) = found_again (s, b)" "found_again (s, b\<lparr>bk_sent := y\<rparr>) = found_again (s, b)"
  "found_again (s, b\<lparr>bk_now := z\<rparr>) = found_again (s, b)" "found_again (s, b\<lparr>bk_stored := u\<rparr>) = found_again (s, b)"
  "found_again (s, b\<lparr>bk_unconfirmed := v\<rparr>) = found_again (s, b)"
  by (simp_all add: wired_defs)

lemma answered_to_iff: "answered_to c s \<longleftrightarrow> (\<exists>n ds k. pc_opening s = Some (c, PubAnswered n ds, k))"
  by (auto simp: answered_to_def split: option.split pub_stage.split prod.split)

lemma wired_adopt:
  assumes "wired (s, b)" "found_again (s, b)" "pc_opening s = Some (c, PubAnswered n ds, k)"
  shows "wired (open_adopt c s, b) \<and> found_again (open_adopt c s, b)"
  using assms by (auto simp: wired_defs pub_defs)

lemma wired_channel_gone:
  assumes "wired (s, b)" "found_again (s, b)" "c \<in> bk_channels b"
  shows "wired (channel_gone c s, pub_lose_channel (answered_to c s) c b) \<and> found_again (channel_gone c s, pub_lose_channel (answered_to c s) c b)"
proof -
  let ?s = "if c \<in> pc_listening s then pub_onChannelClosed c s else s"
  have "link_of (channel_gone c s) = link_of ?s"
    by (simp add: channel_gone_def unconfirmed_fail_def settle_calls_def link_of_def Let_def pub_onChannelClosed_def pub_closeQuietly_def)
  moreover have "wired (?s, pub_lose_channel (answered_to c s) c b)" "found_again (?s, pub_lose_channel (answered_to c s) c b)"
    using assms by (auto simp: wired_defs pub_defs pub_lose_channel_def answered_to_iff split: if_splits)
  ultimately show ?thesis using wired_link by blast
qed

lemma wired_connection_lost:
  assumes "wired (s, b)" "found_again (s, b)"
  shows "wired (pub_onConnectionClosed M c (channel_gone c s), (pub_lose_channel (answered_to c s) c b)\<lparr>bk_connections := bk_connections b - {c}\<rparr>) \<and>
    found_again (pub_onConnectionClosed M c (channel_gone c s), (pub_lose_channel (answered_to c s) c b)\<lparr>bk_connections := bk_connections b - {c}\<rparr>)"
proof -
  let ?s = "pub_onConnectionClosed M c (if c \<in> pc_listening s then pub_onChannelClosed c s else s)"
    and ?b = "(pub_lose_channel (answered_to c s) c b)\<lparr>bk_connections := bk_connections b - {c}\<rparr>"
  have "link_of (pub_onConnectionClosed M c (channel_gone c s)) = link_of ?s"
    by (simp add: channel_gone_def unconfirmed_fail_def settle_calls_def link_of_def Let_def pub_onChannelClosed_def pub_closeQuietly_def
        pub_onConnectionClosed_def pub_scheduleReconnect_def)
  moreover have "wired (?s, ?b)" "found_again (?s, ?b)"
    using assms by (auto simp: wired_defs pub_defs pub_lose_channel_def answered_to_iff split: if_splits)
  ultimately show ?thesis using wired_link by blast
qed

lemma wired_step:
  assumes "pstep T M (s, b) (s', b')" "wired (s, b)" "found_again (s, b)"
  shows "wired (s', b') \<and> found_again (s', b')"
  using assms(1)
proof (cases rule: pstep.cases)
  case connect
  then show ?thesis using assms(2,3) by (cases "pc_state s") (auto simp: wired_defs pub_defs)
next
  case (connected c k)
  then show ?thesis using assms(2,3) by (auto simp: wired_defs)
next
  case (created c k)
  then show ?thesis using assms(2,3) by (auto simp: wired_defs)
next
  case (declared c n d ds k)
  then show ?thesis using assms(2,3) by (auto simp: wired_defs)
next
  case (continued c n ds k)
  have "wired (s\<lparr>pc_opening := Some (c, PubDeclaring n' ds', k)\<rparr>, b) \<and> found_again (s\<lparr>pc_opening := Some (c, PubDeclaring n' ds', k)\<rparr>, b)" for n' ds'
    using assms(2,3) continued by (auto simp: wired_defs)
  then show ?thesis using continued wired_adopt [OF assms(2,3)] by (auto simp: open_continue_def split: option.split)
next
  case (open_fails c stage k)
  let ?s = "s\<lparr>pc_opening := None, pc_closing := (if stage = PubConnecting then pc_closing s else insert c (pc_closing s))\<rparr>"
  have s': "s' = (case k of AtBoot \<Rightarrow> ?s | AtReconnect \<Rightarrow> pub_scheduleReconnect M ?s)" using open_fails by (simp add: pub_defs split: pub_opener.split)
  have idle: "pc_state s \<in> {ClDisconnected, ClClosed}" "pc_connection s = None" "pc_reconnectTimer s = None" "k = AtBoot \<longleftrightarrow> pc_listening s = {}"
    using assms(2) open_fails(3) unfolding wired_def opening_idle_def by blast+
  have "wired (?s, b)" using assms(2) by (simp add: wired_def opening_idle_def)
  then show ?thesis
    using idle unfolding s' open_fails(2)
    by (cases k) (auto simp: wired_def opening_idle_def found_again_def pub_recovering_def pub_scheduleReconnect_def Let_def)
next
  case (channel_lost c)
  then show ?thesis using wired_channel_gone [OF assms(2,3)] by simp
next
  case (connection_lost c)
  then show ?thesis using wired_connection_lost [OF assms(2,3)] by simp
next
  case reconnect_timer
  then show ?thesis using assms(2,3) by (auto simp: wired_defs pub_defs)
next
  case (handed w c)
  have "b' = b \<or> (\<exists>y. b' = b\<lparr>bk_sent := y\<rparr>)" and "s' = fst (publish_handed w c (s, b))"
    using handed by (auto simp: publish_handed_def Let_def split: if_splits)
  then show ?thesis using assms(2,3) wired_link [OF link_of_calls(11)] by (auto simp: wired_broker)
next
  case shutdown
  then show ?thesis using assms(2,3) by (auto simp: wired_defs pub_defs settle_calls_def split: option.splits)
qed (use assms(2,3) in \<open>simp_all add: wired_broker wired_link [OF link_of_calls(2)] wired_link [OF link_of_calls(3)] wired_link [OF link_of_calls(4)]
      wired_link [OF link_of_calls(5)] wired_link [OF link_of_calls(7)] wired_link [OF link_of_calls(8)] wired_link [OF link_of_calls(9)]
      wired_link [OF link_of_calls(10)]\<close>)

lemma reach_wired: "preach T M url l \<Longrightarrow> wired l \<and> found_again l"
proof (induction rule: preach.induct)
  case initial
  show ?case by (simp add: initial_publisher_def initial_pub_broker_def wired_defs)
next
  case (further l l')
  then show ?case using wired_step [of T M "fst l" "snd l" "fst l'" "snd l'"] by simp
qed

text \<open>
  Once connected, the client never gives up: when it has lost its connection a reconnect is scheduled or under way or the old
  connection is about to report its end, and when it says it is connected the channel is open, unless it was lost between the
  last answer \<^verbatim>\<open>open()\<close> awaited and the code after it.
\<close>

lemma publisher_recovers:
  assumes "preach T M url (s, b)"
  shows "pc_state s = ClDisconnected \<and> pc_listening s \<noteq> {} \<longrightarrow> pub_recovering (s, b)"
    and "pc_state s = ClConnected \<and> \<not> bk_raced b \<longrightarrow> (\<exists>c. pc_channel s = Some c \<and> c \<in> bk_channels b)"
  using reach_wired [OF assms] by (auto simp: found_again_def wired_def)

subsection \<open>Declarations\<close>

definition declared_or :: "broker_declaration set \<Rightarrow> broker_declaration list \<Rightarrow> MessagingTopology \<Rightarrow> bool" where
  "declared_or D ds t \<longleftrightarrow> set (declarations t) \<subseteq> D \<union> set ds"

definition topology_ok :: "pub_line \<Rightarrow> bool" where
  "topology_ok = (\<lambda>(s, b).
     (\<forall>c t. pc_channel s = Some c \<and> c \<in> bk_channels b \<and> t \<in> set (pc_topologies s) \<longrightarrow>
        declared_or (bk_declared b) [] t \<or> (\<exists>ds. (t, c, ds) \<in> set (pc_registering s))) \<and>
     (\<forall>t c ds. (t, c, ds) \<in> set (pc_registering s) \<longrightarrow> c \<in> pc_listening s \<and> (c \<in> bk_channels b \<longrightarrow> declared_or (bk_declared b) ds t)) \<and>
     (\<forall>c stage k n ds. pc_opening s = Some (c, stage, k) \<and> c \<in> bk_channels b \<and> (stage = PubDeclaring n ds \<or> stage = PubAnswered n ds) \<longrightarrow>
        n \<le> length (pc_topologies s) \<and> list_all (declared_or (bk_declared b) ds) (take n (pc_topologies s))))"

lemma topology_okI:
  assumes "\<And>c t. pc_channel s = Some c \<Longrightarrow> c \<in> bk_channels b \<Longrightarrow> t \<in> set (pc_topologies s) \<Longrightarrow>
        declared_or (bk_declared b) [] t \<or> (\<exists>ds. (t, c, ds) \<in> set (pc_registering s))"
    and "\<And>t c ds. (t, c, ds) \<in> set (pc_registering s) \<Longrightarrow> c \<in> pc_listening s"
    and "\<And>t c ds. (t, c, ds) \<in> set (pc_registering s) \<Longrightarrow> c \<in> bk_channels b \<Longrightarrow> declared_or (bk_declared b) ds t"
    and "\<And>c stage k n ds. pc_opening s = Some (c, stage, k) \<Longrightarrow> c \<in> bk_channels b \<Longrightarrow> stage = PubDeclaring n ds \<or> stage = PubAnswered n ds \<Longrightarrow>
        n \<le> length (pc_topologies s) \<and> list_all (declared_or (bk_declared b) ds) (take n (pc_topologies s))"
  shows "topology_ok (s, b)"
  using assms unfolding topology_ok_def prod.case by blast

lemma topology_okD:
  assumes "topology_ok (s, b)"
  shows "pc_channel s = Some c \<Longrightarrow> c \<in> bk_channels b \<Longrightarrow> t \<in> set (pc_topologies s) \<Longrightarrow>
        declared_or (bk_declared b) [] t \<or> (\<exists>ds. (t, c, ds) \<in> set (pc_registering s))"
    and "(t, c, ds) \<in> set (pc_registering s) \<Longrightarrow> c \<in> pc_listening s"
    and "(t, c, ds) \<in> set (pc_registering s) \<Longrightarrow> c \<in> bk_channels b \<Longrightarrow> declared_or (bk_declared b) ds t"
    and "pc_opening s = Some (c, stage, k) \<Longrightarrow> c \<in> bk_channels b \<Longrightarrow> stage = PubDeclaring n ds \<or> stage = PubAnswered n ds \<Longrightarrow>
        n \<le> length (pc_topologies s) \<and> list_all (declared_or (bk_declared b) ds) (take n (pc_topologies s))"
  using assms unfolding topology_ok_def prod.case by blast+

lemma next_declarations_None: "next_declarations n ds ts = None \<Longrightarrow> ds = [] \<and> (\<forall>t \<in> set ts. declarations t = [])"
  by (induction n ds ts rule: next_declarations.induct) (auto split: list.splits)

lemma next_declarations_Some:
  "next_declarations n ds ts = Some (n', ds') \<Longrightarrow>
     n \<le> n' \<and> n' \<le> n + length ts \<and> set ds \<subseteq> set ds' \<and> (\<forall>t \<in> set (take (n' - n) ts). set (declarations t) \<subseteq> set ds')"
proof (induction n ds ts rule: next_declarations.induct)
  case (3 n t ts)
  show ?case
  proof (cases "declarations t")
    case Nil
    then show ?thesis using 3 by (auto simp: take_Cons' split: if_splits)
  next
    case (Cons d ds)
    then show ?thesis using 3 by (auto simp: take_Cons')
  qed
qed simp_all

text \<open>The loop of \<^verbatim>\<open>open()\<close> over the registered topologies leaves none out.\<close>

lemma topology_continue:
  assumes ok: "topology_ok (s, b)" and o: "pc_opening s = Some (c, PubAnswered n ds, k)" and w: "wired (s, b)"
  shows "topology_ok (open_continue c k n ds s, b)"
proof -
  let ?ts = "pc_topologies s"
  have here: "n \<le> length ?ts \<and> list_all (declared_or (bk_declared b) ds) (take n ?ts)" if "c \<in> bk_channels b"
    using ok o that by (auto simp: topology_ok_def)
  show ?thesis
  proof (cases "next_declarations n ds (drop n ?ts)")
    case None
    then have end': "ds = []" "\<forall>t \<in> set (drop n ?ts). declarations t = []" using next_declarations_None by blast+
    have "declared_or (bk_declared b) [] t" if "c \<in> bk_channels b" "t \<in> set ?ts" for t
    proof -
      have "t \<in> set (take n ?ts) \<or> t \<in> set (drop n ?ts)" using that(2) by (metis Un_iff append_take_drop_id set_append)
      then show ?thesis using here [OF that(1)] end' by (auto simp: list_all_iff declared_or_def)
    qed
    then show ?thesis using ok None by (auto simp: topology_ok_def open_continue_def open_adopt_def pub_closeQuietly_def)
  next
    case (Some x)
    obtain n' ds' where x: "x = (n', ds')" by (cases x)
    note nx = next_declarations_Some [OF Some [unfolded x]]
    have "n' \<le> length ?ts \<and> list_all (declared_or (bk_declared b) ds') (take n' ?ts)" if "c \<in> bk_channels b"
    proof -
      have "take n' ?ts = take n ?ts @ take (n' - n) (drop n ?ts)" using nx by (metis le_add_diff_inverse take_add)
      then show ?thesis using here [OF that] nx by (auto simp: list_all_iff declared_or_def)
    qed
    then show ?thesis using ok Some x by (auto simp: topology_ok_def open_continue_def)
  qed
qed

lemma declared_or_more: "declared_or D ds t \<Longrightarrow> D \<subseteq> D' \<Longrightarrow> declared_or D' ds t"
  by (auto simp: declared_or_def)

text \<open>What the topologies depend on, and what leaves it alone.\<close>

definition wiring_of :: "publisher \<Rightarrow> _" where
  "wiring_of s = (pc_channel s, pc_topologies s, pc_registering s, pc_opening s, pc_listening s)"

lemma topology_ok_wiring: "wiring_of s' = wiring_of s \<Longrightarrow> topology_ok (s', b) = topology_ok (s, b)"
  by (simp add: wiring_of_def topology_ok_def)

lemma wiring_of_calls:
  "wiring_of (settle_calls outcome calls s) = wiring_of s" "wiring_of (on_confirm i outcome s) = wiring_of s" "wiring_of (confirm_timed_out w s) = wiring_of s"
  "wiring_of (waiter_timed_out w s) = wiring_of s" "wiring_of (channelBy_resumed w s) = wiring_of s" "wiring_of (unconfirmed_fail c s) = wiring_of s"
  "wiring_of (publish_begin T now m s) = wiring_of s" "wiring_of (fst (publish_handed w c (s, b))) = wiring_of s"
  by (simp_all add: wiring_of_def settle_calls_def on_confirm_def confirm_timed_out_def waiter_timed_out_def channelBy_resumed_def unconfirmed_fail_def
      publish_begin_def publish_handed_def Let_def split: option.split)

lemma topology_ok_broker:
  "topology_ok (s, b\<lparr>bk_sent := y\<rparr>) = topology_ok (s, b)" "topology_ok (s, b\<lparr>bk_now := z\<rparr>) = topology_ok (s, b)"
  "topology_ok (s, b\<lparr>bk_stored := u\<rparr>) = topology_ok (s, b)" "topology_ok (s, b\<lparr>bk_unconfirmed := v\<rparr>) = topology_ok (s, b)"
  "topology_ok (s, b\<lparr>bk_connections := x\<rparr>) = topology_ok (s, b)"
  by (simp_all add: topology_ok_def)

text \<open>Losing a channel, dropping the adopted one or ending \<^verbatim>\<open>open()\<close> without adopting leaves fewer obligations.\<close>

lemma topology_ok_less:
  assumes "topology_ok (s, b)" "pc_topologies s' = pc_topologies s" "pc_registering s' = pc_registering s" "bk_declared b' = bk_declared b"
    and "pc_channel s' = pc_channel s \<or> pc_channel s' = None" "pc_opening s' = pc_opening s \<or> pc_opening s' = None" "bk_channels b' \<subseteq> bk_channels b"
    and "pc_listening s' = pc_listening s"
  shows "topology_ok (s', b')"
proof (rule topology_okI)
  note d = topology_okD [OF assms(1)]
  have ch: "pc_channel s' = Some c \<Longrightarrow> pc_channel s = Some c" "pc_opening s' = Some x \<Longrightarrow> pc_opening s = Some x" "c \<in> bk_channels b' \<Longrightarrow> c \<in> bk_channels b"
    for c x using assms(5-7) by auto
  show "declared_or (bk_declared b') [] t \<or> (\<exists>ds. (t, c, ds) \<in> set (pc_registering s'))"
    if "pc_channel s' = Some c" "c \<in> bk_channels b'" "t \<in> set (pc_topologies s')" for c t
    using d(1) [OF ch(1) [OF that(1)] ch(3) [OF that(2)]] that(3) unfolding assms(2,3,4) by blast
  show "c \<in> pc_listening s'" if "(t, c, ds) \<in> set (pc_registering s')" for t c ds using d(2) that unfolding assms(3,8) by blast
  show "declared_or (bk_declared b') ds t" if "(t, c, ds) \<in> set (pc_registering s')" "c \<in> bk_channels b'" for t c ds
    using d(3) that(1) ch(3) [OF that(2)] unfolding assms(3,4) by blast
  show "n \<le> length (pc_topologies s') \<and> list_all (declared_or (bk_declared b') ds) (take n (pc_topologies s'))"
    if "pc_opening s' = Some (c, stage, k)" "c \<in> bk_channels b'" "stage = PubDeclaring n ds \<or> stage = PubAnswered n ds" for c stage k n ds
    using d(4) [OF ch(2) [OF that(1)] ch(3) [OF that(2)] that(3)] unfolding assms(2,4) .
qed

lemma topology_ok_grow:
  assumes "topology_ok (s, b)"
  shows "topology_ok (s, b\<lparr>bk_declared := insert d (bk_declared b)\<rparr>)"
proof -
  have "declared_or (bk_declared b) ds t \<Longrightarrow> declared_or (insert d (bk_declared b)) ds t" for ds t by (auto elim: declared_or_more)
  note more = this
  note d = topology_okD [OF assms]
  show ?thesis
  proof (rule topology_okI)
    show "declared_or (bk_declared (b\<lparr>bk_declared := insert d (bk_declared b)\<rparr>)) [] t \<or> (\<exists>ds. (t, c, ds) \<in> set (pc_registering s))"
      if "pc_channel s = Some c" "c \<in> bk_channels (b\<lparr>bk_declared := insert d (bk_declared b)\<rparr>)" "t \<in> set (pc_topologies s)" for c t
      using d(1) [OF that(1) _ that(3)] that(2) more by auto
    show "n \<le> length (pc_topologies s) \<and> list_all (declared_or (bk_declared (b\<lparr>bk_declared := insert d (bk_declared b)\<rparr>)) ds) (take n (pc_topologies s))"
      if "pc_opening s = Some (c, stage, k)" "c \<in> bk_channels (b\<lparr>bk_declared := insert d (bk_declared b)\<rparr>)" "stage = PubDeclaring n ds \<or> stage = PubAnswered n ds"
      for c stage k n ds
      using d(4) [OF that(1) _ that(3)] that(2) more by (auto simp: list_all_iff)
  qed (use d(2,3) more in auto)
qed

lemma topology_register:
  assumes ok: "topology_ok (s, b)" and w: "wired (s, b)"
  shows "topology_ok (registerTopology t (s, b), b)"
proof -
  let ?s = "s\<lparr>pc_topologies := pc_topologies s @ [t]\<rparr>"
  have o': "n \<le> length (pc_topologies s @ [t]) \<and> list_all (declared_or (bk_declared b) ds) (take n (pc_topologies s @ [t]))"
    if "pc_opening s = Some (c, stage, k)" "c \<in> bk_channels b" "stage = PubDeclaring n ds \<or> stage = PubAnswered n ds" for c stage k n ds
    using topology_okD(4) [OF ok that] by simp
  show ?thesis
  proof (cases "\<exists>c. pc_channel s = Some c \<and> declarations t \<noteq> [] \<and> c \<in> bk_channels b")
    case True
    then obtain c where c: "pc_channel s = Some c" "declarations t \<noteq> []" "c \<in> bk_channels b" by blast
    then have r: "registerTopology t (s, b) = ?s\<lparr>pc_registering := pc_registering s @ [(t, c, declarations t)]\<rparr>"
      by (simp add: registerTopology_def Let_def)
    have "c \<in> pc_listening s" using w c by (auto simp: wired_def)
    moreover have "declared_or (bk_declared b) (declarations t) t" by (simp add: declared_or_def)
    moreover have "declared_or (bk_declared b) [] t' \<or> (\<exists>ds. (t', c, ds) \<in> set (pc_registering s @ [(t, c, declarations t)]))"
      if "t' \<in> set (pc_topologies s @ [t])" for t'
      using topology_okD(1) [OF ok c(1,3), of t'] that by auto
    ultimately show ?thesis
      unfolding r by (intro topology_okI) (use topology_okD(2,3) [OF ok] o' c in auto)
  next
    case False
    then have r: "registerTopology t (s, b) = ?s" by (auto simp: registerTopology_def Let_def split: option.split)
    have "declared_or (bk_declared b) [] t" if "pc_channel s = Some c" "c \<in> bk_channels b" for c using False that by (simp add: declared_or_def)
    then show ?thesis unfolding r by (intro topology_okI) (use topology_okD(1-3) [OF ok] o' in auto)
  qed
qed

lemma topology_registered:
  assumes ok: "topology_ok (s, b)" and e: "(t, c, d # ds) \<in> set (pc_registering s)" "c \<in> bk_channels b"
  shows "topology_ok (register_answered t c (d # ds) s, b\<lparr>bk_declared := insert d (bk_declared b)\<rparr>)"
proof -
  let ?D = "insert d (bk_declared b)"
  let ?R = "remove1 (t, c, d # ds) (pc_registering s) @ (if ds = [] then [] else [(t, c, ds)])"
  note ok' = topology_ok_grow [OF ok, of d]
  have t: "declared_or ?D ds t" using ok e by (fastforce simp: topology_ok_def declared_or_def)
  have "declared_or ?D [] t' \<or> (\<exists>ds'. (t', c', ds') \<in> set ?R)" if "(t', c', ds'') \<in> set (pc_registering s)" for t' c' ds''
  proof (cases "(t', c', ds'') = (t, c, d # ds)")
    case False
    then have "(t', c', ds'') \<in> set (remove1 (t, c, d # ds) (pc_registering s))" using that by simp
    then show ?thesis by auto
  qed (use t in auto)
  note kept = this
  have old: "(t', c', ds') \<in> set (pc_registering s) \<or> (t', c', ds') = (t, c, ds)" if "(t', c', ds') \<in> set ?R" for t' c' ds'
    using that set_remove1_subset [of "(t, c, d # ds)" "pc_registering s"] by (auto split: if_splits)
  let ?s = "s\<lparr>pc_registering := ?R\<rparr>" and ?b = "b\<lparr>bk_declared := ?D\<rparr>"
  have "topology_ok (?s, ?b)"
  proof (rule topology_okI)
    show "declared_or (bk_declared ?b) [] t' \<or> (\<exists>ds'. (t', c', ds') \<in> set (pc_registering ?s))"
      if "pc_channel ?s = Some c'" "c' \<in> bk_channels ?b" "t' \<in> set (pc_topologies ?s)" for c' t'
    proof -
      have "declared_or ?D [] t' \<or> (\<exists>ds'. (t', c', ds') \<in> set (pc_registering s))" using topology_okD(1) [OF ok', of c' t'] that by simp
      then have "declared_or ?D [] t' \<or> (\<exists>ds'. (t', c', ds') \<in> set ?R)" using kept by blast
      then show ?thesis by simp
    qed
    show "c' \<in> pc_listening ?s" if "(t', c', ds') \<in> set (pc_registering ?s)" for t' c' ds'
      using old [of t' c' ds'] that topology_okD(2) [OF ok] e(1) by auto
    show "declared_or (bk_declared ?b) ds' t'" if "(t', c', ds') \<in> set (pc_registering ?s)" "c' \<in> bk_channels ?b" for t' c' ds'
      using old [of t' c' ds'] that topology_okD(3) [OF ok', of t' c' ds'] t by auto
    show "n \<le> length (pc_topologies ?s) \<and> list_all (declared_or (bk_declared ?b) ds') (take n (pc_topologies ?s))"
      if "pc_opening ?s = Some (c', stage, k)" "c' \<in> bk_channels ?b" "stage = PubDeclaring n ds' \<or> stage = PubAnswered n ds'" for c' stage k n ds'
      using topology_okD(4) [OF ok' _ _ that(3), of c' k] that(1,2) by simp
  qed
  then show ?thesis unfolding register_answered_def list.sel .
qed

text \<open>A step of \<^verbatim>\<open>open()\<close>.\<close>

lemma topology_opening:
  assumes ok: "topology_ok (s, b)"
    and same: "pc_channel s' = pc_channel s" "pc_topologies s' = pc_topologies s" "pc_registering s' = pc_registering s" "pc_listening s' = pc_listening s"
    and stage: "\<And>c stage k n ds. pc_opening s' = Some (c, stage, k) \<Longrightarrow> c \<in> bk_channels b \<Longrightarrow> stage = PubDeclaring n ds \<or> stage = PubAnswered n ds \<Longrightarrow>
        n \<le> length (pc_topologies s) \<and> list_all (declared_or (bk_declared b) ds) (take n (pc_topologies s))"
  shows "topology_ok (s', b)"
proof (rule topology_okI)
  show "declared_or (bk_declared b) [] t \<or> (\<exists>ds. (t, c, ds) \<in> set (pc_registering s'))"
    if "pc_channel s' = Some c" "c \<in> bk_channels b" "t \<in> set (pc_topologies s')" for c t
    using topology_okD(1) [OF ok] that unfolding same by blast
qed (use topology_okD(2,3) [OF ok] stage in \<open>auto simp: same\<close>)

lemma topology_begin: "topology_ok (s, b) \<Longrightarrow> topology_ok (pub_begin_open k s, b)"
  by (rule topology_opening) (auto simp: pub_begin_open_def)

lemma topology_closed:
  "topology_ok (s, b) \<Longrightarrow> bk_declared b' = bk_declared b \<Longrightarrow> bk_channels b' \<subseteq> bk_channels b \<Longrightarrow> topology_ok (channel_gone c s, b')"
  "topology_ok (s, b) \<Longrightarrow> topology_ok (pub_onConnectionClosed M c s, b)"
  by (erule topology_ok_less; simp add: channel_gone_def unconfirmed_fail_def settle_calls_def pub_onChannelClosed_def pub_onConnectionClosed_def
      pub_closeQuietly_def pub_scheduleReconnect_def Let_def)+

lemma topology_step:
  assumes "pstep T M (s, b) (s', b')" "wired (s, b)" "topology_ok (s, b)"
  shows "topology_ok (s', b')"
  using assms(1)
proof (cases rule: pstep.cases)
  case connect
  then show ?thesis using assms(3) topology_begin by (auto simp: pub_connect_def split: if_splits)
next
  case (connected c k)
  have "topology_ok (s', b)" by (rule topology_opening [OF assms(3)]) (auto simp: connected(1))
  then show ?thesis by (simp add: connected(2) topology_ok_broker)
next
  case (created c k)
  then have none: "pc_channel s = None" "c \<notin> pc_listening s" using assms(2) by (auto simp: wired_defs)
  then have "(t, c, ds) \<notin> set (pc_registering s)" for t ds using topology_okD(2) [OF assms(3)] by blast
  then show ?thesis unfolding created(1,2)
    by (intro topology_okI) (use topology_okD(2,3) [OF assms(3)] none in auto)
next
  case (declared c n d ds k)
  note ok = topology_ok_grow [OF assms(3), of d]
  have "n \<le> length (pc_topologies s) \<and> list_all (declared_or (insert d (bk_declared b)) ds) (take n (pc_topologies s))" if "c \<in> bk_channels b"
    using topology_okD(4) [OF assms(3) declared(3) that, of n "d # ds"] by (auto simp: list_all_iff declared_or_def)
  then show ?thesis unfolding declared(1,2) by (intro topology_opening [OF ok]) auto
next
  case (continued c n ds k)
  then show ?thesis using topology_continue [OF assms(3) _ assms(2)] by simp
next
  case (open_fails c stage k)
  have "pc_topologies s' = pc_topologies s" "pc_registering s' = pc_registering s" "pc_channel s' = pc_channel s" "pc_opening s' = None"
    "pc_listening s' = pc_listening s"
    using open_fails by (auto simp: pub_defs split: pub_opener.split)
  then show ?thesis using topology_ok_less [OF assms(3)] open_fails by simp
next
  case (channel_lost c)
  show ?thesis unfolding channel_lost(1,2) by (rule topology_closed(1) [OF assms(3)]) (auto simp: pub_lose_channel_def)
next
  case (connection_lost c)
  show ?thesis unfolding connection_lost(1,2) by (intro topology_closed(2) topology_closed(1) [OF assms(3)]) (auto simp: pub_lose_channel_def)
next
  case reconnect_timer
  have "topology_ok (s\<lparr>pc_reconnectTimer := None\<rparr>, b)" by (rule topology_opening [OF assms(3)]) (use topology_okD(4) [OF assms(3)] in auto)
  then show ?thesis using topology_begin reconnect_timer by (simp add: pub_reconnect_def Let_def)
next
  case forgotten
  then have "bk_channels b = {}" using assms(2) by (simp add: wired_def)
  then show ?thesis unfolding forgotten(1,2) by (intro topology_okI) (use topology_okD(2) [OF assms(3)] in auto)
next
  case (register t)
  then show ?thesis using topology_register [OF assms(3,2)] by simp
next
  case (register_ok t c d ds)
  then show ?thesis using topology_registered [OF assms(3)] by simp
next
  case (register_fails t c ds)
  have "(t', c', ds') \<in> set (remove1 (t, c, ds) (pc_registering s))" if "(t', c', ds') \<in> set (pc_registering s)" "c' \<in> bk_channels b" for t' c' ds'
  proof -
    have "(t', c', ds') \<noteq> (t, c, ds)" using that(2) register_fails(4) by auto
    then show ?thesis using that(1) by simp
  qed
  note kept = this
  have "topology_ok (s\<lparr>pc_registering := remove1 (t, c, ds) (pc_registering s)\<rparr>, b)"
  proof (rule topology_okI)
    show "declared_or (bk_declared b) [] t' \<or> (\<exists>ds'. (t', c', ds') \<in> set (pc_registering (s\<lparr>pc_registering := remove1 (t, c, ds) (pc_registering s)\<rparr>)))"
      if "pc_channel (s\<lparr>pc_registering := remove1 (t, c, ds) (pc_registering s)\<rparr>) = Some c'" "c' \<in> bk_channels b"
        "t' \<in> set (pc_topologies (s\<lparr>pc_registering := remove1 (t, c, ds) (pc_registering s)\<rparr>))" for c' t'
      using topology_okD(1) [OF assms(3), of c' t'] that kept [of t' c'] by auto
  qed (use topology_okD(2,3,4) [OF assms(3)] set_remove1_subset [of "(t, c, ds)" "pc_registering s"] in auto)
  then show ?thesis using register_fails(1,2) by (simp add: register_failed_def)
next
  case (handed w c)
  have "b' = b \<or> (\<exists>y. b' = b\<lparr>bk_sent := y\<rparr>)" and "s' = fst (publish_handed w c (s, b))"
    using handed by (auto simp: publish_handed_def Let_def split: if_splits)
  then show ?thesis using assms(3) topology_ok_wiring [OF wiring_of_calls(8)] by (auto simp: topology_ok_broker)
next
  case shutdown
  have "pc_topologies s' = pc_topologies s" "pc_registering s' = pc_registering s" "pc_channel s' = pc_channel s \<or> pc_channel s' = None"
    "pc_opening s' = pc_opening s" "pc_listening s' = pc_listening s"
    using shutdown by (auto simp: settle_calls_def pub_defs split: option.split)
  then show ?thesis using topology_ok_less [OF assms(3)] shutdown by simp
qed (use assms(3) in \<open>simp_all add: topology_ok_broker topology_ok_wiring [OF wiring_of_calls(2)] topology_ok_wiring [OF wiring_of_calls(3)]
      topology_ok_wiring [OF wiring_of_calls(4)] topology_ok_wiring [OF wiring_of_calls(5)] topology_ok_wiring [OF wiring_of_calls(7)]\<close>)

text \<open>A message on the wire of an open channel is on the adopted one, as long as nobody shuts down.\<close>

definition on_channel :: "nat \<Rightarrow> pub_line \<Rightarrow> bool" where
  "on_channel c = (\<lambda>(s, b). (\<exists>w. (w, Some c) \<in> set (pc_woken s)) \<or> (\<exists>i m. (i, c, m) \<in> set (bk_sent b)))"

definition inflight_ok :: "pub_line \<Rightarrow> bool" where
  "inflight_ok = (\<lambda>(s, b). \<forall>c. on_channel c (s, b) \<longrightarrow>
     c \<in> pc_listening s \<and> (c \<in> bk_channels b \<and> pc_state s \<noteq> ClClosed \<longrightarrow> pc_channel s = Some c))"

lemma inflight_less:
  assumes "inflight_ok (s, b)" and "\<And>c. on_channel c (s', b') \<Longrightarrow> on_channel c (s, b)" "pc_listening s \<subseteq> pc_listening s'" "bk_channels b' \<subseteq> bk_channels b"
    and "pc_state s' = ClClosed \<or> pc_state s \<noteq> ClClosed \<and> (\<forall>c \<in> bk_channels b'. pc_channel s = Some c \<longrightarrow> pc_channel s' = Some c)"
  shows "inflight_ok (s', b')"
  using assms unfolding inflight_ok_def prod.case by blast

lemma inflight_more:
  assumes ok: "inflight_ok (s, b)" and w: "wired (s, b)" and on: "\<And>x. on_channel x (s', b') \<Longrightarrow> on_channel x (s, b) \<or> pc_channel s = Some x"
    and same: "pc_listening s' = pc_listening s" "pc_state s' = pc_state s" "pc_channel s' = pc_channel s" "bk_channels b' = bk_channels b"
  shows "inflight_ok (s', b')"
proof -
  have "pc_channel s = Some c \<Longrightarrow> c \<in> pc_listening s" for c using w by (auto simp: wired_def)
  then show ?thesis using ok on unfolding inflight_ok_def prod.case same by blast
qed

text \<open>Which steps put nothing on a channel.\<close>

lemma same_channels: "pc_woken s' = pc_woken s \<Longrightarrow> bk_sent b' = bk_sent b \<Longrightarrow> on_channel x (s', b') = on_channel x (s, b)"
  by (simp add: on_channel_def)

lemma inflight_quiet:
  assumes "inflight_ok (s, b)" "wired (s, b)" "pc_woken s' = pc_woken s" "bk_sent b' = bk_sent b"
    and "pc_listening s' = pc_listening s" "pc_state s' = pc_state s" "pc_channel s' = pc_channel s" "bk_channels b' = bk_channels b"
  shows "inflight_ok (s', b')"
  by (rule inflight_more [OF assms(1,2) _ assms(5-8)]) (simp add: same_channels [OF assms(3,4)])

lemma inflight_adopt:
  assumes ok: "inflight_ok (s, b)" and w: "wired (s, b)" and at: "pc_opening s = Some (c, PubAnswered n ds, k)"
  shows "inflight_ok (open_adopt c s, b)"
proof (cases "pc_state s = ClClosed")
  case True
  then show ?thesis by (intro inflight_quiet [OF ok w]) (simp_all add: open_adopt_def pub_closeQuietly_def)
next
  case False
  have "pc_channel s = None" using w at by (auto simp: wired_defs)
  moreover have "on_channel x (open_adopt c s, b) = on_channel x (s, b)" for x using False by (auto simp: on_channel_def open_adopt_def)
  ultimately show ?thesis using ok False unfolding inflight_ok_def prod.case by (simp add: open_adopt_def)
qed

lemma inflight_gone:
  assumes ok: "inflight_ok (s, b)" and "\<And>x. on_channel x (s', b') \<Longrightarrow> on_channel x (s, b)" "pc_listening s' = pc_listening s"
    "bk_channels b' = bk_channels b - {c}" "pc_state s' = ClClosed \<longleftrightarrow> pc_state s = ClClosed"
    "\<And>y. pc_channel s = Some y \<Longrightarrow> y \<noteq> c \<Longrightarrow> pc_channel s' = Some y"
  shows "inflight_ok (s', b')"
  using assms unfolding inflight_ok_def prod.case by blast

lemma gone_channels:
  "on_channel x (channel_gone c s, pub_lose_channel r c b) \<Longrightarrow> on_channel x (s, b)"
  "on_channel x (pub_onConnectionClosed M c (channel_gone c s), (pub_lose_channel r c b)\<lparr>bk_connections := y\<rparr>) \<Longrightarrow> on_channel x (s, b)"
proof -
  have w: "pc_woken (channel_gone c s) = pc_woken s" "pc_woken (pub_onConnectionClosed M c s') = pc_woken s'" for s'
    by (simp_all add: channel_gone_def unconfirmed_fail_def settle_calls_def pub_onChannelClosed_def pub_onConnectionClosed_def
        pub_scheduleReconnect_def pub_closeQuietly_def Let_def)
  show "on_channel x (channel_gone c s, pub_lose_channel r c b) \<Longrightarrow> on_channel x (s, b)"
    "on_channel x (pub_onConnectionClosed M c (channel_gone c s), (pub_lose_channel r c b)\<lparr>bk_connections := y\<rparr>) \<Longrightarrow> on_channel x (s, b)"
    by (auto simp: on_channel_def pub_lose_channel_def w)
qed

lemma inflight_step:
  assumes "pstep T M (s, b) (s', b')" "wired (s, b)" "inflight_ok (s, b)"
  shows "inflight_ok (s', b')"
  using assms(1)
proof (cases rule: pstep.cases)
  case connect
  then show ?thesis by (intro inflight_quiet [OF assms(3,2)]) (auto simp: pub_connect_def pub_begin_open_def split: if_splits)
next
  case (created c k)
  then have "c \<notin> pc_listening s" using assms(2) by (auto simp: wired_defs)
  then show ?thesis using assms(3) unfolding created(1,2) inflight_ok_def on_channel_def prod.case by simp blast
next
  case (continued c n ds k)
  have "inflight_ok (s\<lparr>pc_opening := x\<rparr>, b)" for x by (rule inflight_quiet [OF assms(3,2)]) simp_all
  then show ?thesis using continued inflight_adopt [OF assms(3,2)] by (auto simp: open_continue_def split: option.split)
next
  case (open_fails c stage k)
  show ?thesis unfolding open_fails(1,2) by (intro inflight_quiet [OF assms(3,2)]) (simp_all add: pub_defs split: pub_opener.split)
next
  case (channel_lost c)
  show ?thesis unfolding channel_lost(1,2)
    by (rule inflight_gone [OF assms(3) gone_channels(1), where c = c])
      (auto simp: channel_gone_def unconfirmed_fail_def settle_calls_def pub_lose_channel_def pub_defs)
next
  case (connection_lost c)
  have closed: "pc_connection s = Some c \<Longrightarrow> pc_state s \<noteq> ClClosed" "pc_channel s = Some y \<Longrightarrow> pc_connection s = Some y" for y
    using assms(2) by (auto simp: wired_def)
  show ?thesis unfolding connection_lost(1,2)
    by (rule inflight_gone [OF assms(3) gone_channels(2), where c = c])
      (use closed in \<open>auto simp: channel_gone_def unconfirmed_fail_def settle_calls_def pub_lose_channel_def pub_defs\<close>)
next
  case reconnect_timer
  show ?thesis unfolding reconnect_timer(1,2) by (intro inflight_quiet [OF assms(3,2)]) (simp_all add: pub_reconnect_def pub_begin_open_def Let_def)
next
  case (publish m)
  show ?thesis unfolding publish(1,2)
    by (rule inflight_more [OF assms(3,2)])
      (auto simp: on_channel_def publish_begin_def settle_calls_def Let_def split: option.splits if_splits)
next
  case (resumed w)
  show ?thesis unfolding resumed(1,2)
    by (rule inflight_more [OF assms(3,2)])
      (use set_remove1_subset [of "(w, None)" "pc_woken s"] in
        \<open>auto simp: on_channel_def channelBy_resumed_def settle_calls_def Let_def split: option.splits\<close>)
next
  case (handed w c)
  have "on_channel x (s', b') \<Longrightarrow> on_channel x (s, b)" for x
    using handed set_remove1_subset [of "(w, Some c)" "pc_woken s"]
    by (auto simp: on_channel_def publish_handed_def settle_calls_def Let_def split: if_splits)
  then show ?thesis
    by (intro inflight_more [OF assms(3,2)]) (use handed(1) in \<open>auto simp: publish_handed_def settle_calls_def Let_def split: if_splits\<close>)
next
  case (taken i c m)
  show ?thesis unfolding taken(1,2)
    by (rule inflight_more [OF assms(3,2)]) (use set_remove1_subset [of "(i, c, m)" "bk_sent b"] in \<open>auto simp: on_channel_def\<close>)
next
  case (nacked i c m)
  show ?thesis unfolding nacked(1,2)
    by (rule inflight_more [OF assms(3,2)])
      (use set_remove1_subset [of "(i, c, m)" "bk_sent b"] in \<open>auto simp: on_channel_def on_confirm_def settle_calls_def\<close>)
next
  case shutdown
  show ?thesis
  proof (cases "pc_state s = ClDisabled")
    case False
    then show ?thesis unfolding shutdown
      by (intro inflight_less [OF assms(3)])
        (auto simp: on_channel_def onApplicationShutdown_def rejectWaiters_def settle_calls_def pub_closeQuietly_def Let_def split: option.splits)
  qed (use assms(3) shutdown in \<open>simp add: onApplicationShutdown_def\<close>)
qed (rule inflight_quiet [OF assms(3,2)]; simp add: on_confirm_def confirm_timed_out_def waiter_timed_out_def settle_calls_def registerTopology_def
      register_answered_def register_failed_def Let_def split: option.split)+

lemma reach_topology: "preach T M url l \<Longrightarrow> topology_ok l \<and> inflight_ok l"
proof (induction rule: preach.induct)
  case initial
  show ?case by (simp add: initial_publisher_def initial_pub_broker_def topology_ok_def inflight_ok_def on_channel_def)
next
  case (further l l')
  have "wired (fst l, snd l)" using reach_wired [OF further(1)] by simp
  then show ?case using further(2,3) topology_step [of T M "fst l" "snd l" "fst l'" "snd l'"] inflight_step [of T M "fst l" "snd l" "fst l'" "snd l'"] by simp
qed

text \<open>
  Property C40. Topology before messages: while the client is not shut down, when its channel is open or a message is on the wire
  of an open channel, everything that was ever registered is declared on the broker, except for a registration that has
  not resolved yet; also after any number of reconnects to a broker that had forgotten everything. A stock event is
  therefore never published to an exchange that would drop it.
\<close>

theorem topology_before_messages:
  assumes "preach T M url (s, b)" "pc_state s \<noteq> ClClosed" "c \<in> bk_channels b"
    and "pc_channel s = Some c \<or> (\<exists>i m. (i, c, m) \<in> set (bk_sent b))" and "t \<in> set (pc_topologies s)"
  shows "set (declarations t) \<subseteq> bk_declared b \<or> (\<exists>ds. (t, c, ds) \<in> set (pc_registering s))"
proof -
  have "topology_ok (s, b)" "inflight_ok (s, b)" using reach_topology [OF assms(1)] by blast+
  moreover from this(2) have "pc_channel s = Some c" using assms(2-4) by (auto simp: inflight_ok_def on_channel_def)
  ultimately show ?thesis using topology_okD(1) [of s b c t] assms(3,5) by (simp add: declared_or_def)
qed

section \<open>Runs\<close>

lemma preach_then: "preach T M url (s, b) \<Longrightarrow> pstep T M (s, b) (s', b') \<Longrightarrow> preach T M url (s', b')"
  by (rule preach.further)

text \<open>Connection 0 has a channel, and \<^verbatim>\<open>open()\<close> is about to go on.\<close>

definition answered_line :: pub_line where
  "answered_line =
     ((initial_publisher (Some ''amqp://broker''))\<lparr>pc_opening := Some (0, PubAnswered 0 [], AtBoot), pc_next := 1\<rparr>,
      initial_pub_broker\<lparr>bk_connections := {0}, bk_channels := {0}\<rparr>)"

lemma reach_answered: "preach T M (Some ''amqp://broker'') answered_line"
proof -
  let ?s = "initial_publisher (Some ''amqp://broker'')" and ?b = initial_pub_broker
  have "preach T M (Some ''amqp://broker'') (pub_begin_open AtBoot ?s, ?b)"
    by (rule preach_then [OF preach.initial]) (rule pstep.connect, simp_all add: pub_connect_def initial_publisher_def)
  then have "preach T M (Some ''amqp://broker'') (?s\<lparr>pc_opening := Some (0, PubCreating, AtBoot), pc_next := 1\<rparr>, ?b\<lparr>bk_connections := {0}\<rparr>)"
    by (rule preach_then) (use pstep.connected [of "pub_begin_open AtBoot ?s" 0 AtBoot T M ?b] in
      \<open>simp add: pub_begin_open_def initial_publisher_def initial_pub_broker_def\<close>)
  then show ?thesis unfolding answered_line_def
    by (rule preach_then) (use pstep.created [of "?s\<lparr>pc_opening := Some (0, PubCreating, AtBoot), pc_next := 1\<rparr>" 0 AtBoot "?b\<lparr>bk_connections := {0}\<rparr>" T M] in
      \<open>simp add: initial_publisher_def initial_pub_broker_def\<close>)
qed

lemma register_all:
  assumes "preach T M url (s, b)" "pc_registering s = [(t, c, ds)]" "ds \<noteq> []" "c \<in> bk_channels b"
  shows "preach T M url (s\<lparr>pc_registering := []\<rparr>, b\<lparr>bk_declared := bk_declared b \<union> set ds\<rparr>)"
  using assms
proof (induction ds arbitrary: s b)
  case (Cons d ds)
  have step: "preach T M url (register_answered t c (d # ds) s, b\<lparr>bk_declared := insert d (bk_declared b)\<rparr>)"
    by (rule preach_then [OF Cons.prems(1)]) (rule pstep.register_ok, use Cons.prems in simp_all)
  show ?case
  proof (cases "ds = []")
    case True
    then show ?thesis using step Cons.prems(2) by (simp add: register_answered_def)
  next
    case False
    have "insert d (bk_declared b) \<union> set ds = bk_declared b \<union> set (d # ds)" by auto
    then show ?thesis using Cons.IH [OF step] Cons.prems(2,4) False by (simp add: register_answered_def)
  qed
qed simp

text \<open>Connected, with the stock topology declared.\<close>

definition linked :: pub_line where
  "linked =
     ((initial_publisher (Some ''amqp://broker''))\<lparr>pc_state := ClConnected, pc_topologies := [cart_INVENTORY_TOPOLOGY], pc_connection := Some 0,
        pc_channel := Some 0, pc_listening := {0}, pc_next := 1\<rparr>,
      initial_pub_broker\<lparr>bk_connections := {0}, bk_channels := {0}, bk_declared := set (declarations cart_INVENTORY_TOPOLOGY)\<rparr>)"

lemma reach_linked: "preach T M (Some ''amqp://broker'') linked"
proof -
  let ?s = "open_adopt 0 (fst answered_line)" and ?b = "snd answered_line" and ?t = cart_INVENTORY_TOPOLOGY
  have some: "declarations ?t \<noteq> []" by (simp add: declarations_def cart_INVENTORY_TOPOLOGY_def)
  have "preach T M (Some ''amqp://broker'') (fst answered_line, ?b)" using reach_answered by simp
  then have "preach T M (Some ''amqp://broker'') (open_continue 0 AtBoot 0 [] (fst answered_line), ?b)"
    by (rule preach_then) (rule pstep.continued, simp add: answered_line_def)
  then have "preach T M (Some ''amqp://broker'') (?s, ?b)" by (simp add: open_continue_def answered_line_def initial_publisher_def)
  then have reg: "preach T M (Some ''amqp://broker'') (registerTopology ?t (?s, ?b), ?b)" by (rule preach_then) (rule pstep.register)
  have r: "registerTopology ?t (?s, ?b) = ?s\<lparr>pc_topologies := [?t], pc_registering := [(?t, 0, declarations ?t)]\<rparr>"
    using some by (simp add: registerTopology_def open_adopt_def answered_line_def initial_publisher_def)
  have "preach T M (Some ''amqp://broker'') (?s\<lparr>pc_topologies := [?t], pc_registering := []\<rparr>, ?b\<lparr>bk_declared := bk_declared ?b \<union> set (declarations ?t)\<rparr>)"
    using register_all [OF reg [unfolded r], of ?t 0 "declarations ?t"] some by (simp add: answered_line_def)
  then show ?thesis
    by (simp add: linked_def answered_line_def open_adopt_def initial_publisher_def initial_pub_broker_def)
qed

definition sent_call :: publish_call where
  "sent_call = \<lparr>ca_id = 0, ca_message = ''m'', ca_since = 0, ca_deadline = 5000\<rparr>"

text \<open>A message is on the wire; and the broker has taken it.\<close>

definition wire_line :: pub_line where
  "wire_line = ((fst linked)\<lparr>pc_asked := [''m''], pc_outstanding := [(sent_call, 0, 5000)]\<rparr>, (snd linked)\<lparr>bk_sent := [(0, 0, ''m'')]\<rparr>)"

definition taken_line :: pub_line where
  "taken_line = (fst wire_line, (snd linked)\<lparr>bk_stored := [(0, ''m'')], bk_unconfirmed := [(0, 0)]\<rparr>)"

lemma reach_wire: "preach 5000 M (Some ''amqp://broker'') wire_line"
proof -
  have "preach 5000 M (Some ''amqp://broker'') (fst linked, snd linked)" using reach_linked by simp
  then have "preach 5000 M (Some ''amqp://broker'') (publish_begin 5000 0 ''m'' (fst linked), snd linked)" (is "preach _ _ _ (?s, ?b)")
    by (rule preach_then) (use pstep.publish [of 5000 M "fst linked" "snd linked" "''m''"] in \<open>simp add: linked_def initial_pub_broker_def\<close>)
  then have "preach 5000 M (Some ''amqp://broker'') (publish_handed sent_call 0 (?s, ?b))"
    by (rule preach.further) (rule pstep.handed, simp add: publish_begin_def linked_def initial_publisher_def sent_call_def pub_enabled_def)
  moreover have "publish_handed sent_call 0 (?s, ?b) = wire_line"
    by (simp add: publish_handed_def publish_begin_def wire_line_def linked_def initial_publisher_def initial_pub_broker_def sent_call_def pub_enabled_def)
  ultimately show ?thesis by simp
qed

lemma reach_taken: "preach 5000 M (Some ''amqp://broker'') taken_line"
  by (rule preach.further [OF reach_wire])
    (use pstep.taken [of 0 0 "''m''" "snd wire_line" 5000 M "fst wire_line"] in
      \<open>simp add: wire_line_def taken_line_def linked_def initial_pub_broker_def\<close>)

text \<open>The confirm arrives.\<close>

theorem publish_contract_witness:
  "\<exists>s b. preach 5000 30000 (Some ''amqp://broker'') (s, b) \<and> pc_settled s = [(0, Resolved)] \<and> (0, pc_asked s ! 0) \<in> set (bk_stored b)"
proof -
  let ?s = "on_confirm 0 Resolved (fst taken_line)" and ?b = "(snd taken_line)\<lparr>bk_unconfirmed := []\<rparr>"
  have run: "preach 5000 30000 (Some ''amqp://broker'') (?s, ?b)"
    by (rule preach.further [OF reach_taken])
      (use pstep.confirmed [of 0 0 "snd taken_line" 5000 30000 "fst taken_line"] in \<open>simp add: taken_line_def\<close>)
  have "pc_settled ?s = [(0, Resolved)]"
    by (simp add: taken_line_def wire_line_def on_confirm_def linked_def initial_publisher_def sent_call_def)
  then show ?thesis using publish_contract [OF run] run by (intro exI [of _ ?s] exI [of _ ?b]) simp
qed

text \<open>A stock event on the wire finds its exchange, queue and binding.\<close>

theorem topology_before_messages_witness:
  "\<exists>s b. preach 5000 30000 (Some ''amqp://broker'') (s, b) \<and> bk_sent b = [(0, 0, ''m'')] \<and> set (declarations cart_INVENTORY_TOPOLOGY) \<subseteq> bk_declared b"
proof -
  have run: "preach 5000 30000 (Some ''amqp://broker'') (fst wire_line, snd wire_line)" using reach_wire by simp
  have "set (declarations cart_INVENTORY_TOPOLOGY) \<subseteq> bk_declared (snd wire_line) \<or> (\<exists>ds. (cart_INVENTORY_TOPOLOGY, 0, ds) \<in> set (pc_registering (fst wire_line)))"
    by (rule topology_before_messages [OF run]) (simp_all add: wire_line_def linked_def)
  then have "set (declarations cart_INVENTORY_TOPOLOGY) \<subseteq> bk_declared (snd wire_line)" by (simp add: wire_line_def linked_def initial_publisher_def)
  then show ?thesis using run by (intro exI [of _ "fst wire_line"] exI [of _ "snd wire_line"]) (simp add: wire_line_def linked_def)
qed

section \<open>What a rejection means, and the window in \<^verbatim>\<open>open()\<close>\<close>

text \<open>A rejected message may have been taken: the channel closes before the confirm arrives.\<close>

lemma rejected_but_stored:
  "\<exists>s b e. preach 5000 M (Some ''amqp://broker'') (s, b) \<and> pc_settled s = [(0, Unavailable e)] \<and> bk_stored b = [(0, ''m'')]"
proof -
  let ?s = "channel_gone 0 (fst taken_line)" and ?b = "pub_lose_channel (answered_to 0 (fst taken_line)) 0 (snd taken_line)"
  have "preach 5000 M (Some ''amqp://broker'') (?s, ?b)"
    by (rule preach.further [OF reach_taken])
      (use pstep.channel_lost [of 0 "snd taken_line" 5000 M "fst taken_line"] in \<open>simp add: taken_line_def linked_def\<close>)
  moreover have "pc_settled ?s = [(0, Unavailable ''broker did not confirm: channel closed'')]"
    by (simp add: taken_line_def wire_line_def linked_def initial_publisher_def sent_call_def channel_gone_def unconfirmed_fail_def settle_calls_def
        pub_onChannelClosed_def pub_closeQuietly_def)
  moreover have "bk_stored ?b = [(0, ''m'')]" by (simp add: taken_line_def pub_lose_channel_def)
  ultimately show ?thesis by blast
qed

text \<open>
  A connection lost between the last answer \<^verbatim>\<open>open()\<close> awaited and the code after it is adopted all the same: its end was
  announced before anybody listened for it. The client says it is connected, no event short of a shutdown changes that,
  and every publish fails with the library's error instead of the client's.
\<close>

definition adopted_dead :: "pub_line \<Rightarrow> bool" where
  "adopted_dead = (\<lambda>(s, b). pub_connected s \<and> pc_opening s = None \<and> pc_reconnectTimer s = None \<and> 0 < pc_next s \<and>
     (\<exists>c. pc_connection s = Some c \<and> pc_channel s = Some c \<and> c \<notin> bk_connections b \<and> c \<notin> bk_channels b))"

lemma adopted_dead_reached: "\<exists>s b. preach T M (Some ''amqp://broker'') (s, b) \<and> adopted_dead (s, b)"
proof -
  let ?s = "fst answered_line" and ?b = "snd answered_line"
  have "preach T M (Some ''amqp://broker'') (pub_onConnectionClosed M 0 (channel_gone 0 ?s),
      (pub_lose_channel (answered_to 0 ?s) 0 ?b)\<lparr>bk_connections := bk_connections ?b - {0}\<rparr>)" (is "preach _ _ _ (?s1, ?b1)")
    by (rule preach.further [OF reach_answered])
      (use pstep.connection_lost [of 0 ?b T M ?s] in \<open>simp add: answered_line_def\<close>)
  moreover have "?s1 = ?s"
    by (simp add: answered_line_def channel_gone_def unconfirmed_fail_def settle_calls_def initial_publisher_def pub_onConnectionClosed_def)
  ultimately have "preach T M (Some ''amqp://broker'') (?s, ?b1)" by simp
  then have "preach T M (Some ''amqp://broker'') (open_continue 0 AtBoot 0 [] ?s, ?b1)"
    by (rule preach_then) (rule pstep.continued, simp add: answered_line_def)
  moreover have "adopted_dead (open_continue 0 AtBoot 0 [] ?s, ?b1)"
    by (simp add: adopted_dead_def open_continue_def answered_line_def open_adopt_def initial_publisher_def pub_lose_channel_def pub_connected_def)
  ultimately show ?thesis by blast
qed

lemma adopted_dead_stays:
  assumes "pstep T M (s, b) (s', b')" "adopted_dead (s, b)" "pc_state s' \<noteq> ClClosed"
  shows "adopted_dead (s', b')"
proof -
  have calls: "link_of s' = link_of s \<Longrightarrow> bk_connections b' = bk_connections b \<Longrightarrow> bk_channels b' = bk_channels b \<Longrightarrow> adopted_dead (s', b')"
    using assms(2) by (simp add: adopted_dead_def link_of_def pub_connected_def)
  have other: "link_of (channel_gone c s) = link_of s" "link_of (pub_onConnectionClosed M c (channel_gone c s)) = link_of s"
    if "pc_channel s \<noteq> Some c" "pc_connection s \<noteq> Some c" for c
    using that by (simp_all add: link_of_def channel_gone_def unconfirmed_fail_def settle_calls_def pub_onChannelClosed_def pub_onConnectionClosed_def Let_def)
  have no: "pc_next s \<noteq> 0" "pc_opening s = None" "pc_reconnectTimer s = None" using assms(2) by (auto simp: adopted_dead_def)
  show ?thesis using assms(1)
  proof (cases rule: pstep.cases)
    case (channel_lost c)
    then have "pc_channel s \<noteq> Some c" "pc_connection s \<noteq> Some c" using assms(2) by (auto simp: adopted_dead_def)
    then have "link_of s' = link_of s" using other channel_lost(1) by simp
    then show ?thesis using assms(2) channel_lost(2) by (auto simp: adopted_dead_def link_of_def pub_connected_def pub_lose_channel_def)
  next
    case (connection_lost c)
    then have "pc_channel s \<noteq> Some c" "pc_connection s \<noteq> Some c" using assms(2) by (auto simp: adopted_dead_def)
    then have "link_of s' = link_of s" using other connection_lost(1) by simp
    then show ?thesis using assms(2) connection_lost(2) by (auto simp: adopted_dead_def link_of_def pub_connected_def pub_lose_channel_def)
  next
    case (handed w c)
    then have "s' = fst (publish_handed w c (s, b))" "bk_connections b' = bk_connections b" "bk_channels b' = bk_channels b"
      by (auto simp: publish_handed_def Let_def split: if_splits)
    then show ?thesis using calls link_of_calls(11) by metis
  next
    case shutdown
    then show ?thesis using assms(2,3)
      by (auto simp: adopted_dead_def pub_connected_def onApplicationShutdown_def rejectWaiters_def settle_calls_def pub_closeQuietly_def Let_def)
  qed (rule calls; use no in \<open>simp add: link_of_calls\<close>)+
qed

lemma adopted_dead_fails:
  assumes "adopted_dead (s, b)" "(w, Some c) \<in> set (pc_woken s)" "pc_channel s = Some c"
  shows "(ca_id w, ChannelClosed) \<in> set (pc_settled (fst (publish_handed w c (s, b))))"
  using assms by (auto simp: adopted_dead_def publish_handed_def settle_calls_def)

end
