(* ===== verification/ProductService.thy ===== *)
theory ProductService
  imports InventoryWire
begin

text \<open>
  The product service (\<^verbatim>\<open>services/product/src\<close>): the products table and its repository, the request schemas, the
  HTTP client of the inventory service in front of that service's own routes, the operations that keep a
  product and its stock record together, and the routes.

  An operation awaits its calls one after another; call \<open>n\<close> is a statement on the products table with the
  database's verdict \<open>pe_db\<close>, or an HTTP request with the network's verdict \<open>pe_net\<close>, handled by the inventory
  service with the verdicts \<open>pe_idb n\<close> of its own database. Before every call other requests may have changed
  either service (\<open>pe_meanwhile\<close>). Log lines and the correlation id are not represented.
\<close>

section \<open>The products table\<close>

datatype ProductStatus = DRAFT | ACTIVE | ARCHIVED

record Product =
  pr_id :: string
  pr_sku :: string
  pr_name :: string
  pr_description :: "string option"
  pr_priceCents :: int
  pr_currency :: string
  pr_status :: ProductStatus
  pr_createdAt :: int
  pr_updatedAt :: int

record InitialStock =
  st_warehouse :: "string option"
  st_quantity :: "int option"
  st_reorderLevel :: "int option"

record CreateProductInput =
  np_sku :: string
  np_name :: string
  np_description :: "string option"
  np_priceCents :: int
  np_currency :: string
  np_status :: ProductStatus
  np_stock :: "InitialStock option"

record UpdateProductInput =
  up_sku :: "string option"
  up_name :: "string option"
  up_description :: "string option"
  up_priceCents :: "int option"
  up_currency :: "string option"
  up_status :: "ProductStatus option"

datatype ProductSortField = Product_createdAt | Product_name | Product_priceCents

record ListProductsQuery =
  pq_page :: nat
  pq_limit :: nat
  pq_status :: "ProductStatus option"
  pq_search :: "string option"
  pq_sortBy :: ProductSortField
  pq_order :: SortOrder

section \<open>Schemas\<close>

fun product_status_text :: "ProductStatus \<Rightarrow> string" where
  "product_status_text DRAFT = ''DRAFT''"
| "product_status_text ACTIVE = ''ACTIVE''"
| "product_status_text ARCHIVED = ''ARCHIVED''"

definition PRODUCT_STATUSES :: "ProductStatus list" where
  "PRODUCT_STATUSES = [DRAFT, ACTIVE, ARCHIVED]"

fun product_sort_text :: "ProductSortField \<Rightarrow> string" where
  "product_sort_text Product_createdAt = ''createdAt''"
| "product_sort_text Product_name = ''name''"
| "product_sort_text Product_priceCents = ''priceCents''"

definition PRODUCT_SORT_FIELDS :: "ProductSortField list" where
  "PRODUCT_SORT_FIELDS = [Product_createdAt, Product_name, Product_priceCents]"

text \<open>The SKU rule is written out a second time here, word for word the inventory service's.\<close>

definition product_skuField :: "json \<Rightarrow> string option" where
  "product_skuField v = (case trimmed_string 3 64 v of
     Some s \<Rightarrow> (if list_all is_sku_char s then Some (js_toUpperCase s) else None)
   | None \<Rightarrow> None)"

definition currencyField :: "json \<Rightarrow> string option" where
  "currencyField v = map_option js_toUpperCase (trimmed_string 3 3 v)"

definition statusField :: "json \<Rightarrow> ProductStatus option" where
  "statusField v = (case v of JString s \<Rightarrow> enumField product_status_text PRODUCT_STATUSES s | _ \<Rightarrow> None)"

definition PRODUCT_FIELDS :: "string list" where
  "PRODUCT_FIELDS = [''sku'', ''name'', ''description'', ''priceCents'', ''currency'', ''status'']"

definition initialStockSchema :: "json \<Rightarrow> InitialStock option" where
  "initialStockSchema v = (case v of
     JObject fs \<Rightarrow>
       (if \<not> strict_keys [''warehouse'', ''quantity'', ''reorderLevel''] fs then None
        else case optional (trimmed_string 1 64) (obj_get fs ''warehouse'') of None \<Rightarrow> None | Some wh \<Rightarrow>
          (case optional (int_between 0 1000000000) (obj_get fs ''quantity'') of None \<Rightarrow> None | Some q \<Rightarrow>
          (case optional (int_between 0 1000000000) (obj_get fs ''reorderLevel'') of None \<Rightarrow> None | Some rl \<Rightarrow>
             Some \<lparr>st_warehouse = wh, st_quantity = q, st_reorderLevel = rl\<rparr>)))
   | _ \<Rightarrow> None)"

definition createProductSchema :: "json \<Rightarrow> CreateProductInput option" where
  "createProductSchema v = (case v of
     JObject fs \<Rightarrow>
       (if \<not> strict_keys (PRODUCT_FIELDS @ [''stock'']) fs then None
        else case required product_skuField (obj_get fs ''sku'') of None \<Rightarrow> None | Some sk \<Rightarrow>
          (case required (trimmed_string 1 200) (obj_get fs ''name'') of None \<Rightarrow> None | Some nm \<Rightarrow>
          (case optional (trimmed_string 0 5000) (obj_get fs ''description'') of None \<Rightarrow> None | Some ds \<Rightarrow>
          (case required (int_between 0 100000000) (obj_get fs ''priceCents'') of None \<Rightarrow> None | Some pc \<Rightarrow>
          (case with_default ''USD'' currencyField (obj_get fs ''currency'') of None \<Rightarrow> None | Some cu \<Rightarrow>
          (case with_default DRAFT statusField (obj_get fs ''status'') of None \<Rightarrow> None | Some st \<Rightarrow>
          (case optional initialStockSchema (obj_get fs ''stock'') of None \<Rightarrow> None | Some sto \<Rightarrow>
             Some \<lparr>np_sku = sk, np_name = nm, np_description = ds, np_priceCents = pc, np_currency = cu, np_status = st,
                   np_stock = sto\<rparr>)))))))
   | _ \<Rightarrow> None)"

definition updateProductSchema :: "json \<Rightarrow> UpdateProductInput option" where
  "updateProductSchema v = (case v of
     JObject fs \<Rightarrow>
       (if \<not> strict_keys PRODUCT_FIELDS fs then None
        else case optional product_skuField (obj_get fs ''sku'') of None \<Rightarrow> None | Some sk \<Rightarrow>
          (case optional (trimmed_string 1 200) (obj_get fs ''name'') of None \<Rightarrow> None | Some nm \<Rightarrow>
          (case optional (trimmed_string 0 5000) (obj_get fs ''description'') of None \<Rightarrow> None | Some ds \<Rightarrow>
          (case optional (int_between 0 100000000) (obj_get fs ''priceCents'') of None \<Rightarrow> None | Some pc \<Rightarrow>
          (case optional currencyField (obj_get fs ''currency'') of None \<Rightarrow> None | Some cu \<Rightarrow>
          (case optional statusField (obj_get fs ''status'') of None \<Rightarrow> None | Some st \<Rightarrow>
             (if sk = None \<and> nm = None \<and> ds = None \<and> pc = None \<and> cu = None \<and> st = None then None
              else Some \<lparr>up_sku = sk, up_name = nm, up_description = ds, up_priceCents = pc, up_currency = cu, up_status = st\<rparr>)))))))
   | _ \<Rightarrow> None)"

definition listProductsQuerySchema :: "(string \<times> string) list \<Rightarrow> ListProductsQuery option" where
  "listProductsQuerySchema q =
     (case coerced_between 1 None 1 (map_of q ''page'') of None \<Rightarrow> None | Some page \<Rightarrow>
     (case coerced_between 1 (Some 100) 20 (map_of q ''limit'') of None \<Rightarrow> None | Some limit \<Rightarrow>
     (case query_optional (enumField product_status_text PRODUCT_STATUSES) (map_of q ''status'') of None \<Rightarrow> None | Some st \<Rightarrow>
     (case query_optional (query_text 1 120) (map_of q ''search'') of None \<Rightarrow> None | Some se \<Rightarrow>
     (case query_optional (enumField product_sort_text PRODUCT_SORT_FIELDS) (map_of q ''sortBy'') of None \<Rightarrow> None | Some by_field \<Rightarrow>
     (case query_optional orderField (map_of q ''order'') of None \<Rightarrow> None | Some ord \<Rightarrow>
        Some \<lparr>pq_page = page, pq_limit = limit, pq_status = st, pq_search = se,
          pq_sortBy = (case by_field of None \<Rightarrow> Product_createdAt | Some f \<Rightarrow> f),
          pq_order = (case ord of None \<Rightarrow> Descending | Some d \<Rightarrow> d)\<rparr>))))))"

section \<open>The repository\<close>

record product_world =
  product_rows :: "Product list"
  inventory :: inventory_db

record product_env =
  pe_is_uuid :: "string \<Rightarrow> bool"
  pe_db :: "nat \<Rightarrow> db_verdict"
  pe_net :: "nat \<Rightarrow> net_verdict"
  pe_idb :: "nat \<Rightarrow> nat \<Rightarrow> db_verdict"
  pe_engine :: "nat \<Rightarrow> query_engine"
  pe_uuid :: "nat \<Rightarrow> string"
  pe_now :: "nat \<Rightarrow> int"
  pe_meanwhile :: "nat \<Rightarrow> product_world \<Rightarrow> product_world"
  pe_production :: bool

text \<open>Statement \<open>n\<close> on the products table, or request \<open>n\<close> to the inventory service.\<close>

definition at_products :: "product_env \<Rightarrow> nat \<Rightarrow> (Product list, thrown, 'a) act \<Rightarrow> (product_world, thrown, 'a) act" where
  "at_products E n m = (\<lambda>w. let w = pe_meanwhile E n w; (r, ps) = transaction (db_fault (pe_db E n)) m (product_rows w)
     in (r, w\<lparr>product_rows := ps\<rparr>))"

definition at_inventory :: "product_env \<Rightarrow> nat \<Rightarrow> (inventory_db, thrown, 'a) act \<Rightarrow> (product_world, thrown, 'a) act" where
  "at_inventory E n m = (\<lambda>w. let w = pe_meanwhile E n w; (r, db) = m (inventory w) in (r, w\<lparr>inventory := db\<rparr>))"

definition product_matches :: "query_engine \<Rightarrow> ListProductsQuery \<Rightarrow> Product \<Rightarrow> bool" where
  "product_matches Q q p \<longleftrightarrow>
     (case pq_status q of None \<Rightarrow> True | Some st \<Rightarrow> pr_status p = st) \<and>
     (case pq_search q of None \<Rightarrow> True | Some s \<Rightarrow> qe_contains Q (pr_name p) s \<or> qe_contains Q (pr_sku p) s)"

definition sorted_products :: "query_engine \<Rightarrow> ListProductsQuery \<Rightarrow> Product list \<Rightarrow> Product list" where
  "sorted_products Q q rows = (case pq_sortBy q of
     Product_createdAt \<Rightarrow> order_by pr_createdAt (pq_order q) (scanned (qe_scan Q) rows)
   | Product_name \<Rightarrow> order_by (\<lambda>p. qe_collate Q (pr_name p)) (pq_order q) (scanned (qe_scan Q) rows)
   | Product_priceCents \<Rightarrow> order_by pr_priceCents (pq_order q) (scanned (qe_scan Q) rows))"

definition product_list :: "product_env \<Rightarrow> nat \<Rightarrow> ListProductsQuery \<Rightarrow> (product_world, thrown, Product list \<times> nat) act" where
  "product_list E n q = at_products E n (gets (\<lambda>ps.
     let Q = pe_engine E n; rows = filter (product_matches Q q) ps
     in (page_rows (pq_page q) (pq_limit q) (sorted_products Q q rows), length rows)))"

definition product_findById :: "product_env \<Rightarrow> nat \<Rightarrow> string \<Rightarrow> (product_world, thrown, Product option) act" where
  "product_findById E n i = at_products E n (gets (find_row pr_id i))"

definition product_findBySku :: "product_env \<Rightarrow> nat \<Rightarrow> string \<Rightarrow> (product_world, thrown, Product option) act" where
  "product_findBySku E n s = at_products E n (gets (find_row pr_sku s))"

definition product_row :: "string \<Rightarrow> int \<Rightarrow> CreateProductInput \<Rightarrow> Product" where
  "product_row uuid now input = \<lparr>pr_id = uuid, pr_sku = np_sku input, pr_name = np_name input,
     pr_description = np_description input, pr_priceCents = np_priceCents input, pr_currency = np_currency input,
     pr_status = np_status input, pr_createdAt = now, pr_updatedAt = now\<rparr>"

definition product_create :: "product_env \<Rightarrow> nat \<Rightarrow> CreateProductInput \<Rightarrow> (product_world, thrown, Product) act" where
  "product_create E n input = at_products E n (\<lambda>ps.
     let row = product_row (pe_uuid E n) (pe_now E n) input
     in if pr_id row \<in> set (map pr_id ps) then (Inl (uniqueViolation ''id''), ps)
        else if pr_sku row \<in> set (map pr_sku ps) then (Inl (uniqueViolation ''sku''), ps)
        else (Inr row, ps @ [row]))"

definition patch_product :: "int \<Rightarrow> UpdateProductInput \<Rightarrow> Product \<Rightarrow> Product" where
  "patch_product now input p = p\<lparr>
     pr_sku := or_else (up_sku input) (pr_sku p), pr_name := or_else (up_name input) (pr_name p),
     pr_description := (case up_description input of None \<Rightarrow> pr_description p | Some d \<Rightarrow> Some d),
     pr_priceCents := or_else (up_priceCents input) (pr_priceCents p), pr_currency := or_else (up_currency input) (pr_currency p),
     pr_status := or_else (up_status input) (pr_status p), pr_updatedAt := now\<rparr>"

definition product_update :: "product_env \<Rightarrow> nat \<Rightarrow> string \<Rightarrow> UpdateProductInput \<Rightarrow> (product_world, thrown, Product) act" where
  "product_update E n i input = at_products E n (\<lambda>ps. case find_row pr_id i ps of
     None \<Rightarrow> (Inl recordNotFound, ps)
   | Some p \<Rightarrow>
       (let new = patch_product (pe_now E n) input p
        in if pr_sku new \<in> set (map pr_sku (delete_rows pr_id i ps)) then (Inl (uniqueViolation ''sku''), ps)
           else (Inr new, update_rows pr_id i (patch_product (pe_now E n) input) ps)))"

definition product_delete :: "product_env \<Rightarrow> nat \<Rightarrow> string \<Rightarrow> (product_world, thrown, unit) act" where
  "product_delete E n i = at_products E n (\<lambda>ps. case find_row pr_id i ps of
     None \<Rightarrow> (Inl recordNotFound, ps)
   | Some p \<Rightarrow> (Inr (), delete_rows pr_id i ps))"

section \<open>The inventory client\<close>

text \<open>A \<^verbatim>\<open>null\<close> body is \<open>None\<close>; a single item comes as a list of one.\<close>

definition stock_toError :: "wire_response \<Rightarrow> thrown" where
  "stock_toError resp =
     (let msg = or_else (wire_message resp) (''HTTP '' @ int_str (wire_status resp))
      in ThrownApp
           (if wire_status resp \<ge> 500 then ServiceUnavailableError (''Inventory service failed: '' @ msg)
            else if wire_status resp = 404 then ServiceUnavailableError (''Inventory record is missing: '' @ msg)
            else if wire_status resp = 409 then ConflictError msg None
            else BadRequestError (''Inventory rejected the request: '' @ msg) None))"

definition client_reads :: "bool \<Rightarrow> wire_response \<Rightarrow> thrown + InventoryItemView list option" where
  "client_reads nullOn404 resp =
     (if wire_status resp = 204 then Inr None
      else if 200 \<le> wire_status resp \<and> wire_status resp < 300 then Inr (Some (wire_data resp))
      else if wire_status resp = 404 \<and> nullOn404 then Inr None
      else Inl (stock_toError resp))"

definition client_request ::
  "product_env \<Rightarrow> nat \<Rightarrow> bool \<Rightarrow> (inventory_db, thrown, response) act \<Rightarrow> (product_world, thrown, InventoryItemView list option) act" where
  "client_request E n nullOn404 handler = at_inventory E n (\<lambda>db.
     let (r, db') = handler db; unreachable = ThrownApp (ServiceUnavailableError ''Inventory service is unreachable'')
     in case pe_net E n of
          Unreachable \<Rightarrow> (Inl unreachable, db)
        | ReplyLost \<Rightarrow> (Inl unreachable, db')
        | Delivered \<Rightarrow> (client_reads nullOn404 (answer (pe_production E) r), db'))"

definition stock_request :: "product_env \<Rightarrow> nat \<Rightarrow> bool \<Rightarrow> InventoryRequest \<Rightarrow> (product_world, thrown, InventoryItemView list option) act" where
  "stock_request E n nullOn404 req =
     client_request E n nullOn404 (handle_request (pe_is_uuid E) (\<lambda>k. db_fault (pe_idb E n k)) (pe_uuid E n) (pe_now E n) req)"

definition listing_data :: "ListingReply \<Rightarrow> InventoryItemView list" where
  "listing_data reply = (case reply of ItemsPage page \<Rightarrow> pg_items page | _ \<Rightarrow> [])"

definition listing_request :: "product_env \<Rightarrow> nat \<Rightarrow> (string \<times> string) list \<Rightarrow> (product_world, thrown, InventoryItemView list option) act" where
  "listing_request E n q = client_request E n False (and_then
     (handle_listing (pe_engine E n) (pe_is_uuid E) (\<lambda>k. db_fault (pe_idb E n k)) (GetItems q)) (\<lambda>reply. ret (200, listing_data reply)))"

definition first_item :: "InventoryItemView list option \<Rightarrow> InventoryItemView option" where
  "first_item items = (case items of Some (it # _) \<Rightarrow> Some it | _ \<Rightarrow> None)"

record CreateInventoryInput =
  ci_sku :: string
  ci_productId :: string
  ci_warehouse :: "string option"
  ci_quantity :: "int option"
  ci_reorderLevel :: "int option"

record UpdateInventoryInput =
  ui_sku :: "string option"
  ui_warehouse :: "string option"
  ui_quantity :: "int option"
  ui_reorderLevel :: "int option"

definition create_body :: "CreateInventoryInput \<Rightarrow> json" where
  "create_body input = JObject (present ''warehouse'' JString (ci_warehouse input) @ present ''quantity'' JInt (ci_quantity input) @
     present ''reorderLevel'' JInt (ci_reorderLevel input) @
     [(''sku'', JString (ci_sku input)), (''productId'', JString (ci_productId input))])"

definition update_body :: "UpdateInventoryInput \<Rightarrow> json" where
  "update_body input = JObject (present ''sku'' JString (ui_sku input) @ present ''warehouse'' JString (ui_warehouse input) @
     present ''quantity'' JInt (ui_quantity input) @ present ''reorderLevel'' JInt (ui_reorderLevel input))"

definition stock_create :: "product_env \<Rightarrow> nat \<Rightarrow> CreateInventoryInput \<Rightarrow> (product_world, thrown, InventoryItemView option) act" where
  "stock_create E n input = and_then (stock_request E n False (PostItem (create_body input))) (\<lambda>items. ret (first_item items))"

definition stock_findById :: "product_env \<Rightarrow> nat \<Rightarrow> string \<Rightarrow> (product_world, thrown, InventoryItemView option) act" where
  "stock_findById E n i = and_then (stock_request E n True (GetItem i)) (\<lambda>items. ret (first_item items))"

definition stock_findByProductId :: "product_env \<Rightarrow> nat \<Rightarrow> string \<Rightarrow> (product_world, thrown, InventoryItemView option) act" where
  "stock_findByProductId E n pid =
     and_then (listing_request E n [(''productId'', pid), (''limit'', ''1'')]) (\<lambda>items. ret (first_item items))"

definition MAX_BULK_IDS :: nat where
  "MAX_BULK_IDS = 100"

function chunked :: "'a list \<Rightarrow> 'a list list" where
  "chunked xs = (if xs = [] then [] else take MAX_BULK_IDS xs # chunked (drop MAX_BULK_IDS xs))"
  by pat_completeness auto
termination by (relation "measure length") (auto simp: MAX_BULK_IDS_def)

declare chunked.simps [simp del]

definition remember_items :: "(string \<rightharpoonup> InventoryItemView) \<Rightarrow> InventoryItemView list \<Rightarrow> (string \<rightharpoonup> InventoryItemView)" where
  "remember_items found items = foldl (\<lambda>m it. m(productId it \<mapsto> it)) found items"

fun find_chunks ::
  "product_env \<Rightarrow> nat \<Rightarrow> string list list \<Rightarrow> (string \<rightharpoonup> InventoryItemView) \<Rightarrow> (product_world, thrown, string \<rightharpoonup> InventoryItemView) act" where
  "find_chunks E n [] found = ret found"
| "find_chunks E n (c # cs) found =
     and_then (listing_request E n [(''productIds'', join_with '','' c), (''limit'', int_str (int MAX_BULK_IDS))]) (\<lambda>items.
     find_chunks E (n + 1) cs (remember_items found (or_else items [])))"

definition stock_findByProductIds ::
  "product_env \<Rightarrow> nat \<Rightarrow> string list \<Rightarrow> (product_world, thrown, string \<rightharpoonup> InventoryItemView) act" where
  "stock_findByProductIds E n pids = find_chunks E n (chunked pids) (\<lambda>_. None)"

definition stock_update ::
  "product_env \<Rightarrow> nat \<Rightarrow> string option \<Rightarrow> string \<Rightarrow> UpdateInventoryInput \<Rightarrow> (product_world, thrown, InventoryItemView option) act" where
  "stock_update E n actor i input =
     and_then (stock_request E n False (PatchItem i (update_body input) actor)) (\<lambda>items. ret (first_item items))"

definition stock_delete :: "product_env \<Rightarrow> nat \<Rightarrow> string \<Rightarrow> (product_world, thrown, unit) act" where
  "stock_delete E n i = and_then (stock_request E n True (DeleteItem i)) (\<lambda>_. ret ())"

text \<open>The client as the service gets it: every method, at the call's number.\<close>

record inventory_client =
  sc_create :: "nat \<Rightarrow> CreateInventoryInput \<Rightarrow> (product_world, thrown, InventoryItemView option) act"
  sc_findById :: "nat \<Rightarrow> string \<Rightarrow> (product_world, thrown, InventoryItemView option) act"
  sc_findByProductId :: "nat \<Rightarrow> string \<Rightarrow> (product_world, thrown, InventoryItemView option) act"
  sc_findByProductIds :: "nat \<Rightarrow> string list \<Rightarrow> (product_world, thrown, string \<rightharpoonup> InventoryItemView) act"
  sc_update :: "nat \<Rightarrow> string option \<Rightarrow> string \<Rightarrow> UpdateInventoryInput \<Rightarrow> (product_world, thrown, InventoryItemView option) act"
  sc_delete :: "nat \<Rightarrow> string \<Rightarrow> (product_world, thrown, unit) act"

definition http_inventory_client :: "product_env \<Rightarrow> inventory_client" where
  "http_inventory_client E = \<lparr>sc_create = stock_create E, sc_findById = stock_findById E,
     sc_findByProductId = stock_findByProductId E, sc_findByProductIds = stock_findByProductIds E,
     sc_update = stock_update E, sc_delete = stock_delete E\<rparr>"

section \<open>Views\<close>

datatype StockStatus = IN_STOCK | LOW_STOCK | OUT_OF_STOCK | UNPROVISIONED | UNKNOWN

record ProductStock =
  ps_inventoryId :: string
  ps_sku :: string
  ps_warehouse :: string
  ps_quantity :: int
  ps_reserved :: int
  ps_available :: int
  ps_reorderLevel :: int

record ProductView =
  pv_product :: Product
  pv_stock :: "ProductStock option"
  pv_stockStatus :: StockStatus

definition toStockStatus :: "InventoryItemView option \<Rightarrow> bool \<Rightarrow> StockStatus" where
  "toStockStatus item reachable = (case item of
     None \<Rightarrow> (if reachable then UNPROVISIONED else UNKNOWN)
   | Some it \<Rightarrow> (if available it \<le> 0 then OUT_OF_STOCK else if lowStock it then LOW_STOCK else IN_STOCK))"

definition product_stock :: "InventoryItemView \<Rightarrow> ProductStock" where
  "product_stock it = \<lparr>ps_inventoryId = item_id it, ps_sku = sku it, ps_warehouse = warehouse it, ps_quantity = quantity it,
     ps_reserved = reserved it, ps_available = available it, ps_reorderLevel = reorderLevel it\<rparr>"

definition toProductView :: "Product \<Rightarrow> InventoryItemView option \<Rightarrow> bool \<Rightarrow> ProductView" where
  "toProductView p item reachable = \<lparr>pv_product = p, pv_stock = map_option product_stock item,
     pv_stockStatus = toStockStatus item reachable\<rparr>"

section \<open>The service\<close>

definition getProduct :: "product_env \<Rightarrow> nat \<Rightarrow> string \<Rightarrow> (product_world, thrown, Product) act" where
  "getProduct E n i = and_then (product_findById E n i) (\<lambda>found. case found of
     None \<Rightarrow> throw (ThrownApp (NotFoundError (''Product '' @ quote i @ '' was not found'')))
   | Some p \<Rightarrow> ret p)"

definition lookUpStock :: "inventory_client \<Rightarrow> nat \<Rightarrow> Product \<Rightarrow> (product_world, thrown, InventoryItemView option \<times> bool) act" where
  "lookUpStock K n p = catching
     (and_then (sc_findByProductId K n (pr_id p)) (\<lambda>item. ret (item, True))) (\<lambda>_. ret (None, False))"

definition readStock :: "inventory_client \<Rightarrow> nat \<Rightarrow> Product \<Rightarrow> (product_world, thrown, InventoryItemView option) act" where
  "readStock K n p = and_then (lookUpStock K n p) (\<lambda>(item, reachable). ret item)"

definition readStockForPage ::
  "inventory_client \<Rightarrow> nat \<Rightarrow> string list \<Rightarrow> (product_world, thrown, (string \<rightharpoonup> InventoryItemView) \<times> bool) act" where
  "readStockForPage K n pids = catching
     (and_then (sc_findByProductIds K n pids) (\<lambda>found. ret (found, True))) (\<lambda>_. ret (\<lambda>_. None, False))"

definition compensate :: "(product_world, thrown, unit) act \<Rightarrow> (product_world, thrown, unit) act" where
  "compensate undo = catching undo (\<lambda>_. ret ())"

definition discardStock :: "inventory_client \<Rightarrow> nat \<Rightarrow> string \<Rightarrow> (product_world, thrown, unit) act" where
  "discardStock K n pid = and_then (sc_findByProductId K n pid) (\<lambda>item. case item of
     None \<Rightarrow> ret ()
   | Some it \<Rightarrow> sc_delete K (n + 1) (item_id it))"

definition products_list :: "product_env \<Rightarrow> inventory_client \<Rightarrow> ListProductsQuery \<Rightarrow> (product_world, thrown, ProductView list \<times> nat) act" where
  "products_list E K q = and_then (product_list E 0 q) (\<lambda>(items, number).
     if items = [] then ret ([], number)
     else and_then (readStockForPage K 1 (map pr_id items)) (\<lambda>(found, reachable).
       ret (map (\<lambda>p. toProductView p (found (pr_id p)) reachable) items, number)))"

definition products_getById :: "product_env \<Rightarrow> inventory_client \<Rightarrow> string \<Rightarrow> (product_world, thrown, ProductView) act" where
  "products_getById E K i = and_then (getProduct E 0 i) (\<lambda>p.
     and_then (lookUpStock K 1 p) (\<lambda>(item, reachable). ret (toProductView p item reachable)))"

text \<open>\<^verbatim>\<open>{ ...stock, sku: product.sku, productId: product.id }\<close> and \<^verbatim>\<open>{ sku }\<close>\<close>

definition provision_input :: "CreateProductInput \<Rightarrow> Product \<Rightarrow> CreateInventoryInput" where
  "provision_input input p = \<lparr>ci_sku = pr_sku p, ci_productId = pr_id p,
     ci_warehouse = Option.bind (np_stock input) st_warehouse, ci_quantity = Option.bind (np_stock input) st_quantity,
     ci_reorderLevel = Option.bind (np_stock input) st_reorderLevel\<rparr>"

definition sku_patch :: "string \<Rightarrow> UpdateInventoryInput" where
  "sku_patch sk = \<lparr>ui_sku = Some sk, ui_warehouse = None, ui_quantity = None, ui_reorderLevel = None\<rparr>"

definition sku_taken :: "string \<Rightarrow> thrown" where
  "sku_taken sk = ThrownApp (ConflictError (''A product with SKU '' @ quote sk @ '' already exists'') None)"

definition products_create :: "product_env \<Rightarrow> inventory_client \<Rightarrow> CreateProductInput \<Rightarrow> (product_world, thrown, ProductView) act" where
  "products_create E K input = and_then (product_findBySku E 0 (np_sku input)) (\<lambda>existing.
     if existing \<noteq> None then throw (sku_taken (np_sku input))
     else and_then (product_create E 1 input) (\<lambda>p.
       catching
         (and_then (sc_create K 2 (provision_input input p)) (\<lambda>item. ret (toProductView p item True)))
         (\<lambda>e. and_then (compensate (discardStock K 3 (pr_id p))) (\<lambda>_.
              and_then (compensate (product_delete E 5 (pr_id p))) (\<lambda>_. throw e)))))"

definition changed_sku :: "UpdateProductInput \<Rightarrow> Product \<Rightarrow> string option" where
  "changed_sku input p = (case up_sku input of
     None \<Rightarrow> None | Some s \<Rightarrow> (if s \<noteq> '''' \<and> s \<noteq> pr_sku p then Some s else None))"

definition move_stock_sku ::
  "product_env \<Rightarrow> inventory_client \<Rightarrow> string option \<Rightarrow> string \<Rightarrow> string \<Rightarrow> InventoryItemView option \<Rightarrow> (product_world, thrown, unit) act" where
  "move_stock_sku E K actor i sk item = and_then (product_findBySku E 2 sk) (\<lambda>conflicting.
     if (case conflicting of None \<Rightarrow> False | Some p \<Rightarrow> pr_id p \<noteq> i) then throw (sku_taken sk)
     else case item of
       None \<Rightarrow> ret ()
     | Some it \<Rightarrow> and_then (sc_update K 3 actor (item_id it) (sku_patch sk)) (\<lambda>_. ret ()))"

text \<open>The last part of \<^verbatim>\<open>update\<close>: the product's row, and the stock record's name taken back when that fails.\<close>

definition write_product ::
  "product_env \<Rightarrow> inventory_client \<Rightarrow> string option \<Rightarrow> string \<Rightarrow> UpdateProductInput \<Rightarrow> Product \<Rightarrow> InventoryItemView option
     \<Rightarrow> (product_world, thrown, ProductView) act" where
  "write_product E K actor i input current item = catching
     (and_then (product_update E 4 i input) (\<lambda>p.
        case item of
          Some it \<Rightarrow> ret (toProductView p (Some it) True)
        | None \<Rightarrow> and_then (readStock K 5 p) (\<lambda>item. ret (toProductView p item True))))
     (\<lambda>e. and_then
        (case item of
           None \<Rightarrow> ret ()
         | Some it \<Rightarrow> compensate (and_then (sc_update K 6 actor (item_id it) (sku_patch (pr_sku current))) (\<lambda>_. ret ())))
        (\<lambda>_. throw e))"

definition products_update ::
  "product_env \<Rightarrow> inventory_client \<Rightarrow> string option \<Rightarrow> string \<Rightarrow> UpdateProductInput \<Rightarrow> (product_world, thrown, ProductView) act" where
  "products_update E K actor i input = and_then (getProduct E 0 i) (\<lambda>current.
     and_then (case changed_sku input current of None \<Rightarrow> ret None | Some sk \<Rightarrow> readStock K 1 current) (\<lambda>item.
     and_then (case changed_sku input current of None \<Rightarrow> ret () | Some sk \<Rightarrow> move_stock_sku E K actor i sk item) (\<lambda>_.
     write_product E K actor i input current item)))"

definition products_remove :: "product_env \<Rightarrow> inventory_client \<Rightarrow> string \<Rightarrow> (product_world, thrown, unit) act" where
  "products_remove E K i = and_then (getProduct E 0 i) (\<lambda>p.
     and_then (sc_findByProductId K 1 (pr_id p)) (\<lambda>item.
     if (case item of None \<Rightarrow> False | Some it \<Rightarrow> quantity it > 0 \<or> reserved it > 0)
     then throw (ThrownApp (ConflictError (''Product '' @ quote i @ '' still holds stock ('' @ int_str (quantity (the item)) @ '' on hand, ''
            @ int_str (reserved (the item)) @ '' reserved). Clear the stock or archive the product instead.'') None))
     else and_then (product_delete E 2 i) (\<lambda>_.
       case item of None \<Rightarrow> ret () | Some it \<Rightarrow> compensate (sc_delete K 3 (item_id it)))))"

section \<open>Controller and routes\<close>

datatype ProductRequest =
  GetProducts "(string \<times> string) list"
| PostProduct json
| GetProduct string
| PatchProduct string json "string option"
| DeleteProduct string

datatype ProductReply = ProductsPage "ProductView paginated" | OneProduct int ProductView | NoContent

definition product_validated :: "'a option \<Rightarrow> (product_world, thrown, 'a) act" where
  "product_validated parsed = (case parsed of None \<Rightarrow> throw invalidRequest | Some v \<Rightarrow> ret v)"

fun product_handle :: "product_env \<Rightarrow> ProductRequest \<Rightarrow> (product_world, thrown, ProductReply) act" where
  "product_handle E (GetProducts q) =
     and_then (product_validated (listProductsQuerySchema q)) (\<lambda>q.
     and_then (products_list E (http_inventory_client E) q) (\<lambda>(items, number).
     ret (ProductsPage (sendPaginated items (pq_page q) (pq_limit q) number))))"
| "product_handle E (PostProduct body) =
     and_then (product_validated (createProductSchema body)) (\<lambda>input.
     and_then (products_create E (http_inventory_client E) input) (\<lambda>p. ret (OneProduct 201 p)))"
| "product_handle E (GetProduct i) =
     and_then (product_validated (id_param (pe_is_uuid E) i)) (\<lambda>i.
     and_then (products_getById E (http_inventory_client E) i) (\<lambda>p. ret (OneProduct 200 p)))"
| "product_handle E (PatchProduct i body actor) =
     and_then (product_validated (id_param (pe_is_uuid E) i)) (\<lambda>i.
     and_then (product_validated (updateProductSchema body)) (\<lambda>input.
     and_then (products_update E (http_inventory_client E) (request_actor actor) i input) (\<lambda>p. ret (OneProduct 200 p))))"
| "product_handle E (DeleteProduct i) =
     and_then (product_validated (id_param (pe_is_uuid E) i)) (\<lambda>i.
     and_then (products_remove E (http_inventory_client E) i) (\<lambda>_. ret NoContent))"

end
