(* ===== verification/ProductClient.thy ===== *)
theory ProductClient
  imports ProductService
begin

text \<open>
  What the product service's HTTP client does to the inventory service, call by call, and the interface \<^verbatim>\<open>create\<close>
  relies on, as a locale interpreted on that client. Other requests are kept out (\<open>undisturbed\<close>): the statements are
  about one request at a time over an unreliable network and databases that may refuse.
\<close>

section \<open>Statements and requests without interference\<close>

definition undisturbed :: "product_env \<Rightarrow> bool" where
  "undisturbed E \<longleftrightarrow> (\<forall>n. pe_meanwhile E n = id)"

text \<open>Request \<open>n\<close> is answered and the database behind it accepts its statements.\<close>

definition gets_through :: "product_env \<Rightarrow> nat \<Rightarrow> bool" where
  "gets_through E n \<longleftrightarrow> pe_net E n = Delivered \<and> (\<forall>k. pe_idb E n k = DbCommits)"

lemma db_fault_commits [simp]: "db_fault DbCommits = None"
  by (simp add: db_fault_def)

lemma at_products_undisturbed:
  "undisturbed E \<Longrightarrow> at_products E n m w = (case transaction (db_fault (pe_db E n)) m (product_rows w) of (r, ps) \<Rightarrow> (r, w\<lparr>product_rows := ps\<rparr>))"
  by (simp add: at_products_def undisturbed_def Let_def)

lemma at_products_read:
  "undisturbed E \<Longrightarrow> at_products E n (gets f) w = (case db_fault (pe_db E n) of None \<Rightarrow> Inr (f (product_rows w)) | Some e \<Rightarrow> Inl e, w)"
  by (simp add: at_products_undisturbed transaction_def split: option.split)

lemmas product_reads = product_findById_def product_findBySku_def product_list_def at_products_read

lemma client_request_undisturbed:
  "undisturbed E \<Longrightarrow> client_request E n nul h w = (case h (inventory w) of (r, db') \<Rightarrow>
     (case pe_net E n of Delivered \<Rightarrow> client_reads nul (answer (pe_production E) r)
        | _ \<Rightarrow> Inl (ThrownApp (ServiceUnavailableError ''Inventory service is unreachable'')),
      case pe_net E n of Unreachable \<Rightarrow> w | _ \<Rightarrow> w\<lparr>inventory := db'\<rparr>))"
  by (simp add: client_request_def at_inventory_def undisturbed_def Let_def split: net_verdict.split prod.split)

lemma client_reads_success: "200 \<le> st \<Longrightarrow> st < 300 \<Longrightarrow> st \<noteq> 204 \<Longrightarrow> client_reads nul (answer pr (Inr (st, items))) = Inr (Some items)"
  by (simp add: client_reads_def answer_def)

lemma client_reads_error:
  "400 \<le> statusCode (toAppError e) \<Longrightarrow> \<not> (nul \<and> statusCode (toAppError e) = 404) \<Longrightarrow>
     client_reads nul (answer pr (Inl e)) = Inl (stock_toError (answer pr (Inl e)))"
  by (auto simp: client_reads_def answer_error)

section \<open>Finding a product's stock record\<close>

lemma js_Number_one: "js_Number ''1'' = Some 1"
  by code_simp

definition by_product_query :: "string \<Rightarrow> ListInventoryQuery" where
  "by_product_query pid = \<lparr>lq_page = 1, lq_limit = 1, lq_sku = None, lq_productId = Some pid, lq_productIds = None,
     lq_warehouse = None, lq_lowStock = None, lq_sortBy = By_createdAt, lq_order = Descending\<rparr>"

lemma by_product_schema:
  "listInventoryQuerySchema is_uuid [(''productId'', pid), (''limit'', ''1'')] =
     (if is_uuid pid then Some (by_product_query pid) else None)"
  by (simp add: listInventoryQuerySchema_def coerced_between_def MAX_SAFE_INTEGER_def query_optional_def query_uuid_def js_Number_one by_product_query_def)

text \<open>A key held by at most one row: the listing's first page of one is that row.\<close>

lemma filter_unique_key:
  "distinct (map key rows) \<Longrightarrow> filter (\<lambda>r. key r = k) rows = (case find_row key k rows of None \<Rightarrow> [] | Some r \<Rightarrow> [r])"
proof (induction rows)
  case (Cons r rows)
  then have "find_row key (key r) rows = None" by (simp add: find_row_None_iff)
  with Cons show ?case by (cases "key r = k") auto
qed simp

lemma sorted_items_short: "length rows \<le> 1 \<Longrightarrow> sorted_items Q q rows = rows"
  using sorted_items_perm [of Q q rows] by (cases rows) auto

lemma list_by_product:
  assumes "distinct (map productId (inventory_items db))"
  shows "ctl_list Q None (by_product_query pid) db =
    (Inr (sendPaginated (case find_row productId pid (inventory_items db) of None \<Rightarrow> [] | Some it \<Rightarrow> [toInventoryItemView it]) 1 1
       (case find_row productId pid (inventory_items db) of None \<Rightarrow> 0 | Some it \<Rightarrow> 1)), db)"
proof -
  have "filter (item_matches Q (by_product_query pid)) (inventory_items db) = filter (\<lambda>it. productId it = pid) (inventory_items db)"
    by (rule filter_cong) (simp_all add: item_matches_def by_product_query_def)
  then show ?thesis
    by (subst ctl_list_run) (auto simp: by_product_query_def Let_def filter_unique_key [OF assms] sorted_items_short page_rows_def split: option.split)
qed

lemma stock_findByProductId_run:
  assumes "undisturbed E" "gets_through E n" "pe_is_uuid E pid" "distinct (map productId (inventory_items (inventory w)))"
  shows "stock_findByProductId E n pid w = (Inr (map_option toInventoryItemView (find_row productId pid (inventory_items (inventory w)))), w)"
  using assms
  by (simp add: stock_findByProductId_def listing_request_def and_then_def client_request_undisturbed gets_through_def by_product_schema validated_def
      list_by_product listing_data_def client_reads_success sendPaginated_def Let_def first_item_def split: option.split)

lemma listing_request_world: "undisturbed E \<Longrightarrow> listing_request E n q w = (r, w') \<Longrightarrow> w' = w"
proof -
  assume "undisturbed E" and run: "listing_request E n q w = (r, w')"
  let ?h = "and_then (handle_listing (pe_engine E n) (pe_is_uuid E) (\<lambda>k. db_fault (pe_idb E n k)) (GetItems q)) (\<lambda>reply. ret (200 :: int, listing_data reply))"
  have "keeps (\<lambda>s. s = inventory w) ?h" by (intro keeps_intros handle_listing_keeps)
  then have "snd (?h (inventory w)) = inventory w" by (rule keepsD) (rule refl)
  with run show ?thesis
    by (auto simp: listing_request_def client_request_undisturbed [OF \<open>undisturbed E\<close>] split: prod.splits net_verdict.splits)
qed

lemma stock_findByProductId_world: "undisturbed E \<Longrightarrow> stock_findByProductId E n pid w = (r, w') \<Longrightarrow> w' = w"
  by (auto simp: stock_findByProductId_def and_then_def dest: listing_request_world split: prod.splits sum.splits)

section \<open>Provisioning and taking it back\<close>

text \<open>The tables after a record has been created: the row, and the ledger entry of its opening stock.\<close>

definition provisioned :: "inventory_db \<Rightarrow> InventoryItem \<Rightarrow> inventory_db" where
  "provisioned db it = db\<lparr>inventory_items := inventory_items db @ [it],
     stock_movement_histories := stock_movement_histories db @
       (if quantity it > 0 then [\<lparr>mv_itemId = item_id it, mv_type = INBOUND, quantityChanged = quantity it, lastQuantity = 0,
          mv_reason = Some ''Initial stock'', mv_reference = None, mv_createdAt = createdAt it\<rparr>] else [])\<rparr>"

lemma refusal_statuses [simp]:
  "statusCode (toAppError (ThrownApp (ConflictError m d))) = 409" "400 \<le> statusCode (toAppError (uniqueViolation f))"
  "400 \<le> statusCode (toAppError invalidRequest)"
  by (simp_all add: app_error_defs uniqueViolation_def invalidRequest_def isPrismaCode_def is_digit_def fromPrismaError_def Let_def)

definition foreign_faults :: "(nat \<Rightarrow> thrown option) \<Rightarrow> bool" where
  "foreign_faults flt \<longleftrightarrow> (\<forall>k e. flt k = Some e \<longrightarrow> 400 \<le> statusCode (toAppError e))"

lemma db_faults_foreign: "foreign_faults (\<lambda>k. db_fault (v k))"
  by (auto simp: foreign_faults_def db_fault_def app_error_defs fromPrismaError_status split: db_verdict.splits)

lemma repo_create_run:
  "repo_create None uuid now input db =
     (let it = new_item uuid now input in case item_conflict it (inventory_items db) of
        Some f \<Rightarrow> (Inl (uniqueViolation f), db) | None \<Rightarrow> (Inr it, provisioned db it))"
  by (simp add: repo_create_def transaction_def and_then_def insert_item_def create_movements_def provisioned_def Let_def new_item_def
      split: option.split)

lemma service_create_run:
  assumes "foreign_faults flt" and "service_create flt uuid now input db = (r, db')"
  shows "db' = db \<and> (\<exists>e. r = Inl e \<and> 400 \<le> statusCode (toAppError e)) \<or>
    item_conflict (new_item uuid now input) (inventory_items db) = None \<and> r = Inr (toInventoryItemView (new_item uuid now input)) \<and>
    db' = provisioned db (new_item uuid now input)"
proof (cases "flt 2")
  case None
  with assms show ?thesis
    by (auto simp: service_create_def findBySku_def findByProductId_def and_then_def repo_create_run transaction_def foreign_faults_def Let_def
        split: option.splits)
next
  case (Some e)
  with assms show ?thesis
    by (auto simp: service_create_def findBySku_def findByProductId_def and_then_def repo_create_def transaction_def foreign_faults_def
        split: option.splits)
qed

definition provision_row :: "CreateInventoryInput \<Rightarrow> CreateInventoryItemInput" where
  "provision_row input = \<lparr>new_sku = ci_sku input, new_productId = ci_productId input, new_warehouse = or_else (ci_warehouse input) ''default'',
     new_quantity = or_else (ci_quantity input) 0, new_reorderLevel = or_else (ci_reorderLevel input) 0\<rparr>"

text \<open>A body the inventory service reads the way it was meant.\<close>

definition fit_to_provision :: "product_env \<Rightarrow> CreateInventoryInput \<Rightarrow> bool" where
  "fit_to_provision E input \<longleftrightarrow> createInventoryItemSchema (pe_is_uuid E) (create_body input) = Some (provision_row input)"

definition drafted :: "product_env \<Rightarrow> nat \<Rightarrow> CreateInventoryInput \<Rightarrow> InventoryItem" where
  "drafted E n input = new_item (pe_uuid E n) (pe_now E n) (provision_row input)"

lemma stock_create_effect:
  assumes "undisturbed E" "fit_to_provision E input" "stock_create E n input w = (r, w')"
  shows "w' = w \<and> isl r \<or>
    item_conflict (drafted E n input) (inventory_items (inventory w)) = None \<and> w' = w\<lparr>inventory := provisioned (inventory w) (drafted E n input)\<rparr> \<and>
    (r = Inr (Some (toInventoryItemView (drafted E n input))) \<or> isl r)"
proof -
  let ?flt = "\<lambda>k. db_fault (pe_idb E n k)" and ?db = "inventory w"
  obtain x db' where s: "service_create ?flt (pe_uuid E n) (pe_now E n) (provision_row input) ?db = (x, db')" by fastforce
  have h: "handle_request (pe_is_uuid E) ?flt (pe_uuid E n) (pe_now E n) (PostItem (create_body input)) ?db =
      (case x of Inl e \<Rightarrow> (Inl e, db') | Inr it \<Rightarrow> (Inr (201, [it]), db'))"
    using s assms(2) by (simp add: fit_to_provision_def validated_def respond_def and_then_def split: sum.split)
  from service_create_run [OF db_faults_foreign s] show ?thesis
  proof
    assume old: "db' = ?db \<and> (\<exists>e. x = Inl e \<and> 400 \<le> statusCode (toAppError e))"
    then obtain e where "x = Inl e" "400 \<le> statusCode (toAppError e)" by blast
    then show ?thesis
      using assms(3) h old
      by (auto simp: stock_create_def stock_request_def and_then_def client_request_undisturbed [OF assms(1)] client_reads_error split: net_verdict.splits)
  next
    assume "item_conflict (new_item (pe_uuid E n) (pe_now E n) (provision_row input)) (inventory_items ?db) = None \<and>
      x = Inr (toInventoryItemView (new_item (pe_uuid E n) (pe_now E n) (provision_row input))) \<and>
      db' = provisioned ?db (new_item (pe_uuid E n) (pe_now E n) (provision_row input))"
    then show ?thesis
      using assms(3) h
      by (auto simp: stock_create_def stock_request_def and_then_def client_request_undisturbed [OF assms(1)] client_reads_success first_item_def
          drafted_def split: net_verdict.splits)
  qed
qed

text \<open>Deleting the record just created gives back the tables as they were.\<close>

lemma delete_provisioned:
  assumes "item_conflict it (inventory_items db) = None" and "list_all (\<lambda>m. mv_itemId m \<in> set (map item_id (inventory_items db))) (stock_movement_histories db)"
    and "item_id it \<notin> al_itemId ` set (inventory_audit_logs db)"
  shows "delete_item (item_id it) (provisioned db it) = (Inr (), db)"
proof -
  have new: "item_id it \<notin> item_id ` set (inventory_items db)" using assms(1) by (auto simp: item_conflict_def split: if_splits)
  then have "item_id it \<notin> mv_itemId ` set (stock_movement_histories db)" using assms(2) by (auto simp: list_all_iff)
  then show ?thesis
    using new assms(3)
    by (simp add: delete_item_def provisioned_def find_row_append delete_rows_append delete_rows_absent split: option.split)
qed

lemma stock_delete_provisioned:
  assumes "undisturbed E" "gets_through E n" "pe_is_uuid E (item_id it)" "reserved it \<le> 0" "item_conflict it (inventory_items (inventory w)) = None"
    and "inventory_ok (inventory w)" "item_id it \<notin> al_itemId ` set (inventory_audit_logs (inventory w))"
  shows "stock_delete E n (item_id it) (w\<lparr>inventory := provisioned (inventory w) it\<rparr>) = (Inr (), w)"
proof -
  let ?db = "inventory w"
  have refs: "list_all (\<lambda>m. mv_itemId m \<in> set (map item_id (inventory_items ?db))) (stock_movement_histories ?db)"
    using assms(6) by (auto simp: inventory_ok_def list_all_iff)
  have found: "find_row item_id (item_id it) (inventory_items (provisioned ?db it)) = Some it"
    using assms(5) find_row_None_iff [of item_id "item_id it" "inventory_items ?db"]
    by (simp add: provisioned_def find_row_append item_conflict_def split: if_splits)
  have "handle_request (pe_is_uuid E) (\<lambda>k. None) (pe_uuid E n) (pe_now E n) (DeleteItem (item_id it)) (provisioned ?db it) = (Inr (204, []), ?db)"
    using assms(3,4) found delete_provisioned [OF assms(5) refs assms(7)]
    by (simp add: validated_def id_param_def service_remove_def getById_def findById_def repo_delete_def and_then_def transaction_def
        toInventoryItemView_def InventoryItem.defs)
  then show ?thesis
    using assms(1,2) by (simp add: stock_delete_def stock_request_def and_then_def client_request_undisturbed gets_through_def client_reads_def answer_def)
qed

section \<open>What the product service sends is read as meant\<close>

lemma upper_sku_char:
  "is_sku_char c \<Longrightarrow> is_sku_char (if 97 \<le> (of_char c :: nat) \<and> (of_char c :: nat) \<le> 122 then char_of ((of_char c :: nat) - 32) else c)"
  by (auto simp: is_sku_char_def of_char_of is_digit_def)

lemma upper_sku: "list_all is_sku_char s \<Longrightarrow> list_all is_sku_char (js_toUpperCase s)"
  by (induction s) (auto simp: js_toUpperCase_def dest: upper_sku_char)

lemma upper_idem [simp]: "js_toUpperCase (js_toUpperCase s) = js_toUpperCase s"
  by (induction s) (auto simp: js_toUpperCase_def of_char_of)

lemma length_upper [simp]: "length (js_toUpperCase s) = length s"
  by (simp add: js_toUpperCase_def)

lemma sku_char_not_blank: "is_sku_char c \<Longrightarrow> \<not> is_blank c"
  by (auto simp: is_sku_char_def is_blank_def is_digit_def)

definition sku_form :: "string \<Rightarrow> bool" where
  "sku_form s \<longleftrightarrow> skuField (JString s) = Some s"

text \<open>A SKU the product service has accepted means the same to the inventory service.\<close>

lemma product_sku_form: "product_skuField v = Some s \<Longrightarrow> sku_form s"
proof -
  assume "product_skuField v = Some s"
  then obtain t where t: "trimmed_string 3 64 v = Some t" "list_all is_sku_char t" "s = js_toUpperCase t"
    by (auto simp: product_skuField_def split: option.splits if_splits)
  have "js_trim s = s" by (rule js_trim_plain) (use upper_sku [OF t(2)] t(3) sku_char_not_blank in \<open>auto simp: list_all_iff\<close>)
  moreover have "3 \<le> length s" "length s \<le> 64" using t by (auto simp: trimmed_string_def Let_def split: json.splits if_splits)
  ultimately show ?thesis using t upper_sku [OF t(2)] by (simp add: sku_form_def skuField_def trimmed_string_def Let_def)
qed

lemma initialStock_parts:
  assumes "initialStockSchema v = Some s"
  shows "st_warehouse s = Some wh \<Longrightarrow> trimmed_string 1 64 (JString wh) = Some wh"
    "st_quantity s = Some q \<Longrightarrow> 0 \<le> q \<and> q \<le> 1000000000" "st_reorderLevel s = Some rl \<Longrightarrow> 0 \<le> rl \<and> rl \<le> 1000000000"
proof -
  obtain fs where "v = JObject fs" "optional (trimmed_string 1 64) (obj_get fs ''warehouse'') = Some (st_warehouse s)"
    "optional (int_between 0 1000000000) (obj_get fs ''quantity'') = Some (st_quantity s)"
    "optional (int_between 0 1000000000) (obj_get fs ''reorderLevel'') = Some (st_reorderLevel s)"
    using assms by (auto simp: initialStockSchema_def split: json.splits if_splits option.splits)
  then show "st_warehouse s = Some wh \<Longrightarrow> trimmed_string 1 64 (JString wh) = Some wh"
    "st_quantity s = Some q \<Longrightarrow> 0 \<le> q \<and> q \<le> 1000000000" "st_reorderLevel s = Some rl \<Longrightarrow> 0 \<le> rl \<and> rl \<le> 1000000000"
    by (auto simp: optional_def int_between_def trimmed_again split: option.splits json.splits if_splits)
qed

lemma create_schema_parts:
  assumes "createProductSchema body = Some input"
  shows "sku_form (np_sku input)" "np_stock input = Some s \<Longrightarrow> \<exists>v. initialStockSchema v = Some s"
proof -
  obtain fs where "required product_skuField (obj_get fs ''sku'') = Some (np_sku input)"
    "optional initialStockSchema (obj_get fs ''stock'') = Some (np_stock input)"
    using assms by (auto simp: createProductSchema_def split: json.splits if_splits option.splits)
  then show "sku_form (np_sku input)" "np_stock input = Some s \<Longrightarrow> \<exists>v. initialStockSchema v = Some s"
    by (auto simp: required_Some optional_def split: option.splits dest: product_sku_form)
qed

lemma create_body_schema:
  assumes "sku_form (ci_sku input)" "is_uuid (ci_productId input)"
    and "\<And>wh. ci_warehouse input = Some wh \<Longrightarrow> trimmed_string 1 64 (JString wh) = Some wh"
    and "\<And>q. ci_quantity input = Some q \<Longrightarrow> 0 \<le> q \<and> q \<le> 1000000000"
    and "\<And>rl. ci_reorderLevel input = Some rl \<Longrightarrow> 0 \<le> rl \<and> rl \<le> 1000000000"
  shows "createInventoryItemSchema is_uuid (create_body input) = Some (provision_row input)"
proof -
  let ?fs = "present ''warehouse'' JString (ci_warehouse input) @ present ''quantity'' JInt (ci_quantity input) @
     present ''reorderLevel'' JInt (ci_reorderLevel input) @ [(''sku'', JString (ci_sku input)), (''productId'', JString (ci_productId input))]"
  have "strict_keys AUDITED_FIELDS ?fs"
    by (auto simp: strict_keys_def AUDITED_FIELDS_def present_def split: option.split)
  moreover have "obj_get ?fs ''sku'' = Some (JString (ci_sku input))" "obj_get ?fs ''productId'' = Some (JString (ci_productId input))"
    "obj_get ?fs ''warehouse'' = map_option JString (ci_warehouse input)" "obj_get ?fs ''quantity'' = map_option JInt (ci_quantity input)"
    "obj_get ?fs ''reorderLevel'' = map_option JInt (ci_reorderLevel input)"
    by (auto simp: obj_get_append obj_get_Cons obj_get_def [of "[]"] split: option.split)
  moreover have "with_default ''default'' (trimmed_string 1 64) (map_option JString (ci_warehouse input)) = Some (or_else (ci_warehouse input) ''default'')"
    "with_default 0 stockCount (map_option JInt (ci_quantity input)) = Some (or_else (ci_quantity input) 0)"
    "with_default 0 stockCount (map_option JInt (ci_reorderLevel input)) = Some (or_else (ci_reorderLevel input) 0)"
    using assms(3-5) by (auto simp: with_default_def or_else_def stockCount_def int_between_def split: option.split)
  ultimately show ?thesis
    using assms(1,2)
    by (simp add: createInventoryItemSchema_def create_body_def provision_row_def required_def sku_form_def uuidField_def)
qed

lemma provision_fits:
  assumes "createProductSchema body = Some input" "pe_is_uuid E pid"
  shows "fit_to_provision E (provision_input input (product_row pid now input))"
  unfolding fit_to_provision_def
proof (rule create_body_schema)
  note parts = create_schema_parts(2) [OF assms(1)] initialStock_parts
  show "sku_form (ci_sku (provision_input input (product_row pid now input)))"
    using create_schema_parts(1) [OF assms(1)] by (simp add: provision_input_def product_row_def)
  show "pe_is_uuid E (ci_productId (provision_input input (product_row pid now input)))"
    using assms(2) by (simp add: provision_input_def product_row_def)
  show "ci_warehouse (provision_input input (product_row pid now input)) = Some wh \<Longrightarrow> trimmed_string 1 64 (JString wh) = Some wh" for wh
    using parts by (cases "np_stock input") (auto simp: provision_input_def)
  show "ci_quantity (provision_input input (product_row pid now input)) = Some q \<Longrightarrow> 0 \<le> q \<and> q \<le> 1000000000" for q
    using parts by (cases "np_stock input") (auto simp: provision_input_def)
  show "ci_reorderLevel (provision_input input (product_row pid now input)) = Some rl \<Longrightarrow> 0 \<le> rl \<and> rl \<le> 1000000000" for rl
    using parts by (cases "np_stock input") (auto simp: provision_input_def)
qed

section \<open>The interface of the inventory client\<close>

text \<open>
  What \<^verbatim>\<open>create\<close> relies on: provisioning adds the drafted record or nothing, and answers or not; a lookup by product
  that gets through tells which; and deleting the record that was just added takes everything back.
\<close>

locale stock_port =
  fixes K :: inventory_client and fit :: "nat \<Rightarrow> CreateInventoryInput \<Rightarrow> product_world \<Rightarrow> bool"
    and clear :: "nat \<Rightarrow> bool" and draft :: "nat \<Rightarrow> CreateInventoryInput \<Rightarrow> InventoryItem"
  assumes create_law: "fit n input w \<Longrightarrow> sc_create K n input w = (r, w') \<Longrightarrow>
      w' = w \<and> isl r \<or> w' = w\<lparr>inventory := provisioned (inventory w) (draft n input)\<rparr> \<and> (r = Inr (Some (toInventoryItemView (draft n input))) \<or> isl r)"
    and find_law: "fit n input w \<Longrightarrow> sc_create K n input w = (r, w') \<Longrightarrow> clear m \<Longrightarrow> sc_findByProductId K m (ci_productId input) w' =
      (Inr (if w' = w then None else Some (toInventoryItemView (draft n input))), w')"
    and undo_law: "fit n input w \<Longrightarrow> sc_create K n input w = (r, w') \<Longrightarrow> w' \<noteq> w \<Longrightarrow> clear m \<Longrightarrow>
      sc_delete K m (item_id (draft n input)) w' = (Inr (), w)"
begin

lemma view_id: "item_id (toInventoryItemView it) = item_id it"
  by (simp add: toInventoryItemView_def InventoryItem.defs)

text \<open>A failed provisioning is undone, whether or not it had been carried out.\<close>

lemma provisioning_undone:
  assumes "fit n input w" "sc_create K n input w = (Inl e, w')" "clear m" "clear (m + 1)"
  shows "compensate (discardStock K m (ci_productId input)) w' = (Inr (), w)"
proof (cases "w' = w")
  case True
  then show ?thesis using find_law [OF assms(1-3)] by (simp add: compensate_def discardStock_def catching_def and_then_def)
next
  case False
  then show ?thesis
    using find_law [OF assms(1-3)] undo_law [OF assms(1,2) False assms(4)]
    by (simp add: compensate_def discardStock_def catching_def and_then_def view_id)
qed

end

definition can_provision :: "product_env \<Rightarrow> nat \<Rightarrow> CreateInventoryInput \<Rightarrow> product_world \<Rightarrow> bool" where
  "can_provision E n input w \<longleftrightarrow> undisturbed E \<and> fit_to_provision E input \<and> inventory_ok (inventory w) \<and>
     ci_productId input \<notin> productId ` set (inventory_items (inventory w)) \<and> pe_is_uuid E (ci_productId input) \<and>
     pe_is_uuid E (pe_uuid E n) \<and> pe_uuid E n \<notin> al_itemId ` set (inventory_audit_logs (inventory w))"

lemma drafted_fields [simp]:
  "item_id (drafted E n input) = pe_uuid E n" "productId (drafted E n input) = ci_productId input" "sku (drafted E n input) = ci_sku input"
  "reserved (drafted E n input) = 0" "quantity (drafted E n input) = or_else (ci_quantity input) 0"
  by (simp_all add: drafted_def new_item_def provision_row_def)

lemma conflict_free: "item_conflict it rows = None \<Longrightarrow>
    item_id it \<notin> item_id ` set rows \<and> sku it \<notin> sku ` set rows \<and> productId it \<notin> productId ` set rows"
  by (auto simp: item_conflict_def split: if_splits)

lemma provisioned_differs: "w\<lparr>inventory := provisioned (inventory w) it\<rparr> \<noteq> w"
proof
  assume "w\<lparr>inventory := provisioned (inventory w) it\<rparr> = w"
  then have "inventory_items (provisioned (inventory w) it) = inventory_items (inventory w)"
    by (metis product_world.select_convs(2) product_world.surjective product_world.update_convs(2))
  then show False by (simp add: provisioned_def)
qed

interpretation http_stock: stock_port "http_inventory_client E" "can_provision E" "gets_through E" "drafted E" for E
proof
  fix n input w r w'
  assume fit: "can_provision E n input w" and run: "sc_create (http_inventory_client E) n input w = (r, w')"
  have run': "stock_create E n input w = (r, w')" using run by (simp add: http_inventory_client_def)
  have eff: "w' = w \<and> isl r \<or> item_conflict (drafted E n input) (inventory_items (inventory w)) = None \<and>
      w' = w\<lparr>inventory := provisioned (inventory w) (drafted E n input)\<rparr> \<and> (r = Inr (Some (toInventoryItemView (drafted E n input))) \<or> isl r)"
    using fit run' by (intro stock_create_effect) (simp_all add: can_provision_def)
  then show "w' = w \<and> isl r \<or> w' = w\<lparr>inventory := provisioned (inventory w) (drafted E n input)\<rparr> \<and>
      (r = Inr (Some (toInventoryItemView (drafted E n input))) \<or> isl r)" by blast
  have ids: "distinct (map productId (inventory_items (inventory w)))" using fit by (simp add: can_provision_def inventory_ok_def unique_items_def)
  show "sc_findByProductId (http_inventory_client E) m (ci_productId input) w' =
      (Inr (if w' = w then None else Some (toInventoryItemView (drafted E n input))), w')" if "gets_through E m" for m
  proof (cases "w' = w")
    case True
    then show ?thesis
      using fit that ids
      by (simp add: http_inventory_client_def stock_findByProductId_run can_provision_def find_row_None_iff [THEN iffD2])
  next
    case False
    then have new: "w' = w\<lparr>inventory := provisioned (inventory w) (drafted E n input)\<rparr>" using eff by blast
    have none: "find_row productId (ci_productId input) (inventory_items (inventory w)) = None"
      using fit by (simp add: can_provision_def find_row_None_iff)
    have "distinct (map productId (inventory_items (inventory w')))"
      using ids fit by (simp add: new provisioned_def can_provision_def)
    then show ?thesis
      using fit that False none
      by (simp add: http_inventory_client_def stock_findByProductId_run can_provision_def new provisioned_def find_row_append)
  qed
  show "sc_delete (http_inventory_client E) m (item_id (drafted E n input)) w' = (Inr (), w)" if "w' \<noteq> w" "gets_through E m" for m
    using eff that fit stock_delete_provisioned [of E m "drafted E n input" w]
    by (auto simp: http_inventory_client_def can_provision_def)
qed

end
