(* ===== verification/ProductProperties.thy ===== *)
theory ProductProperties
  imports ProductClient
begin

text \<open>
  The properties of the product service that span both services: creating a product is all or nothing, SKUs do not drift
  apart (and when they do), and a page of products shows the stock as it is or says that it is not known.
\<close>

section \<open>Creating a product\<close>

lemma product_create_run:
  assumes "undisturbed E"
  shows "product_create E n input w = (r, w') \<Longrightarrow>
    w' = w \<and> isl r \<or> (let p = product_row (pe_uuid E n) (pe_now E n) input in
      r = Inr p \<and> w' = w\<lparr>product_rows := product_rows w @ [p]\<rparr> \<and> pe_uuid E n \<notin> pr_id ` set (product_rows w) \<and>
      np_sku input \<notin> pr_sku ` set (product_rows w))"
  by (auto simp: product_create_def at_products_undisturbed [OF assms] transaction_def Let_def product_row_def split: option.splits if_splits)


text \<open>The identifiers drawn for the product and its stock record are new, and UUIDs.\<close>

definition fresh_ids :: "product_env \<Rightarrow> product_world \<Rightarrow> bool" where
  "fresh_ids E w \<longleftrightarrow> pe_is_uuid E (pe_uuid E 1) \<and> pe_is_uuid E (pe_uuid E 2) \<and>
     pe_uuid E 1 \<notin> productId ` set (inventory_items (inventory w)) \<and> pe_uuid E 2 \<notin> al_itemId ` set (inventory_audit_logs (inventory w))"

definition undo_gets_through :: "product_env \<Rightarrow> bool" where
  "undo_gets_through E \<longleftrightarrow> gets_through E 3 \<and> gets_through E 4 \<and> pe_db E 5 = DbCommits"



text \<open>A catalogue of one product with its record, and a request for a second one with five units on hand.\<close>

definition sample_products :: product_world where
  "sample_products = \<lparr>product_rows = [product_row ''p1'' 1 \<lparr>np_sku = ''MUG'', np_name = ''Mug'', np_description = None, np_priceCents = 900,
       np_currency = ''USD'', np_status = ACTIVE, np_stock = None\<rparr>],
     inventory = empty_inventory_db\<lparr>inventory_items := [\<lparr>quantity = 0, reserved = 0, reorderLevel = 0, item_id = ''i1'', sku = ''MUG'',
       productId = ''p1'', warehouse = ''default'', createdAt = 1, updatedAt = 1\<rparr>]\<rparr>\<rparr>"

definition sample_body :: json where
  "sample_body = JObject [(''sku'', JString ''cup''), (''name'', JString ''Cup''), (''priceCents'', JInt 500),
     (''stock'', JObject [(''quantity'', JInt 5)])]"

definition catalogue_env :: "(nat \<Rightarrow> net_verdict) \<Rightarrow> product_env" where
  "catalogue_env net = \<lparr>pe_is_uuid = List.member [''p1'', ''p2'', ''i1'', ''i2''], pe_db = (\<lambda>_. DbCommits), pe_net = net, pe_idb = (\<lambda>_ _. DbCommits),
     pe_engine = (\<lambda>_. sample_engine), pe_uuid = (\<lambda>n. if n = 1 then ''p2'' else ''i2''), pe_now = (\<lambda>n. int n + 10),
     pe_meanwhile = (\<lambda>_. id), pe_production = True\<rparr>"

lemma sample_products_facts:
  "undisturbed (catalogue_env net)" "inventory_ok (inventory sample_products)" "fresh_ids (catalogue_env net) sample_products"
  "net 3 = Delivered \<Longrightarrow> net 4 = Delivered \<Longrightarrow> undo_gets_through (catalogue_env net)"
  by (simp_all add: undisturbed_def catalogue_env_def sample_products_def empty_inventory_db_def inventory_ok_def unique_items_def stock_ok_def
      item_ledger_def fresh_ids_def undo_gets_through_def gets_through_def)


section \<open>Renaming a stock record\<close>

text \<open>What of a record matters for the SKU: its id, its product and its name.\<close>

definition labels :: "inventory_db \<Rightarrow> (string \<times> string \<times> string) list" where
  "labels db = map (\<lambda>it. (item_id it, productId it, sku it)) (inventory_items db)"

definition relabel :: "string \<Rightarrow> string \<Rightarrow> string \<times> string \<times> string \<Rightarrow> string \<times> string \<times> string" where
  "relabel i sk l = (case l of (j, p, s) \<Rightarrow> (j, p, if j = i then sk else s))"

abbreviation rename_patch :: "string \<Rightarrow> UpdateInventoryItemInput" where
  "rename_patch sk \<equiv> \<lparr>patch_sku = Some sk, patch_productId = None, patch_warehouse = None, patch_quantity = None, patch_reorderLevel = None\<rparr>"

lemma sku_patch_schema:
  "sku_form sk \<Longrightarrow> updateInventoryItemSchema is_uuid (update_body (sku_patch sk)) = Some (rename_patch sk)"
  by (simp add: updateInventoryItemSchema_def update_body_def sku_patch_def present_def strict_keys_def AUDITED_FIELDS_def obj_get_def
      optional_def sku_form_def)

lemma sku_diff:
  "diffInventoryItem it (rename_patch sk) =
     (if sk = sku it then [] else [\<lparr>change_field = ''sku'', change_oldValue = sku it, change_newValue = sk\<rparr>])"
  by (simp add: diffInventoryItem_def AUDITED_FIELDS_def patch_field_def item_field_def)

text \<open>Another record has the name.\<close>

definition name_taken :: "inventory_db \<Rightarrow> string \<Rightarrow> string \<Rightarrow> bool" where
  "name_taken db i sk \<longleftrightarrow> (\<exists>x \<in> set (inventory_items db). item_id x \<noteq> i \<and> sku x = sk)"

lemma rename_conflict:
  assumes "unique_items (inventory_items db)" "find_row item_id i (inventory_items db) = Some it"
  shows "item_conflict (apply_patch now (rename_patch sk) it) (delete_rows item_id i (inventory_items db)) =
    (if name_taken db i sk then Some ''sku'' else None)"
proof -
  have it: "it \<in> set (inventory_items db)" "item_id it = i" using find_row_SomeD [OF assms(2)] by blast+
  have rest: "set (delete_rows item_id i (inventory_items db)) = {x \<in> set (inventory_items db). item_id x \<noteq> i}"
    by (auto simp: delete_rows_def)
  have "productId it \<notin> productId ` {x \<in> set (inventory_items db). item_id x \<noteq> i}"
    using assms(1) it by (auto simp: unique_items_def distinct_map dest: inj_onD)
  then show ?thesis using it by (auto simp: item_conflict_def rest apply_patch_def name_taken_def)
qed

lemma labels_rename:
  "map (\<lambda>it. (item_id it, productId it, sku it)) (update_rows item_id i (apply_patch now (rename_patch sk)) rows) =
     map (relabel i sk) (map (\<lambda>it. (item_id it, productId it, sku it)) rows)"
  by (simp add: update_rows_def relabel_def apply_patch_def)

lemma service_rename:
  assumes "inventory_ok db" "find_row item_id i (inventory_items db) = Some it"
    and "service_update flt now i (rename_patch sk) actor db = (r, db')"
  shows "(\<exists>e. r = Inl e \<and> db' = db \<and> (flt = Some e \<or> 400 \<le> statusCode (toAppError e)) \<and> (flt = None \<longrightarrow> name_taken db i sk)) \<or>
    (\<exists>v. r = Inr v) \<and> labels db' = map (relabel i sk) (labels db)"
proof (cases "flt = None \<and> sk \<noteq> sku it")
  case True
  have "unique_items (inventory_items db)" using assms(1) by (simp add: inventory_ok_def)
  note conflict = rename_conflict [OF this assms(2), of now sk]
  show ?thesis
  proof (cases "name_taken db i sk")
    case taken: True
    then show ?thesis
      using True assms(2,3) conflict
      by (auto simp: service_update_def repo_update_def transaction_def and_then_def validate_patch_def sku_diff Let_def update_item_def)
  next
    case free: False
    then have "inventory_items db' = update_rows item_id i (apply_patch now (rename_patch sk)) (inventory_items db)" "\<exists>v. r = Inr v"
      using True assms(2,3) conflict
      by (auto simp: service_update_def repo_update_def transaction_def and_then_def validate_patch_def sku_diff Let_def update_item_def
          create_audit_logs_def create_movements_def split: if_splits)
    then show ?thesis by (simp add: labels_def labels_rename del: map_map)
  qed
next
  case False
  have same: "map (relabel i (sku it)) (labels db) = labels db"
  proof (rule map_idI)
    fix l assume "l \<in> set (labels db)"
    then obtain x where x: "x \<in> set (inventory_items db)" "l = (item_id x, productId x, sku x)" by (auto simp: labels_def)
    have "item_id x = i \<Longrightarrow> x = it"
      using x(1) assms(1,2) find_row_distinct [of item_id "inventory_items db" x] by (auto simp: inventory_ok_def unique_items_def)
    then show "relabel i (sku it) l = l" using x by (auto simp: relabel_def)
  qed
  show ?thesis
    using False assms(2,3) same
    by (cases flt) (auto simp: service_update_def repo_update_def transaction_def and_then_def validate_patch_def sku_diff Let_def)
qed

text \<open>
  The PATCH over the wire: an error the caller is told of means no change (a change is possible only where the answer got lost); a
  request that gets through fails only because the name is taken.
\<close>

lemma stock_rename:
  assumes "undisturbed E" "inventory_ok (inventory w)" "find_row item_id i (inventory_items (inventory w)) = Some it" "sku_form sk" "pe_is_uuid E i"
    and "stock_update E n actor i (sku_patch sk) w = (r, w')"
  shows "product_rows w' = product_rows w" "inventory_ok (inventory w')"
    "isl r \<and> w' = w \<or> (\<not> isl r \<or> pe_net E n = ReplyLost) \<and> labels (inventory w') = map (relabel i sk) (labels (inventory w))"
    "gets_through E n \<Longrightarrow> \<not> name_taken (inventory w) i sk \<Longrightarrow> \<not> isl r"
proof -
  let ?flt = "db_fault (pe_idb E n 0)" and ?db = "inventory w"
  let ?h = "handle_request (pe_is_uuid E) (\<lambda>k. db_fault (pe_idb E n k)) (pe_uuid E n) (pe_now E n) (PatchItem i (update_body (sku_patch sk)) actor)"
  obtain x db' where s: "service_update ?flt (pe_now E n) i (rename_patch sk) (request_actor actor) ?db = (x, db')" by fastforce
  have h: "?h ?db = (case x of Inl e \<Rightarrow> (Inl e, db') | Inr it \<Rightarrow> (Inr (200, [it]), db'))"
    using s assms(4,5) by (simp add: sku_patch_schema validated_def id_param_def respond_def and_then_def split: sum.split)
  have db': "inventory_ok db'" using keeps_result [OF service_update_keeps assms(2) s] .
  have w': "w' = (if pe_net E n = Unreachable then w else w\<lparr>inventory := db'\<rparr>)"
    using assms(6) h by (cases x) (auto simp: stock_update_def stock_request_def and_then_def client_request_undisturbed [OF assms(1)]
        split: sum.splits net_verdict.splits)
  show "product_rows w' = product_rows w" "inventory_ok (inventory w')" using w' db' assms(2) by simp_all
  have fault: "?flt = Some e \<Longrightarrow> 400 \<le> statusCode (toAppError e)" for e
    using db_faults_foreign [of "pe_idb E n"] by (auto simp: foreign_faults_def)
  from service_rename [OF assms(2,3) s]
  have r: "isl r \<and> w' = w \<or> (\<not> isl r \<or> pe_net E n = ReplyLost) \<and> labels (inventory w') = map (relabel i sk) (labels (inventory w))"
    "gets_through E n \<and> \<not> name_taken (inventory w) i sk \<longrightarrow> \<not> isl r"
    using assms(6) h w' fault
    by (auto simp: stock_update_def stock_request_def and_then_def client_request_undisturbed [OF assms(1)] client_reads_success client_reads_error
        gets_through_def split: net_verdict.splits)
  from r(1) show "isl r \<and> w' = w \<or> (\<not> isl r \<or> pe_net E n = ReplyLost) \<and> labels (inventory w') = map (relabel i sk) (labels (inventory w))" .
  from r(2) show "gets_through E n \<Longrightarrow> \<not> name_taken (inventory w) i sk \<Longrightarrow> \<not> isl r" by blast
qed

section \<open>The catalogue and its stock\<close>

definition products_ok :: "product_env \<Rightarrow> Product list \<Rightarrow> bool" where
  "products_ok E ps \<longleftrightarrow> distinct (map pr_id ps) \<and> distinct (map pr_sku ps) \<and> list_all (\<lambda>p. sku_form (pr_sku p) \<and> pe_is_uuid E (pr_id p)) ps"

text \<open>A stock record goes by the SKU of the product it is for.\<close>

definition mirrored :: "Product list \<Rightarrow> (string \<times> string \<times> string) list \<Rightarrow> bool" where
  "mirrored ps ls \<longleftrightarrow> (\<forall>p \<in> set ps. \<forall>(i, pid, s) \<in> set ls. pid = pr_id p \<longrightarrow> s = pr_sku p)"

definition catalogue_ok :: "product_env \<Rightarrow> product_world \<Rightarrow> bool" where
  "catalogue_ok E w \<longleftrightarrow> products_ok E (product_rows w) \<and> inventory_ok (inventory w) \<and>
     list_all (\<lambda>(i, pid, s). pe_is_uuid E i) (labels (inventory w)) \<and> mirrored (product_rows w) (labels (inventory w))"

lemma mirrored_mono: "mirrored ps ls \<Longrightarrow> set ps' \<subseteq> set ps \<Longrightarrow> set ls' \<subseteq> set ls \<Longrightarrow> mirrored ps' ls'"
  unfolding mirrored_def by (meson subsetD)

lemma mirroredD: "mirrored ps ls \<Longrightarrow> p \<in> set ps \<Longrightarrow> (i, pr_id p, s) \<in> set ls \<Longrightarrow> s = pr_sku p"
  unfolding mirrored_def by fastforce

lemma mirroredI: "(\<And>p i s. p \<in> set ps \<Longrightarrow> (i, pr_id p, s) \<in> set ls \<Longrightarrow> s = pr_sku p) \<Longrightarrow> mirrored ps ls"
  unfolding mirrored_def by fastforce

lemma reads_keep:
  assumes "undisturbed E"
  shows "keeps P (product_findById E n i)" "keeps P (product_findBySku E n s)" "keeps P (product_list E n q)"
    "keeps P (getProduct E n i)" "keeps P (stock_findByProductId E n pid)" "keeps P (listing_request E n lq)"
proof -
  show reads: "keeps P (product_findById E n i)" "keeps P (product_findBySku E n s)" "keeps P (product_list E n q)"
    by (simp_all add: keeps_def product_reads assms)
  from reads(1) show "keeps P (getProduct E n i)" unfolding getProduct_def by (intro keeps_intros)
  show "keeps P (listing_request E n lq)" using listing_request_world [OF assms] by (metis keepsI surjective_pairing)
  then show "keeps P (stock_findByProductId E n pid)"
    using stock_findByProductId_world [OF assms] by (metis keepsI surjective_pairing)
qed

lemma find_chunks_keeps: "undisturbed E \<Longrightarrow> keeps P (find_chunks E n cs found)"
  by (induction cs arbitrary: n found) (auto intro!: keeps_intros reads_keep)

lemma lookups_keep:
  assumes "undisturbed E"
  shows "keeps P (lookUpStock (http_inventory_client E) n p)" "keeps P (readStock (http_inventory_client E) n p)"
    "keeps P (readStockForPage (http_inventory_client E) n pids)"
proof -
  show look: "keeps P (lookUpStock (http_inventory_client E) n p)"
    unfolding lookUpStock_def http_inventory_client_def by (simp, intro keeps_intros reads_keep assms)
  show "keeps P (readStockForPage (http_inventory_client E) n pids)"
    unfolding readStockForPage_def http_inventory_client_def stock_findByProductIds_def by (simp, intro keeps_intros find_chunks_keeps assms)
  show "keeps P (readStock (http_inventory_client E) n p)"
    unfolding readStock_def by (intro keeps_intros look) (auto intro!: keeps_intros split: prod.split)
qed

lemma product_reading_requests:
  assumes "undisturbed E"
  shows "keeps P (product_handle E (GetProducts q))" "keeps P (product_handle E (GetProduct i))"
proof -
  have v: "keeps P (product_validated x)" for P and x :: "'x option" by (cases x) (simp_all add: product_validated_def keeps_basic)
  show "keeps P (product_handle E (GetProducts q))" "keeps P (product_handle E (GetProduct i))"
    by (auto simp: products_list_def products_getById_def intro!: keeps_intros v reads_keep lookups_keep assms split: prod.split)
qed

lemma delete_rows_subset: "set (delete_rows key k rows) \<subseteq> set rows"
  by (auto simp: delete_rows_def)

lemma product_delete_keeps: "undisturbed E \<Longrightarrow> keeps (catalogue_ok E) (product_delete E n i)"
proof (rule keepsI)
  fix w assume "undisturbed E" and ok: "catalogue_ok E w"
  then have "snd (product_delete E n i w) \<in> {w, w\<lparr>product_rows := delete_rows pr_id i (product_rows w)\<rparr>}"
    by (auto simp: product_delete_def at_products_undisturbed transaction_def split: option.splits)
  then show "catalogue_ok E (snd (product_delete E n i w))"
    using ok delete_rows_subset [of pr_id i "product_rows w"]
    by (auto simp: catalogue_ok_def products_ok_def list_all_iff distinct_map_delete_rows intro: mirrored_mono)
qed

text \<open>A deletion over the wire removes the record or does nothing.\<close>

lemma handle_delete_items:
  "handle_request is_uuid flt uuid now (DeleteItem i) db = (r, db') \<Longrightarrow> set (inventory_items db') \<subseteq> set (inventory_items db)"
  using delete_rows_subset [of item_id i "inventory_items db"]
  by (auto simp: validated_def id_param_def and_then_def service_remove_def getById_def findById_def repo_delete_def transaction_def delete_item_def
      split: option.splits if_splits prod.splits sum.splits)

lemma stock_delete_keeps:
  assumes "undisturbed E"
  shows "keeps (catalogue_ok E) (stock_delete E n i)"
proof (rule keepsI)
  fix w assume ok: "catalogue_ok E w"
  let ?h = "handle_request (pe_is_uuid E) (\<lambda>k. db_fault (pe_idb E n k)) (pe_uuid E n) (pe_now E n) (DeleteItem i)"
  obtain r db' where h: "?h (inventory w) = (r, db')" by fastforce
  have "snd (stock_delete E n i w) \<in> {w, w\<lparr>inventory := db'\<rparr>}"
    using h by (auto simp: stock_delete_def stock_request_def and_then_def client_request_undisturbed [OF assms] split: net_verdict.splits sum.splits prod.splits)
  moreover have "inventory_ok db'" using keeps_result [OF handle_request_keeps _ h] ok by (simp add: catalogue_ok_def)
  moreover have sub: "set (labels db') \<subseteq> set (labels (inventory w))" using handle_delete_items [OF h] by (auto simp: labels_def)
  moreover have "mirrored (product_rows w) (labels db')"
    by (rule mirrored_mono [OF _ order_refl sub]) (use ok in \<open>simp add: catalogue_ok_def\<close>)
  ultimately show "catalogue_ok E (snd (stock_delete E n i w))"
    using ok by (auto simp: catalogue_ok_def list_all_iff)
qed

lemma stock_request_ok:
  assumes "undisturbed E" "inventory_ok (inventory w)" "stock_request E n nul req w = (r, w')"
  shows "inventory_ok (inventory w')"
proof -
  let ?h = "handle_request (pe_is_uuid E) (\<lambda>k. db_fault (pe_idb E n k)) (pe_uuid E n) (pe_now E n) req"
  obtain x db' where h: "?h (inventory w) = (x, db')" by fastforce
  then have "inventory_ok db'" using keeps_result [OF handle_request_keeps assms(2)] by blast
  moreover have "w' \<in> {w, w\<lparr>inventory := db'\<rparr>}"
    using assms(3) h by (auto simp: stock_request_def client_request_undisturbed [OF assms(1)] split: net_verdict.splits)
  ultimately show ?thesis using assms(2) by auto
qed

lemma stock_create_ok:
  assumes "undisturbed E" "catalogue_ok E w" "p \<in> set (product_rows w)" "ci_sku input = pr_sku p" "ci_productId input = pr_id p"
    and "fit_to_provision E input" "pe_is_uuid E (pe_uuid E n)" "stock_create E n input w = (r, w')"
  shows "catalogue_ok E w'"
proof (cases "w' = w")
  case False
  then have w': "w' = w\<lparr>inventory := provisioned (inventory w) (drafted E n input)\<rparr>" using stock_create_effect [OF assms(1,6,8)] by blast
  have "inventory_ok (inventory w')"
    using assms(1,2,8) stock_request_ok by (auto simp: stock_create_def and_then_def catalogue_ok_def split: prod.splits sum.splits)
  moreover have labels: "labels (inventory w') = labels (inventory w) @ [(pe_uuid E n, pr_id p, pr_sku p)]"
    using assms(4,5) by (simp add: w' labels_def provisioned_def)
  moreover have "mirrored (product_rows w) (labels (inventory w) @ [(pe_uuid E n, pr_id p, pr_sku p)])"
  proof (rule mirroredI)
    fix q i s assume q: "q \<in> set (product_rows w)" and "(i, pr_id q, s) \<in> set (labels (inventory w) @ [(pe_uuid E n, pr_id p, pr_sku p)])"
    then consider "(i, pr_id q, s) \<in> set (labels (inventory w))" | "pr_id q = pr_id p" "s = pr_sku p" by auto
    then show "s = pr_sku q"
    proof cases
      case 1
      then show ?thesis using assms(2) q mirroredD unfolding catalogue_ok_def by blast
    next
      case 2
      then have "q = p" using assms(2,3) q by (auto simp: catalogue_ok_def products_ok_def distinct_map dest: inj_onD)
      then show ?thesis using 2 by simp
    qed
  qed
  ultimately show ?thesis using assms(2,7) by (auto simp: catalogue_ok_def w')
qed (use assms(2) in simp)

lemma product_create_ok:
  assumes "undisturbed E" "catalogue_ok E w" "fresh_ids E w" "sku_form (np_sku input)" "product_create E 1 input w = (r, w')"
  shows "catalogue_ok E w'"
proof (cases "w' = w")
  case False
  let ?p = "product_row (pe_uuid E 1) (pe_now E 1) input"
  have w': "w' = w\<lparr>product_rows := product_rows w @ [?p]\<rparr>" "pe_uuid E 1 \<notin> pr_id ` set (product_rows w)" "np_sku input \<notin> pr_sku ` set (product_rows w)"
    using False product_create_run [OF assms(1,5)] by (auto simp: Let_def)
  have "mirrored (product_rows w @ [?p]) (labels (inventory w))"
  proof (rule mirroredI)
    fix q i s assume "q \<in> set (product_rows w @ [?p])" and l: "(i, pr_id q, s) \<in> set (labels (inventory w))"
    moreover have "pr_id ?p \<notin> productId ` set (inventory_items (inventory w))" using assms(3) by (simp add: fresh_ids_def product_row_def)
    ultimately have "q \<in> set (product_rows w)" by (force simp: labels_def)
    then show "s = pr_sku q" using assms(2) l mirroredD unfolding catalogue_ok_def by blast
  qed
  then show ?thesis
    using assms(2-4) w' by (simp add: catalogue_ok_def products_ok_def product_row_def fresh_ids_def)
qed (use assms(2) in simp)

lemma compensations_keep:
  assumes "undisturbed E"
  shows "keeps (catalogue_ok E) (compensate (discardStock (http_inventory_client E) n pid))" "keeps (catalogue_ok E) (compensate (product_delete E n i))"
  unfolding compensate_def discardStock_def http_inventory_client_def
  by (simp_all, (intro keeps_intros reads_keep stock_delete_keeps product_delete_keeps assms)+)

lemma products_create_ok:
  assumes "undisturbed E" "catalogue_ok E w" "fresh_ids E w" "createProductSchema body = Some input"
    and "products_create E (http_inventory_client E) input w = (r, w')"
  shows "catalogue_ok E w'"
proof -
  let ?p = "product_row (pe_uuid E 1) (pe_now E 1) input" and ?K = "http_inventory_client E"
  let ?undo = "\<lambda>e. and_then (compensate (discardStock ?K 3 (pr_id ?p))) (\<lambda>_. and_then (compensate (product_delete E 5 (pr_id ?p))) (\<lambda>_. throw e))"
  obtain x w1 where c: "product_create E 1 input w = (x, w1)" by fastforce
  have ok1: "catalogue_ok E w1" by (rule product_create_ok [OF assms(1-3) create_schema_parts(1) [OF assms(4)] c])
  obtain y w2 where s: "stock_create E 2 (provision_input input ?p) w1 = (y, w2)" by fastforce
  have undo: "keeps (catalogue_ok E) (?undo e :: (product_world, thrown, ProductView) act)" for e
    by (intro keeps_intros compensations_keep assms(1))
  show ?thesis
  proof (cases "x = Inr ?p")
    case True
    have w1: "w1 = w\<lparr>product_rows := product_rows w @ [?p]\<rparr>" using product_create_run [OF assms(1) c] True by (auto simp: Let_def)
    have ok2: "catalogue_ok E w2"
      by (rule stock_create_ok [OF assms(1) ok1 _ _ _ _ _ s, of ?p])
        (use assms(3) provision_fits [OF assms(4)] in \<open>simp_all add: w1 provision_input_def fresh_ids_def product_row_def\<close>)
    have "w' = w \<or> (case y of Inr v \<Rightarrow> w' = w2 | Inl e \<Rightarrow> (r, w') = ?undo e w2)"
      using assms(5) c s True
      by (auto simp: products_create_def and_then_def product_reads assms(1) catching_def http_inventory_client_def split: option.splits sum.splits if_splits)
    then show ?thesis
      using assms(2) ok2 keeps_result [OF undo ok2] by (cases y) (auto dest: sym)
  next
    case False
    then have "w1 = w" "isl x" using product_create_run [OF assms(1) c] by (auto simp: Let_def)
    then have "w' = w"
      using assms(5) c by (auto simp: products_create_def and_then_def product_reads assms(1) split: option.splits sum.splits if_splits)
    then show ?thesis using assms(2) by simp
  qed
qed

lemma products_remove_ok: "undisturbed E \<Longrightarrow> keeps (catalogue_ok E) (products_remove E (http_inventory_client E) i)"
  unfolding products_remove_def compensate_def
  by (auto simp: http_inventory_client_def intro!: keeps_intros reads_keep stock_delete_keeps product_delete_keeps)

section \<open>A SKU change\<close>

lemma update_schema_sku: "updateProductSchema body = Some input \<Longrightarrow> up_sku input = Some s \<Longrightarrow> sku_form s"
proof -
  assume "updateProductSchema body = Some input" "up_sku input = Some s"
  then obtain fs where "optional product_skuField (obj_get fs ''sku'') = Some (Some s)"
    by (auto simp: updateProductSchema_def split: json.splits if_splits option.splits)
  then show ?thesis by (auto simp: optional_def split: option.splits dest: product_sku_form)
qed

lemma sku_form_nonempty: "sku_form s \<Longrightarrow> s \<noteq> ''''"
  by (auto simp: sku_form_def skuField_def trimmed_string_def js_trim_def)

lemma product_update_run:
  assumes "undisturbed E" "product_update E n i input w = (r, w')"
  shows "isl r \<and> w' = w \<or> (\<exists>p. find_row pr_id i (product_rows w) = Some p \<and> r = Inr (patch_product (pe_now E n) input p) \<and>
    w' = w\<lparr>product_rows := update_rows pr_id i (patch_product (pe_now E n) input) (product_rows w)\<rparr> \<and>
    or_else (up_sku input) (pr_sku p) \<notin> pr_sku ` {q \<in> set (product_rows w). pr_id q \<noteq> i})"
proof -
  have rest: "set (delete_rows pr_id i (product_rows w)) = {q \<in> set (product_rows w). pr_id q \<noteq> i}"
    by (auto simp: delete_rows_def)
  show ?thesis
    using assms(2)
    by (auto simp: product_update_def at_products_undisturbed [OF assms(1)] transaction_def Let_def rest patch_product_def split: option.splits if_splits)
qed

lemma find_row_same:
  "distinct (map key rows) \<Longrightarrow> find_row key k rows = Some r \<Longrightarrow> x \<in> set rows \<Longrightarrow> key x = k \<Longrightarrow> x = r"
  using find_row_distinct [of key rows x] by simp

lemma patched_products_ok:
  assumes "products_ok E ps" "find_row pr_id i ps = Some p" "sku_form (or_else (up_sku input) (pr_sku p))"
    and "or_else (up_sku input) (pr_sku p) \<notin> pr_sku ` {q \<in> set ps. pr_id q \<noteq> i}"
  shows "products_ok E (update_rows pr_id i (patch_product now input) ps)"
proof -
  note uniq = find_row_same [of pr_id ps i p]
  have "distinct (map pr_sku (update_rows pr_id i (patch_product now input) ps))"
    using assms uniq by (intro distinct_update_other [of pr_sku ps _ p]) (auto simp: products_ok_def patch_product_def)
  moreover have "map pr_id (update_rows pr_id i (patch_product now input) ps) = map pr_id ps"
    by (rule map_key_update_rows) (simp add: patch_product_def)
  moreover have "sku_form (pr_sku q) \<and> pe_is_uuid E (pr_id q)" if q: "q \<in> set (update_rows pr_id i (patch_product now input) ps)" for q
  proof -
    obtain q0 where "q0 \<in> set ps" "q = (if pr_id q0 = i then patch_product now input q0 else q0)"
      using q unfolding set_update_rows by blast
    then show ?thesis using assms(1-3) uniq [of q0] by (auto simp: products_ok_def list_all_iff patch_product_def)
  qed
  ultimately show ?thesis using assms(1) by (auto simp: products_ok_def list_all_iff)
qed

lemma patched_mirrored:
  assumes "products_ok E ps" "find_row pr_id i ps = Some p"
    and "\<And>q j s. q \<in> set ps \<Longrightarrow> pr_id q \<noteq> i \<Longrightarrow> (j, pr_id q, s) \<in> set ls \<Longrightarrow> s = pr_sku q"
    and "\<And>j s. (j, i, s) \<in> set ls \<Longrightarrow> s = or_else (up_sku input) (pr_sku p)"
  shows "mirrored (update_rows pr_id i (patch_product now input) ps) ls"
proof (rule mirroredI)
  fix q j s assume q: "q \<in> set (update_rows pr_id i (patch_product now input) ps)" and l: "(j, pr_id q, s) \<in> set ls"
  obtain q0 where q0: "q0 \<in> set ps" "q = (if pr_id q0 = i then patch_product now input q0 else q0)"
    using q unfolding set_update_rows by blast
  show "s = pr_sku q"
  proof (cases "pr_id q0 = i")
    case True
    then have "q0 = p" using assms(1,2) q0(1) by (auto simp: products_ok_def dest: find_row_same)
    then show ?thesis using True q0(2) l assms(4) by (simp add: patch_product_def)
  next
    case False
    then show ?thesis using q0 l assms(3) by simp
  qed
qed

text \<open>Labels after a record was renamed: that of the product moved, all others are the same.\<close>

lemma relabelled:
  assumes "(j, pid, s) \<in> set (map (relabel i sk) ls)"
  obtains s0 where "(j, pid, s0) \<in> set ls" "s = (if j = i then sk else s0)"
  using assms by (auto simp: relabel_def)

lemma label_row: "(j, pid, s) \<in> set (labels db) \<longleftrightarrow> (\<exists>it \<in> set (inventory_items db). item_id it = j \<and> productId it = pid \<and> sku it = s)"
  by (auto simp: labels_def)

lemma label_unique:
  assumes "inventory_ok db" "it \<in> set (inventory_items db)" "(j, pid, s) \<in> set (labels db)"
  shows "j = item_id it \<longleftrightarrow> pid = productId it" "s = sku it \<longleftrightarrow> j = item_id it"
  using assms unfolding label_row inventory_ok_def unique_items_def by (auto simp: distinct_map dest: inj_onD)

lemma name_taken_labels: "name_taken db i sk \<longleftrightarrow> (\<exists>(j, p, s) \<in> set (labels db). j \<noteq> i \<and> s = sk)"
  by (auto simp: name_taken_def labels_def)

lemma relabel_back:
  assumes "inventory_ok db" "it \<in> set (inventory_items db)"
  shows "map (relabel (item_id it) (sku it)) (map (relabel (item_id it) sk) (labels db)) = labels db"
  unfolding map_map
proof (rule map_idI)
  fix l assume l: "l \<in> set (labels db)"
  obtain j p s where "l = (j, p, s)" by (cases l)
  then show "(relabel (item_id it) (sku it) \<circ> relabel (item_id it) sk) l = l"
    using label_unique(2) [OF assms, of j p s] l by (auto simp: relabel_def)
qed

lemma readStock_run:
  assumes "undisturbed E"
  obtains item where "readStock (http_inventory_client E) n p w = (Inr item, w)"
proof -
  obtain r w' where run: "readStock (http_inventory_client E) n p w = (r, w')" by fastforce
  have "w' = w" by (rule keeps_result [OF lookups_keep(2) [OF assms] refl run])
  moreover have "\<not> isl r"
    using run by (auto simp: readStock_def lookUpStock_def catching_def and_then_def split: prod.splits sum.splits)
  ultimately show ?thesis using that run by (cases r) auto
qed

lemma write_product_alone:
  assumes "undisturbed E" "catalogue_ok E w" "find_row pr_id i (product_rows w) = Some p" "sku_form (or_else (up_sku input) (pr_sku p))"
    and "\<And>j s. (j, i, s) \<in> set (labels (inventory w)) \<Longrightarrow> s = or_else (up_sku input) (pr_sku p)"
    and "write_product E (http_inventory_client E) actor i input p None w = (r, w')"
  shows "catalogue_ok E w'"
proof -
  obtain x w1 where u: "product_update E 4 i input w = (x, w1)" by fastforce
  consider "isl x" "w1 = w" | q where "x = Inr q" "w1 = w\<lparr>product_rows := update_rows pr_id i (patch_product (pe_now E 4) input) (product_rows w)\<rparr>"
      "or_else (up_sku input) (pr_sku p) \<notin> pr_sku ` {q \<in> set (product_rows w). pr_id q \<noteq> i}"
    using product_update_run [OF assms(1) u] assms(3) by auto
  then show ?thesis
  proof cases
    case 1
    then have "w' = w" using assms(6) u by (auto simp: write_product_def catching_def and_then_def split: sum.splits)
    then show ?thesis using assms(2) by simp
  next
    case 2
    obtain item where "readStock (http_inventory_client E) 5 q w1 = (Inr item, w1)" by (rule readStock_run [OF assms(1)])
    then have "w' = w1" using assms(6) u 2(1) by (auto simp: write_product_def catching_def and_then_def)
    moreover have "products_ok E (product_rows w1)"
      using 2(2,3) assms(2-4) by (auto simp: catalogue_ok_def intro!: patched_products_ok)
    moreover have "mirrored (product_rows w1) (labels (inventory w))"
      using assms(2,3,5) 2(2) by (auto simp: catalogue_ok_def intro!: patched_mirrored [of E _ i p] dest: mirroredD)
    ultimately show ?thesis using assms(2) 2(2) by (simp add: catalogue_ok_def)
  qed
qed

text \<open>With the record already renamed: the row follows, or the record goes back.\<close>

lemma write_product_renamed:
  assumes "undisturbed E" "catalogue_ok E w" "find_row pr_id i (product_rows w) = Some p" "up_sku input = Some sk" "sku_form sk" "gets_through E 6"
    and it: "it \<in> set (inventory_items (inventory w))" "productId it = i"
    and w1: "product_rows w1 = product_rows w" "inventory_ok (inventory w1)" "labels (inventory w1) = map (relabel (item_id it) sk) (labels (inventory w))"
    and run: "write_product E (http_inventory_client E) actor i input p (Some (toInventoryItemView it)) w1 = (r, w')"
  shows "catalogue_ok E w'"
proof -
  obtain x w2 where u: "product_update E 4 i input w1 = (x, w2)" by fastforce
  have ok: "products_ok E (product_rows w)" "inventory_ok (inventory w)" "mirrored (product_rows w) (labels (inventory w))"
    using assms(2) by (simp_all add: catalogue_ok_def)
  have p: "p \<in> set (product_rows w)" "pr_id p = i" using find_row_SomeD [OF assms(3)] .
  note unique = label_unique [OF ok(2) it(1)]
  have ids: "list_all (\<lambda>(j, pid, s). pe_is_uuid E j) (labels (inventory w1))"
    using assms(2) by (auto simp: catalogue_ok_def w1(3) list_all_iff relabel_def)
  consider "x = Inr (patch_product (pe_now E 4) input p)" "w2 = w1\<lparr>product_rows := update_rows pr_id i (patch_product (pe_now E 4) input) (product_rows w)\<rparr>"
      "or_else (up_sku input) (pr_sku p) \<notin> pr_sku ` {q \<in> set (product_rows w). pr_id q \<noteq> i}" | e where "x = Inl e" "w2 = w1"
    using product_update_run [OF assms(1) u] assms(3) w1(1) by (cases x) auto
  then show ?thesis
  proof cases
    case 1
    then have w': "w' = w2" using run u by (auto simp: write_product_def catching_def and_then_def)
    have "mirrored (update_rows pr_id i (patch_product (pe_now E 4) input) (product_rows w)) (labels (inventory w1))"
    proof (rule patched_mirrored [OF ok(1) assms(3)])
      fix q j s assume q: "q \<in> set (product_rows w)" "pr_id q \<noteq> i" and "(j, pr_id q, s) \<in> set (labels (inventory w1))"
      then obtain s0 where "(j, pr_id q, s0) \<in> set (labels (inventory w))" "s = (if j = item_id it then sk else s0)"
        unfolding w1(3) by (blast elim: relabelled)
      then show "s = pr_sku q" using unique(1) [of j "pr_id q" s0] q it(2) mirroredD [OF ok(3)] by auto
    next
      fix j s assume "(j, i, s) \<in> set (labels (inventory w1))"
      then obtain s0 where "(j, i, s0) \<in> set (labels (inventory w))" "s = (if j = item_id it then sk else s0)"
        unfolding w1(3) by (blast elim: relabelled)
      then show "s = or_else (up_sku input) (pr_sku p)" using unique(1) [of j i s0] it(2) assms(4) by (simp add: or_else_def)
    qed
    moreover have "products_ok E (update_rows pr_id i (patch_product (pe_now E 4) input) (product_rows w))"
      using 1(3) assms(4,5) by (intro patched_products_ok [OF ok(1) assms(3)]) (simp_all add: or_else_def)
    ultimately show ?thesis using w1(2) ids by (simp add: catalogue_ok_def w' 1(2))
  next
    case 2
    have "sku it = pr_sku p" using mirroredD [OF ok(3) p(1), of "item_id it" "sku it"] it p(2) by (auto simp: label_row)
    moreover have form: "sku_form (pr_sku p)" using ok(1) p(1) by (simp add: products_ok_def list_all_iff)
    moreover have "item_id it \<in> item_id ` set (inventory_items (inventory w1))"
    proof -
      have "(item_id it, productId it, sk) \<in> set (labels (inventory w1))" unfolding w1(3) using it(1) by (force simp: labels_def relabel_def)
      then show ?thesis by (auto simp: labels_def)
    qed
    then obtain it1 where it1: "find_row item_id (item_id it) (inventory_items (inventory w1)) = Some it1"
      by (metis find_row_None_iff not_None_eq)
    have uuid: "pe_is_uuid E (item_id it)" using assms(2) it(1) by (auto simp: catalogue_ok_def labels_def list_all_iff)
    obtain y w3 where s: "stock_update E 6 actor (item_id it) (sku_patch (pr_sku p)) w1 = (y, w3)" by fastforce
    note renamed = stock_rename [OF assms(1) w1(2) it1 form uuid s]
    have "\<not> name_taken (inventory w1) (item_id it) (sku it)"
      unfolding name_taken_labels w1(3) using unique(2) by (auto simp: relabel_def)
    ultimately have "\<not> isl y" using renamed(4) assms(6) by simp
    then have "labels (inventory w3) = labels (inventory w)"
      using renamed(3) w1(3) relabel_back [OF ok(2) it(1), of sk] \<open>sku it = pr_sku p\<close> by simp
    moreover have "w' = w3"
      using run u 2 s \<open>\<not> isl y\<close>
      by (auto simp: write_product_def catching_def and_then_def compensate_def http_inventory_client_def toInventoryItemView_def InventoryItem.defs
          split: sum.splits)
    ultimately show ?thesis using renamed(1,2) w1(1) assms(2) by (simp add: catalogue_ok_def)
  qed
qed

lemma products_update_ok:
  assumes "undisturbed E" "catalogue_ok E w" "gets_through E 1" "pe_net E 3 \<noteq> ReplyLost" "gets_through E 6" "updateProductSchema body = Some input"
    and run: "products_update E (http_inventory_client E) actor i input w = (r, w')"
  shows "catalogue_ok E w'"
proof -
  let ?K = "http_inventory_client E"
  have ok: "products_ok E (product_rows w)" "inventory_ok (inventory w)" "mirrored (product_rows w) (labels (inventory w))"
    using assms(2) by (simp_all add: catalogue_ok_def)
  show ?thesis
  proof (cases "w' = w")
    case False
    obtain p where p: "find_row pr_id i (product_rows w) = Some p" and rest:
      "and_then (case changed_sku input p of None \<Rightarrow> ret None | Some sk \<Rightarrow> readStock ?K 1 p) (\<lambda>item.
         and_then (case changed_sku input p of None \<Rightarrow> ret () | Some sk \<Rightarrow> move_stock_sku E ?K actor i sk item) (\<lambda>_.
         write_product E ?K actor i input p item)) w = (r, w')"
      using run False by (auto simp: products_update_def getProduct_def and_then_def product_reads assms(1) split: option.splits)
    have pm: "p \<in> set (product_rows w)" "pr_id p = i" using find_row_SomeD [OF p] .
    show ?thesis
    proof (cases "changed_sku input p")
      case None
      then have same: "or_else (up_sku input) (pr_sku p) = pr_sku p"
        using update_schema_sku [OF assms(6)] sku_form_nonempty by (auto simp: changed_sku_def or_else_def split: option.splits if_splits)
      have "s = or_else (up_sku input) (pr_sku p)" if "(j, i, s) \<in> set (labels (inventory w))" for j s
        unfolding same using mirroredD [OF ok(3) pm(1)] that pm(2) by blast
      moreover have "sku_form (or_else (up_sku input) (pr_sku p))" unfolding same using ok(1) pm(1) by (simp add: products_ok_def list_all_iff)
      moreover have "write_product E ?K actor i input p None w = (r, w')" using rest None by simp
      ultimately show ?thesis by (intro write_product_alone [OF assms(1,2) p])
    next
      case (Some sk)
      then have sk: "up_sku input = Some sk" "sku_form sk"
        using update_schema_sku [OF assms(6)] by (auto simp: changed_sku_def split: option.splits if_splits)
      have uuid: "pe_is_uuid E i" using ok(1) pm by (auto simp: products_ok_def list_all_iff)
      have ids: "distinct (map productId (inventory_items (inventory w)))" using ok(2) by (simp add: inventory_ok_def unique_items_def)
      have "readStock ?K 1 p w = (Inr (map_option toInventoryItemView (find_row productId i (inventory_items (inventory w)))), w)"
        using stock_findByProductId_run [OF assms(1,3) uuid ids] pm(2)
        by (simp add: readStock_def lookUpStock_def catching_def and_then_def http_inventory_client_def)
      then have rest: "and_then (move_stock_sku E ?K actor i sk (map_option toInventoryItemView (find_row productId i (inventory_items (inventory w)))))
          (\<lambda>_. write_product E ?K actor i input p (map_option toInventoryItemView (find_row productId i (inventory_items (inventory w))))) w = (r, w')"
        using rest Some by (simp add: and_then_def)
      show ?thesis
      proof (cases "find_row productId i (inventory_items (inventory w))")
        case None
        then have "i \<notin> productId ` set (inventory_items (inventory w))" by (simp add: find_row_None_iff)
        then have "s = sk" if "(j, i, s) \<in> set (labels (inventory w))" for j s using that by (force simp: labels_def)
        moreover have "write_product E ?K actor i input p None w = (r, w')"
          using rest None False by (auto simp: move_stock_sku_def and_then_def product_reads assms(1) split: option.splits if_splits)
        ultimately show ?thesis using write_product_alone [OF assms(1,2) p, of input] sk by (simp add: or_else_def)
      next
        case item: (Some it)
        have it: "it \<in> set (inventory_items (inventory w))" "productId it = i" using find_row_SomeD [OF item] .
        have itf: "find_row item_id (item_id it) (inventory_items (inventory w)) = Some it"
          using it(1) ok(2) by (intro find_row_distinct) (simp_all add: inventory_ok_def unique_items_def)
        have iu: "pe_is_uuid E (item_id it)" using assms(2) it(1) by (auto simp: catalogue_ok_def labels_def list_all_iff)
        obtain y w1 where s: "stock_update E 3 actor (item_id it) (sku_patch sk) w = (y, w1)" by fastforce
        note renamed = stock_rename [OF assms(1) ok(2) itf sk(2) iu s]
        have "\<not> isl y" and wr: "write_product E ?K actor i input p (Some (toInventoryItemView it)) w1 = (r, w')"
          using rest item False s renamed(3) assms(4)
          by (auto simp: move_stock_sku_def and_then_def product_reads assms(1) http_inventory_client_def toInventoryItemView_def InventoryItem.defs
              split: option.splits if_splits sum.splits)
        then show ?thesis
          using write_product_renamed [OF assms(1,2) p sk assms(5) it renamed(1,2) _ wr] renamed(3) assms(4) by blast
      qed
    qed
  qed (use assms(2) in simp)
qed

text \<open>
  Property C34. The SKUs of the two services do not drift apart through one request at a time: for a request no other
  request interrupts, whose lookup of the record and undo of a rename get through and whose rename's answer is
  not lost, and whatever else the products database and the network do and whether it succeeds or fails, every stock record is left
  under the SKU of its product, with all identifiers, SKUs and tables well-formed. (The provisos are needed:
  \<open>unseen_record_keeps_its_name\<close>, \<open>lost_rename_stays\<close> and, for two requests that cross, \<open>crossing_renames\<close>.)
\<close>

theorem skus_never_drift:
  assumes "undisturbed E" "catalogue_ok E w" "fresh_ids E w" "gets_through E 1" "pe_net E 3 \<noteq> ReplyLost" "gets_through E 6"
    and "product_handle E req w = (r, w')"
  shows "catalogue_ok E w'"
proof (cases req)
  case (GetProducts q)
  then show ?thesis using assms(7) by (auto intro: keeps_result [of "catalogue_ok E", OF product_reading_requests(1) [OF assms(1)] assms(2)])
next
  case (PostProduct body)
  show ?thesis
  proof (cases "createProductSchema body")
    case (Some input)
    obtain x w1 where c: "products_create E (http_inventory_client E) input w = (x, w1)" by fastforce
    then have "w' = w1" using assms(7) PostProduct Some by (auto simp: product_validated_def and_then_def split: sum.splits)
    then show ?thesis using products_create_ok [OF assms(1-3) Some c] by simp
  qed (use assms(2,7) PostProduct in \<open>simp add: product_validated_def\<close>)
next
  case (GetProduct i)
  then show ?thesis using assms(7) by (auto intro: keeps_result [of "catalogue_ok E", OF product_reading_requests(2) [OF assms(1)] assms(2)])
next
  case (PatchProduct i body actor)
  show ?thesis
  proof (cases "pe_is_uuid E i \<and> updateProductSchema body \<noteq> None")
    case True
    then obtain input where input: "updateProductSchema body = Some input" by blast
    obtain x w1 where c: "products_update E (http_inventory_client E) (request_actor actor) i input w = (x, w1)" by fastforce
    then have "w' = w1"
      using assms(7) PatchProduct True input by (auto simp: product_validated_def id_param_def and_then_def split: sum.splits)
    then show ?thesis using products_update_ok [OF assms(1,2,4-6) input c] by simp
  qed (use assms(2,7) PatchProduct in \<open>auto simp: product_validated_def id_param_def split: option.splits\<close>)
next
  case (DeleteProduct i)
  obtain x w1 where c: "products_remove E (http_inventory_client E) i w = (x, w1)" by fastforce
  then have "w' = w \<or> w' = w1" using assms(7) DeleteProduct
    by (auto simp: product_validated_def id_param_def and_then_def split: sum.splits if_splits)
  then show ?thesis using keeps_result [OF products_remove_ok [OF assms(1)] assms(2) c] assms(2) by blast
qed

text \<open>A rename of the sample product, with every call getting through.\<close>

lemma sample_catalogue_ok: "catalogue_ok (catalogue_env net) sample_products"
proof -
  have "sku_form ''MUG''" by code_simp
  then show ?thesis
    using sample_products_facts(2)
    by (simp add: catalogue_ok_def products_ok_def mirrored_def labels_def sample_products_def catalogue_env_def product_row_def empty_inventory_db_def)
qed

theorem skus_never_drift_witness:
  "catalogue_ok (catalogue_env (\<lambda>_. Delivered))
     (snd (product_handle (catalogue_env (\<lambda>_. Delivered)) (PatchProduct ''p1'' (JObject [(''sku'', JString ''tea'')]) None) sample_products))"
proof -
  let ?E = "catalogue_env (\<lambda>_. Delivered)"
  obtain r w' where run: "product_handle ?E (PatchProduct ''p1'' (JObject [(''sku'', JString ''tea'')]) None) sample_products = (r, w')" by fastforce
  have "gets_through ?E 1" "pe_net ?E 3 \<noteq> ReplyLost" "gets_through ?E 6" by (simp_all add: gets_through_def catalogue_env_def)
  from skus_never_drift [OF sample_products_facts(1) sample_catalogue_ok sample_products_facts(3) this run] show ?thesis
    using run by simp
qed

section \<open>Where the services do drift apart\<close>

text \<open>The hypotheses are needed. A failed lookup counts as \<open>no record\<close>, and only the product is renamed.\<close>

lemma unseen_record_keeps_its_name:
  assumes "undisturbed E" "pe_net E 1 = Unreachable" "\<And>n. pe_db E n = DbCommits" "distinct (map pr_id (product_rows w))"
    and "find_row pr_id i (product_rows w) = Some p" "changed_sku input p = Some sk" "sk \<notin> pr_sku ` set (product_rows w)"
  shows "\<exists>v w'. products_update E (http_inventory_client E) actor i input w = (Inr v, w') \<and> inventory w' = inventory w \<and>
    product_rows w' = update_rows pr_id i (patch_product (pe_now E 4) input) (product_rows w) \<and> pr_sku (pv_product v) = sk"
proof -
  let ?K = "http_inventory_client E" and ?w = "w\<lparr>product_rows := update_rows pr_id i (patch_product (pe_now E 4) input) (product_rows w)\<rparr>"
  let ?p = "patch_product (pe_now E 4) input p"
  have sk: "up_sku input = Some sk" using assms(6) by (auto simp: changed_sku_def split: option.splits if_splits)
  have look: "readStock ?K 1 p w = (Inr None, w)"
    using assms(1,2) by (simp add: readStock_def lookUpStock_def catching_def and_then_def http_inventory_client_def stock_findByProductId_def
        listing_request_def client_request_undisturbed split: prod.split)
  have free: "find_row pr_sku sk (product_rows w) = None" using assms(7) by (simp add: find_row_None_iff)
  have upd: "product_update E 4 i input w = (Inr ?p, ?w)"
    using assms(3,5,7) sk by (auto simp: product_update_def at_products_undisturbed [OF assms(1)] transaction_def Let_def patch_product_def or_else_def delete_rows_def)
  obtain item where "readStock ?K 5 ?p ?w = (Inr item, ?w)" by (rule readStock_run [OF assms(1)])
  then have "products_update E ?K actor i input w = (Inr (toProductView ?p item True), ?w)"
    using assms(3,5,6) look upd free
    by (simp add: products_update_def getProduct_def product_reads assms(1) and_then_def move_stock_sku_def write_product_def catching_def)
  then show ?thesis using sk by (simp add: toProductView_def patch_product_def or_else_def)
qed

text \<open>A rename that was carried out and whose answer got lost stays: the request fails, only the record is renamed.\<close>

lemma lost_rename_stays:
  assumes "undisturbed E" "gets_through E 1" "pe_net E 3 = ReplyLost" "pe_db E 2 = DbCommits" "catalogue_ok E w" "pe_db E 0 = DbCommits"
    and "find_row pr_id i (product_rows w) = Some p" "changed_sku input p = Some sk" "sku_form sk"
    and "sk \<notin> pr_sku ` set (product_rows w)" "find_row productId i (inventory_items (inventory w)) = Some it"
    and "products_update E (http_inventory_client E) actor i input w = (r, w')"
  shows "isl r \<and> product_rows w' = product_rows w \<and>
    (w' = w \<or> labels (inventory w') = map (relabel (item_id it) sk) (labels (inventory w)))"
proof -
  let ?K = "http_inventory_client E"
  have ok: "products_ok E (product_rows w)" "inventory_ok (inventory w)" using assms(5) by (simp_all add: catalogue_ok_def)
  have pm: "p \<in> set (product_rows w)" "pr_id p = i" using find_row_SomeD [OF assms(7)] .
  have uuid: "pe_is_uuid E i" using ok(1) pm by (auto simp: products_ok_def list_all_iff)
  have ids: "distinct (map productId (inventory_items (inventory w)))" "distinct (map item_id (inventory_items (inventory w)))"
    using ok(2) by (simp_all add: inventory_ok_def unique_items_def)
  have it: "it \<in> set (inventory_items (inventory w))" using find_row_SomeD [OF assms(11)] by blast
  have itf: "find_row item_id (item_id it) (inventory_items (inventory w)) = Some it" by (rule find_row_distinct [OF ids(2) it])
  have iu: "pe_is_uuid E (item_id it)" using assms(5) it by (auto simp: catalogue_ok_def labels_def list_all_iff)
  have look: "readStock ?K 1 p w = (Inr (Some (toInventoryItemView it)), w)"
    using stock_findByProductId_run [OF assms(1,2) uuid ids(1)] pm(2) assms(11)
    by (simp add: readStock_def lookUpStock_def catching_def and_then_def http_inventory_client_def)
  obtain y w1 where s: "stock_update E 3 actor (item_id it) (sku_patch sk) w = (y, w1)" by fastforce
  have lost: "isl y" using s assms(1,3) by (auto simp: stock_update_def stock_request_def and_then_def client_request_undisturbed split: prod.splits)
  note renamed = stock_rename [OF assms(1) ok(2) itf assms(9) iu s]
  have free: "find_row pr_sku sk (product_rows w) = None" using assms(10) by (simp add: find_row_None_iff)
  have "r = (case y of Inl e \<Rightarrow> Inl e | Inr _ \<Rightarrow> r)" "w' = w1" "isl r"
    using assms(4,6,7,8,12) look free s lost
    by (auto simp: products_update_def getProduct_def product_reads assms(1) and_then_def move_stock_sku_def http_inventory_client_def
        toInventoryItemView_def InventoryItem.defs split: sum.splits)
  then show ?thesis using renamed(1,3) by auto
qed

text \<open>
  Nor does it hold for requests that cross. Two renames of one product, each of whose calls gets through: the second runs
  completely between the first one's rename of the stock record and its write of the product. Both are answered with
  success, the record keeps the second one's SKU and the product the first one's, and nothing repairs it.
\<close>

definition crossing_env :: product_env where
  "crossing_env = (catalogue_env (\<lambda>_. Delivered))\<lparr>pe_meanwhile := \<lambda>n w. if n = 4
     then snd (product_handle (catalogue_env (\<lambda>_. Delivered)) (PatchProduct ''p1'' (JObject [(''sku'', JString ''cup'')]) None) w)
     else w\<rparr>"

lemma crossing_renames:
  "case product_handle crossing_env (PatchProduct ''p1'' (JObject [(''sku'', JString ''tea'')]) None) sample_products of
     (r, w') \<Rightarrow> \<not> isl r \<and> map pr_sku (product_rows w') = [''TEA''] \<and> map sku (inventory_items (inventory w')) = [''CUP'']"
  by code_simp

text \<open>
  Creating a product is undone only as far as inventory has got. A provisioning call that times out before inventory has
  processed it, and is processed after the undo has looked, leaves the record behind without its product. In the model
  the caller finds inventory unreachable and the request lands as interference before the product is deleted.
\<close>

definition late_env :: product_env where
  "late_env = (catalogue_env (\<lambda>n. if n = 2 then Unreachable else Delivered))\<lparr>pe_meanwhile := \<lambda>n w. if n = 5
     then snd (sc_create (http_inventory_client (catalogue_env (\<lambda>_. Delivered))) 2 \<lparr>ci_sku = ''CUP'', ci_productId = ''p2'',
       ci_warehouse = None, ci_quantity = Some 5, ci_reorderLevel = None\<rparr> w)
     else w\<rparr>"

lemma late_provision_orphans:
  "case product_handle late_env (PostProduct sample_body) sample_products of
     (r, w') \<Rightarrow> isl r \<and> map pr_id (product_rows w') = [''p1''] \<and> map productId (inventory_items (inventory w')) = [''p1'', ''p2'']"
  by code_simp

text \<open>
  The answer to an update that changes no SKU reads the stock without asking whether the inventory service could be reached: where
  it could not, the product is reported as \<open>UNPROVISIONED\<close> and not as \<open>UNKNOWN\<close>.
\<close>

lemma update_reports_unprovisioned:
  assumes "undisturbed E" "pe_net E 5 = Unreachable" "changed_sku input p = None"
    and "find_row pr_id i (product_rows w) = Some p" "products_update E (http_inventory_client E) actor i input w = (Inr v, w')"
  shows "pv_stockStatus v = UNPROVISIONED"
proof -
  have look: "readStock (http_inventory_client E) 5 q w1 = (Inr None, w1)" for q w1
    using assms(1,2) by (simp add: readStock_def lookUpStock_def catching_def and_then_def http_inventory_client_def stock_findByProductId_def
        listing_request_def client_request_undisturbed split: prod.split)
  show ?thesis
    using assms(3-5) look
    by (auto simp: products_update_def getProduct_def product_reads assms(1) and_then_def write_product_def catching_def toProductView_def
        toStockStatus_def split: option.splits prod.splits sum.splits)
qed

section \<open>Reading a page of products\<close>

text \<open>What is relied on of a UUID: it is not empty and holds no comma and no blank.\<close>

definition uuid_text :: "(string \<Rightarrow> bool) \<Rightarrow> bool" where
  "uuid_text is_uuid \<longleftrightarrow> (\<forall>i. is_uuid i \<longrightarrow> i \<noteq> '''' \<and> (\<forall>c \<in> set i. c \<noteq> CHR '','' \<and> \<not> is_blank c))"

lemma split_join:
  assumes "\<forall>s \<in> set xs. CHR '','' \<notin> set s" "xs \<noteq> []"
  shows "js_split CHR '','' (join_with '','' xs) = xs"
  using assms
proof (induction xs rule: induct_list012)
  case (3 x y zs)
  then show ?case by (simp add: js_split_append)
qed (simp_all add: js_split_plain)

lemma set_join: "set (join_with '','' xs) \<subseteq> {CHR '',''} \<union> \<Union> (set ` set xs)"
  by (induction xs rule: induct_list012) auto

lemma productIds_read:
  assumes "uuid_text is_uuid" "\<forall>i \<in> set pids. is_uuid i" "pids \<noteq> []" "length pids \<le> 100"
  shows "productIdsField is_uuid (join_with '','' pids) = Some pids"
proof -
  have plain: "i \<noteq> ''''" "CHR '','' \<notin> set i" "\<forall>c \<in> set i. \<not> is_blank c" if "i \<in> set pids" for i
    using assms(1,2) that unfolding uuid_text_def by blast+
  have "\<not> is_blank CHR '',''" by code_simp
  then have "js_trim (join_with '','' pids) = join_with '','' pids"
    using set_join [of pids] plain(3) by (intro js_trim_plain) blast
  moreover have "js_split CHR '','' (join_with '','' pids) = pids" using plain(2) assms(3) by (intro split_join) auto
  moreover have "map js_trim pids = pids" using plain(3) by (intro map_idI js_trim_plain) blast
  moreover have "filter (\<lambda>i. i \<noteq> '''') pids = pids" using plain(1) by (simp add: filter_id_conv)
  ultimately show ?thesis using assms(2-4) by (cases pids) (simp_all add: productIdsField_def Let_def list_all_iff)
qed

definition by_products_query :: "string list \<Rightarrow> ListInventoryQuery" where
  "by_products_query pids = \<lparr>lq_page = 1, lq_limit = 100, lq_sku = None, lq_productId = None, lq_productIds = Some pids,
     lq_warehouse = None, lq_lowStock = None, lq_sortBy = By_createdAt, lq_order = Descending\<rparr>"

lemma by_products_schema:
  assumes "productIdsField is_uuid (join_with '','' pids) = Some pids"
  shows "listInventoryQuerySchema is_uuid [(''productIds'', join_with '','' pids), (''limit'', int_str (int MAX_BULK_IDS))] = Some (by_products_query pids)"
  using assms js_Number_int_str [of 100]
  by (simp add: listInventoryQuerySchema_def coerced_between_def MAX_SAFE_INTEGER_def query_optional_def by_products_query_def MAX_BULK_IDS_def)

text \<open>The map built from an answer is a lookup by product, in whatever order the records came.\<close>

lemma remember_items_lookup:
  "distinct (map productId items) \<Longrightarrow> remember_items found items pid = (case find_row productId pid items of None \<Rightarrow> found pid | Some it \<Rightarrow> Some it)"
proof (induction items arbitrary: found)
  case (Cons it items)
  have "remember_items found (it # items) pid = remember_items (found(productId it \<mapsto> it)) items pid" by (simp add: remember_items_def)
  then show ?case using Cons find_row_None_iff [of productId "productId it" items] by (auto split: option.split)
qed (simp add: remember_items_def)

lemma view_productId [simp]: "productId (toInventoryItemView it) = productId it"
  by (simp add: toInventoryItemView_def InventoryItem.defs)

lemma find_row_view: "find_row productId pid (map toInventoryItemView rows) = map_option toInventoryItemView (find_row productId pid rows)"
  by (induction rows) auto

lemma find_row_perm:
  assumes "mset xs = mset ys" "distinct (map key xs)"
  shows "find_row key k xs = find_row key k ys"
proof -
  have sets: "set xs = set ys" by (rule mset_eq_setD [OF assms(1)])
  have "distinct (map key ys)" using assms mset_eq_imp_distinct_iff [of "map key xs" "map key ys"] by (simp add: mset_map)
  note ys = find_row_distinct [OF this]
  show ?thesis
  proof (cases "find_row key k xs")
    case None
    then show ?thesis using sets by (metis find_row_None_iff)
  next
    case (Some r)
    then have "r \<in> set ys" "key r = k" using find_row_SomeD sets by metis+
    then show ?thesis using ys Some by metis
  qed
qed

lemma find_row_filter: "P k \<Longrightarrow> find_row key k (filter (\<lambda>r. P (key r)) rows) = find_row key k rows"
  by (induction rows) auto

lemma found_for_page:
  assumes "undisturbed E" "gets_through E n" "uuid_text (pe_is_uuid E)" "\<forall>i \<in> set pids. pe_is_uuid E i" "pids \<noteq> []" "length pids \<le> 100" "inventory_ok (inventory w)"
  shows "\<exists>found. stock_findByProductIds E n pids w = (Inr found, w) \<and>
    (\<forall>pid \<in> set pids. found pid = map_option toInventoryItemView (find_row productId pid (inventory_items (inventory w))))"
proof -
  let ?Q = "pe_engine E n" and ?q = "by_products_query pids" and ?items = "inventory_items (inventory w)"
  let ?rows = "filter (\<lambda>it. productId it \<in> set pids) ?items"
  let ?page = "map toInventoryItemView (sorted_items ?Q ?q ?rows)"
  have ids: "distinct (map productId ?items)" using assms(7) by (simp add: inventory_ok_def unique_items_def)
  then have idr: "distinct (map productId ?rows)" by (simp add: distinct_map_filter)
  have ids_p: "distinct (map productId (sorted_items ?Q ?q ?rows))"
    using idr sorted_items_perm [of ?Q ?q ?rows] mset_eq_imp_distinct_iff [of "map productId (sorted_items ?Q ?q ?rows)" "map productId ?rows"]
    by (simp add: mset_map)
  have "length ?rows = card (productId ` set ?rows)" using idr by (metis distinct_card length_map set_map)
  also have "\<dots> \<le> card (set pids)" by (rule card_mono) auto
  also have "\<dots> \<le> 100" using card_length [of pids] assms(6) by simp
  finally have few: "length (sorted_items ?Q ?q ?rows) \<le> 100" using mset_eq_length [OF sorted_items_perm] by metis
  have match: "filter (item_matches ?Q ?q) ?items = ?rows"
    by (rule filter_cong) (simp_all add: item_matches_def by_products_query_def)
  have list: "ctl_list ?Q None ?q (inventory w) = (Inr (sendPaginated ?page 1 100 (length ?rows)), inventory w)"
    using few by (subst ctl_list_run) (simp_all add: match Let_def page_rows_def, simp_all add: by_products_query_def)
  have "listing_request E n [(''productIds'', join_with '','' pids), (''limit'', int_str (int MAX_BULK_IDS))] w = (Inr (Some ?page), w)"
    using assms(1,2) list by (simp add: listing_request_def client_request_undisturbed gets_through_def and_then_def validated_def
        by_products_schema [OF productIds_read [OF assms(3-6)]] listing_data_def client_reads_success sendPaginated_def Let_def)
  moreover have "chunked pids = [pids]" using assms(5,6) by (simp add: chunked.simps MAX_BULK_IDS_def)
  ultimately have "stock_findByProductIds E n pids w = (Inr (remember_items (\<lambda>_. None) ?page), w)"
    by (simp add: stock_findByProductIds_def and_then_def or_else_def)
  moreover have "remember_items (\<lambda>_. None) ?page pid = map_option toInventoryItemView (find_row productId pid ?items)" if "pid \<in> set pids" for pid
  proof -
    have "find_row productId pid (sorted_items ?Q ?q ?rows) = find_row productId pid ?items"
      using find_row_perm [OF sorted_items_perm ids_p] find_row_filter [of "\<lambda>x. x \<in> set pids" pid productId ?items] that by simp
    then show ?thesis using ids_p by (simp add: remember_items_lookup comp_def find_row_view split: option.split)
  qed
  ultimately show ?thesis by blast
qed

lemma products_limit: "listProductsQuerySchema q = Some qq \<Longrightarrow> pq_limit qq \<le> 100"
  by (auto simp: listProductsQuerySchema_def coerced_between_def MAX_SAFE_INTEGER_def split: option.splits if_splits)

lemma page_rows_of: "set (page_rows n l rows) \<subseteq> set rows" "length (page_rows n l rows) \<le> l"
  by (auto simp: page_rows_def dest: in_set_takeD in_set_dropD)

lemma set_sorted_products: "set (sorted_products Q q rows) = set rows"
  by (simp add: sorted_products_def split: ProductSortField.split)

lemma unreached_page:
  assumes "undisturbed E" "pe_net E n \<noteq> Delivered" "pids \<noteq> []"
  shows "readStockForPage (http_inventory_client E) n pids w = (Inr (\<lambda>_. None, False), w)"
proof -
  let ?q = "[(''productIds'', join_with '','' (take MAX_BULK_IDS pids)), (''limit'', int_str (int MAX_BULK_IDS))]"
  obtain r w' where l: "listing_request E n ?q w = (r, w')" by fastforce
  then have "isl r"
    using assms(2) by (auto simp: listing_request_def client_request_undisturbed [OF assms(1)] split: prod.splits net_verdict.splits)
  then obtain e where "listing_request E n ?q w = (Inl e, w)" using l listing_request_world [OF assms(1) l] by (auto simp: isl_def)
  moreover have "chunked pids = take MAX_BULK_IDS pids # chunked (drop MAX_BULK_IDS pids)" using assms(3) by (subst chunked.simps) simp
  ultimately show ?thesis
    by (simp add: readStockForPage_def http_inventory_client_def stock_findByProductIds_def catching_def and_then_def)
qed

text \<open>
  Property C35. \<^verbatim>\<open>GET /products\<close> answers whenever its own database does, with the page asked for and the exact number of matching
  products, and its stock figures are never made up. When the lookup gets through, every product shows the figures of
  its own stock record, or \<open>UNPROVISIONED\<close> when there is none, in one request for the whole page; when the
  inventory service does not answer, every product is \<open>UNKNOWN\<close> and none is \<open>OUT_OF_STOCK\<close>.
\<close>

theorem product_pages_enriched:
  assumes "undisturbed E" "uuid_text (pe_is_uuid E)" "products_ok E (product_rows w)" "inventory_ok (inventory w)" "pe_db E 0 = DbCommits"
    and "listProductsQuerySchema q = Some qq"
  shows "\<exists>page. product_handle E (GetProducts q) w = (Inr (ProductsPage page), w) \<and>
    (let rows = filter (product_matches (pe_engine E 0) qq) (product_rows w) in
      map pv_product (pg_items page) = page_rows (pq_page qq) (pq_limit qq) (sorted_products (pe_engine E 0) qq rows) \<and> pg_total page = length rows) \<and>
    (gets_through E 1 \<longrightarrow> (\<forall>v \<in> set (pg_items page). v = toProductView (pv_product v)
       (map_option toInventoryItemView (find_row productId (pr_id (pv_product v)) (inventory_items (inventory w)))) True)) \<and>
    (pe_net E 1 \<noteq> Delivered \<longrightarrow> (\<forall>v \<in> set (pg_items page). pv_stock v = None \<and> pv_stockStatus v = UNKNOWN))"
proof -
  let ?K = "http_inventory_client E" and ?Q = "pe_engine E 0"
  let ?rows = "filter (product_matches ?Q qq) (product_rows w)"
  let ?page = "page_rows (pq_page qq) (pq_limit qq) (sorted_products ?Q qq ?rows)"
  have list: "product_list E 0 qq w = (Inr (?page, length ?rows), w)"
    using assms(5) by (simp add: product_reads assms(1) Let_def)
  obtain found reachable where read: "readStockForPage ?K 1 (map pr_id ?page) w = (Inr (found, reachable), w)"
  proof -
    obtain r w' where run: "readStockForPage ?K 1 (map pr_id ?page) w = (r, w')" by fastforce
    have "w' = w" by (rule keeps_result [OF lookups_keep(3) [OF assms(1)] refl run])
    moreover have "\<not> isl r" using run by (auto simp: readStockForPage_def catching_def and_then_def split: prod.splits sum.splits)
    ultimately show ?thesis using that run by (cases r) auto
  qed
  let ?items = "map (\<lambda>p. toProductView p (found (pr_id p)) reachable) ?page"
  have "product_handle E (GetProducts q) w = (Inr (ProductsPage (sendPaginated ?items (pq_page qq) (pq_limit qq) (length ?rows))), w)"
    using list read assms(6) by (auto simp: product_validated_def products_list_def and_then_def)
  moreover have "v = toProductView (pv_product v)
       (map_option toInventoryItemView (find_row productId (pr_id (pv_product v)) (inventory_items (inventory w)))) True"
    if through: "gets_through E 1" and v: "v \<in> set ?items" for v
  proof -
    have nonempty: "map pr_id ?page \<noteq> []" using v by auto
    have ids: "\<forall>i \<in> set (map pr_id ?page). pe_is_uuid E i"
      using assms(3) page_rows_of(1) [of "pq_page qq" "pq_limit qq" "sorted_products ?Q qq ?rows"]
      by (auto simp: products_ok_def list_all_iff set_sorted_products)
    have len: "length (map pr_id ?page) \<le> 100"
      using page_rows_of(2) [of "pq_page qq" "pq_limit qq"] products_limit [OF assms(6)] le_trans by (metis length_map)
    obtain f where f: "stock_findByProductIds E 1 (map pr_id ?page) w = (Inr f, w)"
      "\<forall>pid \<in> set (map pr_id ?page). f pid = map_option toInventoryItemView (find_row productId pid (inventory_items (inventory w)))"
      using found_for_page [OF assms(1) through assms(2) ids nonempty len assms(4)] by blast
    then have "found = f" "reachable" using read
      by (simp_all add: readStockForPage_def catching_def and_then_def http_inventory_client_def)
    then show ?thesis using v f(2) by (auto simp: toProductView_def)
  qed
  moreover have "pv_stock v = None \<and> pv_stockStatus v = UNKNOWN" if "pe_net E 1 \<noteq> Delivered" "v \<in> set ?items" for v
  proof -
    have "map pr_id ?page \<noteq> []" using that(2) by auto
    then have "found = (\<lambda>_. None)" "\<not> reachable" using unreached_page [OF assms(1) that(1), of "map pr_id ?page" w] read by simp_all
    then show ?thesis using that(2) by (auto simp: toProductView_def toStockStatus_def)
  qed
  moreover have "map pv_product ?items = ?page" by (simp add: toProductView_def comp_def)
  ultimately show ?thesis
    by (intro exI [of _ "sendPaginated ?items (pq_page qq) (pq_limit qq) (length ?rows)"]) (simp add: sendPaginated_def Let_def)
qed

text \<open>The sample product holds no stock: its page says so when the lookup gets through.\<close>

theorem product_pages_enriched_witness:
  "\<exists>page. product_handle (catalogue_env (\<lambda>_. Delivered)) (GetProducts []) sample_products = (Inr (ProductsPage page), sample_products) \<and>
     map (\<lambda>v. pr_sku (pv_product v)) (pg_items page) = [''MUG''] \<and> map pv_stockStatus (pg_items page) = [OUT_OF_STOCK]"
proof -
  let ?E = "catalogue_env (\<lambda>_. Delivered)"
  have text_of: "uuid_text (pe_is_uuid ?E)"
    by (auto simp: uuid_text_def catalogue_env_def is_blank_def)
  have ok: "products_ok ?E (product_rows sample_products)" using sample_catalogue_ok by (simp add: catalogue_ok_def)
  obtain qq where qq: "listProductsQuerySchema [] = Some qq"
    "qq = \<lparr>pq_page = 1, pq_limit = 20, pq_status = None, pq_search = None, pq_sortBy = Product_createdAt, pq_order = Descending\<rparr>"
    by (simp add: listProductsQuerySchema_def coerced_between_def MAX_SAFE_INTEGER_def query_optional_def)
  have rows: "page_rows (pq_page qq) (pq_limit qq) (sorted_products (pe_engine ?E 0) qq (filter (product_matches (pe_engine ?E 0) qq)
      (product_rows sample_products))) = product_rows sample_products"
    by (simp add: qq(2) sample_products_def product_matches_def sorted_products_def order_by_def scanned_def page_rows_def)
  obtain page where page: "product_handle ?E (GetProducts []) sample_products = (Inr (ProductsPage page), sample_products)"
    "map pv_product (pg_items page) = product_rows sample_products"
    "\<forall>v \<in> set (pg_items page). v = toProductView (pv_product v)
       (map_option toInventoryItemView (find_row productId (pr_id (pv_product v)) (inventory_items (inventory sample_products)))) True"
    using product_pages_enriched [OF sample_products_facts(1) text_of ok sample_products_facts(2) _ qq(1)] rows
    by (auto simp: Let_def gets_through_def catalogue_env_def)
  obtain v where v: "pg_items page = [v]" "pv_product v = hd (product_rows sample_products)"
    using page(2) by (cases "pg_items page") (auto simp: sample_products_def)
  then have "v = toProductView (hd (product_rows sample_products)) (Some (toInventoryItemView (hd (inventory_items (inventory sample_products))))) True"
    using page(3) by (auto simp: sample_products_def product_row_def)
  then show ?thesis
    using page(1) v by (simp add: toProductView_def toStockStatus_def toInventoryItemView_def InventoryItem.defs
        InventoryItemView.defs availableStock_def sample_products_def product_row_def)
qed

end
