(* ===== verification/Results.thy ===== *)
theory Results
  imports AppError
begin

text \<open>
  Error-first results (\<^verbatim>\<open>utils/result.ts\<close> of the email, user and auth services): \<^verbatim>\<open>[error, data]\<close> is a sum, and
  \<open>attempt\<close> turns whatever an operation throws into an \<open>AppError\<close>.
\<close>

definition attempt :: "('s, thrown, 'a) act \<Rightarrow> ('s, AppError, 'a) act" where
  "attempt m = (\<lambda>s. case m s of (Inl e, s') \<Rightarrow> (Inl (toAppError e), s') | (Inr a, s') \<Rightarrow> (Inr a, s'))"

text \<open>One statement or one transaction behind \<open>attempt\<close>, the way the repositories use it.\<close>

definition db_call :: "thrown option \<Rightarrow> ('s, thrown, 'a) act \<Rightarrow> ('s, AppError, 'a) act" where
  "db_call flt m = attempt (transaction flt m)"

lemma keeps_attempt [keeps_intros]: "keeps P m \<Longrightarrow> keeps P (attempt m)"
  unfolding keeps_def attempt_def by (fastforce split: prod.splits sum.splits)

lemma attempt_Inr: "attempt m s = (Inr a, t) \<longleftrightarrow> m s = (Inr a, t)"
  by (auto simp: attempt_def split: prod.splits sum.splits)

lemma attempt_Inl: "attempt m s = (Inl e, t) \<longleftrightarrow> (\<exists>x. m s = (Inl x, t) \<and> e = toAppError x)"
  by (auto simp: attempt_def split: prod.splits sum.splits)

lemma db_call_Inr: "db_call flt m s = (Inr a, t) \<longleftrightarrow> flt = None \<and> m s = (Inr a, t)"
  by (simp add: db_call_def attempt_Inr transaction_None_Inr_iff)

lemma db_call_Inl_unchanged: "db_call flt m s = (Inl e, t) \<Longrightarrow> t = s"
  by (auto simp: db_call_def attempt_Inl transaction_Inl_iff)

lemma db_call_gets [simp]: "db_call None (gets f) s = (Inr (f s), s)"
  by (simp add: db_call_def attempt_def transaction_def)

lemma db_call_fault [simp]: "db_call (Some e) m s = (Inl (toAppError e), s)"
  by (simp add: db_call_def attempt_def)

text \<open>What is stored is what a committed body left; nothing otherwise.\<close>

lemma db_call_keeps [keeps_intros]: "(\<And>s a t. P s \<Longrightarrow> m s = (Inr a, t) \<Longrightarrow> P t) \<Longrightarrow> keeps P (db_call flt m)"
  unfolding db_call_def by (intro keeps_attempt keeps_transaction_commit) blast

lemma db_call_read [keeps_intros]: "keeps P (db_call flt (gets f))"
  by (rule db_call_keeps) simp

text \<open>The same, following the structure of a transaction's body.\<close>

definition commits :: "('s \<Rightarrow> bool) \<Rightarrow> ('s, 'e, 'a) act \<Rightarrow> bool" where
  "commits P m \<longleftrightarrow> (\<forall>s a t. P s \<longrightarrow> m s = (Inr a, t) \<longrightarrow> P t)"

lemma commitsI: "(\<And>s a t. P s \<Longrightarrow> m s = (Inr a, t) \<Longrightarrow> P t) \<Longrightarrow> commits P m"
  by (auto simp: commits_def)

lemma commitsD: "commits P m \<Longrightarrow> P s \<Longrightarrow> m s = (Inr a, t) \<Longrightarrow> P t"
  unfolding commits_def by blast

lemma commits_and_then: "commits P m \<Longrightarrow> (\<And>a. commits P (f a)) \<Longrightarrow> commits P (and_then m f)"
  unfolding commits_def and_then_Inr_iff by blast

lemma commits_ret: "commits P (ret a)" "commits P (gets f)"
  by (simp_all add: commits_def)

lemma db_call_commits: "commits P m \<Longrightarrow> keeps P (db_call flt m)"
  by (rule db_call_keeps) (rule commitsD)

text \<open>From one predicate before to another after, on every outcome.\<close>

definition ensures :: "('s \<Rightarrow> bool) \<Rightarrow> ('s, 'e, 'a) act \<Rightarrow> ('s \<Rightarrow> bool) \<Rightarrow> bool" where
  "ensures P m Q \<longleftrightarrow> (\<forall>s. P s \<longrightarrow> Q (snd (m s)))"

lemma ensuresI: "(\<And>s. P s \<Longrightarrow> Q (snd (m s))) \<Longrightarrow> ensures P m Q"
  unfolding ensures_def by blast

lemma ensuresD: "ensures P m Q \<Longrightarrow> P s \<Longrightarrow> Q (snd (m s))"
  unfolding ensures_def by blast

lemma ensures_keeps: "keeps P m \<Longrightarrow> (\<And>s. P s \<Longrightarrow> Q s) \<Longrightarrow> ensures P m Q"
  unfolding ensures_def keeps_def by blast

lemma ensures_and_then:
  assumes "keeps P m" and "\<And>a. ensures P (f a) Q" and "\<And>s. P s \<Longrightarrow> Q s"
  shows "ensures P (and_then m f) Q"
proof (rule ensuresI)
  fix s assume "P s"
  then have "P (snd (m s))" by (rule keepsD [OF assms(1)])
  then show "Q (snd (and_then m f s))"
    using assms(2,3) unfolding ensures_def and_then_def by (auto split: prod.splits sum.splits)
qed

lemma ensures_after:
  assumes "ensures P m Q" and "\<And>a. keeps Q (f a)"
  shows "ensures P (and_then m f) Q"
proof (rule ensuresI)
  fix s assume "P s"
  then have "Q (snd (m s))" by (rule ensuresD [OF assms(1)])
  then show "Q (snd (and_then m f s))"
    using assms(2) unfolding keeps_def and_then_def by (auto split: prod.splits sum.splits)
qed

text \<open>Unique constraints: the first violated one is reported.\<close>

definition unique_violation :: "(string \<times> bool) list \<Rightarrow> thrown option" where
  "unique_violation taken = map_option (\<lambda>(f, _). ThrownPrisma ''P2002'' [f] ''Unique constraint failed'') (find snd taken)"

definition record_missing :: thrown where
  "record_missing = ThrownPrisma ''P2025'' [] ''Record to update not found''"

lemma unique_violation_None: "unique_violation taken = None \<longleftrightarrow> (\<forall>c \<in> set taken. \<not> snd c)"
  by (simp add: unique_violation_def find_None_iff) force

lemma conflict_status: "unique_violation taken = Some e \<Longrightarrow> statusCode (toAppError e) = 409"
  by (auto simp: unique_violation_def isPrismaCode_def is_digit_def fromPrismaError_def Let_def mkAppError_def)

lemma missing_status [simp]: "statusCode (toAppError record_missing) = 404"
  by (simp add: record_missing_def isPrismaCode_def is_digit_def fromPrismaError_def Let_def mkAppError_def)

end
