(* ===== verification/EmailOutbox.thy ===== *)
theory EmailOutbox
  imports Results "HOL-Library.Char_ord" "HOL-Library.List_Lexorder"
begin

text \<open>
  The email service's transactional outbox: the two tables of its Prisma schema, the repository
  (\<^verbatim>\<open>services/email/src/modules/email/email.repository.ts\<close>). Times are milliseconds. The database's verdict on each statement or transaction
  is a parameter, as is SHA-256; the column \<^verbatim>\<open>updatedAt\<close>, which nothing reads, is left out.
\<close>

section \<open>Tables\<close>

datatype EmailStatus = PENDING | SENDING | SENT | FAILED | DEAD

datatype EmailBodyType = TEXT | HTML

record EmailMessage =
  em_id :: string
  recipient :: string
  subject :: string
  em_body :: string
  bodyType :: EmailBodyType
  em_source :: string
  em_status :: EmailStatus
  attempts :: int
  maxAttempts :: int
  nextAttempt :: int
  lockedAt :: "int option"
  lockedBy :: "string option"
  lastError :: "string option"
  em_provider :: "string option"
  providerMessageId :: "string option"
  sentAt :: "int option"
  em_createdAt :: int

record IdempotencyKeyRow =
  ik_key :: string
  requestFingerprint :: string
  emailMessageId :: string
  ik_createdAt :: int

record email_db =
  email_messages :: "EmailMessage list"
  idempotency_keys :: "IdempotencyKeyRow list"

record NewEmailRecord =
  new_recipient :: string
  new_subject :: string
  new_body :: string
  new_bodyType :: EmailBodyType
  new_source :: string
  new_maxAttempts :: int

record EnqueueOutcome =
  outcome_message :: EmailMessage
  replayed :: bool
  storedFingerprint :: "string option"

section \<open>Writing a message\<close>

definition new_message :: "string \<Rightarrow> int \<Rightarrow> NewEmailRecord \<Rightarrow> EmailMessage" where
  "new_message uuid now input =
     \<lparr>em_id = uuid, recipient = new_recipient input, subject = new_subject input, em_body = new_body input,
      bodyType = new_bodyType input, em_source = new_source input, em_status = PENDING, attempts = 0,
      maxAttempts = new_maxAttempts input, nextAttempt = now, lockedAt = None, lockedBy = None, lastError = None,
      em_provider = None, providerMessageId = None, sentAt = None, em_createdAt = now\<rparr>"

definition create_message :: "EmailMessage \<Rightarrow> (email_db, thrown, EmailMessage) act" where
  "create_message row = (\<lambda>db.
     if em_id row \<in> set (map em_id (email_messages db)) then (Inl (ThrownPrisma ''P2002'' [''id''] ''Unique constraint failed''), db)
     else (Inr row, db\<lparr>email_messages := email_messages db @ [row]\<rparr>))"

definition create_key :: "IdempotencyKeyRow \<Rightarrow> (email_db, thrown, unit) act" where
  "create_key row = (\<lambda>db.
     if ik_key row \<in> set (map ik_key (idempotency_keys db)) then (Inl (ThrownPrisma ''P2002'' [''key''] ''Unique constraint failed''), db)
     else (Inr (), db\<lparr>idempotency_keys := idempotency_keys db @ [row]\<rparr>))"

text \<open>The row a key points at; the foreign key makes a key without a message impossible.\<close>

definition find_by_key :: "string \<Rightarrow> email_db \<Rightarrow> (EmailMessage \<times> string) option" where
  "find_by_key k db = (case find_row ik_key k (idempotency_keys db) of
     None \<Rightarrow> None
   | Some r \<Rightarrow> map_option (\<lambda>m. (m, requestFingerprint r)) (find_row em_id (emailMessageId r) (email_messages db)))"

definition insert_email ::
  "thrown option \<Rightarrow> string \<Rightarrow> int \<Rightarrow> NewEmailRecord \<Rightarrow> (string \<times> string) option \<Rightarrow> (email_db, thrown, EnqueueOutcome) act" where
  "insert_email flt uuid now input idempotency = transaction flt
     (and_then (gets (\<lambda>db. Option.bind idempotency (\<lambda>(k, _). find_by_key k db))) (\<lambda>existing.
      case existing of
        Some (m, fp) \<Rightarrow> ret \<lparr>outcome_message = m, replayed = True, storedFingerprint = Some fp\<rparr>
      | None \<Rightarrow>
          and_then (create_message (new_message uuid now input)) (\<lambda>m.
          and_then (case idempotency of
              None \<Rightarrow> ret ()
            | Some (k, fp) \<Rightarrow> create_key \<lparr>ik_key = k, requestFingerprint = fp, emailMessageId = em_id m, ik_createdAt = now\<rparr>) (\<lambda>_.
          ret \<lparr>outcome_message = m, replayed = False, storedFingerprint = map_option snd idempotency\<rparr>))))"

text \<open>\<open>meanwhile\<close> is what other requests committed between the failed insert and the second look.\<close>

definition repo_enqueue ::
  "thrown option \<Rightarrow> thrown option \<Rightarrow> (email_db \<Rightarrow> email_db) \<Rightarrow> string \<Rightarrow> int \<Rightarrow> NewEmailRecord \<Rightarrow> (string \<times> string) option
     \<Rightarrow> (email_db, AppError, EnqueueOutcome) act" where
  "repo_enqueue flt reread meanwhile uuid now input idempotency =
     catching (attempt (insert_email flt uuid now input idempotency)) (\<lambda>e.
       and_then (modify meanwhile) (\<lambda>_.
       if idempotency \<noteq> None \<and> statusCode e = 409 then
         and_then (attempt (transaction reread (gets (find_by_key (fst (the idempotency)))))) (\<lambda>replay.
         case replay of
           Some (m, fp) \<Rightarrow> ret \<lparr>outcome_message = m, replayed = True, storedFingerprint = Some fp\<rparr>
         | None \<Rightarrow> throw e)
       else throw e))"

section \<open>Reading\<close>

definition repo_findById :: "thrown option \<Rightarrow> string \<Rightarrow> (email_db, AppError, EmailMessage option) act" where
  "repo_findById flt i = attempt (transaction flt (gets (\<lambda>db. find_row em_id i (email_messages db))))"

record ListEmailsFilter =
  lf_page :: nat
  lf_limit :: nat
  lf_status :: "EmailStatus option"
  lf_source :: "string option"
  lf_recipient :: "string option"

definition list_matches :: "ListEmailsFilter \<Rightarrow> EmailMessage \<Rightarrow> bool" where
  "list_matches f m \<longleftrightarrow> (lf_status f = None \<or> lf_status f = Some (em_status m)) \<and>
     (lf_source f = None \<or> lf_source f = Some '''' \<or> lf_source f = Some (em_source m)) \<and>
     (lf_recipient f = None \<or> lf_recipient f = Some '''' \<or> lf_recipient f = Some (recipient m))"

text \<open>Newest first; rows of the same instant come in an order the database picks, here the table's.\<close>

definition repo_list :: "thrown option \<Rightarrow> ListEmailsFilter \<Rightarrow> (email_db, AppError, EmailMessage list \<times> nat) act" where
  "repo_list flt f = attempt (transaction flt (gets (\<lambda>db.
     let rows = filter (list_matches f) (email_messages db)
     in (take (lf_limit f) (drop ((lf_page f - 1) * lf_limit f) (sort_key (\<lambda>m. - em_createdAt m) rows)), length rows))))"

definition EMAIL_STATUSES :: "EmailStatus list" where
  "EMAIL_STATUSES = [PENDING, SENDING, SENT, FAILED, DEAD]"

definition countByStatus :: "thrown option \<Rightarrow> (email_db, AppError, (EmailStatus \<times> nat) list) act" where
  "countByStatus flt = attempt (transaction flt (gets (\<lambda>db.
     map (\<lambda>s. (s, length (filter (\<lambda>m. em_status m = s) (email_messages db)))) EMAIL_STATUSES)))"

section \<open>Claiming\<close>

definition CLAIMABLE_STATUSES :: "EmailStatus list" where
  "CLAIMABLE_STATUSES = [PENDING, FAILED]"

definition due :: "int \<Rightarrow> int \<Rightarrow> EmailMessage \<Rightarrow> bool" where
  "due claimTimeoutMs now m \<longleftrightarrow>
     em_status m \<in> set CLAIMABLE_STATUSES \<and> nextAttempt m \<le> now \<or>
     em_status m = SENDING \<and> (case lockedAt m of None \<Rightarrow> False | Some t \<Rightarrow> t < now - claimTimeoutMs)"

definition claim_candidates :: "nat \<Rightarrow> int \<Rightarrow> int \<Rightarrow> email_db \<Rightarrow> string list" where
  "claim_candidates limit claimTimeoutMs now db =
     map em_id (take limit (sort_key nextAttempt (filter (due claimTimeoutMs now) (email_messages db))))"

definition claim_row :: "string \<Rightarrow> int \<Rightarrow> EmailMessage \<Rightarrow> EmailMessage" where
  "claim_row workerId now m =
     m\<lparr>em_status := SENDING, lockedAt := Some now, lockedBy := Some workerId, attempts := attempts m + 1\<rparr>"

definition claim_update :: "string list \<Rightarrow> string \<Rightarrow> int \<Rightarrow> int \<Rightarrow> email_db \<Rightarrow> email_db" where
  "claim_update ids workerId claimTimeoutMs now db =
     db\<lparr>email_messages := map (\<lambda>m. if em_id m \<in> set ids \<and> due claimTimeoutMs now m then claim_row workerId now m else m)
          (email_messages db)\<rparr>"

definition claim_readback :: "string \<Rightarrow> int \<Rightarrow> email_db \<Rightarrow> EmailMessage list" where
  "claim_readback workerId now db = sort_key nextAttempt
     (filter (\<lambda>m. em_status m = SENDING \<and> lockedBy m = Some workerId \<and> lockedAt m = Some now) (email_messages db))"

text \<open>Three statements, not one transaction: others may commit in between.\<close>

definition claimDue ::
  "(nat \<Rightarrow> thrown option) \<Rightarrow> (nat \<Rightarrow> email_db \<Rightarrow> email_db) \<Rightarrow> nat \<Rightarrow> string \<Rightarrow> int \<Rightarrow> int
     \<Rightarrow> (email_db, AppError, EmailMessage list) act" where
  "claimDue flt meanwhile limit workerId claimTimeoutMs now = attempt
     (and_then (transaction (flt 0) (gets (claim_candidates limit claimTimeoutMs now))) (\<lambda>candidates.
      if candidates = [] then ret []
      else
        and_then (modify (meanwhile 0)) (\<lambda>_.
        and_then (transaction (flt 1) (modify (claim_update candidates workerId claimTimeoutMs now))) (\<lambda>_.
        and_then (modify (meanwhile 1)) (\<lambda>_.
        transaction (flt 2) (gets (claim_readback workerId now)))))))"

section \<open>Recording what happened\<close>

text \<open>\<open>ELLIPSIS\<close> stands for the one character the source appends, U+2026.\<close>

definition ELLIPSIS :: char where
  "ELLIPSIS = CHR 0x85"

definition truncateError :: "string \<Rightarrow> nat \<Rightarrow> string" where
  "truncateError msg mx = (if length msg \<le> mx then msg else take (mx - 1) msg @ [ELLIPSIS])"

definition update_email ::
  "thrown option \<Rightarrow> string \<Rightarrow> (EmailMessage \<Rightarrow> EmailMessage) \<Rightarrow> (email_db, AppError, EmailMessage) act" where
  "update_email flt i f = attempt (transaction flt (\<lambda>db.
     case find_row em_id i (email_messages db) of
       None \<Rightarrow> (Inl (ThrownPrisma ''P2025'' [] ''Record to update not found''), db)
     | Some m \<Rightarrow> (Inr (f m), db\<lparr>email_messages := update_rows em_id i f (email_messages db)\<rparr>)))"

definition sent_row :: "string \<Rightarrow> string \<Rightarrow> int \<Rightarrow> EmailMessage \<Rightarrow> EmailMessage" where
  "sent_row prov pid now m = m\<lparr>em_status := SENT, em_provider := Some prov, providerMessageId := Some pid, sentAt := Some now,
     lastError := None, lockedAt := None, lockedBy := None\<rparr>"

definition markSent :: "thrown option \<Rightarrow> string \<Rightarrow> string \<Rightarrow> string \<Rightarrow> int \<Rightarrow> (email_db, AppError, EmailMessage) act" where
  "markSent flt i prov pid now = update_email flt i (sent_row prov pid now)"

definition failed_row :: "string \<Rightarrow> int \<Rightarrow> EmailMessage \<Rightarrow> EmailMessage" where
  "failed_row err at m = m\<lparr>em_status := FAILED, lastError := Some (truncateError err 1000), nextAttempt := at,
     lockedAt := None, lockedBy := None\<rparr>"

definition markForRetry :: "thrown option \<Rightarrow> string \<Rightarrow> string \<Rightarrow> int \<Rightarrow> (email_db, AppError, EmailMessage) act" where
  "markForRetry flt i err at = update_email flt i (failed_row err at)"

definition dead_row :: "string \<Rightarrow> EmailMessage \<Rightarrow> EmailMessage" where
  "dead_row err m = m\<lparr>em_status := DEAD, lastError := Some (truncateError err 1000), lockedAt := None, lockedBy := None\<rparr>"

definition markDead :: "thrown option \<Rightarrow> string \<Rightarrow> string \<Rightarrow> (email_db, AppError, EmailMessage) act" where
  "markDead flt i err = update_email flt i (dead_row err)"

definition requeued_row :: "bool \<Rightarrow> int \<Rightarrow> EmailMessage \<Rightarrow> EmailMessage" where
  "requeued_row resetAttempts now m = m\<lparr>em_status := PENDING, nextAttempt := now, lockedAt := None, lockedBy := None,
     attempts := (if resetAttempts then 0 else attempts m)\<rparr>"

definition requeue :: "thrown option \<Rightarrow> string \<Rightarrow> bool \<Rightarrow> int \<Rightarrow> (email_db, AppError, EmailMessage) act" where
  "requeue flt i resetAttempts now = update_email flt i (requeued_row resetAttempts now)"

text \<open>Idempotency keys go with their message.\<close>

definition purge_sent :: "int \<Rightarrow> email_db \<Rightarrow> email_db" where
  "purge_sent cutoff db =
     (let gone = (\<lambda>m. em_status m = SENT \<and> em_createdAt m < cutoff);
          ids = map em_id (filter gone (email_messages db))
      in \<lparr>email_messages = filter (\<lambda>m. \<not> gone m) (email_messages db),
          idempotency_keys = filter (\<lambda>k. emailMessageId k \<notin> set ids) (idempotency_keys db)\<rparr>)"

definition purgeSentBefore :: "thrown option \<Rightarrow> int \<Rightarrow> (email_db, AppError, nat) act" where
  "purgeSentBefore flt cutoff = attempt (transaction flt
     (and_then (gets (\<lambda>db. length (filter (\<lambda>m. em_status m = SENT \<and> em_createdAt m < cutoff) (email_messages db)))) (\<lambda>count.
      and_then (modify (purge_sent cutoff)) (\<lambda>_. ret count))))"

end
