(* ===== verification/EmailService.thy ===== *)
theory EmailService
  imports EmailOutbox Zod
begin

text \<open>
  The email service in front of the outbox: the fingerprint of a payload
  (\<^verbatim>\<open>services/email/src/utils/fingerprint.ts\<close>), the request schemas (\<^verbatim>\<open>email.schema.ts\<close>), the business
  rules (\<^verbatim>\<open>email.service.ts\<close>) and the routes (\<^verbatim>\<open>email.controller.ts\<close>). SHA-256 and the tests behind
  \<^verbatim>\<open>z.email()\<close> and \<^verbatim>\<open>z.uuid()\<close> are parameters.
\<close>

section \<open>Fingerprints\<close>

text \<open>\<^verbatim>\<open>JSON.stringify\<close> of a string.\<close>

definition hex_digit :: "nat \<Rightarrow> char" where
  "hex_digit n = ''0123456789abcdef'' ! n"

definition json_escape :: "char \<Rightarrow> string" where
  "json_escape c =
     (let n = (of_char c :: nat) in
      if c = CHR 0x22 \<or> c = CHR 0x5C then [CHR 0x5C, c]
      else if n = 8 then [CHR 0x5C, CHR ''b'']
      else if n = 9 then [CHR 0x5C, CHR ''t'']
      else if n = 10 then [CHR 0x5C, CHR ''n'']
      else if n = 12 then [CHR 0x5C, CHR ''f'']
      else if n = 13 then [CHR 0x5C, CHR ''r'']
      else if n < 32 then [CHR 0x5C, CHR ''u'', CHR ''0'', CHR ''0'', hex_digit (n div 16), hex_digit (n mod 16)]
      else [c])"

definition json_quote :: "string \<Rightarrow> string" where
  "json_quote s = CHR 0x22 # concat (map json_escape s) @ [CHR 0x22]"

definition pair_text :: "string \<times> string \<Rightarrow> string" where
  "pair_text kv = ''['' @ json_quote (fst kv) @ '','' @ json_quote (snd kv) @ '']''"

definition canonical :: "(string \<times> string) list \<Rightarrow> string" where
  "canonical payload =
     ''['' @ join_with '','' (map (\<lambda>k. pair_text (k, the (map_of payload k))) (sort (map fst payload))) @ '']''"

definition fingerprint :: "(string \<Rightarrow> string) \<Rightarrow> (string \<times> string) list \<Rightarrow> string" where
  "fingerprint sha256 payload = sha256 (canonical payload)"

section \<open>Schemas\<close>

record SendEmailInput =
  send_recipient :: string
  send_subject :: string
  send_body :: string
  send_bodyType :: EmailBodyType
  send_source :: string

fun bodyType_text :: "EmailBodyType \<Rightarrow> string" where
  "bodyType_text TEXT = ''TEXT''"
| "bodyType_text HTML = ''HTML''"

definition emailField :: "(string \<Rightarrow> bool) \<Rightarrow> json \<Rightarrow> string option" where
  "emailField is_email v = (case v of
     JString s \<Rightarrow> (if is_email s \<and> length s \<le> 320 then Some (js_toLowerCase s) else None) | _ \<Rightarrow> None)"

definition bodyField :: "nat \<Rightarrow> json \<Rightarrow> string option" where
  "bodyField mx v = (case v of JString s \<Rightarrow> (if 1 \<le> length s \<and> length s \<le> mx then Some s else None) | _ \<Rightarrow> None)"

definition bodyTypeField :: "json \<Rightarrow> EmailBodyType option" where
  "bodyTypeField v = (case v of JString s \<Rightarrow> find (\<lambda>t. bodyType_text t = s) [TEXT, HTML] | _ \<Rightarrow> None)"

definition is_alnum :: "char \<Rightarrow> bool" where
  "is_alnum c \<longleftrightarrow> is_digit c \<or> 65 \<le> (of_char c :: nat) \<and> (of_char c :: nat) \<le> 90
     \<or> 97 \<le> (of_char c :: nat) \<and> (of_char c :: nat) \<le> 122"

definition is_source_char :: "char \<Rightarrow> bool" where
  "is_source_char c \<longleftrightarrow> is_alnum c \<or> c = CHR ''.'' \<or> c = CHR ''_'' \<or> c = CHR ''-''"

definition sourceField :: "json \<Rightarrow> string option" where
  "sourceField v = (case trimmed_string 1 100 v of
     None \<Rightarrow> None
   | Some s \<Rightarrow> (if is_alnum (hd s) \<and> list_all is_source_char (tl s) then Some s else None))"

definition sendEmailSchema :: "(string \<Rightarrow> bool) \<Rightarrow> nat \<Rightarrow> json \<Rightarrow> SendEmailInput option" where
  "sendEmailSchema is_email maxBody v = (case v of
     JObject fs \<Rightarrow>
       (if \<not> strict_keys [''recipient'', ''subject'', ''body'', ''bodyType'', ''source''] fs then None
        else case required (emailField is_email) (obj_get fs ''recipient'') of None \<Rightarrow> None | Some to \<Rightarrow>
          (case required (trimmed_string 1 255) (obj_get fs ''subject'') of None \<Rightarrow> None | Some sb \<Rightarrow>
          (case required (bodyField maxBody) (obj_get fs ''body'') of None \<Rightarrow> None | Some bd \<Rightarrow>
          (case with_default TEXT bodyTypeField (obj_get fs ''bodyType'') of None \<Rightarrow> None | Some bt \<Rightarrow>
          (case required sourceField (obj_get fs ''source'') of None \<Rightarrow> None | Some src \<Rightarrow>
             Some \<lparr>send_recipient = to, send_subject = sb, send_body = bd, send_bodyType = bt, send_source = src\<rparr>)))))
   | _ \<Rightarrow> None)"

definition idempotencyKeySchema :: "json \<Rightarrow> string option" where
  "idempotencyKeySchema v = trimmed_string 8 255 v"

section \<open>The service\<close>

record email_request =
  er_insert :: "thrown option"
  er_reread :: "thrown option"
  er_meanwhile :: "email_db \<Rightarrow> email_db"
  er_uuid :: string
  er_now :: int

definition payload_fields :: "SendEmailInput \<Rightarrow> (string \<times> string) list" where
  "payload_fields input = [(''recipient'', send_recipient input), (''subject'', send_subject input), (''body'', send_body input),
     (''bodyType'', bodyType_text (send_bodyType input)), (''source'', send_source input)]"

definition service_enqueue ::
  "(string \<Rightarrow> string) \<Rightarrow> int \<Rightarrow> email_request \<Rightarrow> SendEmailInput \<Rightarrow> string option \<Rightarrow> (email_db, AppError, EmailMessage \<times> bool) act" where
  "service_enqueue sha256 maxAtt req input idempotencyKey =
     (let digest = fingerprint sha256 (payload_fields input) in
      and_then (repo_enqueue (er_insert req) (er_reread req) (er_meanwhile req) (er_uuid req) (er_now req)
          \<lparr>new_recipient = send_recipient input, new_subject = send_subject input, new_body = send_body input,
           new_bodyType = send_bodyType input, new_source = send_source input, new_maxAttempts = maxAtt\<rparr>
          (case idempotencyKey of None \<Rightarrow> None | Some k \<Rightarrow> (if k = '''' then None else Some (k, digest)))) (\<lambda>outcome.
      if replayed outcome \<and> storedFingerprint outcome \<noteq> Some digest then
        throw (ConflictError (''Idempotency-Key '' @ quote (case idempotencyKey of None \<Rightarrow> ''undefined'' | Some k \<Rightarrow> k)
          @ '' was already used for a different message'') None)
      else ret (outcome_message outcome, replayed outcome)))"

definition email_getById :: "thrown option \<Rightarrow> string \<Rightarrow> (email_db, AppError, EmailMessage) act" where
  "email_getById flt i = and_then (repo_findById flt i) (\<lambda>m. case m of
     None \<Rightarrow> throw (NotFoundError (''Email '' @ quote i @ '' was not found''))
   | Some row \<Rightarrow> ret row)"

definition email_list :: "thrown option \<Rightarrow> ListEmailsFilter \<Rightarrow> (email_db, AppError, EmailMessage list \<times> nat \<times> nat \<times> nat) act" where
  "email_list flt q = and_then (repo_list flt q) (\<lambda>(items, total). ret (items, total, lf_page q, lf_limit q))"

definition stats :: "thrown option \<Rightarrow> (email_db, AppError, (EmailStatus \<times> nat) list) act" where
  "stats flt = countByStatus flt"

fun status_text :: "EmailStatus \<Rightarrow> string" where
  "status_text PENDING = ''PENDING''"
| "status_text SENDING = ''SENDING''"
| "status_text SENT = ''SENT''"
| "status_text FAILED = ''FAILED''"
| "status_text DEAD = ''DEAD''"

definition RETRYABLE_STATUSES :: "EmailStatus list" where
  "RETRYABLE_STATUSES = [FAILED, DEAD]"

text \<open>\<open>meanwhile\<close> is what the dispatcher committed between the lookup and the update.\<close>

definition email_retry ::
  "thrown option \<Rightarrow> thrown option \<Rightarrow> (email_db \<Rightarrow> email_db) \<Rightarrow> int \<Rightarrow> string \<Rightarrow> (email_db, AppError, EmailMessage) act" where
  "email_retry flt flt' meanwhile now i =
     and_then (email_getById flt i) (\<lambda>m.
     if em_status m \<notin> set RETRYABLE_STATUSES then
       throw (ConflictError (''Email '' @ quote i @ '' is '' @ status_text (em_status m)
         @ ''; only FAILED or DEAD messages can be retried'') None)
     else and_then (modify meanwhile) (\<lambda>_. requeue flt' i True now))"

section \<open>Routes\<close>

definition email_invalid :: AppError where
  "email_invalid = ValidationError ''Request validation failed'' None"

definition readIdempotencyKey :: "string option \<Rightarrow> AppError + string option" where
  "readIdempotencyKey header = (case header of
     None \<Rightarrow> Inr None
   | Some raw \<Rightarrow> (case idempotencyKeySchema (JString raw) of
        None \<Rightarrow> Inl (ValidationError ''Invalid Idempotency-Key header'' None)
      | Some k \<Rightarrow> Inr (Some k)))"

definition send_route ::
  "(string \<Rightarrow> bool) \<Rightarrow> nat \<Rightarrow> (string \<Rightarrow> string) \<Rightarrow> int \<Rightarrow> email_request \<Rightarrow> json \<Rightarrow> string option
     \<Rightarrow> (email_db, AppError, int \<times> EmailMessage) act" where
  "send_route is_email maxBody sha256 maxAtt req body key =
     (case sendEmailSchema is_email maxBody body of
        None \<Rightarrow> throw email_invalid
      | Some input \<Rightarrow>
          (case readIdempotencyKey key of
             Inl e \<Rightarrow> throw e
           | Inr idempotencyKey \<Rightarrow>
               and_then (service_enqueue sha256 maxAtt req input idempotencyKey) (\<lambda>(m, again).
               ret (if again then 200 else 202, m))))"

definition retry_route ::
  "(string \<Rightarrow> bool) \<Rightarrow> thrown option \<Rightarrow> thrown option \<Rightarrow> (email_db \<Rightarrow> email_db) \<Rightarrow> int \<Rightarrow> string
     \<Rightarrow> (email_db, AppError, int \<times> EmailMessage) act" where
  "retry_route is_uuid flt flt' meanwhile now i =
     (if \<not> is_uuid i then throw email_invalid
      else and_then (email_retry flt flt' meanwhile now i) (\<lambda>m. ret (202, m)))"

definition get_route :: "(string \<Rightarrow> bool) \<Rightarrow> thrown option \<Rightarrow> string \<Rightarrow> (email_db, AppError, int \<times> EmailMessage) act" where
  "get_route is_uuid flt i =
     (if \<not> is_uuid i then throw email_invalid else and_then (email_getById flt i) (\<lambda>m. ret (200, m)))"

section \<open>A fingerprint's text says everything about the payload\<close>

lemma hex_digit_inj: "m < 16 \<Longrightarrow> n < 16 \<Longrightarrow> hex_digit m = hex_digit n \<Longrightarrow> m = n"
  using nth_eq_iff_index_eq [of "''0123456789abcdef''" m n] by (simp add: hex_digit_def)

definition unshort :: "char \<Rightarrow> nat" where
  "unshort e = (if e = CHR ''b'' then 8 else if e = CHR ''t'' then 9 else if e = CHR ''n'' then 10
     else if e = CHR ''f'' then 12 else if e = CHR ''r'' then 13 else of_char e)"

lemma escape_cases:
  obtains (plain) "json_escape c = [c]" "c \<noteq> CHR 0x22" "c \<noteq> CHR 0x5C"
  | (short) e where "json_escape c = [CHR 0x5C, e]" "e \<noteq> CHR ''u''" "of_char c = unshort e"
  | (unicode) "json_escape c = [CHR 0x5C, CHR ''u'', CHR ''0'', CHR ''0'', hex_digit (of_char c div 16), hex_digit (of_char c mod 16)]"
      "of_char c < (32::nat)"
proof (cases "c = CHR 0x22 \<or> c = CHR 0x5C")
  case True
  then show ?thesis by (auto simp: json_escape_def Let_def unshort_def intro: short)
next
  case False
  then show ?thesis
    by (cases "(of_char c :: nat) \<in> {8, 9, 10, 12, 13}")
      (auto simp: json_escape_def Let_def unshort_def intro: short, cases "(of_char c :: nat) < 32",
        auto simp: json_escape_def Let_def intro: plain unicode)
qed

lemma same_code: "(of_char c :: nat) = of_char d \<Longrightarrow> c = d"
  by (metis char_of_char)

lemma escape_prefix:
  assumes "json_escape c @ x = json_escape d @ y"
  shows "c = d \<and> x = y"
proof (cases rule: escape_cases [of c])
  case plain
  then show ?thesis using assms by (cases rule: escape_cases [of d]) auto
next
  case (short e)
  then show ?thesis using assms by (cases rule: escape_cases [of d]) (auto intro: same_code)
next
  case unicode
  then show ?thesis
  proof (cases rule: escape_cases [of d])
    case 3: unicode
    then have "hex_digit (of_char c div 16) = hex_digit (of_char d div 16)" "hex_digit (of_char c mod 16) = hex_digit (of_char d mod 16)"
      "x = y" using assms unicode by simp_all
    then have "(of_char c :: nat) div 16 = of_char d div 16" "(of_char c :: nat) mod 16 = of_char d mod 16"
      using unicode(2) 3(2) by (auto intro!: hex_digit_inj)
    then have "(of_char c :: nat) = of_char d" by (metis div_mult_mod_eq)
    with \<open>x = y\<close> show ?thesis by (simp add: same_code)
  qed (use assms in auto)
qed

lemma escape_no_quote: "CHR 0x22 # x \<noteq> json_escape c @ y"
  by (cases rule: escape_cases [of c]) auto

lemma body_prefix:
  "concat (map json_escape s) @ CHR 0x22 # x = concat (map json_escape t) @ CHR 0x22 # y \<Longrightarrow> s = t \<and> x = y"
proof (induction s arbitrary: t)
  case Nil
  then show ?case
    by (cases t) (simp_all add: escape_no_quote)
next
  case (Cons c s)
  then show ?case
  proof (cases t)
    case Nil
    then have "CHR 0x22 # y = json_escape c @ (concat (map json_escape s) @ CHR 0x22 # x)" using Cons.prems by simp
    then show ?thesis using escape_no_quote by blast
  next
    case (Cons d u)
    then have "json_escape c @ (concat (map json_escape s) @ CHR 0x22 # x) = json_escape d @ (concat (map json_escape u) @ CHR 0x22 # y)"
      using Cons.prems by simp
    from escape_prefix [OF this] show ?thesis using Cons.IH Cons by auto
  qed
qed

lemma quote_prefix: "json_quote s @ x = json_quote t @ y \<Longrightarrow> s = t \<and> x = y"
  using body_prefix [of s x t y] by (simp add: json_quote_def)

lemma pair_prefix: "pair_text p @ x = pair_text q @ y \<Longrightarrow> p = q \<and> x = y"
proof -
  assume "pair_text p @ x = pair_text q @ y"
  then have "json_quote (fst p) @ ('','' @ json_quote (snd p) @ '']'' @ x) = json_quote (fst q) @ ('','' @ json_quote (snd q) @ '']'' @ y)"
    by (simp add: pair_text_def)
  from quote_prefix [OF this] show "p = q \<and> x = y"
    using quote_prefix [of "snd p" "'']'' @ x" "snd q" "'']'' @ y"] by (auto simp: prod_eq_iff)
qed

lemma pair_text_head: "\<exists>r. pair_text p = CHR ''['' # r"
  by (simp add: pair_text_def)

text \<open>The text of a list of pairs determines the list.\<close>

lemma pairs_join_inj:
  "join_with '','' (map pair_text ps) @ '']'' = join_with '','' (map pair_text qs) @ '']'' \<Longrightarrow> ps = qs"
proof (induction ps arbitrary: qs)
  case Nil
  then show ?case
  proof (cases qs)
    case (Cons q rest)
    then show ?thesis
      using Nil pair_text_head [of q] by (cases rest) auto
  qed simp
next
  case (Cons p ps)
  show ?case
  proof (cases qs)
    case Nil
    then show ?thesis
      using Cons.prems pair_text_head [of p] by (cases ps) auto
  next
    case (Cons q rest)
    let ?tail = "\<lambda>xs. case xs of [] \<Rightarrow> '']'' | x # ys \<Rightarrow> '','' @ join_with '','' (map pair_text xs) @ '']''"
    have step: "join_with '','' (map pair_text (x # xs)) @ '']'' = pair_text x @ ?tail xs" for x xs
      by (cases xs) simp_all
    have "p = q \<and> ?tail ps = ?tail rest"
      using Cons.prems unfolding Cons step by (rule pair_prefix)
    moreover from this have "ps = rest"
      using Cons.IH [of rest] by (cases ps; cases rest) simp_all
    ultimately show ?thesis using Cons by simp
  qed
qed

lemma canonical_pairs:
  "canonical p = ''['' @ join_with '','' (map pair_text (map (\<lambda>k. (k, the (map_of p k))) (sort (map fst p)))) @ '']''"
  by (simp add: canonical_def comp_def)

text \<open>
  The text a fingerprint hashes depends on what a payload says and on nothing else:
  two objects have the same canonical text exactly when they have the same fields with the same
  values, whatever the order they were written in. So an honest retry never looks like a different
  message, and a different message never looks like a retry unless SHA-256 collides.
\<close>

theorem canonical_exact:
  assumes "distinct (map fst p)" and "distinct (map fst q)"
  shows "canonical p = canonical q \<longleftrightarrow> map_of p = map_of q"
proof
  assume "canonical p = canonical q"
  then have eq: "map (\<lambda>k. (k, the (map_of p k))) (sort (map fst p)) = map (\<lambda>k. (k, the (map_of q k))) (sort (map fst q))"
    unfolding canonical_pairs by (intro pairs_join_inj) simp
  have keys: "sort (map fst p) = sort (map fst q)"
    using arg_cong [OF eq, of "map fst"] by (simp add: comp_def)
  then have same: "fst ` set p = fst ` set q"
    by (metis list.set_map set_sort)
  show "map_of p = map_of q"
  proof
    fix k
    show "map_of p k = map_of q k"
    proof (cases "k \<in> fst ` set p")
      case True
      then have "k \<in> set (sort (map fst p))" by simp
      then have "the (map_of p k) = the (map_of q k)" using eq keys by (auto simp: map_eq_conv)
      moreover have "map_of p k \<noteq> None" "map_of q k \<noteq> None" using True same by (auto simp: map_of_eq_None_iff)
      ultimately show ?thesis by auto
    next
      case False
      then have "map_of p k = None" "map_of q k = None" using same by (simp_all add: map_of_eq_None_iff)
      then show ?thesis by simp
    qed
  qed
next
  assume same: "map_of p = map_of q"
  then have "fst ` set p = fst ` set q" by (metis dom_map_of_conv_image_fst)
  then have "sort (map fst p) = sort (map fst q)"
    using assms by (intro sorted_distinct_set_unique) simp_all
  then show "canonical p = canonical q" by (simp add: canonical_def same)
qed

section \<open>Invariant of the outbox\<close>

text \<open>
  Ids, keys and the key of a message are unique and every key has its message (the schema's
  constraints); a row is locked exactly while it is being sent, and a settled row carries its
  receipt or its reason.
\<close>

definition email_row_ok :: "EmailMessage \<Rightarrow> bool" where
  "email_row_ok m \<longleftrightarrow> 0 \<le> attempts m \<and>
     (em_status m = SENDING \<longleftrightarrow> lockedAt m \<noteq> None) \<and> (lockedAt m = None \<longleftrightarrow> lockedBy m = None) \<and>
     (em_status m = SENT \<longrightarrow> em_provider m \<noteq> None \<and> providerMessageId m \<noteq> None \<and> sentAt m \<noteq> None) \<and>
     (em_status m = FAILED \<or> em_status m = DEAD \<longrightarrow> lastError m \<noteq> None)"

definition outbox_ok :: "email_db \<Rightarrow> bool" where
  "outbox_ok db \<longleftrightarrow> distinct (map em_id (email_messages db)) \<and> distinct (map ik_key (idempotency_keys db)) \<and>
     distinct (map emailMessageId (idempotency_keys db)) \<and>
     emailMessageId ` set (idempotency_keys db) \<subseteq> em_id ` set (email_messages db) \<and>
     list_all email_row_ok (email_messages db)"

lemma outbox_ok_update:
  assumes "outbox_ok db" and "\<And>m. em_id (f m) = em_id m" and "\<And>m. email_row_ok m \<Longrightarrow> email_row_ok (f m)"
  shows "outbox_ok (db\<lparr>email_messages := update_rows em_id i f (email_messages db)\<rparr>)"
proof -
  have "em_id ` set (update_rows em_id i f (email_messages db)) = em_id ` set (email_messages db)"
    using map_key_update_rows [where key' = em_id and key = em_id and f = f and k = i and rows = "email_messages db"] assms(2)
    by (metis list.set_map)
  then show ?thesis
    using assms
    by (auto simp: outbox_ok_def map_key_update_rows list_all_iff set_update_rows)
qed

lemma outbox_ok_map:
  assumes "outbox_ok db" and "\<And>m. em_id (f m) = em_id m" and "\<And>m. email_row_ok m \<Longrightarrow> email_row_ok (f m)"
  shows "outbox_ok (db\<lparr>email_messages := map f (email_messages db)\<rparr>)"
  using assms by (simp add: outbox_ok_def list_all_iff comp_def image_image)

lemma keeps_update_email:
  assumes "\<And>m. em_id (f m) = em_id m" and "\<And>m. email_row_ok m \<Longrightarrow> email_row_ok (f m)"
  shows "keeps outbox_ok (update_email flt i f)"
  unfolding update_email_def
  by (intro keeps_attempt keeps_transaction) (auto simp: keeps_def outbox_ok_update [OF _ assms] split: option.split)

lemma row_updates_ok:
  "em_id (sent_row p i n m) = em_id m" "em_id (failed_row e a m) = em_id m" "em_id (dead_row e m) = em_id m"
  "em_id (requeued_row b n m) = em_id m" "em_id (claim_row w n m) = em_id m"
  "email_row_ok m \<Longrightarrow> email_row_ok (sent_row p i n m)" "email_row_ok m \<Longrightarrow> email_row_ok (failed_row e a m)"
  "email_row_ok m \<Longrightarrow> email_row_ok (dead_row e m)" "email_row_ok m \<Longrightarrow> email_row_ok (requeued_row b n m)"
  "email_row_ok m \<Longrightarrow> email_row_ok (claim_row w n m)"
  by (simp_all add: sent_row_def failed_row_def dead_row_def requeued_row_def claim_row_def email_row_ok_def)

lemma keeps_marks:
  "keeps outbox_ok (markSent flt i p pid now)" "keeps outbox_ok (markForRetry flt i e at)"
  "keeps outbox_ok (markDead flt i e)" "keeps outbox_ok (requeue flt i b now)"
  unfolding markSent_def markForRetry_def markDead_def requeue_def
  by (intro keeps_update_email row_updates_ok, assumption)+

lemma outbox_ok_claim: "outbox_ok db \<Longrightarrow> outbox_ok (claim_update ids w to now db)"
  unfolding claim_update_def by (rule outbox_ok_map) (auto simp: row_updates_ok)

lemma outbox_ok_purge: "outbox_ok db \<Longrightarrow> outbox_ok (purge_sent cutoff db)"
  unfolding outbox_ok_def purge_sent_def Let_def
  by (auto simp: distinct_map_filter list_all_iff image_iff subset_eq) metis

lemma keeps_insert: "keeps outbox_ok (insert_email flt uuid now input idem)"
  unfolding insert_email_def
proof (rule keeps_transaction_commit)
  fix db :: email_db and out db'
  assume ok: "outbox_ok db" and run: "and_then (gets (\<lambda>db. Option.bind idem (\<lambda>(k, _). find_by_key k db))) (\<lambda>existing.
      case existing of
        Some (m, fp) \<Rightarrow> ret \<lparr>outcome_message = m, replayed = True, storedFingerprint = Some fp\<rparr>
      | None \<Rightarrow>
          and_then (create_message (new_message uuid now input)) (\<lambda>m.
          and_then (case idem of
              None \<Rightarrow> ret ()
            | Some (k, fp) \<Rightarrow> create_key \<lparr>ik_key = k, requestFingerprint = fp, emailMessageId = em_id m, ik_createdAt = now\<rparr>) (\<lambda>_.
          ret \<lparr>outcome_message = m, replayed = False, storedFingerprint = map_option snd idem\<rparr>))) db = (Inr out, db')"
  have row: "email_row_ok (new_message uuid now input)" "em_id (new_message uuid now input) = uuid"
    by (simp_all add: new_message_def email_row_ok_def)
  show "outbox_ok db'"
  proof (cases "Option.bind idem (\<lambda>(k, _). find_by_key k db)")
    case None
    then show ?thesis
      using run ok row
      by (cases idem) (auto simp: and_then_def create_message_def create_key_def outbox_ok_def list_all_iff
          dest: subsetD [OF _ imageI] split: if_splits prod.splits)
  next
    case (Some x)
    then show ?thesis using run ok by (auto split: prod.splits)
  qed
qed

section \<open>Idempotency keys\<close>

lemma key_without_message:
  assumes "outbox_ok db" and "find_by_key k db = None"
  shows "k \<notin> ik_key ` set (idempotency_keys db)"
proof
  assume "k \<in> ik_key ` set (idempotency_keys db)"
  then obtain r where r: "find_row ik_key k (idempotency_keys db) = Some r"
    using find_row_None_iff by (metis option.exhaust)
  then have "emailMessageId r \<in> em_id ` set (email_messages db)"
    using assms(1) find_row_SomeD(1) [OF r] by (auto simp: outbox_ok_def)
  then show False using assms(2) r by (auto simp: find_by_key_def find_row_None_iff)
qed

lemma insert_key:
  assumes ok: "outbox_ok db" and run: "insert_email flt uuid now input (Some (k, fp)) db = (Inr out, db')"
  shows "\<exists>s. find_by_key k db' = Some (outcome_message out, s) \<and> storedFingerprint out = Some s \<and> (\<not> replayed out \<longrightarrow> s = fp)"
proof (cases "find_by_key k db")
  case (Some x)
  then show ?thesis
    using run by (cases x) (auto simp: insert_email_def transaction_None_Inr_iff)
next
  case None
  note fresh = key_without_message [OF ok None]
  show ?thesis
    using run None fresh
    by (auto simp: insert_email_def transaction_None_Inr_iff and_then_def create_message_def create_key_def new_message_def
        find_by_key_def find_row_append find_row_None_iff [THEN iffD2] split: if_splits)
qed

lemma repo_enqueue_key:
  assumes ok: "outbox_ok db" and run: "repo_enqueue flt rr mw uuid now input (Some (k, fp)) db = (Inr out, db')"
  shows "\<exists>s. find_by_key k db' = Some (outcome_message out, s) \<and> storedFingerprint out = Some s \<and> (\<not> replayed out \<longrightarrow> s = fp)"
proof (cases "insert_email flt uuid now input (Some (k, fp)) db")
  case (Pair res db1)
  show ?thesis
  proof (cases res)
    case (Inr o1)
    then have "insert_email flt uuid now input (Some (k, fp)) db = (Inr out, db')"
      using run Pair by (simp add: repo_enqueue_def catching_def attempt_def)
    then show ?thesis by (rule insert_key [OF ok])
  next
    case (Inl e)
    then show ?thesis
      using run Pair
      by (auto simp: repo_enqueue_def catching_def attempt_def [of "insert_email _ _ _ _ _"] and_then_Inr_iff attempt_Inr
          transaction_None_Inr_iff split: if_splits option.splits)
  qed
qed

lemma service_enqueue_key:
  assumes "outbox_ok db" and "k \<noteq> ''''" and "service_enqueue sha mx req input (Some k) db = (Inr (m, again), db')"
  shows "find_by_key k db' = Some (m, fingerprint sha (payload_fields input))"
proof -
  let ?fp = "fingerprint sha (payload_fields input)"
  obtain out where run: "repo_enqueue (er_insert req) (er_reread req) (er_meanwhile req) (er_uuid req) (er_now req)
      \<lparr>new_recipient = send_recipient input, new_subject = send_subject input, new_body = send_body input,
       new_bodyType = send_bodyType input, new_source = send_source input, new_maxAttempts = mx\<rparr> (Some (k, ?fp)) db = (Inr out, db')"
    and "m = outcome_message out" "\<not> (replayed out \<and> storedFingerprint out \<noteq> Some ?fp)"
    using assms(2,3) by (auto simp: service_enqueue_def Let_def and_then_Inr_iff split: if_splits)
  with repo_enqueue_key [OF assms(1) run] show ?thesis by auto
qed

text \<open>What a request finds when its key is taken.\<close>

definition replay_outcome :: "string \<Rightarrow> string \<Rightarrow> string \<Rightarrow> EmailMessage \<Rightarrow> AppError + (EmailMessage \<times> bool)" where
  "replay_outcome k stored digest m =
     (if stored = digest then Inr (m, True)
      else Inl (ConflictError (''Idempotency-Key '' @ quote k @ '' was already used for a different message'') None))"

lemma insert_replays:
  "find_by_key k db = Some (m, s) \<Longrightarrow> insert_email None uuid now input (Some (k, fp)) db =
     (Inr \<lparr>outcome_message = m, replayed = True, storedFingerprint = Some s\<rparr>, db)"
  by (simp add: insert_email_def transaction_def)

lemma service_replays:
  assumes "find_by_key k db = Some (m, s)" and "k \<noteq> ''''" and "er_insert req = None"
  shows "service_enqueue sha mx req input (Some k) db =
    (replay_outcome k s (fingerprint sha (payload_fields input)) m, db)"
proof -
  have "repo_enqueue None rr mw uuid now new (Some (k, fp)) db =
      (Inr \<lparr>outcome_message = m, replayed = True, storedFingerprint = Some s\<rparr>, db)" for rr mw uuid now new fp
    by (simp add: repo_enqueue_def catching_def attempt_def insert_replays [OF assms(1)])
  then show ?thesis using assms(2,3) by (auto simp: service_enqueue_def Let_def and_then_def replay_outcome_def)
qed

lemma service_loses_race:
  assumes "find_by_key k db1 = Some (m, s)" and "k \<noteq> ''''" and "er_insert req = Some (ThrownPrisma ''P2002'' target msg)"
    and "er_reread req = None" and "er_meanwhile req db = db1"
  shows "service_enqueue sha mx req input (Some k) db =
    (replay_outcome k s (fingerprint sha (payload_fields input)) m, db1)"
proof -
  let ?e = "ThrownPrisma ''P2002'' target msg"
  have conflict: "statusCode (toAppError ?e) = 409"
    by (simp add: isPrismaCode_def fromPrismaError_def Let_def mkAppError_def is_digit_def)
  have "repo_enqueue (Some ?e) None (er_meanwhile req) uuid now new (Some (k, fp)) db =
      (Inr \<lparr>outcome_message = m, replayed = True, storedFingerprint = Some s\<rparr>, db1)" for uuid now new fp
    by (simp add: repo_enqueue_def insert_email_def catching_def attempt_def conflict assms(1,5) and_then_def transaction_def
        del: toAppError.simps)
  then show ?thesis using assms(2-4) by (auto simp: service_enqueue_def Let_def and_then_def replay_outcome_def)
qed

text \<open>
  Property C18. An idempotency key buys exactly one email: once a request with a key was accepted,
  any further request with that key writes nothing. It gets the same message back when it carries
  the same payload and a conflict when it does not, both when it arrives later and when it loses a
  race with the first and its own insert is refused.
\<close>

theorem enqueue_idempotent:
  assumes "outbox_ok db" and "k \<noteq> ''''" and "service_enqueue sha mx req input (Some k) db = (Inr (m, again), db1)"
    and "er_insert later = None"
    and "er_insert loser = Some (ThrownPrisma ''P2002'' target msg)" "er_reread loser = None" "er_meanwhile loser db0 = db1"
  shows "service_enqueue sha mx2 later input2 (Some k) db1 =
      (replay_outcome k (fingerprint sha (payload_fields input)) (fingerprint sha (payload_fields input2)) m, db1) \<and>
    service_enqueue sha mx2 loser input2 (Some k) db0 =
      (replay_outcome k (fingerprint sha (payload_fields input)) (fingerprint sha (payload_fields input2)) m, db1)"
  using service_replays [OF service_enqueue_key [OF assms(1-3)] assms(2,4)]
    service_loses_race [OF service_enqueue_key [OF assms(1-3)] assms(2,5-7)] by blast

definition empty_outbox :: email_db where
  "empty_outbox = \<lparr>email_messages = [], idempotency_keys = []\<rparr>"

lemma empty_outbox_ok: "outbox_ok empty_outbox"
  by (simp add: outbox_ok_def empty_outbox_def)

definition sample_request :: email_request where
  "sample_request = \<lparr>er_insert = None, er_reread = None, er_meanwhile = id, er_uuid = ''e1'', er_now = 5\<rparr>"

definition sample_email :: SendEmailInput where
  "sample_email = \<lparr>send_recipient = ''a@b.c'', send_subject = ''s'', send_body = ''b'', send_bodyType = TEXT, send_source = ''shop''\<rparr>"

definition sample_message :: EmailMessage where
  "sample_message = new_message ''e1'' 5 \<lparr>new_recipient = ''a@b.c'', new_subject = ''s'', new_body = ''b'', new_bodyType = TEXT,
     new_source = ''shop'', new_maxAttempts = 3\<rparr>"

definition sample_outbox :: email_db where
  "sample_outbox = \<lparr>email_messages = [sample_message], idempotency_keys = [\<lparr>ik_key = ''order-42'',
     requestFingerprint = fingerprint id (payload_fields sample_email), emailMessageId = ''e1'', ik_createdAt = 5\<rparr>]\<rparr>"

lemma sample_accepted:
  "service_enqueue id 3 sample_request sample_email (Some ''order-42'') empty_outbox = (Inr (sample_message, False), sample_outbox)"
  by (simp add: service_enqueue_def Let_def repo_enqueue_def insert_email_def sample_request_def sample_email_def empty_outbox_def
      and_then_def catching_def attempt_def transaction_def find_by_key_def create_message_def create_key_def
      sample_message_def sample_outbox_def) (simp add: new_message_def)

theorem enqueue_idempotent_witness:
  "service_enqueue id 3 sample_request sample_email (Some ''order-42'') sample_outbox = (Inr (sample_message, True), sample_outbox)"
proof -
  let ?loser = "sample_request\<lparr>er_insert := Some (ThrownPrisma ''P2002'' [''key''] ''''), er_meanwhile := (\<lambda>_. sample_outbox)\<rparr>"
  from enqueue_idempotent [OF empty_outbox_ok _ sample_accepted, of sample_request ?loser "[''key'']" "''''" empty_outbox 3 sample_email]
  show ?thesis by (simp add: sample_request_def replay_outcome_def)
qed

end
