(* ===== verification/EmailDispatcher.thy ===== *)
theory EmailDispatcher
  imports EmailService Complex_Main
begin

text \<open>
  The relay of the email service (\<^verbatim>\<open>services/email/src/modules/email/email.dispatcher.ts\<close>) with its backoff
  (\<^verbatim>\<open>utils/backoff.ts\<close>): claiming a batch, sending each message, recording the outcome, purging.
  The provider's answers, the clock, the random numbers and the database's verdicts are parameters;
  fractions of a millisecond are exact rationals. Workers that run side by side are a step relation
  whose steps are single database statements.
\<close>

section \<open>Backoff\<close>

definition js_round :: "rat \<Rightarrow> int" where
  "js_round x = \<lfloor>x + 1 / 2\<rfloor>"

definition capped_delay :: "int \<Rightarrow> int \<Rightarrow> int \<Rightarrow> int" where
  "capped_delay att baseMs maxMs =
     (let exponent = max 0 (att - 1);
          uncapped = baseMs * 2 ^ nat (min exponent 30)
      in min maxMs uncapped)"

definition backoffDelayMs :: "int \<Rightarrow> int \<Rightarrow> int \<Rightarrow> rat \<Rightarrow> int" where
  "backoffDelayMs att baseMs maxMs random =
     (let half = of_int (capped_delay att baseMs maxMs) / 2
      in js_round (half + random * half))"

definition nextAttemptAt :: "int \<Rightarrow> int \<Rightarrow> int \<Rightarrow> rat \<Rightarrow> int \<Rightarrow> int" where
  "nextAttemptAt att baseMs maxMs random now = now + backoffDelayMs att baseMs maxMs random"

section \<open>Delivering a batch\<close>

record dispatcher_options =
  batchSize :: nat
  claimTimeoutMs :: int
  backoffBaseMs :: int
  backoffMaxMs :: int
  retentionDays :: int
  workerId :: string

datatype send_verdict =
  ProviderSent string string
| ProviderError string bool
| ProviderThrew string

datatype DeliveryOutcome = OutcomeSent | OutcomeRetrying | OutcomeDead

record dispatch_env =
  de_send :: "EmailMessage \<Rightarrow> send_verdict"
  de_mark :: "EmailMessage \<Rightarrow> thrown option"
  de_random :: "EmailMessage \<Rightarrow> rat"
  de_now :: int
  de_claim :: "nat \<Rightarrow> thrown option"
  de_meanwhile :: "nat \<Rightarrow> email_db \<Rightarrow> email_db"

definition recordFailure ::
  "dispatcher_options \<Rightarrow> dispatch_env \<Rightarrow> EmailMessage \<Rightarrow> string \<Rightarrow> bool \<Rightarrow> email_db \<Rightarrow> DeliveryOutcome \<times> email_db" where
  "recordFailure opts env m reason retryable db =
     (let exhausted = (maxAttempts m \<le> attempts m) in
      if \<not> retryable \<or> exhausted then (OutcomeDead, snd (markDead (de_mark env m) (em_id m) reason db))
      else
        let retryAt = nextAttemptAt (attempts m) (backoffBaseMs opts) (backoffMaxMs opts) (de_random env m) (de_now env)
        in (OutcomeRetrying, snd (markForRetry (de_mark env m) (em_id m) reason retryAt db)))"

definition deliver ::
  "dispatcher_options \<Rightarrow> dispatch_env \<Rightarrow> EmailMessage \<Rightarrow> email_db \<Rightarrow> DeliveryOutcome \<times> email_db" where
  "deliver opts env m db = (case de_send env m of
     ProviderThrew msg \<Rightarrow> recordFailure opts env m (''Provider threw: '' @ msg) True db
   | ProviderError msg retryable \<Rightarrow> recordFailure opts env m msg retryable db
   | ProviderSent prov pid \<Rightarrow> (OutcomeSent, snd (markSent (de_mark env m) (em_id m) prov pid (de_now env) db)))"

text \<open>The deliveries of a batch touch different rows, so the order they end in does not matter.\<close>

fun deliver_all ::
  "dispatcher_options \<Rightarrow> dispatch_env \<Rightarrow> EmailMessage list \<Rightarrow> email_db \<Rightarrow> DeliveryOutcome list \<times> email_db" where
  "deliver_all opts env [] db = ([], db)"
| "deliver_all opts env (m # ms) db =
     (let (out, db1) = deliver opts env m db; (outs, db2) = deliver_all opts env ms db1 in (out # outs, db2))"

record DispatchSummary =
  claimed :: nat
  sum_sent :: nat
  sum_retrying :: nat
  sum_dead :: nat

definition runOnce :: "dispatcher_options \<Rightarrow> dispatch_env \<Rightarrow> (email_db, AppError, DispatchSummary) act" where
  "runOnce opts env =
     and_then (claimDue (de_claim env) (de_meanwhile env) (batchSize opts) (workerId opts) (claimTimeoutMs opts) (de_now env))
       (\<lambda>ms db. let (outcomes, db') = deliver_all opts env ms db;
                    count = (\<lambda>x. length (filter (\<lambda>y. y = x) outcomes))
          in (Inr \<lparr>claimed = length ms, sum_sent = count OutcomeSent, sum_retrying = count OutcomeRetrying,
                   sum_dead = count OutcomeDead\<rparr>, db'))"

section \<open>Purging and the polling loop\<close>

definition PURGE_INTERVAL_MS :: int where
  "PURGE_INTERVAL_MS = 3600000"

definition MS_PER_DAY :: int where
  "MS_PER_DAY = 86400000"

definition purgeExpired :: "dispatcher_options \<Rightarrow> thrown option \<Rightarrow> int \<Rightarrow> (email_db, AppError, nat) act" where
  "purgeExpired opts flt now =
     (if retentionDays opts \<le> 0 then ret 0 else purgeSentBefore flt (now - retentionDays opts * MS_PER_DAY))"

record dispatcher_state =
  running :: bool
  timer :: bool
  lastPurgeAt :: int

definition purgeIfDue ::
  "dispatcher_options \<Rightarrow> thrown option \<Rightarrow> int \<Rightarrow> dispatcher_state \<Rightarrow> email_db \<Rightarrow> dispatcher_state \<times> email_db" where
  "purgeIfDue opts flt now st db =
     (if retentionDays opts \<le> 0 then (st, db)
      else if now - lastPurgeAt st < PURGE_INTERVAL_MS then (st, db)
      else (st\<lparr>lastPurgeAt := now\<rparr>, snd (purgeExpired opts flt now db)))"

definition start :: "dispatcher_state \<Rightarrow> dispatcher_state" where
  "start st = (if running st then st else st\<lparr>running := True, timer := True\<rparr>)"

definition stop :: "dispatcher_state \<Rightarrow> dispatcher_state" where
  "stop st = (if \<not> running st then st else st\<lparr>running := False, timer := False\<rparr>)"

text \<open>\<open>stopped\<close>: whether \<open>stop\<close> was called while the cycle was in flight.\<close>

definition tick ::
  "dispatcher_options \<Rightarrow> dispatch_env \<Rightarrow> thrown option \<Rightarrow> int \<Rightarrow> bool \<Rightarrow> dispatcher_state \<Rightarrow> email_db \<Rightarrow> dispatcher_state \<times> email_db" where
  "tick opts env flt later stopped st db =
     (if \<not> running st then (st\<lparr>timer := False\<rparr>, db)
      else
        let (st', db') = purgeIfDue opts flt later (st\<lparr>timer := False\<rparr>) (snd (runOnce opts env db));
            st'' = (if stopped then stop st' else st')
        in (if running st'' then st''\<lparr>timer := True\<rparr> else st'', db'))"

section \<open>Backoff stays within its bounds\<close>

lemma capped_delay_bounds:
  assumes "0 \<le> base" and "0 \<le> mx"
  shows "0 \<le> capped_delay att base mx \<and> capped_delay att base mx \<le> mx"
  using assms by (simp add: capped_delay_def Let_def)

lemma js_round_half: "js_round (of_int n / 2) = (n + 1) div 2"
proof -
  have "(of_int n / 2 + 1 / 2 :: rat) = of_int (n + 1) / of_int 2" by simp
  then show ?thesis unfolding js_round_def using floor_divide_of_int_eq [of "n + 1" 2, where 'a = rat] by metis
qed

lemma js_round_mono: "x \<le> y \<Longrightarrow> js_round x \<le> js_round y"
  by (simp add: js_round_def floor_mono)

text \<open>
  A failed attempt is retried after at least half of the capped exponential delay and
  never after more than all of it, so a struggling provider always gets its floor, no row waits
  longer than the configured maximum, and the delay doubles with each attempt until the cap.
\<close>

theorem backoff_bounds:
  assumes "0 \<le> base" and "0 \<le> mx" and "0 \<le> r" and "r < 1"
  shows "let c = capped_delay att base mx; d = backoffDelayMs att base mx r in
    c \<le> 2 * d \<and> d \<le> c \<and> c \<le> mx \<and>
    (1 \<le> att \<and> att \<le> 30 \<longrightarrow> capped_delay (att + 1) base mx = min mx (2 * (base * 2 ^ nat (att - 1))))"
proof -
  let ?c = "capped_delay att base mx"
  let ?h = "of_int ?c / 2 :: rat"
  have c: "0 \<le> ?c" "?c \<le> mx" using capped_delay_bounds [OF assms(1,2)] by simp_all
  then have h: "0 \<le> ?h" by simp
  have "js_round ?h \<le> js_round (?h + r * ?h)" using assms(3) h by (intro js_round_mono) simp
  then have "(?c + 1) div 2 \<le> backoffDelayMs att base mx r" by (simp add: js_round_half backoffDelayMs_def)
  moreover have "r * ?h \<le> 1 * ?h" using assms(4) h by (intro mult_right_mono) simp_all
  then have "js_round (?h + r * ?h) \<le> js_round (of_int (2 * ?c) / 2)" by (intro js_round_mono) simp
  then have "backoffDelayMs att base mx r \<le> ?c" by (simp only: js_round_half) (simp add: backoffDelayMs_def)
  moreover have "capped_delay (att + 1) base mx = min mx (2 * (base * 2 ^ nat (att - 1)))" if "1 \<le> att" "att \<le> 30"
  proof -
    have "nat att = Suc (nat (att - 1))" using that by simp
    then show ?thesis using that by (simp add: capped_delay_def Let_def)
  qed
  ultimately show ?thesis using c by (auto simp: Let_def)
qed

theorem backoff_bounds_witness: "backoffDelayMs 3 2000 60000 (1 / 2) \<le> 8000 \<and> 4000 \<le> backoffDelayMs 3 2000 60000 (1 / 2)"
proof -
  have "capped_delay 3 2000 60000 = 8000" by code_simp
  then show ?thesis using backoff_bounds [of 2000 60000 "1 / 2" 3] by (simp add: Let_def)
qed

section \<open>What a delivery does to its row\<close>

text \<open>The row after a recorded delivery of the claimed snapshot \<open>s\<close>.\<close>

definition outcome_row :: "dispatcher_options \<Rightarrow> dispatch_env \<Rightarrow> EmailMessage \<Rightarrow> EmailMessage \<Rightarrow> EmailMessage" where
  "outcome_row opts env s m =
     (let fail = (\<lambda>reason retryable.
        if \<not> retryable \<or> maxAttempts s \<le> attempts s then dead_row reason m
        else failed_row reason (nextAttemptAt (attempts s) (backoffBaseMs opts) (backoffMaxMs opts) (de_random env s) (de_now env)) m)
      in case de_send env s of
           ProviderThrew msg \<Rightarrow> fail (''Provider threw: '' @ msg) True
         | ProviderError msg retryable \<Rightarrow> fail msg retryable
         | ProviderSent prov pid \<Rightarrow> sent_row prov pid (de_now env) m)"

lemma update_email_ok:
  "find_row em_id i (email_messages db) \<noteq> None \<Longrightarrow>
     snd (update_email None i f db) = db\<lparr>email_messages := update_rows em_id i f (email_messages db)\<rparr>"
  by (auto simp: update_email_def attempt_def transaction_def)

lemma update_email_fault: "snd (update_email (Some e) i f db) = db"
  by (simp add: update_email_def attempt_def)

lemma update_email_absent: "find_row em_id i (email_messages db) = None \<Longrightarrow> snd (update_email flt i f db) = db"
  by (cases flt) (simp_all add: update_email_def attempt_def transaction_def)

lemmas mark_defs = markSent_def markForRetry_def markDead_def

lemma deliver_row:
  "snd (deliver opts env s db) =
     (if de_mark env s = None \<and> find_row em_id (em_id s) (email_messages db) \<noteq> None
      then db\<lparr>email_messages := update_rows em_id (em_id s) (outcome_row opts env s) (email_messages db)\<rparr> else db)"
proof (cases "de_mark env s = None \<and> find_row em_id (em_id s) (email_messages db) \<noteq> None")
  case True
  then show ?thesis
    by (auto simp: deliver_def recordFailure_def mark_defs Let_def update_email_ok outcome_row_def fun_eq_iff
        intro!: arg_cong [where f = "\<lambda>g. db\<lparr>email_messages := update_rows em_id (em_id s) g (email_messages db)\<rparr>"]
        split: send_verdict.split)
next
  case False
  then have "snd (update_email (de_mark env s) (em_id s) f db) = db" for f
    using update_email_fault update_email_absent by (cases "de_mark env s") auto
  with False show ?thesis
    by (auto simp: deliver_def recordFailure_def mark_defs Let_def split: send_verdict.split)
qed

lemma outcome_row_id [simp]: "em_id (outcome_row opts env s m) = em_id m"
  by (auto simp: outcome_row_def Let_def row_updates_ok split: send_verdict.split)

lemma outcome_row_ok: "email_row_ok m \<Longrightarrow> email_row_ok (outcome_row opts env s m)"
  by (auto simp: outcome_row_def Let_def row_updates_ok split: send_verdict.split)

lemma deliver_keeps: "outbox_ok db \<Longrightarrow> outbox_ok (snd (deliver opts env s db))"
  by (simp add: deliver_row outbox_ok_update outcome_row_ok)

section \<open>Workers side by side\<close>

text \<open>
  The outbox, the deliveries in flight (worker, claimed snapshot, time of the claim), the read-backs
  done so far (worker and time) and the clock. A claim is the guarded update with whatever
  candidates its worker had selected and the time its cycle began; a worker fetches the rows
  stamped with its id and time and delivers them one by one, or dies. Every read-back hands its
  rows out once more, so the deliveries are a list in which one row may stand twice. An operator's
  retry is a step of its own.

  Two provisos can be switched on. \<open>patient\<close>: a delivery ends before its claim goes stale.
  \<open>apart\<close>: no worker reads back twice for one millisecond, which holds as long as its cycles do not
  overlap; the polling loop chains its cycles, but \<^verbatim>\<open>POST /dispatch\<close> runs one whenever it is called.
\<close>

record outbox_system =
  outbox :: email_db
  flights :: "(string \<times> EmailMessage \<times> int) list"
  read_backs :: "(string \<times> int) set"
  sys_clock :: int

inductive outbox_step :: "bool \<Rightarrow> bool \<Rightarrow> int \<Rightarrow> outbox_system \<Rightarrow> outbox_system \<Rightarrow> bool"
  for patient apart timeout where
  enqueue: "er_meanwhile req = id \<Longrightarrow>
    outbox_step patient apart timeout s (s\<lparr>outbox := snd (service_enqueue sha mx req input key (outbox s))\<rparr>)"
| claim: "t \<le> sys_clock s \<Longrightarrow>
    outbox_step patient apart timeout s (s\<lparr>outbox := claim_update ids w timeout t (outbox s)\<rparr>)"
| fetch: "apart \<longrightarrow> (w, t) \<notin> read_backs s \<Longrightarrow> outbox_step patient apart timeout s
    (s\<lparr>flights := flights s @ map (\<lambda>m. (w, m, t)) (claim_readback w t (outbox s)),
       read_backs := insert (w, t) (read_backs s)\<rparr>)"
| finish: "(w, m, t) \<in> set (flights s) \<Longrightarrow> patient \<longrightarrow> sys_clock s \<le> t + timeout \<Longrightarrow>
    outbox_step patient apart timeout s
      (s\<lparr>outbox := snd (deliver opts env m (outbox s)), flights := remove1 (w, m, t) (flights s)\<rparr>)"
| crash: "outbox_step patient apart timeout s (s\<lparr>flights := filter alive (flights s)\<rparr>)"
| retry: "outbox_step patient apart timeout s (s\<lparr>outbox := snd (email_retry flt flt' id now i (outbox s))\<rparr>)"
| purge: "outbox_step patient apart timeout s (s\<lparr>outbox := purge_sent cutoff (outbox s)\<rparr>)"
| tick: "0 \<le> dt \<Longrightarrow> outbox_step patient apart timeout s (s\<lparr>sys_clock := sys_clock s + dt\<rparr>)"

inductive outbox_reachable :: "bool \<Rightarrow> bool \<Rightarrow> int \<Rightarrow> outbox_system \<Rightarrow> bool" for patient apart timeout where
  boot: "outbox_reachable patient apart timeout
    \<lparr>outbox = empty_outbox, flights = [], read_backs = {}, sys_clock = t\<rparr>"
| step: "outbox_reachable patient apart timeout s \<Longrightarrow> outbox_step patient apart timeout s s' \<Longrightarrow>
    outbox_reachable patient apart timeout s'"

definition fresh :: "int \<Rightarrow> outbox_system \<Rightarrow> int \<Rightarrow> bool" where
  "fresh timeout s t \<longleftrightarrow> sys_clock s \<le> t + timeout"

definition in_flight :: "string \<Rightarrow> int \<Rightarrow> EmailMessage \<Rightarrow> bool" where
  "in_flight w t m \<longleftrightarrow> em_status m = SENDING \<and> lockedBy m = Some w \<and> lockedAt m = Some t"



lemma keeps_repo_enqueue: "keeps outbox_ok (repo_enqueue flt rr id uuid now input idem)"
  unfolding repo_enqueue_def
  by (intro keeps_intros keeps_insert keeps_modify) (auto intro!: keeps_intros split: option.split)

lemma enqueue_keeps: "er_meanwhile req = id \<Longrightarrow> outbox_ok db \<Longrightarrow> outbox_ok (snd (service_enqueue sha mx req input key db))"
  by (rule keepsD) (auto simp: service_enqueue_def Let_def intro!: keeps_intros keeps_repo_enqueue split: option.split)

lemma retry_keeps: "outbox_ok db \<Longrightarrow> outbox_ok (snd (email_retry flt flt' id now i db))"
  by (rule keepsD) (auto simp: email_retry_def email_getById_def repo_findById_def
      intro!: keeps_intros keeps_marks keeps_modify split: option.split)








text \<open>The tables keep their invariant with neither proviso.\<close>

lemma outbox_tables_ok: "outbox_reachable patient apart timeout s \<Longrightarrow> outbox_ok (outbox s)"
proof (induction rule: outbox_reachable.induct)
  case (boot t)
  then show ?case by (simp add: empty_outbox_ok)
next
  case (step s s')
  from step(2,3) show ?case
    by cases (auto simp: enqueue_keeps outbox_ok_claim deliver_keeps retry_keeps outbox_ok_purge)
qed


text \<open>One message, enqueued at 5, claimed and fetched by worker \<open>w\<close> at once.\<close>

definition sample_flight :: outbox_system where
  "sample_flight = \<lparr>outbox = sample_outbox\<lparr>email_messages := [claim_row ''w'' 5 sample_message]\<rparr>,
     flights = [(''w'', claim_row ''w'' 5 sample_message, 5)], read_backs = {(''w'', 5)}, sys_clock = 5\<rparr>"

lemma sample_readback: "claim_readback ''w'' 5 (outbox sample_flight) = [claim_row ''w'' 5 sample_message]"
  by (simp add: sample_flight_def claim_readback_def claim_row_def)

lemma sample_flight_reachable: "outbox_reachable patient apart 100 sample_flight"
proof -
  let ?s0 = "\<lparr>outbox = empty_outbox, flights = [], read_backs = {}, sys_clock = 5\<rparr>"
  let ?s1 = "?s0\<lparr>outbox := snd (service_enqueue id 3 sample_request sample_email (Some ''order-42'') (outbox ?s0))\<rparr>"
  let ?s2 = "?s1\<lparr>outbox := claim_update [''e1''] ''w'' 100 5 (outbox ?s1)\<rparr>"
  let ?s3 = "?s2\<lparr>flights := flights ?s2 @ map (\<lambda>m. (''w'', m, 5)) (claim_readback ''w'' 5 (outbox ?s2)),
    read_backs := insert (''w'', 5) (read_backs ?s2)\<rparr>"
  have "outbox_reachable patient apart 100 ?s0" by (rule outbox_reachable.boot)
  then have "outbox_reachable patient apart 100 ?s1"
    by (rule outbox_reachable.step) (rule outbox_step.enqueue, simp add: sample_request_def)
  then have "outbox_reachable patient apart 100 ?s2"
    by (rule outbox_reachable.step) (rule outbox_step.claim, simp)
  then have r3: "outbox_reachable patient apart 100 ?s3"
    by (rule outbox_reachable.step) (rule outbox_step.fetch, simp)
  have s1: "outbox ?s1 = sample_outbox" by (simp add: sample_accepted)
  have "em_id sample_message = ''e1''" "due 100 5 sample_message"
    by (simp_all add: sample_message_def new_message_def due_def CLAIMABLE_STATUSES_def)
  then have "claim_update [''e1''] ''w'' 100 5 sample_outbox = outbox sample_flight"
    by (simp add: claim_update_def sample_flight_def) (simp add: sample_outbox_def)
  moreover have "outbox ?s2 = claim_update [''e1''] ''w'' 100 5 (outbox ?s1)" by simp
  ultimately have s2: "outbox ?s2 = outbox sample_flight" unfolding s1 by (rule trans [rotated])
  have "claim_readback ''w'' 5 (outbox ?s2) = [claim_row ''w'' 5 sample_message]"
    unfolding s2 by (rule sample_readback)
  with s2 have "?s3 = sample_flight" by (simp add: sample_flight_def)
  with r3 show ?thesis by simp
qed


section \<open>One claim, two deliveries\<close>

text \<open>
  The comment in \<^verbatim>\<open>claimDue\<close> says that matching \<open>lockedAt\<close> exactly pins the read to this cycle's
  claims. Two cycles of one worker that begin in the same millisecond share worker id and time: when
  \<^verbatim>\<open>POST /dispatch\<close> overlaps a tick (or another such request), both read back the rows either of them
  claimed, and each message is sent twice although every delivery is punctual.
\<close>

lemma one_claim_two_deliveries:
  "\<exists>s f. outbox_reachable True False 100 s \<and> flights s = [f, f] \<and> fresh 100 s (snd (snd f)) \<and>
     in_flight ''w'' 5 (fst (snd f))"
proof -
  let ?f = "(''w'', claim_row ''w'' 5 sample_message, 5 :: int)"
  let ?s = "sample_flight\<lparr>flights := flights sample_flight @
      map (\<lambda>m. (''w'', m, 5)) (claim_readback ''w'' 5 (outbox sample_flight)),
    read_backs := insert (''w'', 5) (read_backs sample_flight)\<rparr>"
  have "outbox_reachable True False 100 ?s"
    by (rule outbox_reachable.step [OF sample_flight_reachable]) (rule outbox_step.fetch, simp)
  moreover have "flights ?s = [?f, ?f]"
    unfolding sample_readback by (simp add: sample_flight_def)
  moreover have "fresh 100 ?s 5" "in_flight ''w'' 5 (claim_row ''w'' 5 sample_message)"
    by (simp_all add: fresh_def sample_flight_def in_flight_def claim_row_def)
  ultimately show ?thesis by (metis fst_conv snd_conv)
qed

section \<open>What a late worker does\<close>

text \<open>
  Without the first proviso the life cycle is not one-way: a worker whose claim went stale and whose
  send then fails moves a row another worker has already marked \<open>SENT\<close> back to \<open>FAILED\<close>, and it is
  claimed and sent again.
\<close>

theorem late_failure_unsends:
  assumes "outbox_ok db" and "r \<in> set (email_messages db)" "em_status r = SENT" and "em_id m = em_id r"
    and "de_send env m = ProviderError msg True" "de_mark env m = None" "attempts m < maxAttempts m"
  shows "\<exists>r' \<in> set (email_messages (snd (deliver opts env m db))). em_id r' = em_id r \<and> em_status r' = FAILED \<and>
           due to (nextAttemptAt (attempts m) (backoffBaseMs opts) (backoffMaxMs opts) (de_random env m) (de_now env)) r'"
proof -
  let ?r = "outcome_row opts env m r"
  have "find_row em_id (em_id m) (email_messages db) \<noteq> None"
    using assms(2,4) by (auto simp: find_row_None_iff)
  then have "?r \<in> set (email_messages (snd (deliver opts env m db)))"
    using assms(2,4,6) by (auto simp: deliver_row set_update_rows intro!: bexI [of _ r])
  then show ?thesis
    using assms(5,7)
    by (intro bexI [of _ ?r]) (simp_all add: outcome_row_def failed_row_def due_def CLAIMABLE_STATUSES_def)
qed

text \<open>
  And the attempt counter does not stop a message that kills its worker: nothing in \<open>claimDue\<close> looks
  at \<open>maxAttempts\<close>, so a row whose holder dies each time is claimed again each time.
\<close>

fun reclaims :: "nat \<Rightarrow> int \<Rightarrow> int \<Rightarrow> string \<Rightarrow> email_db \<Rightarrow> email_db" where
  "reclaims 0 to now w db = db"
| "reclaims (Suc n) to now w db = reclaims n to (now + to + 1) w (claim_update (map em_id (email_messages db)) w to now db)"

theorem crashes_never_exhaust:
  assumes "0 \<le> to" and "find_row em_id i (email_messages db) = Some m" and "due to now m"
  shows "\<exists>m'. find_row em_id i (email_messages (reclaims n to now w db)) = Some m' \<and>
           attempts m' = attempts m + int n \<and> maxAttempts m' = maxAttempts m \<and> due to (now + int n * (to + 1)) m'"
  using assms
proof (induction n arbitrary: now db m)
  case (Suc n)
  let ?f = "\<lambda>r. if em_id r \<in> set (map em_id (email_messages db)) \<and> due to now r then claim_row w now r else r"
  have "find_row em_id i (email_messages (claim_update (map em_id (email_messages db)) w to now db)) = Some (claim_row w now m)"
    using Suc.prems(2,3) find_row_SomeD [OF Suc.prems(2)] find_row_map [of em_id ?f i "email_messages db"]
    by (auto simp: claim_update_def row_updates_ok image_iff)
  moreover have "due to (now + to + 1) (claim_row w now m)" by (simp add: due_def claim_row_def)
  ultimately show ?case
    using Suc.IH [of "claim_update (map em_id (email_messages db)) w to now db" "claim_row w now m" "now + to + 1"] Suc.prems(1)
    by (auto simp: claim_row_def algebra_simps)
qed auto

section \<open>Every message settles\<close>

lemma deliver_all_rows:
  assumes "distinct (map em_id (email_messages db))" and "set ms \<subseteq> set (email_messages db)" and "distinct (map em_id ms)"
    and mark: "\<And>m. de_mark env m = None"
  shows "email_messages (snd (deliver_all opts env ms db)) =
    map (\<lambda>r. if r \<in> set ms then outcome_row opts env r r else r) (email_messages db)"
  using assms(1-3)
proof (induction ms arbitrary: db)
  case (Cons m ms)
  let ?db1 = "snd (deliver opts env m db)"
  have inj: "inj_on em_id (set (email_messages db))" using Cons.prems(1) by (simp add: distinct_map)
  have m: "m \<in> set (email_messages db)" using Cons.prems(2) by simp
  then have "find_row em_id (em_id m) (email_messages db) \<noteq> None" by (auto simp: find_row_None_iff)
  then have rows: "email_messages ?db1 = map (\<lambda>r. if r = m then outcome_row opts env m m else r) (email_messages db)"
    using inj m by (auto simp: deliver_row mark update_rows_def dest: inj_onD)
  have ids: "map em_id (email_messages ?db1) = map em_id (email_messages db)" by (auto simp: rows)
  have other: "em_id r \<noteq> em_id m" if "r \<in> set ms" for r using that Cons.prems(3) by (metis distinct.simps(2) image_eqI list.map(2) list.set_map)
  have "set ms \<subseteq> set (email_messages ?db1)"
    using Cons.prems(2) other unfolding rows by (auto simp: image_iff)
  then have "email_messages (snd (deliver_all opts env ms ?db1)) =
      map (\<lambda>r. if r \<in> set ms then outcome_row opts env r r else r) (email_messages ?db1)"
    using Cons.prems(1,3) ids by (intro Cons.IH) simp_all
  also have "\<dots> = map (\<lambda>r. if r \<in> set (m # ms) then outcome_row opts env r r else r) (email_messages db)"
    using other [of "outcome_row opts env m m"] unfolding rows by auto
  finally show ?case
    by (cases "deliver opts env m db"; cases "deliver_all opts env ms ?db1") (simp add: Let_def)
qed simp

definition smooth :: "dispatch_env \<Rightarrow> bool" where
  "smooth env \<longleftrightarrow> (\<forall>n. de_claim env n = None) \<and> (\<forall>n. de_meanwhile env n = id) \<and> (\<forall>m. de_mark env m = None) \<and>
     (\<forall>m. 0 \<le> de_random env m \<and> de_random env m < 1)"

definition unowned :: "string \<Rightarrow> email_db \<Rightarrow> bool" where
  "unowned w db \<longleftrightarrow> list_all (\<lambda>m. lockedBy m \<noteq> Some w) (email_messages db)"

definition row_cycle :: "dispatcher_options \<Rightarrow> dispatch_env \<Rightarrow> EmailMessage \<Rightarrow> EmailMessage" where
  "row_cycle opts env m =
     (if due (claimTimeoutMs opts) (de_now env) m
      then let c = claim_row (workerId opts) (de_now env) m in outcome_row opts env c c else m)"

text \<open>An undisturbed cycle whose batch is large enough takes every due row through one delivery.\<close>

lemma runOnce_rows:
  assumes sm: "smooth env" and ids: "distinct (map em_id (email_messages db))" and own: "unowned (workerId opts) db"
    and room: "length (email_messages db) \<le> batchSize opts"
  shows "email_messages (snd (runOnce opts env db)) = map (row_cycle opts env) (email_messages db)"
proof -
  let ?due = "due (claimTimeoutMs opts) (de_now env)" and ?w = "workerId opts" and ?now = "de_now env"
  let ?cand = "claim_candidates (batchSize opts) (claimTimeoutMs opts) ?now db"
  let ?db1 = "claim_update ?cand ?w (claimTimeoutMs opts) ?now db"
  have "length (filter ?due (email_messages db)) \<le> batchSize opts"
    using room by (meson length_filter_le order_trans)
  then have cand: "set ?cand = em_id ` {m \<in> set (email_messages db). ?due m}" by (auto simp: claim_candidates_def)
  then have rows1: "email_messages ?db1 = map (\<lambda>m. if ?due m then claim_row ?w ?now m else m) (email_messages db)"
    by (auto simp: claim_update_def)
  have mine: "in_flight ?w ?now (if ?due m then claim_row ?w ?now m else m) = ?due m" if "m \<in> set (email_messages db)" for m
    using own that by (auto simp: in_flight_def claim_row_def unowned_def list_all_iff)
  let ?ms = "claim_readback ?w ?now ?db1"
  have ms: "set ?ms = {m \<in> set (email_messages ?db1). in_flight ?w ?now m}" by (auto simp: claim_readback_def in_flight_def)
  have ids1: "map em_id (email_messages ?db1) = map em_id (email_messages db)" by (simp add: rows1 row_updates_ok)
  have "distinct (map em_id ?ms)"
    using ids ids1 by (simp add: claim_readback_def distinct_map_sort_key distinct_map_filter)
  then have all: "email_messages (snd (deliver_all opts env ?ms ?db1)) =
      map (\<lambda>r. if r \<in> set ?ms then outcome_row opts env r r else r) (email_messages ?db1)"
    using ids ids1 sm ms by (intro deliver_all_rows) (auto simp: smooth_def)
  have delivered: "email_messages (snd (deliver_all opts env ?ms ?db1)) = map (row_cycle opts env) (email_messages db)"
    unfolding all ms using mine by (auto simp: rows1 row_cycle_def Let_def in_flight_def claim_row_def)
  show ?thesis
  proof (cases "?cand = []")
    case True
    then have "?due m \<Longrightarrow> m \<notin> set (email_messages db)" for m using cand by auto
    then show ?thesis
      using True sm
      by (auto simp: runOnce_def claimDue_def attempt_def and_then_def transaction_def smooth_def row_cycle_def intro!: map_idI [symmetric])
  next
    case False
    then have "claimDue (de_claim env) (de_meanwhile env) (batchSize opts) ?w (claimTimeoutMs opts) ?now db = (Inr ?ms, ?db1)"
      using sm by (simp add: claimDue_def attempt_def and_then_def transaction_def smooth_def)
    then show ?thesis
      using delivered by (cases "deliver_all opts env ?ms ?db1") (simp add: runOnce_def and_then_def)
  qed
qed

definition settled :: "EmailMessage \<Rightarrow> bool" where
  "settled m \<longleftrightarrow> em_status m = SENT \<or> em_status m = DEAD"

lemma row_cycle_settled: "settled m \<Longrightarrow> row_cycle opts env m = m"
  by (auto simp: row_cycle_def due_def settled_def CLAIMABLE_STATUSES_def)

lemma row_cycle_id [simp]: "em_id (row_cycle opts env m) = em_id m"
  by (simp add: row_cycle_def Let_def row_updates_ok)

text \<open>One delivery settles a row or leaves it waiting with one attempt fewer.\<close>

lemma row_cycle_progress:
  assumes "due (claimTimeoutMs opts) (de_now env) m" and "smooth env" and "0 \<le> backoffBaseMs opts" "0 \<le> backoffMaxMs opts"
  shows "settled (row_cycle opts env m) \<or>
    em_status (row_cycle opts env m) = FAILED \<and> attempts (row_cycle opts env m) = attempts m + 1 \<and>
    maxAttempts (row_cycle opts env m) = maxAttempts m \<and> attempts m + 1 < maxAttempts m \<and>
    nextAttempt (row_cycle opts env m) \<le> de_now env + backoffMaxMs opts"
proof -
  let ?c = "claim_row (workerId opts) (de_now env) m"
  have r: "0 \<le> de_random env ?c" "de_random env ?c < 1" using assms(2) by (simp_all add: smooth_def)
  have "backoffDelayMs (attempts ?c) (backoffBaseMs opts) (backoffMaxMs opts) (de_random env ?c) \<le> backoffMaxMs opts"
  proof -
    let ?h = "of_int (capped_delay (attempts ?c) (backoffBaseMs opts) (backoffMaxMs opts)) / 2 :: rat"
    have cap: "0 \<le> capped_delay (attempts ?c) (backoffBaseMs opts) (backoffMaxMs opts)"
      "capped_delay (attempts ?c) (backoffBaseMs opts) (backoffMaxMs opts) \<le> backoffMaxMs opts"
      using capped_delay_bounds [OF assms(3,4)] by simp_all
    have "de_random env ?c * ?h \<le> 1 * ?h" using r cap(1) by (intro mult_right_mono) simp_all
    then have "js_round (?h + de_random env ?c * ?h) \<le> js_round (of_int (2 * backoffMaxMs opts) / 2)"
      using cap(2) by (intro js_round_mono) (simp add: field_simps)
    then show ?thesis by (simp only: js_round_half) (simp add: backoffDelayMs_def)
  qed
  then have at: "nextAttemptAt (attempts ?c) (backoffBaseMs opts) (backoffMaxMs opts) (de_random env ?c) (de_now env) \<le>
      de_now env + backoffMaxMs opts" by (simp add: nextAttemptAt_def)
  have cr: "row_cycle opts env m = outcome_row opts env ?c ?c" using assms(1) by (simp add: row_cycle_def Let_def)
  have claimed: "attempts ?c = attempts m + 1" "maxAttempts ?c = maxAttempts m" by (simp_all add: claim_row_def)
  show ?thesis
    using at unfolding cr claimed
    by (cases "de_send env ?c")
      (auto simp: outcome_row_def Let_def settled_def sent_row_def failed_row_def dead_row_def claimed)
qed

fun cycles :: "dispatcher_options \<Rightarrow> dispatch_env list \<Rightarrow> email_db \<Rightarrow> email_db" where
  "cycles opts [] db = db"
| "cycles opts (e # es) db = cycles opts es (snd (runOnce opts e db))"

text \<open>Undisturbed cycles, each at least the longest backoff after the one before.\<close>

fun paced :: "int \<Rightarrow> int \<Rightarrow> dispatch_env list \<Rightarrow> bool" where
  "paced mx t [] \<longleftrightarrow> True"
| "paced mx t (e # es) \<longleftrightarrow> t \<le> de_now e \<and> smooth e \<and> paced mx (de_now e + mx) es"

lemma paced_earlier: "paced mx t es \<Longrightarrow> t' \<le> t \<Longrightarrow> paced mx t' es"
  by (cases es) auto

definition relay_ready :: "dispatcher_options \<Rightarrow> email_db \<Rightarrow> bool" where
  "relay_ready opts db \<longleftrightarrow> outbox_ok db \<and> unowned (workerId opts) db \<and> length (email_messages db) \<le> batchSize opts"

lemma outcome_unlocked: "lockedBy (outcome_row opts env s m) = None"
  by (auto simp: outcome_row_def Let_def sent_row_def failed_row_def dead_row_def split: send_verdict.split)

lemma runOnce_rows_ready:
  assumes "relay_ready opts db" and "smooth env"
  shows "email_messages (snd (runOnce opts env db)) = map (row_cycle opts env) (email_messages db)"
  using assms by (intro runOnce_rows) (simp_all add: relay_ready_def outbox_ok_def)

lemma keeps_runOnce: "smooth env \<Longrightarrow> outbox_ok db \<Longrightarrow> outbox_ok (snd (runOnce opts env db))"
proof -
  have all: "outbox_ok db \<Longrightarrow> outbox_ok (snd (deliver_all opts env ms db))" for ms db
    by (induction ms arbitrary: db) (auto simp: Let_def split: prod.split, metis deliver_keeps snd_conv)
  show "smooth env \<Longrightarrow> outbox_ok db \<Longrightarrow> outbox_ok (snd (runOnce opts env db))"
    using all outbox_ok_claim [of db]
    by (auto simp: runOnce_def claimDue_def smooth_def and_then_def attempt_def transaction_def split: prod.splits sum.splits)
      (metis snd_conv)+
qed

lemma relay_ready_cycle: "relay_ready opts db \<Longrightarrow> smooth env \<Longrightarrow> relay_ready opts (snd (runOnce opts env db))"
  using keeps_runOnce [of env db opts] runOnce_rows_ready [of opts db env]
  by (auto simp: relay_ready_def unowned_def list_all_iff row_cycle_def Let_def outcome_unlocked)

lemma cycles_settled:
  "relay_ready opts db \<Longrightarrow> paced mx t es \<Longrightarrow> m \<in> set (email_messages db) \<Longrightarrow> settled m \<Longrightarrow>
     m \<in> set (email_messages (cycles opts es db))"
proof (induction es arbitrary: db t)
  case (Cons e es)
  have "m \<in> set (email_messages (snd (runOnce opts e db)))"
    using Cons.prems runOnce_rows_ready [of opts db e] row_cycle_settled [of m opts e] by (auto simp: image_iff) metis
  then show ?case using Cons.IH [of "snd (runOnce opts e db)" "de_now e + mx"] Cons.prems relay_ready_cycle by auto
qed simp

text \<open>
  Property C17. A relay that keeps up settles every message in bounded time, whatever the provider answers. Provided the
  whole table fits into one batch, no row is claimed by this worker's id at the start, no other worker or request touches the
  table, every claim and mark reaches the database, and the cycles are spaced by at least the longest backoff: a waiting message
  with attempts left is \<open>SENT\<close> or \<open>DEAD\<close> after at most as many cycles as it has attempts left.
  (Without marks that go through there is no such bound: \<open>crashes_never_exhaust\<close>.)
\<close>

theorem delivery_settles:
  assumes "relay_ready opts db" and "0 \<le> backoffBaseMs opts" "0 \<le> backoffMaxMs opts"
    and "m \<in> set (email_messages db)" and "em_status m = PENDING \<or> em_status m = FAILED" and "attempts m < maxAttempts m"
    and "paced (backoffMaxMs opts) (nextAttempt m) es" and "nat (maxAttempts m - attempts m) \<le> length es"
  shows "\<exists>m' \<in> set (email_messages (cycles opts es db)). em_id m' = em_id m \<and> settled m'"
  using assms(1,4-8)
proof (induction es arbitrary: db m)
  case (Cons e es)
  let ?db = "snd (runOnce opts e db)" and ?m = "row_cycle opts e m"
  have sm: "smooth e" "nextAttempt m \<le> de_now e" "paced (backoffMaxMs opts) (de_now e + backoffMaxMs opts) es"
    using Cons.prems(5) by simp_all
  have ready: "relay_ready opts ?db" using Cons.prems(1) sm(1) by (rule relay_ready_cycle)
  have mem: "?m \<in> set (email_messages ?db)" using runOnce_rows_ready [OF Cons.prems(1) sm(1)] Cons.prems(2) by simp
  have "due (claimTimeoutMs opts) (de_now e) m" using Cons.prems(3) sm(2) by (auto simp: due_def CLAIMABLE_STATUSES_def)
  from row_cycle_progress [OF this sm(1) assms(2,3)] show ?case
  proof
    assume "settled ?m"
    then show ?thesis using cycles_settled [OF ready sm(3) mem] by (auto intro!: bexI [of _ ?m])
  next
    assume w: "em_status ?m = FAILED \<and> attempts ?m = attempts m + 1 \<and> maxAttempts ?m = maxAttempts m \<and>
      attempts m + 1 < maxAttempts m \<and> nextAttempt ?m \<le> de_now e + backoffMaxMs opts"
    then have "\<exists>m' \<in> set (email_messages (cycles opts es ?db)). em_id m' = em_id ?m \<and> settled m'"
      using Cons.prems(6) paced_earlier [OF sm(3)] by (intro Cons.IH [OF ready mem]) auto
    then show ?thesis by simp
  qed
qed simp

definition sample_options :: dispatcher_options where
  "sample_options = \<lparr>batchSize = 10, claimTimeoutMs = 100, backoffBaseMs = 2, backoffMaxMs = 60, retentionDays = 7, workerId = ''w''\<rparr>"

definition failing_cycle :: "int \<Rightarrow> dispatch_env" where
  "failing_cycle t = \<lparr>de_send = (\<lambda>_. ProviderError ''down'' True), de_mark = (\<lambda>_. None), de_random = (\<lambda>_. 0), de_now = t,
     de_claim = (\<lambda>_. None), de_meanwhile = (\<lambda>_. id)\<rparr>"

theorem delivery_settles_witness:
  "\<exists>m' \<in> set (email_messages (cycles sample_options [failing_cycle 5, failing_cycle 65, failing_cycle 125] sample_outbox)).
     em_id m' = em_id sample_message \<and> settled m'"
proof (rule delivery_settles)
  show "relay_ready sample_options sample_outbox"
    by (simp add: relay_ready_def unowned_def outbox_ok_def sample_outbox_def sample_options_def sample_message_def new_message_def
        email_row_ok_def)
  show "paced (backoffMaxMs sample_options) (nextAttempt sample_message) [failing_cycle 5, failing_cycle 65, failing_cycle 125]"
    by (simp add: smooth_def failing_cycle_def sample_options_def sample_message_def new_message_def)
qed (simp_all add: sample_options_def sample_outbox_def sample_message_def new_message_def)

section \<open>The bounded pool\<close>

text \<open>
  \<open>mapWithConcurrency\<close>: \<open>min(limit, items.length)\<close> runners share a cursor. A runner takes the next index
  without awaiting, so the take is one step; its worker ends at any later time, another step.
\<close>

record 'b pool =
  cursor :: nat
  slots :: "nat \<Rightarrow> nat option"
  results :: "nat \<Rightarrow> 'b option"

inductive pool_step :: "('a \<Rightarrow> 'b) \<Rightarrow> 'a list \<Rightarrow> nat \<Rightarrow> 'b pool \<Rightarrow> 'b pool \<Rightarrow> bool" for work items limit where
  take: "r < min limit (length items) \<Longrightarrow> slots s r = None \<Longrightarrow> cursor s < length items \<Longrightarrow>
    pool_step work items limit s (s\<lparr>slots := (slots s)(r \<mapsto> cursor s), cursor := Suc (cursor s)\<rparr>)"
| complete: "slots s r = Some k \<Longrightarrow>
    pool_step work items limit s (s\<lparr>slots := (slots s)(r := None), results := (results s)(k \<mapsto> work (items ! k))\<rparr>)"

inductive pool_after :: "('a \<Rightarrow> 'b) \<Rightarrow> 'a list \<Rightarrow> nat \<Rightarrow> nat \<Rightarrow> 'b pool \<Rightarrow> bool" for work items limit where
  zero: "pool_after work items limit 0 \<lparr>cursor = 0, slots = (\<lambda>_. None), results = (\<lambda>_. None)\<rparr>"
| suc: "pool_after work items limit n s \<Longrightarrow> pool_step work items limit s s' \<Longrightarrow> pool_after work items limit (Suc n) s'"

definition pool_ok :: "('a \<Rightarrow> 'b) \<Rightarrow> 'a list \<Rightarrow> nat \<Rightarrow> nat \<Rightarrow> 'b pool \<Rightarrow> bool" where
  "pool_ok work items limit n s \<longleftrightarrow> cursor s \<le> length items \<and> n = cursor s + card (dom (results s)) \<and>
     (\<forall>k v. results s k = Some v \<longrightarrow> k < cursor s \<and> v = work (items ! k)) \<and>
     (\<forall>r k. slots s r = Some k \<longrightarrow> r < min limit (length items) \<and> k < cursor s \<and> results s k = None) \<and>
     (\<forall>r r' k. slots s r = Some k \<longrightarrow> slots s r' = Some k \<longrightarrow> r = r') \<and>
     (\<forall>k < cursor s. results s k = None \<longrightarrow> (\<exists>r. slots s r = Some k))"

lemma pool_dom: "pool_ok work items limit n s \<Longrightarrow> dom (results s) \<subseteq> {..<cursor s}"
  by (auto simp: pool_ok_def)

lemma pool_okD:
  assumes "pool_ok work items limit n s"
  shows "cursor s \<le> length items" "n = cursor s + card (dom (results s))"
    "results s k = Some v \<Longrightarrow> k < cursor s \<and> v = work (items ! k)"
    "slots s r = Some k \<Longrightarrow> r < min limit (length items) \<and> k < cursor s \<and> results s k = None"
    "slots s r = Some k \<Longrightarrow> slots s r' = Some k \<Longrightarrow> r = r'"
    "k < cursor s \<Longrightarrow> results s k = None \<Longrightarrow> \<exists>r. slots s r = Some k"
  using assms unfolding pool_ok_def by blast+

lemma pool_okI:
  assumes "cursor s \<le> length items" "n = cursor s + card (dom (results s))"
    and "\<And>k v. results s k = Some v \<Longrightarrow> k < cursor s \<and> v = work (items ! k)"
    and "\<And>r k. slots s r = Some k \<Longrightarrow> r < min limit (length items) \<and> k < cursor s \<and> results s k = None"
    and "\<And>r r' k. slots s r = Some k \<Longrightarrow> slots s r' = Some k \<Longrightarrow> r = r'"
    and "\<And>k. k < cursor s \<Longrightarrow> results s k = None \<Longrightarrow> \<exists>r. slots s r = Some k"
  shows "pool_ok work items limit n s"
  using assms unfolding pool_ok_def by blast

lemma pool_take_ok:
  assumes ok: "pool_ok work items limit n s" and r: "r < min limit (length items)" "slots s r = None" "cursor s < length items"
  shows "pool_ok work items limit (Suc n) (s\<lparr>slots := (slots s)(r \<mapsto> cursor s), cursor := Suc (cursor s)\<rparr>)"
proof -
  note D = pool_okD [OF ok]
  have free: "results s (cursor s) = None" using D(3) by (meson less_irrefl not_None_eq)
  have cover: "\<exists>r'. ((slots s)(r \<mapsto> cursor s)) r' = Some k" if "k < Suc (cursor s)" "results s k = None" for k
    using that D(6) [of k] r(2) by (cases "k = cursor s") (auto, metis option.distinct(1))
  have one: "a = b" if "((slots s)(r \<mapsto> cursor s)) a = Some k" "((slots s)(r \<mapsto> cursor s)) b = Some k" for a b k
    using that D(4,5) by (auto split: if_splits dest: D(4))
  let ?t = "s\<lparr>slots := (slots s)(r \<mapsto> cursor s), cursor := Suc (cursor s)\<rparr>"
  show ?thesis
  proof (rule pool_okI)
    fix a k
    assume "slots ?t a = Some k"
    then show "a < min limit (length items) \<and> k < cursor ?t \<and>
        results ?t k = None"
      using r(1) free D(4) [of a k] by (cases "a = r") auto
  next
    fix k v
    assume "results ?t k = Some v"
    then show "k < cursor ?t \<and> v = work (items ! k)"
      using D(3) [of k v] by simp
  next
    fix a b k
    assume "slots ?t a = Some k"
      "slots ?t b = Some k"
    then show "a = b" by (intro one) simp_all
  next
    fix k
    assume "k < cursor ?t"
      "results ?t k = None"
    then show "\<exists>a. slots ?t a = Some k"
      using cover [of k] by simp
  qed (use D(1,2) r(3) in simp_all)
qed

lemma pool_complete_ok:
  assumes ok: "pool_ok work items limit n s" and r: "slots s r = Some k"
  shows "pool_ok work items limit (Suc n) (s\<lparr>slots := (slots s)(r := None), results := (results s)(k \<mapsto> work (items ! k))\<rparr>)"
proof -
  note D = pool_okD [OF ok]
  have "finite (dom (results s))" using pool_dom [OF ok] finite_subset by blast
  moreover have "k \<notin> dom (results s)" using D(4) [OF r] by auto
  ultimately have card: "card (insert k (dom (results s))) = Suc (card (dom (results s)))" by simp
  have cover: "\<exists>r'. ((slots s)(r := None)) r' = Some j" if "j < cursor s" "((results s)(k \<mapsto> work (items ! k))) j = None" for j
    using that D(6) [of j] r by (auto split: if_splits) (metis option.inject)
  have others: "j \<noteq> k" if "slots s r' = Some j" "r' \<noteq> r" for r' j using D(5) r that by blast
  let ?t = "s\<lparr>slots := (slots s)(r := None), results := (results s)(k \<mapsto> work (items ! k))\<rparr>"
  show ?thesis
  proof (rule pool_okI)
    fix a j
    assume "slots ?t a = Some j"
    then show "a < min limit (length items) \<and>
        j < cursor ?t \<and>
        results ?t j = None"
      using D(4) [of a j] others [of a j] by (cases "a = r") auto
  next
    fix j v
    assume "results ?t j = Some v"
    then show "j < cursor ?t \<and> v = work (items ! j)"
      using D(3) [of j v] D(4) [OF r] by (cases "j = k") auto
  next
    fix a b j
    assume "slots ?t a = Some j"
      "slots ?t b = Some j"
    then show "a = b" using D(5) [of a j b] by (cases "a = r"; cases "b = r") auto
  qed (use D(1,2) card cover in simp_all)
qed

lemma pool_step_ok: "pool_step work items limit s s' \<Longrightarrow> pool_ok work items limit n s \<Longrightarrow> pool_ok work items limit (Suc n) s'"
  by (erule pool_step.cases) (auto intro: pool_take_ok pool_complete_ok)

lemma pool_after_ok: "pool_after work items limit n s \<Longrightarrow> pool_ok work items limit n s"
proof (induction rule: pool_after.induct)
  case zero
  then show ?case by (simp add: pool_ok_def)
next
  case (suc n s s')
  then show ?case by (blast intro: pool_step_ok)
qed

text \<open>
  Property C19. The pool finishes and loses nothing: no run is longer than two steps per item, never
  more than \<open>limit\<close> sends are in flight, no item is in flight twice, and a run that can go no further
  has the result of every item, in the order of the items.
\<close>

theorem pool_completes:
  assumes "pool_after work items limit n s" and "0 < limit"
  shows "n \<le> 2 * length items \<and> card (dom (slots s)) \<le> limit \<and>
    (\<forall>r r' k. slots s r = Some k \<longrightarrow> slots s r' = Some k \<longrightarrow> r = r') \<and>
    ((\<forall>s'. \<not> pool_step work items limit s s') \<longrightarrow> map (results s) [0..<length items] = map (\<lambda>x. Some (work x)) items)"
proof -
  note ok = pool_after_ok [OF assms(1)]
  have "card (dom (results s)) \<le> cursor s"
    using card_mono [OF _ pool_dom [OF ok]] by simp
  moreover have "dom (slots s) \<subseteq> {..<limit}" using ok by (auto simp: pool_ok_def)
  then have "card (dom (slots s)) \<le> limit" using card_mono [of "{..<limit}"] by fastforce
  moreover have "map (results s) [0..<length items] = map (\<lambda>x. Some (work x)) items" if stuck: "\<forall>s'. \<not> pool_step work items limit s s'"
  proof -
    have idle: "slots s r = None" for r
      using stuck pool_step.complete [of s r _ work items limit] by (cases "slots s r") blast+
    have "cursor s = length items"
    proof (rule ccontr)
      assume "cursor s \<noteq> length items"
      then have "cursor s < length items" using ok by (simp add: pool_ok_def)
      then show False using stuck assms(2) idle pool_step.take [of 0 limit items s work] by fastforce
    qed
    then have "results s k = Some (work (items ! k))" if "k < length items" for k
      using ok idle that unfolding pool_ok_def by (metis option.exhaust option.distinct(1))
    then show ?thesis by (intro nth_equalityI) simp_all
  qed
  ultimately show ?thesis using pool_okD(1,2,5) [OF ok] by auto
qed

theorem pool_completes_witness:
  "card (dom (slots (\<lparr>cursor = 1, slots = [0 \<mapsto> 0], results = (\<lambda>_. None)\<rparr> :: nat pool))) \<le> 1"
proof -
  have "pool_after Suc [4, 5] 1 (Suc 0) (\<lparr>cursor = 1, slots = [0 \<mapsto> 0], results = (\<lambda>_. None)\<rparr> :: nat pool)"
    using pool_after.suc [OF pool_after.zero [of Suc "[4, 5]" 1] pool_step.take [of 0]] by fastforce
  from pool_completes [OF this] show ?thesis by simp
qed

text \<open>The optional route that runs one cycle on demand.\<close>

definition dispatch_route :: "bool \<Rightarrow> dispatcher_options \<Rightarrow> dispatch_env \<Rightarrow> (email_db, AppError, int \<times> DispatchSummary) act" where
  "dispatch_route configured opts env =
     (if \<not> configured then throw (InternalServerError ''No dispatcher is configured'')
      else and_then (runOnce opts env) (\<lambda>summary. ret (200, summary)))"

end
