(* ===== verification/Gateway.thy ===== *)
theory Gateway
  imports Zod AppError
begin

text \<open>
  The edge of the system (\<^verbatim>\<open>api-gateway/src\<close>): the routing table and the policy table
  (\<^verbatim>\<open>config/services.ts\<close>, \<^verbatim>\<open>config/route-policies.ts\<close>), policy matching (\<^verbatim>\<open>proxy/route-policy.ts\<close>), token
  checks (\<^verbatim>\<open>lib/tokens.ts\<close>, \<^verbatim>\<open>middlewares/authenticate.ts\<close>), the request context, body limit and proxies,
  composed as \<^verbatim>\<open>app.ts\<close> does for proxied traffic. JWT verification (jose) and the two rate limiters
  (express-rate-limit) are parameters. A header is looked up by its lower-case name.
\<close>

section \<open>Requests\<close>

record AccessTokenClaims =
  claim_sub :: string
  claim_email :: string
  claim_username :: string
  claim_role :: string
  claim_sid :: string

record gw_request =
  gw_method :: string
  gw_path :: string
  gw_headers :: "string \<Rightarrow> string option"
  gw_auth :: "AccessTokenClaims option"
  gw_actor :: "string option"
  gw_id :: string

text \<open>
  jose's \<^verbatim>\<open>jwtVerify\<close> is a parameter: the payload it answers for issuer, audience, time (in
  milliseconds) and token, or \<open>None\<close> when it throws.
\<close>

record gw_env =
  jwtVerify :: "string \<Rightarrow> string \<Rightarrow> int \<Rightarrow> string \<Rightarrow> (string \<times> json) list option"
  gw_issuer :: string
  gw_audience :: string
  gw_now :: int
  general_allows :: "gw_request \<Rightarrow> bool"
  credential_allows :: "gw_request \<Rightarrow> bool"
  gw_uuid :: string
  TRUST_CLIENT_ACTOR :: bool
  MAX_BODY_BYTES :: int

record GatewayError =
  gwe_status :: int
  gwe_code :: string
  gwe_message :: string

definition gw_error :: "int \<Rightarrow> string \<Rightarrow> string \<Rightarrow> GatewayError" where
  "gw_error status cd msg = \<lparr>gwe_status = status, gwe_code = cd, gwe_message = msg\<rparr>"

section \<open>Tokens\<close>

definition is_space :: "char \<Rightarrow> bool" where
  "is_space c \<longleftrightarrow> is_blank c"

text \<open>\<^verbatim>\<open>split(/\s+/)\<close> of a trimmed text; of the empty text it is one empty word.\<close>

fun words_from :: "string \<Rightarrow> string \<Rightarrow> string list" where
  "words_from acc [] = [rev acc]"
| "words_from acc (c # cs) =
     (if is_space c then (if acc = [] then words_from [] cs else rev acc # words_from [] cs) else words_from (c # acc) cs)"

definition extractBearerToken :: "string option \<Rightarrow> string option" where
  "extractBearerToken header = (case header of
     None \<Rightarrow> None
   | Some h \<Rightarrow>
       (if h = '''' then None
        else case words_from [] (js_trim h) of
          [scheme, token] \<Rightarrow> (if js_toLowerCase scheme = ''bearer'' \<and> token \<noteq> '''' then Some token else None)
        | _ \<Rightarrow> None))"

definition string_claim :: "(string \<times> json) list \<Rightarrow> string \<Rightarrow> string option" where
  "string_claim payload k = (case obj_get payload k of Some (JString s) \<Rightarrow> Some s | _ \<Rightarrow> None)"

definition verifyAccessToken :: "gw_env \<Rightarrow> string \<Rightarrow> AccessTokenClaims option" where
  "verifyAccessToken E token = (case jwtVerify E (gw_issuer E) (gw_audience E) (gw_now E) token of
     None \<Rightarrow> None
   | Some payload \<Rightarrow>
       (case (string_claim payload ''sub'', string_claim payload ''email'', string_claim payload ''username'',
              string_claim payload ''role'', string_claim payload ''sid'') of
          (Some sub, Some email, Some username, Some role, Some sid) \<Rightarrow>
            Some \<lparr>claim_sub = sub, claim_email = email, claim_username = username, claim_role = role, claim_sid = sid\<rparr>
        | _ \<Rightarrow> None))"

section \<open>Middleware\<close>

definition REQUEST_ID_HEADER :: string where "REQUEST_ID_HEADER = ''x-request-id''"
definition ACTOR_HEADER :: string where "ACTOR_HEADER = ''x-actor-id''"

definition requestContext :: "gw_env \<Rightarrow> gw_request \<Rightarrow> gw_request" where
  "requestContext E req =
     (let requestId = (case gw_headers req REQUEST_ID_HEADER of
            Some inbound \<Rightarrow> (if inbound \<noteq> '''' \<and> length inbound \<le> 200 then inbound else gw_uuid E)
          | None \<Rightarrow> gw_uuid E);
          req = req\<lparr>gw_id := requestId, gw_headers := (gw_headers req)(REQUEST_ID_HEADER \<mapsto> requestId)\<rparr>;
          claimed = map_option js_trim (gw_headers req ACTOR_HEADER)
      in if TRUST_CLIENT_ACTOR E \<and> claimed \<noteq> None \<and> claimed \<noteq> Some '''' then
           let actor = take 120 (the claimed)
           in req\<lparr>gw_actor := Some actor, gw_headers := (gw_headers req)(ACTOR_HEADER \<mapsto> actor)\<rparr>
         else req\<lparr>gw_headers := (gw_headers req)(ACTOR_HEADER := None)\<rparr>)"

definition bodyLimit :: "gw_env \<Rightarrow> gw_request \<Rightarrow> GatewayError + gw_request" where
  "bodyLimit E req = (case gw_headers req ''content-length'' of
     None \<Rightarrow> Inr req
   | Some declared \<Rightarrow>
       (if declared = '''' then Inr req
        else case js_Number declared of
          None \<Rightarrow> Inr req
        | Some bytes \<Rightarrow>
            (if bytes \<le> MAX_BODY_BYTES E then Inr req
             else Inl (gw_error 413 ''BAD_REQUEST''
               (''Request body exceeds the '' @ int_str (MAX_BODY_BYTES E) @ '' byte limit'')))))"

definition rateLimiter :: "gw_env \<Rightarrow> gw_request \<Rightarrow> GatewayError + gw_request" where
  "rateLimiter E req =
     (if general_allows E req then Inr req
      else Inl (gw_error 429 ''TOO_MANY_REQUESTS'' ''Too many requests, please retry later''))"

definition authenticate :: "gw_env \<Rightarrow> gw_request \<Rightarrow> GatewayError + gw_request" where
  "authenticate E req = (case extractBearerToken (gw_headers req ''authorization'') of
     None \<Rightarrow> Inl (gw_error 401 ''UNAUTHORIZED'' ''A bearer access token is required'')
   | Some token \<Rightarrow>
       (case verifyAccessToken E token of
          None \<Rightarrow> Inl (gw_error 401 ''UNAUTHORIZED'' ''Access token is invalid or has expired'')
        | Some claims \<Rightarrow>
            Inr (req\<lparr>gw_auth := Some claims, gw_actor := Some (claim_sub claims),
                     gw_headers := (gw_headers req)(ACTOR_HEADER \<mapsto> claim_sub claims)\<rparr>)))"

definition requireRole :: "string list \<Rightarrow> gw_request \<Rightarrow> GatewayError + gw_request" where
  "requireRole roles req = (case gw_auth req of
     None \<Rightarrow> Inl (gw_error 401 ''UNAUTHORIZED'' ''Authentication required'')
   | Some claims \<Rightarrow>
       (if claim_role claims \<in> set roles then Inr req
        else Inl (gw_error 403 ''FORBIDDEN'' ''Insufficient permissions'')))"

definition credentialRateLimiter :: "gw_env \<Rightarrow> gw_request \<Rightarrow> GatewayError + gw_request" where
  "credentialRateLimiter E req =
     (if credential_allows E req then Inr req
      else Inl (gw_error 429 ''TOO_MANY_REQUESTS'' ''Too many authentication requests, please retry later''))"

section \<open>Policies\<close>

datatype gw_handler = CredentialRateLimiter | Authenticate | RequireRole "string list"

fun run_handler :: "gw_env \<Rightarrow> gw_handler \<Rightarrow> gw_request \<Rightarrow> GatewayError + gw_request" where
  "run_handler E CredentialRateLimiter req = credentialRateLimiter E req"
| "run_handler E Authenticate req = authenticate E req"
| "run_handler E (RequireRole roles) req = requireRole roles req"

fun runChain :: "gw_env \<Rightarrow> gw_handler list \<Rightarrow> gw_request \<Rightarrow> GatewayError + gw_request" where
  "runChain E [] req = Inr req"
| "runChain E (h # hs) req = (case run_handler E h req of Inl e \<Rightarrow> Inl e | Inr req' \<Rightarrow> runChain E hs req')"

record RoutePolicy =
  policy_name :: string
  policy_paths :: "string list"
  policy_methods :: "string list option"
  policy_handlers :: "gw_handler list"

fun split_char :: "char \<Rightarrow> string \<Rightarrow> string list" where
  "split_char c [] = [[]]"
| "split_char c (x # xs) =
     (if x = c then [] # split_char c xs
      else case split_char c xs of [] \<Rightarrow> [[x]] | s # ss \<Rightarrow> (x # s) # ss)"

definition path_segments :: "string \<Rightarrow> string list" where
  "path_segments p = filter (\<lambda>s. s \<noteq> []) (split_char CHR ''/'' p)"

text \<open>
  The pieces of a compiled pattern: an escaped literal, \<^verbatim>\<open>/[^/]+\<close>, and \<^verbatim>\<open>(?:/.*)?\<close>. The whole expression is
  the literal prefix, the pieces and \<^verbatim>\<open>/?\<close>, anchored at both ends; matching tries every way to split
  the path. A dot matches anything but a line break.
\<close>

datatype path_piece = Literal string | OneSegment | Remainder

fun compile_segments :: "string list \<Rightarrow> path_piece list option" where
  "compile_segments [] = Some []"
| "compile_segments (s # ss) =
     (if s = ''*'' then (if ss = [] then Some [Remainder] else None)
      else map_option ((#) (if hd s = CHR '':'' then OneSegment else Literal (CHR ''/'' # s))) (compile_segments ss))"

definition compilePolicyPath :: "string \<Rightarrow> string \<Rightarrow> path_piece list option" where
  "compilePolicyPath pre pattern = map_option ((#) (Literal pre)) (compile_segments (path_segments pattern))"

definition not_break :: "char \<Rightarrow> bool" where
  "not_break c \<longleftrightarrow> c \<noteq> CHR 0x0A \<and> c \<noteq> CHR 0x0D"

fun pieces_match :: "path_piece list \<Rightarrow> string \<Rightarrow> bool" where
  "pieces_match [] p \<longleftrightarrow> p = [] \<or> p = ''/''"
| "pieces_match (Literal l # ps) p \<longleftrightarrow> take (length l) p = l \<and> pieces_match ps (drop (length l) p)"
| "pieces_match (OneSegment # ps) p \<longleftrightarrow> p \<noteq> [] \<and> hd p = CHR ''/'' \<and>
     list_ex (\<lambda>n. list_all (\<lambda>c. c \<noteq> CHR ''/'') (take n (tl p)) \<and> pieces_match ps (drop n (tl p))) [1..<Suc (length (tl p))]"
| "pieces_match (Remainder # ps) p \<longleftrightarrow> pieces_match ps p \<or> p \<noteq> [] \<and> hd p = CHR ''/'' \<and>
     list_ex (\<lambda>n. list_all not_break (take n (tl p)) \<and> pieces_match ps (drop n (tl p))) [0..<Suc (length (tl p))]"

definition path_matches :: "string \<Rightarrow> string \<Rightarrow> string \<Rightarrow> bool" where
  "path_matches pre pattern p = (case compilePolicyPath pre pattern of None \<Rightarrow> False | Some ps \<Rightarrow> pieces_match ps p)"

definition covers :: "string \<Rightarrow> RoutePolicy \<Rightarrow> string \<Rightarrow> string \<Rightarrow> bool" where
  "covers pre policy meth p \<longleftrightarrow>
     (case policy_methods policy of None \<Rightarrow> True | Some ms \<Rightarrow> List.member ms meth) \<and>
     list_ex (\<lambda>pattern. path_matches pre pattern p) (policy_paths policy)"

definition createPolicyHandler :: "gw_env \<Rightarrow> string \<Rightarrow> RoutePolicy \<Rightarrow> gw_request \<Rightarrow> GatewayError + gw_request" where
  "createPolicyHandler E pre policy req =
     (if covers pre policy (gw_method req) (gw_path req) then runChain E (policy_handlers policy) req else Inr req)"

fun run_policies :: "gw_env \<Rightarrow> string \<Rightarrow> RoutePolicy list \<Rightarrow> gw_request \<Rightarrow> GatewayError + gw_request" where
  "run_policies E pre [] req = Inr req"
| "run_policies E pre (p # ps) req =
     (case createPolicyHandler E pre p req of Inl e \<Rightarrow> Inl e | Inr req' \<Rightarrow> run_policies E pre ps req')"

section \<open>The tables\<close>

datatype ServiceName = To_auth | To_user | To_product | To_inventory | To_email

definition serviceRegistry :: "(ServiceName \<times> string) list" where
  "serviceRegistry = [(To_auth, ''/api/v1/auth''), (To_user, ''/api/v1/users''), (To_product, ''/api/v1/products''),
     (To_inventory, ''/api/v1/inventory''), (To_email, ''/api/v1/emails'')]"

definition adminOnly :: "gw_handler list" where
  "adminOnly = [Authenticate, RequireRole [''ADMIN'']]"

definition policy :: "string \<Rightarrow> string list option \<Rightarrow> string list \<Rightarrow> gw_handler list \<Rightarrow> RoutePolicy" where
  "policy nm ms ps hs = \<lparr>policy_name = nm, policy_paths = ps, policy_methods = ms, policy_handlers = hs\<rparr>"

definition WRITE_METHODS :: "string list" where
  "WRITE_METHODS = [''POST'', ''PATCH'', ''PUT'', ''DELETE'']"

fun routePolicies :: "ServiceName \<Rightarrow> RoutePolicy list" where
  "routePolicies To_auth =
     [policy ''credential-throttle'' (Some [''POST''])
        [''/register'', ''/login'', ''/refresh'', ''/forgot-password'', ''/reset-password'', ''/verify-email'', ''/resend-verification'']
        [CredentialRateLimiter],
      policy ''authenticated-session'' None [''/me'', ''/sessions'', ''/logout-all'', ''/change-password'', ''/login-history'']
        [Authenticate]]"
| "routePolicies To_user =
     [policy ''profile-provisioning'' (Some [''POST'']) [''/''] adminOnly,
      policy ''auth-id-lookup'' (Some [''GET'']) [''/auth/:authUserId''] adminOnly,
      policy ''profile-access'' None [''/:id''] [Authenticate]]"
| "routePolicies To_product =
     [policy ''catalogue-writes'' (Some WRITE_METHODS) [''/'', ''/:id''] adminOnly]"
| "routePolicies To_inventory =
     [policy ''stock-visibility'' (Some [''GET'']) [''/*''] [Authenticate],
      policy ''stock-mutations'' (Some WRITE_METHODS) [''/'', ''/:id'', ''/:id/*''] adminOnly]"
| "routePolicies To_email = [policy ''mail-operations'' None [''/*''] adminOnly]"

section \<open>The chain\<close>

datatype gw_outcome = Forwarded ServiceName gw_request | Refused GatewayError | NoRoute

definition owns :: "string \<Rightarrow> string \<Rightarrow> bool" where
  "owns pre p \<longleftrightarrow> p = pre \<or> take (Suc (length pre)) p = pre @ ''/''"

fun service_handlers :: "gw_env \<Rightarrow> (ServiceName \<times> string) list \<Rightarrow> gw_request \<Rightarrow> gw_outcome" where
  "service_handlers E [] req = NoRoute"
| "service_handlers E ((svc, pre) # routes) req =
     (case run_policies E pre (routePolicies svc) req of
        Inl e \<Rightarrow> Refused e
      | Inr req' \<Rightarrow> (if owns pre (gw_path req') then Forwarded svc req' else service_handlers E routes req'))"

definition gateway :: "gw_env \<Rightarrow> gw_request \<Rightarrow> gw_outcome" where
  "gateway E req =
     (case bodyLimit E (requestContext E req) of
        Inl e \<Rightarrow> Refused e
      | Inr req' \<Rightarrow>
          (case rateLimiter E req' of
             Inl e \<Rightarrow> Refused e
           | Inr req'' \<Rightarrow> service_handlers E serviceRegistry req''))"

text \<open>A failure of the connection to an upstream.\<close>

definition toGatewayError :: "string \<Rightarrow> string \<Rightarrow> GatewayError" where
  "toGatewayError errno svc =
     (if take 4 errno = ''HPE_'' then gw_error 502 ''BAD_GATEWAY'' (''Invalid response from '' @ svc @ '' service'')
      else if errno \<in> set [''ECONNREFUSED'', ''ENOTFOUND'', ''EAI_AGAIN'', ''EHOSTUNREACH'', ''ENETUNREACH''] then
        gw_error 503 ''SERVICE_UNAVAILABLE'' (svc @ '' service is unreachable'')
      else if errno \<in> set [''ECONNRESET'', ''ETIMEDOUT'', ''ESOCKETTIMEDOUT''] then
        gw_error 504 ''GATEWAY_TIMEOUT'' (svc @ '' service did not respond in time'')
      else gw_error 502 ''BAD_GATEWAY'' (''Failed to reach '' @ svc @ '' service''))"

section \<open>What the patterns of the table match\<close>

lemma compiled_patterns [simp]:
  "compilePolicyPath pre ''/'' = Some [Literal pre]" "compilePolicyPath pre ''/*'' = Some [Literal pre, Remainder]"
  "compilePolicyPath pre ''/:id'' = Some [Literal pre, OneSegment]"
  "compilePolicyPath pre ''/:id/*'' = Some [Literal pre, OneSegment, Remainder]"
  by (simp_all add: compilePolicyPath_def path_segments_def)

lemma owns_split: "owns pre p \<longleftrightarrow> (\<exists>rest. p = pre @ rest \<and> (rest = [] \<or> hd rest = CHR ''/''))"
proof
  assume "owns pre p"
  then consider "p = pre" | "take (Suc (length pre)) p = pre @ ''/''" by (auto simp: owns_def)
  then show "\<exists>rest. p = pre @ rest \<and> (rest = [] \<or> hd rest = CHR ''/'')"
  proof cases
    case 2
    then have "p = pre @ ''/'' @ drop (Suc (length pre)) p" by (metis append.assoc append_take_drop_id)
    then show ?thesis by (intro exI [of _ "''/'' @ drop (Suc (length pre)) p"]) simp
  qed simp
next
  assume "\<exists>rest. p = pre @ rest \<and> (rest = [] \<or> hd rest = CHR ''/'')"
  then obtain rest where p: "p = pre @ rest" "rest = [] \<or> hd rest = CHR ''/''" by blast
  then show "owns pre p" by (cases rest) (auto simp: owns_def)
qed

lemma literal_first:
  "compilePolicyPath pre pattern = Some (Literal pre # ps) \<Longrightarrow> path_matches pre pattern (pre @ rest) \<longleftrightarrow> pieces_match ps rest"
  by (simp add: path_matches_def)

definition one_line :: "string \<Rightarrow> bool" where
  "one_line p \<longleftrightarrow> list_all not_break p"

lemma remainder_match:
  assumes "rest = [] \<or> hd rest = CHR ''/''" and "one_line rest"
  shows "pieces_match [Remainder] rest"
proof (cases rest)
  case (Cons c r)
  then have "list_all not_break (take (length r) r) \<and> pieces_match [] (drop (length r) r)" using assms(2) by (simp add: one_line_def)
  then show ?thesis using Cons assms(1) by (auto simp: list_ex_iff intro!: bexI [of _ "length r"] simp del: take_all drop_all)
qed simp

lemma wildcard_covers:
  assumes "owns pre p" and "one_line p"
  shows "path_matches pre ''/*'' p"
proof -
  obtain rest where p: "p = pre @ rest" "rest = [] \<or> hd rest = CHR ''/''" using assms(1) by (auto simp: owns_split)
  then show ?thesis using remainder_match [OF p(2)] assms(2) by (simp add: path_matches_def one_line_def)
qed

lemma segment_match:
  assumes "s \<noteq> []" and "list_all (\<lambda>c. c \<noteq> CHR ''/'') s" and "pieces_match ps rest"
  shows "pieces_match (OneSegment # ps) (CHR ''/'' # s @ rest)"
  using assms by (auto simp: list_ex_iff Suc_le_eq intro!: bexI [of _ "length s"])

text \<open>No two slashes in a row.\<close>

fun single_slashes :: "string \<Rightarrow> bool" where
  "single_slashes (a # b # cs) \<longleftrightarrow> \<not> (a = CHR ''/'' \<and> b = CHR ''/'') \<and> single_slashes (b # cs)"
| "single_slashes cs \<longleftrightarrow> True"

lemma single_slashes_suffix: "single_slashes (xs @ ys) \<Longrightarrow> single_slashes ys"
proof (induction xs)
  case (Cons x xs)
  then show ?case by (cases "xs @ ys") auto
qed simp

lemma items_cover:
  assumes "owns pre p" and "one_line p" and "single_slashes p"
  shows "path_matches pre ''/'' p \<or> path_matches pre ''/:id'' p \<or> path_matches pre ''/:id/*'' p"
proof -
  obtain rest where p: "p = pre @ rest" "rest = [] \<or> hd rest = CHR ''/''" using assms(1) by (auto simp: owns_split)
  have ss: "single_slashes rest" using assms(3) p(1) single_slashes_suffix by simp
  show ?thesis
  proof (cases "rest = [] \<or> rest = ''/''")
    case True
    then show ?thesis using p(1) by (auto simp: path_matches_def)
  next
    case False
    then obtain r where r: "rest = CHR ''/'' # r" "r \<noteq> []" using p(2) by (cases rest) auto
    let ?s = "takeWhile (\<lambda>c. c \<noteq> CHR ''/'') r" and ?t = "dropWhile (\<lambda>c. c \<noteq> CHR ''/'') r"
    have "hd r \<noteq> CHR ''/''" using ss r by (cases r) auto
    then have s: "?s \<noteq> []" using r(2) by (cases r) auto
    have all: "list_all (\<lambda>c. c \<noteq> CHR ''/'') ?s" by (auto simp: list_all_iff dest: set_takeWhileD)
    have t: "?t = [] \<or> hd ?t = CHR ''/''" using hd_dropWhile [of "\<lambda>c. c \<noteq> CHR ''/''" r] by (cases "?t = []") simp_all
    have "pieces_match [OneSegment, Remainder] (CHR ''/'' # ?s @ ?t)"
    proof (rule segment_match [OF s all remainder_match [OF t]])
      show "one_line ?t" using assms(2) p(1) r(1) by (auto simp: one_line_def list_all_iff dest: set_dropWhileD)
    qed
    then have "pieces_match [OneSegment, Remainder] rest" by (simp only: takeWhile_dropWhile_id r(1))
    then have "path_matches pre ''/:id/*'' p" unfolding p(1) by (rule literal_first [THEN iffD2, rotated]) simp
    then show ?thesis by blast
  qed
qed

section \<open>What a forwarded request has proven\<close>

definition proven :: "gw_env \<Rightarrow> gw_request \<Rightarrow> AccessTokenClaims \<Rightarrow> bool" where
  "proven E req claims \<longleftrightarrow> (\<exists>token. extractBearerToken (gw_headers req ''authorization'') = Some token \<and>
     verifyAccessToken E token = Some claims)"

definition admin :: "gw_env \<Rightarrow> gw_request \<Rightarrow> bool" where
  "admin E req \<longleftrightarrow> (\<exists>claims. proven E req claims \<and> claim_role claims = ''ADMIN'')"

text \<open>
  A request on its way through the chain: method, path and credentials are the client's, and
  whatever identity it carries was read off its token.
\<close>

definition honest :: "gw_env \<Rightarrow> gw_request \<Rightarrow> gw_request \<Rightarrow> bool" where
  "honest E orig req \<longleftrightarrow> gw_method req = gw_method orig \<and> gw_path req = gw_path orig \<and>
     gw_headers req ''authorization'' = gw_headers orig ''authorization'' \<and>
     (\<forall>claims. gw_auth req = Some claims \<longrightarrow> proven E orig claims) \<and>
     (TRUST_CLIENT_ACTOR E \<or> gw_headers req ACTOR_HEADER = None \<or>
      (\<exists>claims. proven E orig claims \<and> gw_headers req ACTOR_HEADER = Some (claim_sub claims)))"

lemma honest_authenticate: "honest E q0 req \<Longrightarrow> authenticate E req = Inr req' \<Longrightarrow> honest E q0 req' \<and> (\<exists>c. gw_auth req' = Some c)"
  by (auto simp: honest_def authenticate_def proven_def ACTOR_HEADER_def split: option.splits)

lemma honest_handler: "honest E q0 req \<Longrightarrow> run_handler E h req = Inr req' \<Longrightarrow> honest E q0 req'"
  using honest_authenticate [of E q0 req req']
  by (cases h) (auto simp: credentialRateLimiter_def requireRole_def split: option.splits if_splits)

lemma honest_chain: "honest E q0 req \<Longrightarrow> runChain E hs req = Inr req' \<Longrightarrow> honest E q0 req'"
  by (induction hs arbitrary: req) (auto split: sum.splits dest: honest_handler)

lemma honest_policies: "honest E q0 req \<Longrightarrow> run_policies E pre ps req = Inr req' \<Longrightarrow> honest E q0 req'"
  by (induction ps arbitrary: req) (auto simp: createPolicyHandler_def split: sum.splits if_splits dest: honest_chain)

lemma authenticate_proves: "honest E q0 req \<Longrightarrow> runChain E [Authenticate] req = Inr req' \<Longrightarrow> \<exists>c. proven E q0 c"
  using honest_authenticate [of E q0 req req'] by (fastforce simp: honest_def split: sum.splits)

lemma adminOnly_proves:
  assumes "honest E q0 req" and "runChain E adminOnly req = Inr req'"
  shows "admin E q0"
proof -
  obtain r where r: "authenticate E req = Inr r" "requireRole [''ADMIN''] r = Inr req'"
    using assms(2) by (auto simp: adminOnly_def split: sum.splits)
  obtain c where c: "gw_auth r = Some c" "proven E q0 c"
    using honest_authenticate [OF assms(1) r(1)] by (auto simp: honest_def)
  then show ?thesis using r(2) by (auto simp: requireRole_def admin_def split: if_splits)
qed

text \<open>Every policy that covers a request was run on it and let it pass.\<close>

lemma policies_passed:
  assumes "honest E q0 req" and "run_policies E pre ps req = Inr req'" and "pol \<in> set ps"
    and "covers pre pol (gw_method q0) (gw_path q0)"
  shows "\<exists>r r'. honest E q0 r \<and> runChain E (policy_handlers pol) r = Inr r'"
  using assms(1-3)
proof (induction ps arbitrary: req)
  case (Cons p ps)
  obtain r where r: "createPolicyHandler E pre p req = Inr r" "run_policies E pre ps r = Inr req'"
    using Cons.prems(2) by (auto split: sum.splits)
  have "honest E q0 r" using r(1) Cons.prems(1) by (auto simp: createPolicyHandler_def split: if_splits dest: honest_chain)
  show ?case
  proof (cases "pol = p")
    case True
    then show ?thesis using r(1) Cons.prems(1) assms(4) by (auto simp: createPolicyHandler_def honest_def)
  next
    case False
    then show ?thesis using Cons.IH [OF \<open>honest E q0 r\<close> r(2)] Cons.prems(3) by simp
  qed
qed simp

lemma forwarded_service:
  assumes "honest E q0 req" and "service_handlers E routes req = Forwarded svc req'"
  shows "\<exists>pre r. (svc, pre) \<in> set routes \<and> owns pre (gw_path q0) \<and> honest E q0 r \<and>
    run_policies E pre (routePolicies svc) r = Inr req' \<and> honest E q0 req'"
  using assms
proof (induction E routes req rule: service_handlers.induct)
  case (2 E svc' pre routes req)
  obtain r where r: "run_policies E pre (routePolicies svc') req = Inr r"
    "(if owns pre (gw_path r) then Forwarded svc' r else service_handlers E routes r) = Forwarded svc req'"
    using "2.prems"(2) by (auto split: sum.splits)
  have h: "honest E q0 r" by (rule honest_policies [OF "2.prems"(1) r(1)])
  show ?case
  proof (cases "owns pre (gw_path r)")
    case True
    then show ?thesis using r h "2.prems"(1) by (auto simp: honest_def)
  next
    case False
    then show ?thesis using "2.IH" [OF r(1) False h] r(2) by auto
  qed
qed simp

lemma honest_requestContext: "gw_auth req = None \<Longrightarrow> honest E req (requestContext E req)"
  by (auto simp: honest_def requestContext_def Let_def ACTOR_HEADER_def REQUEST_ID_HEADER_def split: option.splits)

lemma gateway_forwards:
  assumes "gateway E req = Forwarded svc req'" and "gw_auth req = None"
  shows "\<exists>pre r. (svc, pre) \<in> set serviceRegistry \<and> owns pre (gw_path req) \<and> honest E req r \<and>
    run_policies E pre (routePolicies svc) r = Inr req' \<and> honest E req req'"
proof (rule forwarded_service [OF honest_requestContext [OF assms(2)]])
  show "service_handlers E serviceRegistry (requestContext E req) = Forwarded svc req'"
    using assms(1) by (auto simp: gateway_def bodyLimit_def rateLimiter_def split: sum.splits option.splits if_splits)
qed

lemma policy_enforced:
  assumes "gateway E req = Forwarded svc req'" and "gw_auth req = None"
    and "pol \<in> set (routePolicies svc)" and "\<And>pre. (svc, pre) \<in> set serviceRegistry \<Longrightarrow> owns pre (gw_path req) \<Longrightarrow>
      covers pre pol (gw_method req) (gw_path req)"
  shows "\<exists>r r'. honest E req r \<and> runChain E (policy_handlers pol) r = Inr r'"
  using gateway_forwards [OF assms(1,2)] policies_passed assms(3,4) by blast

lemmas table_defs = serviceRegistry_def covers_def policy_def WRITE_METHODS_def

section \<open>Properties\<close>

text \<open>
  Property C20. What the edge enforces, by method and path. A request reaches a service only under that service's prefix,
  with the method, path and credentials the client sent. For paths without a raw line break: whatever reaches the
  email service carries a token the verifier accepted with the role ADMIN; every GET of the inventory service carries an
  accepted token, and every POST, PUT, PATCH and DELETE of it whose path has no empty segment one with the role ADMIN; any
  method on \<^verbatim>\<open>/api/v1/users/:id\<close>, one profile, carries an accepted token; and writes of the product collection or of one
  product need ADMIN. Nothing is claimed of HEAD requests outside email and profiles: the policies list GET only, so an
  anonymous HEAD reaches the inventory service and the lookup of a profile by auth id (\<open>head_bypasses_lookup_guard\<close>).
\<close>

theorem edge_guard:
  assumes fwd: "gateway E req = Forwarded svc req'" and fresh: "gw_auth req = None" and line: "one_line (gw_path req)"
  shows "gw_method req' = gw_method req \<and> gw_path req' = gw_path req \<and>
      gw_headers req' ''authorization'' = gw_headers req ''authorization'' \<and>
    (\<exists>pre. (svc, pre) \<in> set serviceRegistry \<and> owns pre (gw_path req)) \<and>
    (svc = To_email \<longrightarrow> admin E req) \<and>
    (svc = To_inventory \<longrightarrow> gw_method req = ''GET'' \<longrightarrow> (\<exists>claims. proven E req claims)) \<and>
    (svc = To_inventory \<longrightarrow> gw_method req \<in> set WRITE_METHODS \<longrightarrow> single_slashes (gw_path req) \<longrightarrow> admin E req) \<and>
    (svc = To_user \<longrightarrow> path_matches ''/api/v1/users'' ''/:id'' (gw_path req) \<longrightarrow> (\<exists>claims. proven E req claims)) \<and>
    (svc = To_product \<longrightarrow> gw_method req \<in> set WRITE_METHODS \<longrightarrow>
      path_matches ''/api/v1/products'' ''/'' (gw_path req) \<or> path_matches ''/api/v1/products'' ''/:id'' (gw_path req) \<longrightarrow> admin E req)"
proof -
  note passed = policy_enforced [OF fwd fresh]
  have wild: "path_matches pre ''/*'' (gw_path req)" if "owns pre (gw_path req)" for pre
    by (rule wildcard_covers [OF that line])
  have "gw_method req' = gw_method req \<and> gw_path req' = gw_path req \<and>
      gw_headers req' ''authorization'' = gw_headers req ''authorization'' \<and>
    (\<exists>pre. (svc, pre) \<in> set serviceRegistry \<and> owns pre (gw_path req))"
    using gateway_forwards [OF fwd fresh] by (auto simp: honest_def)
  moreover have "admin E req" if "svc = To_email"
    using passed [of "policy ''mail-operations'' None [''/*''] adminOnly"] that wild
    by (auto simp: table_defs dest: adminOnly_proves)
  moreover have "\<exists>claims. proven E req claims" if "svc = To_inventory" "gw_method req = ''GET''"
    using passed [of "policy ''stock-visibility'' (Some [''GET'']) [''/*''] [Authenticate]"] that wild
    by (auto simp: table_defs simp del: runChain.simps dest: authenticate_proves)
  moreover have "admin E req" if "svc = To_inventory" "gw_method req \<in> set WRITE_METHODS" "single_slashes (gw_path req)"
    using passed [of "policy ''stock-mutations'' (Some WRITE_METHODS) [''/'', ''/:id'', ''/:id/*''] adminOnly"]
      that items_cover [OF _ line that(3)]
    by (auto simp: table_defs dest: adminOnly_proves)
  moreover have "\<exists>claims. proven E req claims" if "svc = To_user" "path_matches ''/api/v1/users'' ''/:id'' (gw_path req)"
    using passed [of "policy ''profile-access'' None [''/:id''] [Authenticate]"] that
    by (auto simp: table_defs simp del: runChain.simps dest: authenticate_proves)
  moreover have "admin E req" if "svc = To_product" "gw_method req \<in> set WRITE_METHODS"
    "path_matches ''/api/v1/products'' ''/'' (gw_path req) \<or> path_matches ''/api/v1/products'' ''/:id'' (gw_path req)"
    using passed [of "policy ''catalogue-writes'' (Some WRITE_METHODS) [''/'', ''/:id''] adminOnly"] that
    by (auto simp: table_defs dest: adminOnly_proves)
  ultimately show ?thesis by blast
qed

definition sample_gateway :: gw_env where
  "sample_gateway = \<lparr>jwtVerify = (\<lambda>iss aud now t. if t = ''root'' then Some [(''sub'', JString ''u1''), (''email'', JString ''a@b.co''),
       (''username'', JString ''ann''), (''role'', JString ''ADMIN''), (''sid'', JString ''s1'')] else None),
     gw_issuer = ''auth'', gw_audience = ''api'', gw_now = 1000, general_allows = (\<lambda>r. True), credential_allows = (\<lambda>r. False), gw_uuid = ''rid'', TRUST_CLIENT_ACTOR = False,
     MAX_BODY_BYTES = 1048576\<rparr>"

definition sample_request :: "string \<Rightarrow> string \<Rightarrow> string option \<Rightarrow> gw_request" where
  "sample_request meth p auth = \<lparr>gw_method = meth, gw_path = p,
     gw_headers = (\<lambda>h. if h = ''authorization'' then auth else if h = ''x-actor-id'' then Some ''mallory'' else None),
     gw_auth = None, gw_actor = None, gw_id = ''''\<rparr>"

definition outcome_view :: "gw_outcome \<Rightarrow> (ServiceName \<times> string option) option" where
  "outcome_view out = (case out of Forwarded svc r \<Rightarrow> Some (svc, gw_headers r ACTOR_HEADER) | _ \<Rightarrow> None)"

lemma outcome_forwarded: "outcome_view out = Some (svc, a) \<Longrightarrow> \<exists>r. out = Forwarded svc r \<and> gw_headers r ACTOR_HEADER = a"
  by (auto simp: outcome_view_def split: gw_outcome.splits)

lemma sample_admin_delivered:
  "outcome_view (gateway sample_gateway (sample_request ''DELETE'' ''/api/v1/inventory/i1'' (Some ''Bearer root''))) = Some (To_inventory, Some ''u1'')"
  by code_simp

lemma sample_head_delivered:
  "outcome_view (gateway sample_gateway (sample_request ''HEAD'' ''/api/v1/users/auth/u1'' None)) = Some (To_user, None)"
  by code_simp

lemma sample_get_refused:
  "outcome_view (gateway sample_gateway (sample_request ''GET'' ''/api/v1/users/auth/u1'' None)) = None"
  by code_simp

lemma sample_login_unthrottled:
  "outcome_view (gateway sample_gateway (sample_request ''POST'' ''/api/v1/auth/LOGIN'' None)) = Some (To_auth, None)"
  by code_simp

theorem edge_guard_witness:
  "\<exists>r. gateway sample_gateway (sample_request ''DELETE'' ''/api/v1/inventory/i1'' (Some ''Bearer root'')) = Forwarded To_inventory r \<and>
     admin sample_gateway (sample_request ''DELETE'' ''/api/v1/inventory/i1'' (Some ''Bearer root''))"
proof -
  let ?q = "sample_request ''DELETE'' ''/api/v1/inventory/i1'' (Some ''Bearer root'')"
  obtain r where r: "gateway sample_gateway ?q = Forwarded To_inventory r"
    using outcome_forwarded [OF sample_admin_delivered] by blast
  have q: "gw_auth ?q = None" "one_line (gw_path ?q)" "gw_method ?q \<in> set WRITE_METHODS" "single_slashes (gw_path ?q)"
    by (simp_all add: sample_request_def one_line_def not_break_def WRITE_METHODS_def)
  then show ?thesis using edge_guard [OF r q(1,2)] r by blast
qed

text \<open>
  Property C21. An upstream never sees an identity the edge did not prove: unless the deployment trusts
  client actors, a forwarded request either has no \<^verbatim>\<open>x-actor-id\<close> or has the subject of the token the
  client presented and the verifier accepted, whatever the client wrote in that header.
\<close>

theorem actor_header_trusted:
  assumes "gateway E req = Forwarded svc req'" and "gw_auth req = None" and "\<not> TRUST_CLIENT_ACTOR E"
  shows "gw_headers req' ACTOR_HEADER = None \<or>
    (\<exists>token claims. extractBearerToken (gw_headers req ''authorization'') = Some token \<and> verifyAccessToken E token = Some claims \<and>
       gw_headers req' ACTOR_HEADER = Some (claim_sub claims))"
  using gateway_forwards [OF assms(1,2)] assms(3) by (auto simp: honest_def proven_def)

theorem actor_header_trusted_witness:
  "\<exists>r token claims. gateway sample_gateway (sample_request ''DELETE'' ''/api/v1/inventory/i1'' (Some ''Bearer root'')) = Forwarded To_inventory r \<and>
     verifyAccessToken sample_gateway token = Some claims \<and> gw_headers r ACTOR_HEADER = Some (claim_sub claims)"
proof -
  let ?q = "sample_request ''DELETE'' ''/api/v1/inventory/i1'' (Some ''Bearer root'')"
  obtain r where r: "gateway sample_gateway ?q = Forwarded To_inventory r" "gw_headers r ACTOR_HEADER = Some ''u1''"
    using outcome_forwarded [OF sample_admin_delivered] by blast
  have q: "gw_auth ?q = None" "\<not> TRUST_CLIENT_ACTOR sample_gateway" by (simp_all add: sample_request_def sample_gateway_def)
  show ?thesis using actor_header_trusted [OF r(1) q] r by auto
qed

text \<open>A compiled pattern starts with its service's prefix, so no policy touches a path outside it.\<close>

lemma foreign_path: "take (length pre) p \<noteq> pre \<Longrightarrow> \<not> path_matches pre pattern p"
  by (auto simp: path_matches_def compilePolicyPath_def split: option.splits)

lemma foreign_policies: "take (length pre) (gw_path req) \<noteq> pre \<Longrightarrow> run_policies E pre ps req = Inr req"
  by (induction ps) (simp_all add: createPolicyHandler_def covers_def list_ex_iff foreign_path)

lemma owns_take: "owns pre p \<Longrightarrow> take (length pre) p = pre"
  by (auto simp: owns_split)

definition apart :: "string \<Rightarrow> string \<Rightarrow> bool" where
  "apart pre pre' \<longleftrightarrow> list_ex (\<lambda>n. n < length pre' \<and> pre ! n \<noteq> pre' ! n) [0..<length pre]"

lemma owned_elsewhere:
  assumes "owns pre p" and "apart pre pre'"
  shows "take (length pre') p \<noteq> pre'"
proof -
  obtain n where n: "n < length pre" "n < length pre'" "pre ! n \<noteq> pre' ! n" using assms(2) by (auto simp: apart_def list_ex_iff)
  obtain rest where "p = pre @ rest" using assms(1) by (auto simp: owns_split)
  then have "take (length pre') p ! n \<noteq> pre' ! n" using n by (simp add: nth_append)
  then show ?thesis by auto
qed

lemma foreign_skip:
  "take (length pre) (gw_path req) \<noteq> pre \<Longrightarrow> service_handlers E ((svc, pre) # routes) req = service_handlers E routes req"
  using owns_take [of pre "gw_path req"] by (auto simp: foreign_policies)

definition own_policies :: "gw_env \<Rightarrow> ServiceName \<Rightarrow> string \<Rightarrow> gw_request \<Rightarrow> gw_outcome" where
  "own_policies E svc pre req =
     (case run_policies E pre (routePolicies svc) req of Inl e \<Rightarrow> Refused e | Inr req' \<Rightarrow> Forwarded svc req')"

lemma handler_path: "run_handler E h req = Inr r \<Longrightarrow> gw_path r = gw_path req"
  by (cases h) (auto simp: credentialRateLimiter_def requireRole_def authenticate_def split: option.splits if_splits)

lemma chain_path: "runChain E hs req = Inr r \<Longrightarrow> gw_path r = gw_path req"
  by (induction hs arbitrary: req) (auto split: sum.splits dest: handler_path)

lemma policies_path: "run_policies E pre ps req = Inr r \<Longrightarrow> gw_path r = gw_path req"
  by (induction ps arbitrary: req) (auto simp: createPolicyHandler_def split: sum.splits if_splits dest: chain_path)

lemma own_service:
  "owns pre (gw_path req) \<Longrightarrow> service_handlers E ((svc, pre) # routes) req = own_policies E svc pre req"
  by (auto simp: own_policies_def split: sum.splits dest: policies_path)

lemma service_unique:
  assumes "(svc, pre) \<in> set routes" and "owns pre (gw_path req)"
    and "\<And>svc' pre'. (svc', pre') \<in> set routes \<Longrightarrow> (svc', pre') = (svc, pre) \<or> apart pre pre'"
  shows "service_handlers E routes req = own_policies E svc pre req"
  using assms(1,3)
proof (induction routes)
  case (Cons r routes)
  obtain svc' pre' where r: "r = (svc', pre')" by (cases r)
  show ?case
  proof (cases "r = (svc, pre)")
    case True
    then show ?thesis using own_service [OF assms(2)] by simp
  next
    case False
    then have "apart pre pre'" using Cons.prems(2) [of svc' pre'] r by auto
    then have "service_handlers E (r # routes) req = service_handlers E routes req"
      unfolding r by (rule foreign_skip [OF owned_elsewhere [OF assms(2)]])
    moreover have "service_handlers E routes req = own_policies E svc pre req"
      using Cons.prems False by (intro Cons.IH) auto
    ultimately show ?thesis by simp
  qed
qed simp

lemma prefixes_apart:
  assumes "(svc, pre) \<in> set serviceRegistry" and "(svc', pre') \<in> set serviceRegistry"
  shows "(svc', pre') = (svc, pre) \<or> apart pre pre'"
proof -
  have "list_all (\<lambda>a. list_all (\<lambda>b. a = b \<or> apart (snd a) (snd b)) serviceRegistry) serviceRegistry" by code_simp
  then show ?thesis using assms by (fastforce simp: list_all_iff)
qed

text \<open>
  Routing is exact: a request under the prefix of a service meets only that service's
  policies, in their order, after the body and rate limits, and then goes to that service or is refused;
  no other entry of the table sees it.
\<close>

theorem policies_stay_in_their_service:
  assumes "(svc, pre) \<in> set serviceRegistry" and "owns pre (gw_path req)"
  shows "gateway E req =
    (case bodyLimit E (requestContext E req) of
       Inl e \<Rightarrow> Refused e
     | Inr r \<Rightarrow> (case rateLimiter E r of Inl e \<Rightarrow> Refused e | Inr r' \<Rightarrow> own_policies E svc pre r'))"
proof -
  have *: "service_handlers E serviceRegistry r = own_policies E svc pre r" if "gw_path r = gw_path req" for r
    using assms that prefixes_apart [OF assms(1)] by (intro service_unique) auto
  have "gw_path (requestContext E req) = gw_path req" by (simp add: requestContext_def Let_def)
  then show ?thesis
    by (auto simp: gateway_def bodyLimit_def rateLimiter_def * split: option.splits if_splits)
qed

theorem policies_stay_in_their_service_witness:
  "gateway sample_gateway (sample_request ''GET'' ''/api/v1/emails/stats'' None) =
     Refused (gw_error 401 ''UNAUTHORIZED'' ''A bearer access token is required'')"
proof -
  let ?q = "sample_request ''GET'' ''/api/v1/emails/stats'' None"
  let ?r = "requestContext sample_gateway ?q"
  have r: "bodyLimit sample_gateway ?r = Inr ?r" "rateLimiter sample_gateway ?r = Inr ?r"
    by (simp_all add: sample_request_def sample_gateway_def requestContext_def bodyLimit_def rateLimiter_def Let_def
        REQUEST_ID_HEADER_def ACTOR_HEADER_def)
  have c: "covers ''/api/v1/emails'' (policy ''mail-operations'' None [''/*''] adminOnly) (gw_method ?r) (gw_path ?r)"
    by code_simp
  have a: "authenticate sample_gateway ?r = Inl (gw_error 401 ''UNAUTHORIZED'' ''A bearer access token is required'')"
    by (simp add: authenticate_def sample_request_def sample_gateway_def requestContext_def Let_def
        REQUEST_ID_HEADER_def ACTOR_HEADER_def extractBearerToken_def)
  have "own_policies sample_gateway To_email ''/api/v1/emails'' ?r =
      Refused (gw_error 401 ''UNAUTHORIZED'' ''A bearer access token is required'')"
    using c a by (simp add: own_policies_def createPolicyHandler_def) (simp add: policy_def adminOnly_def)
  moreover have "(To_email, ''/api/v1/emails'') \<in> set serviceRegistry" "owns ''/api/v1/emails'' (gw_path ?q)"
    by (simp_all add: serviceRegistry_def owns_def sample_request_def)
  ultimately show ?thesis using policies_stay_in_their_service [of To_email "''/api/v1/emails''" ?q sample_gateway] r by simp
qed

section \<open>Requests the table does not cover\<close>

text \<open>
  The lookup of a profile by auth id is reserved to administrators because it would be an enumeration
  handle, but only for GET; an anonymous HEAD, which Express answers with the GET route, is forwarded.
\<close>

theorem head_bypasses_lookup_guard:
  "(\<exists>r. gateway sample_gateway (sample_request ''HEAD'' ''/api/v1/users/auth/u1'' None) = Forwarded To_user r) \<and>
   (\<forall>svc r. gateway sample_gateway (sample_request ''GET'' ''/api/v1/users/auth/u1'' None) \<noteq> Forwarded svc r)"
  using outcome_forwarded [OF sample_head_delivered] sample_get_refused by (auto simp: outcome_view_def)

text \<open>
  Patterns are case sensitive and Express routes are not: with the credential budget spent, another
  spelling of the login path is still forwarded.
\<close>

theorem login_spelling_unthrottled:
  "(\<exists>r. gateway sample_gateway (sample_request ''POST'' ''/api/v1/auth/LOGIN'' None) = Forwarded To_auth r) \<and>
   (\<forall>svc r. gateway sample_gateway (sample_request ''POST'' ''/api/v1/auth/login'' None) \<noteq> Forwarded svc r)"
proof -
  have "outcome_view (gateway sample_gateway (sample_request ''POST'' ''/api/v1/auth/login'' None)) = None" by code_simp
  then show ?thesis using outcome_forwarded [OF sample_login_unthrottled] by (auto simp: outcome_view_def)
qed

end
