(* ===== verification/UserService.thy ===== *)
theory UserService
  imports Zod Results
begin

text \<open>
  The user service: its table (\<^verbatim>\<open>services/user/prisma/schema.prisma\<close>), the repository, the service, the
  request schemas, the controller and the routes (\<^verbatim>\<open>services/user/src/modules/user\<close>). The repository calls of one
  request are numbered: before each but the first, other requests may commit (\<open>ue_meanwhile\<close>), and the database
  may refuse each (\<open>ue_fault\<close>). The column \<^verbatim>\<open>updatedAt\<close>, which nothing reads, is left out.
\<close>

section \<open>The table\<close>

record User =
  usr_id :: string
  usr_authUserId :: string
  usr_name :: string
  usr_email :: string
  usr_address :: string
  usr_phone :: string
  usr_createdAt :: int

record CreateUserInput =
  cu_authUserId :: string
  cu_name :: string
  cu_email :: string
  cu_address :: string
  cu_phone :: string

record UpdateUserInput =
  uu_name :: "string option"
  uu_email :: "string option"
  uu_address :: "string option"
  uu_phone :: "string option"

type_synonym user_db = "User list"

section \<open>Request schemas\<close>

text \<open>\<^verbatim>\<open>z.email().max(150).transform(toLowerCase)\<close> and the phone pattern \<^verbatim>\<open>/^\+?[0-9][0-9\s().-]*$/\<close>.\<close>

definition user_emailField :: "(string \<Rightarrow> bool) \<Rightarrow> json \<Rightarrow> string option" where
  "user_emailField is_email v = (case v of
     JString s \<Rightarrow> (if is_email s \<and> length s \<le> 150 then Some (js_toLowerCase s) else None) | _ \<Rightarrow> None)"

definition phone_char :: "char \<Rightarrow> bool" where
  "phone_char c \<longleftrightarrow> is_digit c \<or> is_blank c \<or> c = CHR ''('' \<or> c = CHR '')'' \<or> c = CHR ''.'' \<or> c = CHR ''-''"

definition phone_pattern :: "string \<Rightarrow> bool" where
  "phone_pattern s = (case s of
     [] \<Rightarrow> False
   | c # cs \<Rightarrow> (let ds = (if c = CHR ''+'' then cs else s) in ds \<noteq> [] \<and> is_digit (hd ds) \<and> list_all phone_char (tl ds)))"

definition phoneField :: "json \<Rightarrow> string option" where
  "phoneField v = (case trimmed_string 7 20 v of None \<Rightarrow> None | Some s \<Rightarrow> (if phone_pattern s then Some s else None))"

definition createUserSchema :: "(string \<Rightarrow> bool) \<Rightarrow> json \<Rightarrow> CreateUserInput option" where
  "createUserSchema is_email v = (case v of
     JObject fs \<Rightarrow>
       (if \<not> strict_keys [''authUserId'', ''name'', ''email'', ''address'', ''phone''] fs then None
        else case required (trimmed_string 1 191) (obj_get fs ''authUserId'') of None \<Rightarrow> None | Some a \<Rightarrow>
          (case required (trimmed_string 1 150) (obj_get fs ''name'') of None \<Rightarrow> None | Some nm \<Rightarrow>
          (case required (user_emailField is_email) (obj_get fs ''email'') of None \<Rightarrow> None | Some em \<Rightarrow>
          (case required (trimmed_string 1 250) (obj_get fs ''address'') of None \<Rightarrow> None | Some ad \<Rightarrow>
          (case required phoneField (obj_get fs ''phone'') of None \<Rightarrow> None | Some ph \<Rightarrow>
             Some \<lparr>cu_authUserId = a, cu_name = nm, cu_email = em, cu_address = ad, cu_phone = ph\<rparr>)))))
   | _ \<Rightarrow> None)"

definition updateUserSchema :: "(string \<Rightarrow> bool) \<Rightarrow> json \<Rightarrow> UpdateUserInput option" where
  "updateUserSchema is_email v = (case v of
     JObject fs \<Rightarrow>
       (if \<not> strict_keys [''name'', ''email'', ''address'', ''phone''] fs then None
        else case optional (trimmed_string 1 150) (obj_get fs ''name'') of None \<Rightarrow> None | Some nm \<Rightarrow>
          (case optional (user_emailField is_email) (obj_get fs ''email'') of None \<Rightarrow> None | Some em \<Rightarrow>
          (case optional (trimmed_string 1 250) (obj_get fs ''address'') of None \<Rightarrow> None | Some ad \<Rightarrow>
          (case optional phoneField (obj_get fs ''phone'') of None \<Rightarrow> None | Some ph \<Rightarrow>
             (if nm = None \<and> em = None \<and> ad = None \<and> ph = None then None
              else Some \<lparr>uu_name = nm, uu_email = em, uu_address = ad, uu_phone = ph\<rparr>)))))
   | _ \<Rightarrow> None)"

definition authUserIdParamsSchema :: "string \<Rightarrow> string option" where
  "authUserIdParamsSchema s = trimmed_string 1 191 (JString s)"

section \<open>The repository\<close>

definition user_row :: "string \<Rightarrow> int \<Rightarrow> CreateUserInput \<Rightarrow> User" where
  "user_row uuid now input = \<lparr>usr_id = uuid, usr_authUserId = cu_authUserId input, usr_name = cu_name input,
     usr_email = cu_email input, usr_address = cu_address input, usr_phone = cu_phone input, usr_createdAt = now\<rparr>"

definition insert_user :: "User \<Rightarrow> (user_db, thrown, User) act" where
  "insert_user row = (\<lambda>db. case unique_violation [(''id'', usr_id row \<in> set (map usr_id db)),
       (''authUserId'', usr_authUserId row \<in> set (map usr_authUserId db)), (''email'', usr_email row \<in> set (map usr_email db))] of
     Some e \<Rightarrow> (Inl e, db)
   | None \<Rightarrow> (Inr row, db @ [row]))"

definition createUser :: "thrown option \<Rightarrow> string \<Rightarrow> int \<Rightarrow> CreateUserInput \<Rightarrow> (user_db, AppError, User) act" where
  "createUser flt uuid now input = db_call flt (insert_user (user_row uuid now input))"

definition getUserById :: "thrown option \<Rightarrow> string \<Rightarrow> (user_db, AppError, User option) act" where
  "getUserById flt i = db_call flt (gets (find_row usr_id i))"

definition getUserByAuthUserId :: "thrown option \<Rightarrow> string \<Rightarrow> (user_db, AppError, User option) act" where
  "getUserByAuthUserId flt a = db_call flt (gets (find_row usr_authUserId a))"

definition getUserByEmail :: "thrown option \<Rightarrow> string \<Rightarrow> (user_db, AppError, User option) act" where
  "getUserByEmail flt e = db_call flt (gets (find_row usr_email e))"

definition patch_user :: "UpdateUserInput \<Rightarrow> User \<Rightarrow> User" where
  "patch_user input u = u\<lparr>usr_name := case_option (usr_name u) id (uu_name input), usr_email := case_option (usr_email u) id (uu_email input),
     usr_address := case_option (usr_address u) id (uu_address input), usr_phone := case_option (usr_phone u) id (uu_phone input)\<rparr>"

definition updateUser :: "thrown option \<Rightarrow> string \<Rightarrow> UpdateUserInput \<Rightarrow> (user_db, AppError, User) act" where
  "updateUser flt i input = db_call flt (\<lambda>db. case find_row usr_id i db of
     None \<Rightarrow> (Inl record_missing, db)
   | Some u \<Rightarrow>
       (case unique_violation [(''email'', usr_email (patch_user input u) \<in> set (map usr_email (delete_rows usr_id i db)))] of
          Some e \<Rightarrow> (Inl e, db)
        | None \<Rightarrow> (Inr (patch_user input u), update_rows usr_id i (patch_user input) db)))"

definition deleteUser :: "thrown option \<Rightarrow> string \<Rightarrow> (user_db, AppError, unit) act" where
  "deleteUser flt i = db_call flt (\<lambda>db. case find_row usr_id i db of
     None \<Rightarrow> (Inl record_missing, db)
   | Some u \<Rightarrow> (Inr (), delete_rows usr_id i db))"

section \<open>The service\<close>

record user_env =
  ue_fault :: "nat \<Rightarrow> thrown option"
  ue_meanwhile :: "nat \<Rightarrow> user_db \<Rightarrow> user_db"
  ue_uuid :: string
  ue_now :: int
  ue_is_uuid :: "string \<Rightarrow> bool"
  ue_is_email :: "string \<Rightarrow> bool"

definition user_create :: "user_env \<Rightarrow> CreateUserInput \<Rightarrow> (user_db, AppError, User) act" where
  "user_create E input =
     and_then (getUserByAuthUserId (ue_fault E 0) (cu_authUserId input)) (\<lambda>byAuthUserId.
     if byAuthUserId \<noteq> None then
       throw (ConflictError (''A user for authUserId '' @ quote (cu_authUserId input) @ '' already exists'') None)
     else
       and_then (modify (ue_meanwhile E 1)) (\<lambda>_.
       and_then (getUserByEmail (ue_fault E 1) (cu_email input)) (\<lambda>byEmail.
       if byEmail \<noteq> None then
         throw (ConflictError (''A user with email '' @ quote (cu_email input) @ '' already exists'') None)
       else
         and_then (modify (ue_meanwhile E 2)) (\<lambda>_.
         createUser (ue_fault E 2) (ue_uuid E) (ue_now E) input))))"

definition user_getById :: "user_env \<Rightarrow> string \<Rightarrow> (user_db, AppError, User) act" where
  "user_getById E i = and_then (getUserById (ue_fault E 0) i) (\<lambda>u. case u of
     None \<Rightarrow> throw (NotFoundError (''User '' @ quote i @ '' was not found''))
   | Some row \<Rightarrow> ret row)"

definition user_getByAuthUserId :: "user_env \<Rightarrow> string \<Rightarrow> (user_db, AppError, User) act" where
  "user_getByAuthUserId E a = and_then (getUserByAuthUserId (ue_fault E 0) a) (\<lambda>u. case u of
     None \<Rightarrow> throw (NotFoundError (''No user found for authUserId '' @ quote a))
   | Some row \<Rightarrow> ret row)"

definition moved_email :: "UpdateUserInput \<Rightarrow> User \<Rightarrow> string option" where
  "moved_email input current = (case uu_email input of
     None \<Rightarrow> None | Some e \<Rightarrow> (if e \<noteq> '''' \<and> e \<noteq> usr_email current then Some e else None))"

definition user_update :: "user_env \<Rightarrow> string \<Rightarrow> UpdateUserInput \<Rightarrow> (user_db, AppError, User) act" where
  "user_update E i input =
     and_then (user_getById E i) (\<lambda>current.
     and_then (modify (ue_meanwhile E 1)) (\<lambda>_.
     and_then (case moved_email input current of
         None \<Rightarrow> ret ()
       | Some e \<Rightarrow>
           and_then (getUserByEmail (ue_fault E 1) e) (\<lambda>byEmail. case byEmail of
             None \<Rightarrow> ret ()
           | Some other \<Rightarrow> (if usr_id other \<noteq> i
               then throw (ConflictError (''A user with email '' @ quote e @ '' already exists'') None) else ret ()))) (\<lambda>_.
     and_then (modify (ue_meanwhile E 2)) (\<lambda>_.
     updateUser (ue_fault E 2) i input))))"

definition user_remove :: "user_env \<Rightarrow> string \<Rightarrow> (user_db, AppError, unit) act" where
  "user_remove E i =
     and_then (user_getById E i) (\<lambda>_.
     and_then (modify (ue_meanwhile E 1)) (\<lambda>_.
     deleteUser (ue_fault E 1) i))"

section \<open>Routes\<close>

definition user_invalid :: AppError where
  "user_invalid = ValidationError ''Request validation failed'' None"

definition create_user_route :: "user_env \<Rightarrow> json \<Rightarrow> (user_db, AppError, int \<times> User option) act" where
  "create_user_route E body = (case createUserSchema (ue_is_email E) body of
     None \<Rightarrow> throw user_invalid
   | Some input \<Rightarrow> and_then (user_create E input) (\<lambda>u. ret (201, Some u)))"

definition get_by_auth_route :: "user_env \<Rightarrow> string \<Rightarrow> (user_db, AppError, int \<times> User option) act" where
  "get_by_auth_route E a = (case authUserIdParamsSchema a of
     None \<Rightarrow> throw user_invalid
   | Some b \<Rightarrow> and_then (user_getByAuthUserId E b) (\<lambda>u. ret (200, Some u)))"

definition get_user_route :: "user_env \<Rightarrow> string \<Rightarrow> (user_db, AppError, int \<times> User option) act" where
  "get_user_route E i = (if \<not> ue_is_uuid E i then throw user_invalid
     else and_then (user_getById E i) (\<lambda>u. ret (200, Some u)))"

definition update_user_route :: "user_env \<Rightarrow> string \<Rightarrow> json \<Rightarrow> (user_db, AppError, int \<times> User option) act" where
  "update_user_route E i body = (if \<not> ue_is_uuid E i then throw user_invalid
     else case updateUserSchema (ue_is_email E) body of
       None \<Rightarrow> throw user_invalid
     | Some input \<Rightarrow> and_then (user_update E i input) (\<lambda>u. ret (200, Some u)))"

definition delete_user_route :: "user_env \<Rightarrow> string \<Rightarrow> (user_db, AppError, int \<times> User option) act" where
  "delete_user_route E i = (if \<not> ue_is_uuid E i then throw user_invalid
     else and_then (user_remove E i) (\<lambda>_. ret (204, None)))"

datatype UserRequest =
  PostUser json | GetUserByAuth string | GetUser string | PatchUser string json | DeleteUser string

fun user_handle :: "user_env \<Rightarrow> UserRequest \<Rightarrow> (user_db, AppError, int \<times> User option) act" where
  "user_handle E (PostUser body) = create_user_route E body"
| "user_handle E (GetUserByAuth a) = get_by_auth_route E a"
| "user_handle E (GetUser i) = get_user_route E i"
| "user_handle E (PatchUser i body) = update_user_route E i body"
| "user_handle E (DeleteUser i) = delete_user_route E i"

section \<open>The invariant\<close>

definition lower :: "string \<Rightarrow> bool" where
  "lower s \<longleftrightarrow> js_toLowerCase s = s"

text \<open>A row within its columns, with the normalisation uniqueness relies on.\<close>

definition user_typed :: "User \<Rightarrow> bool" where
  "user_typed u \<longleftrightarrow> 1 \<le> length (usr_authUserId u) \<and> length (usr_authUserId u) \<le> 191 \<and>
     1 \<le> length (usr_name u) \<and> length (usr_name u) \<le> 150 \<and> length (usr_email u) \<le> 150 \<and> lower (usr_email u) \<and>
     1 \<le> length (usr_address u) \<and> length (usr_address u) \<le> 250 \<and>
     7 \<le> length (usr_phone u) \<and> length (usr_phone u) \<le> 20 \<and> phone_pattern (usr_phone u)"

definition users_unique :: "user_db \<Rightarrow> bool" where
  "users_unique db \<longleftrightarrow> distinct (map usr_id db) \<and> distinct (map usr_authUserId db) \<and> distinct (map usr_email db)"

definition users_typed :: "user_db \<Rightarrow> bool" where
  "users_typed db \<longleftrightarrow> list_all user_typed db"

lemma lower_idem [simp]: "js_toLowerCase (js_toLowerCase s) = js_toLowerCase s"
proof -
  have "(\<lambda>c. if 65 \<le> (of_char c :: nat) \<and> (of_char c :: nat) \<le> 90 then char_of ((of_char c :: nat) + 32) else c)
      (if 65 \<le> (of_char c :: nat) \<and> (of_char c :: nat) \<le> 90 then char_of ((of_char c :: nat) + 32) else c) =
      (if 65 \<le> (of_char c :: nat) \<and> (of_char c :: nat) \<le> 90 then char_of ((of_char c :: nat) + 32) else c)" for c :: char
    by (auto simp: of_char_of)
  then show ?thesis by (simp add: js_toLowerCase_def)
qed

lemma length_lower [simp]: "length (js_toLowerCase s) = length s"
  by (simp add: js_toLowerCase_def)

lemma trimmed_bounds: "trimmed_string lo hi v = Some s \<Longrightarrow> lo \<le> length s \<and> length s \<le> hi"
  by (auto simp: trimmed_string_def Let_def split: json.splits if_splits)

lemma email_bounds: "user_emailField p v = Some s \<Longrightarrow> length s \<le> 150 \<and> lower s"
  by (auto simp: user_emailField_def lower_def split: json.splits if_splits)

lemma phone_bounds: "phoneField v = Some s \<Longrightarrow> 7 \<le> length s \<and> length s \<le> 20 \<and> phone_pattern s"
  by (auto simp: phoneField_def split: option.splits if_splits dest: trimmed_bounds)

lemmas field_bounds = trimmed_bounds email_bounds phone_bounds

definition patch_typed :: "UpdateUserInput \<Rightarrow> bool" where
  "patch_typed input \<longleftrightarrow> (\<forall>s. uu_name input = Some s \<longrightarrow> 1 \<le> length s \<and> length s \<le> 150) \<and>
     (\<forall>s. uu_email input = Some s \<longrightarrow> length s \<le> 150 \<and> lower s) \<and>
     (\<forall>s. uu_address input = Some s \<longrightarrow> 1 \<le> length s \<and> length s \<le> 250) \<and>
     (\<forall>s. uu_phone input = Some s \<longrightarrow> 7 \<le> length s \<and> length s \<le> 20 \<and> phone_pattern s)"

lemma create_schema_typed: "createUserSchema p v = Some input \<Longrightarrow> user_typed (user_row uuid now input)"
  by (auto simp: createUserSchema_def user_typed_def user_row_def required_Some split: json.splits if_splits option.splits
      dest!: field_bounds)

lemma optional_Some: "optional f v = Some (Some x) \<Longrightarrow> \<exists>j. f j = Some x"
  by (auto simp: optional_def split: option.splits)

lemma update_schema_typed: "updateUserSchema p v = Some input \<Longrightarrow> patch_typed input"
  by (auto simp: updateUserSchema_def patch_typed_def split: json.splits if_splits option.splits
      dest!: optional_Some dest: field_bounds)

lemma patch_user_typed: "patch_typed input \<Longrightarrow> user_typed u \<Longrightarrow> user_typed (patch_user input u)"
  by (auto simp: patch_typed_def user_typed_def patch_user_def split: option.split)

section \<open>What the statements keep\<close>

lemma insert_user_unique: "users_unique db \<Longrightarrow> insert_user row db = (Inr a, db') \<Longrightarrow> users_unique db'"
  by (auto simp: insert_user_def users_unique_def unique_violation_None split: option.splits)

lemma same_id: "distinct (map usr_id db) \<Longrightarrow> r \<in> set db \<Longrightarrow> u \<in> set db \<Longrightarrow> usr_id r = usr_id u \<Longrightarrow> r = u"
  by (metis find_row_distinct option.inject)

lemma keeps_unique_create: "keeps users_unique (createUser flt uuid now input)"
  unfolding createUser_def by (rule db_call_keeps) (rule insert_user_unique)

lemma keeps_unique_update: "keeps users_unique (updateUser flt i input)"
  unfolding updateUser_def
proof (rule db_call_keeps)
  fix db a db'
  assume ok: "users_unique db" and run: "(case find_row usr_id i db of
     None \<Rightarrow> (Inl record_missing, db)
   | Some u \<Rightarrow>
       (case unique_violation [(''email'', usr_email (patch_user input u) \<in> set (map usr_email (delete_rows usr_id i db)))] of
          Some e \<Rightarrow> (Inl e, db)
        | None \<Rightarrow> (Inr (patch_user input u), update_rows usr_id i (patch_user input) db))) = (Inr a, db')"
  obtain u where u: "find_row usr_id i db = Some u" "usr_email (patch_user input u) \<notin> usr_email ` {r \<in> set db. usr_id r \<noteq> i}"
    and db': "db' = update_rows usr_id i (patch_user input) db"
    using run by (auto simp: unique_violation_None split: option.splits)
  have "distinct (map usr_email db')"
    unfolding db' using ok u find_row_SomeD [OF u(1)] same_id [of db]
    by (intro distinct_update_other [of usr_email db _ u]) (auto simp: users_unique_def)
  then show "users_unique db'"
    using ok by (simp add: users_unique_def db' map_key_update_rows patch_user_def)
qed

lemma unique_delete: "users_unique db \<Longrightarrow> users_unique (delete_rows usr_id i db)"
  by (simp add: users_unique_def distinct_map_delete_rows)

lemma typed_delete: "users_typed db \<Longrightarrow> users_typed (delete_rows usr_id i db)"
  by (auto simp: users_typed_def list_all_iff)

lemma keeps_delete: "keeps users_unique (deleteUser flt i)" "keeps users_typed (deleteUser flt i)"
  unfolding deleteUser_def
  by (intro db_call_keeps; auto split: option.splits intro: unique_delete typed_delete)+

lemma keeps_typed_create: "user_typed (user_row uuid now input) \<Longrightarrow> keeps users_typed (createUser flt uuid now input)"
  unfolding createUser_def by (rule db_call_keeps) (auto simp: insert_user_def users_typed_def split: option.splits)

lemma keeps_typed_update: "patch_typed input \<Longrightarrow> keeps users_typed (updateUser flt i input)"
  unfolding updateUser_def
  by (rule db_call_keeps) (auto simp: users_typed_def list_all_iff set_update_rows patch_user_typed split: option.splits)

section \<open>What the requests keep\<close>

lemma keeps_user_reads [keeps_intros]:
  "keeps P (getUserByAuthUserId flt a)" "keeps P (getUserById flt a)" "keeps P (getUserByEmail flt a)"
  by (simp_all add: getUserByAuthUserId_def getUserById_def getUserByEmail_def db_call_read)

lemma keeps_user_handle:
  assumes calm: "\<And>n s. P s \<Longrightarrow> P (ue_meanwhile E n s)"
    and ins: "\<And>v input. createUserSchema (ue_is_email E) v = Some input \<Longrightarrow> keeps P (createUser (ue_fault E 2) (ue_uuid E) (ue_now E) input)"
    and upd: "\<And>v input i. updateUserSchema (ue_is_email E) v = Some input \<Longrightarrow> keeps P (updateUser (ue_fault E 2) i input)"
    and del: "\<And>flt i. keeps P (deleteUser flt i)"
  shows "keeps P (user_handle E req)"
proof (cases req)
  case (PostUser body)
  then show ?thesis
    using ins by (cases "createUserSchema (ue_is_email E) body")
      (auto simp: create_user_route_def user_create_def intro!: keeps_intros keeps_modify calm)
next
  case (PatchUser i body)
  then show ?thesis
    using upd by (cases "updateUserSchema (ue_is_email E) body")
      (auto simp: update_user_route_def user_update_def user_getById_def intro!: keeps_intros keeps_modify calm)
qed (auto simp: get_by_auth_route_def get_user_route_def delete_user_route_def user_getByAuthUserId_def user_getById_def
    user_remove_def intro!: keeps_intros keeps_modify calm del split: option.split)

section \<open>Properties\<close>

text \<open>
  Profiles stay unique: whatever a request is and whatever other requests commit between its own
  database calls, as long as those keep it too, no two profiles share an id, a login or an email address, and the
  request that loses a race is answered with an error and writes nothing.
\<close>

theorem profiles_unique:
  assumes "users_unique db" and "\<And>n s. users_unique s \<Longrightarrow> users_unique (ue_meanwhile E n s)"
  shows "users_unique (snd (user_handle E req db))"
  by (rule keepsD [OF keeps_user_handle [OF assms(2) keeps_unique_create keeps_unique_update keeps_delete(1)] assms(1)])

definition sample_user_env :: user_env where
  "sample_user_env = \<lparr>ue_fault = (\<lambda>n. None),
     ue_meanwhile = (\<lambda>n db. if n = 2 \<and> ''a@b.co'' \<notin> set (map usr_email db) \<and> ''u0'' \<notin> set (map usr_id db) \<and> ''x9'' \<notin> set (map usr_authUserId db)
       then db @ [user_row ''u0'' 5 \<lparr>cu_authUserId = ''x9'', cu_name = ''Bo'', cu_email = ''a@b.co'', cu_address = ''here'', cu_phone = ''1234567''\<rparr>]
       else db),
     ue_uuid = ''u1'', ue_now = 7, ue_is_uuid = (\<lambda>s. True), ue_is_email = (\<lambda>s. CHR ''@'' \<in> set s)\<rparr>"

definition sample_user_body :: json where
  "sample_user_body = JObject [(''authUserId'', JString ''x1''), (''name'', JString '' Ann ''), (''email'', JString ''A@b.co''),
     (''address'', JString ''there''), (''phone'', JString ''+1 234567'')]"

theorem profiles_unique_witness:
  "users_unique (snd (user_handle sample_user_env (PostUser sample_user_body) [])) \<and>
   (\<exists>e. fst (user_handle sample_user_env (PostUser sample_user_body) []) = Inl e \<and> statusCode e = 409) \<and>
   length (snd (user_handle sample_user_env (PostUser sample_user_body) [])) = 1"
proof -
  have calm: "users_unique (ue_meanwhile sample_user_env n s)" if "users_unique s" for n s
    using that by (auto simp: sample_user_env_def users_unique_def user_row_def)
  have "isl (fst (user_handle sample_user_env (PostUser sample_user_body) [])) \<and>
      statusCode (projl (fst (user_handle sample_user_env (PostUser sample_user_body) []))) = 409 \<and>
      length (snd (user_handle sample_user_env (PostUser sample_user_body) [])) = 1"
    by code_simp
  moreover have "users_unique []" by (simp add: users_unique_def)
  ultimately show ?thesis using profiles_unique [of "[]" sample_user_env "PostUser sample_user_body", OF _ calm] by (auto simp: isl_def)
qed

text \<open>
  Property C23. Rows stay well typed: every stored profile fits its columns, its email is lower-cased (so that
  uniqueness does not depend on spelling) and its phone number has the accepted shape, however bodies are written.
\<close>

theorem profiles_typed:
  assumes "users_typed db" and "\<And>n s. users_typed s \<Longrightarrow> users_typed (ue_meanwhile E n s)"
  shows "users_typed (snd (user_handle E req db))"
  by (rule keepsD [OF keeps_user_handle [OF assms(2) keeps_typed_create [OF create_schema_typed]
        keeps_typed_update [OF update_schema_typed] keeps_delete(2)] assms(1)])

theorem profiles_typed_witness:
  "users_typed (snd (user_handle (sample_user_env\<lparr>ue_meanwhile := \<lambda>n db. db\<rparr>) (PostUser sample_user_body) [])) \<and>
   map usr_email (snd (user_handle (sample_user_env\<lparr>ue_meanwhile := \<lambda>n db. db\<rparr>) (PostUser sample_user_body) [])) = [''a@b.co'']"
proof -
  let ?E = "sample_user_env\<lparr>ue_meanwhile := \<lambda>n db. db\<rparr>"
  have "map usr_email (snd (user_handle ?E (PostUser sample_user_body) [])) = [''a@b.co'']" by code_simp
  moreover have "users_typed (ue_meanwhile ?E n s)" if "users_typed s" for n s using that by simp
  ultimately show ?thesis using profiles_typed [of "[]" ?E "PostUser sample_user_body"] by (simp add: users_typed_def)
qed

end
