(* ===== verification/AuthStore.thy ===== *)
theory AuthStore
  imports Zod Results
begin

text \<open>
  The auth service's tables (\<^verbatim>\<open>services/auth/prisma/schema.prisma\<close>) and its repository
  (\<^verbatim>\<open>services/auth/src/modules/auth/auth.repository.ts\<close>): accounts, one-time codes, login history and refresh
  tokens. Times are milliseconds. The database's verdict on a statement or transaction is a parameter, and a
  transaction runs alone. The columns
  \<^verbatim>\<open>createdAt\<close> and \<^verbatim>\<open>updatedAt\<close> are kept only where they are read.
\<close>

section \<open>Tables\<close>

datatype Role = USER | ADMIN

datatype AuthUserStatus = ACTIVE | SUSPENDED | DELETED

datatype VerificationType = EMAIL_VERIFICATION | PASSWORD_RESET | EMAIL_CHANGE

datatype VerificationStatus = V_PENDING | V_VERIFIED | V_EXPIRED | V_REVOKED

datatype LoginOutcome = SUCCESS | INVALID_CREDENTIALS | UNKNOWN_EMAIL | NOT_VERIFIED | ACCOUNT_LOCKED | ACCOUNT_INACTIVE

datatype RevokeReason = ROTATED | LOGOUT | LOGOUT_ALL | PASSWORD_CHANGED | REUSE_DETECTED

record AuthUser =
  au_id :: string
  au_email :: string
  au_username :: string
  passwordHash :: string
  au_role :: Role
  au_status :: AuthUserStatus
  au_verified :: bool
  au_verifiedAt :: "int option"
  au_userId :: "string option"
  pendingProfile :: "json option"
  failedLoginAttempts :: int
  lockedUntil :: "int option"
  lastLoginAt :: "int option"
  passwordChangedAt :: "int option"
  au_createdAt :: int

record Verification =
  vf_id :: string
  vf_authUserId :: string
  codeHash :: string
  vf_type :: VerificationType
  vf_status :: VerificationStatus
  vf_newEmail :: "string option"
  vf_attempts :: int
  vf_maxAttempts :: int
  issuedAt :: int
  vf_expiresAt :: int
  vf_verifiedAt :: "int option"
  vf_emailMessageId :: "string option"

record LoginHistory =
  lh_id :: string
  lh_authUserId :: "string option"
  lh_email :: string
  lh_success :: bool
  lh_outcome :: LoginOutcome
  lh_attempt :: int
  lh_ip :: "string option"
  lh_userAgent :: "string option"
  loginAt :: int

record RefreshToken =
  rt_id :: string
  rt_authUserId :: string
  tokenHash :: string
  familyId :: string
  rt_expiresAt :: int
  revokedAt :: "int option"
  revokedReason :: "RevokeReason option"
  replacedById :: "string option"
  rt_ip :: "string option"
  rt_userAgent :: "string option"
  rt_createdAt :: int

record auth_db =
  auth_users :: "AuthUser list"
  verifications :: "Verification list"
  login_history :: "LoginHistory list"
  refresh_tokens :: "RefreshToken list"

section \<open>Write shapes\<close>

record NewAuthUserRecord =
  nu_email :: string
  nu_username :: string
  nu_passwordHash :: string
  nu_pendingProfile :: json

record NewVerificationRecord =
  nv_codeHash :: string
  nv_type :: VerificationType
  nv_expiresAt :: int
  nv_maxAttempts :: int
  nv_newEmail :: "string option"

record NewLoginHistoryRecord =
  nl_authUserId :: "string option"
  nl_email :: string
  nl_success :: bool
  nl_outcome :: LoginOutcome
  nl_attempt :: int
  nl_ip :: "string option"
  nl_userAgent :: "string option"

record NewRefreshTokenRecord =
  nr_authUserId :: string
  nr_tokenHash :: string
  nr_familyId :: string
  nr_expiresAt :: int
  nr_ip :: "string option"
  nr_userAgent :: "string option"

section \<open>Statements\<close>

definition fk_violation :: thrown where
  "fk_violation = ThrownPrisma ''P2003'' [] ''Foreign key constraint failed''"

definition new_auth_user :: "string \<Rightarrow> int \<Rightarrow> NewAuthUserRecord \<Rightarrow> AuthUser" where
  "new_auth_user uuid now user = \<lparr>au_id = uuid, au_email = nu_email user, au_username = nu_username user,
     passwordHash = nu_passwordHash user, au_role = USER, au_status = ACTIVE, au_verified = False, au_verifiedAt = None,
     au_userId = None, pendingProfile = Some (nu_pendingProfile user), failedLoginAttempts = 0, lockedUntil = None,
     lastLoginAt = None, passwordChangedAt = None, au_createdAt = now\<rparr>"

definition new_verification :: "string \<Rightarrow> int \<Rightarrow> string \<Rightarrow> NewVerificationRecord \<Rightarrow> Verification" where
  "new_verification uuid now userId v = \<lparr>vf_id = uuid, vf_authUserId = userId, codeHash = nv_codeHash v, vf_type = nv_type v,
     vf_status = V_PENDING, vf_newEmail = nv_newEmail v, vf_attempts = 0, vf_maxAttempts = nv_maxAttempts v, issuedAt = now,
     vf_expiresAt = nv_expiresAt v, vf_verifiedAt = None, vf_emailMessageId = None\<rparr>"

definition new_refresh_token :: "string \<Rightarrow> int \<Rightarrow> NewRefreshTokenRecord \<Rightarrow> RefreshToken" where
  "new_refresh_token uuid now t = \<lparr>rt_id = uuid, rt_authUserId = nr_authUserId t, tokenHash = nr_tokenHash t,
     familyId = nr_familyId t, rt_expiresAt = nr_expiresAt t, revokedAt = None, revokedReason = None, replacedById = None,
     rt_ip = nr_ip t, rt_userAgent = nr_userAgent t, rt_createdAt = now\<rparr>"

definition user_exists :: "string \<Rightarrow> auth_db \<Rightarrow> bool" where
  "user_exists i db \<longleftrightarrow> i \<in> set (map au_id (auth_users db))"

definition insert_auth_user :: "AuthUser \<Rightarrow> (auth_db, thrown, AuthUser) act" where
  "insert_auth_user u = (\<lambda>db. case unique_violation [(''id'', au_id u \<in> set (map au_id (auth_users db))),
       (''email'', au_email u \<in> set (map au_email (auth_users db))), (''username'', au_username u \<in> set (map au_username (auth_users db)))] of
     Some e \<Rightarrow> (Inl e, db)
   | None \<Rightarrow> (Inr u, db\<lparr>auth_users := auth_users db @ [u]\<rparr>))"

definition insert_verification :: "Verification \<Rightarrow> (auth_db, thrown, Verification) act" where
  "insert_verification v = (\<lambda>db. case unique_violation [(''id'', vf_id v \<in> set (map vf_id (verifications db)))] of
     Some e \<Rightarrow> (Inl e, db)
   | None \<Rightarrow> (if user_exists (vf_authUserId v) db then (Inr v, db\<lparr>verifications := verifications db @ [v]\<rparr>) else (Inl fk_violation, db)))"

definition insert_refresh_token :: "RefreshToken \<Rightarrow> (auth_db, thrown, RefreshToken) act" where
  "insert_refresh_token t = (\<lambda>db. case unique_violation [(''id'', rt_id t \<in> set (map rt_id (refresh_tokens db))),
       (''tokenHash'', tokenHash t \<in> set (map tokenHash (refresh_tokens db)))] of
     Some e \<Rightarrow> (Inl e, db)
   | None \<Rightarrow> (if user_exists (rt_authUserId t) db then (Inr t, db\<lparr>refresh_tokens := refresh_tokens db @ [t]\<rparr>) else (Inl fk_violation, db)))"

definition update_auth_user :: "string \<Rightarrow> (AuthUser \<Rightarrow> AuthUser) \<Rightarrow> (auth_db, thrown, AuthUser) act" where
  "update_auth_user i f = (\<lambda>db. case find_row au_id i (auth_users db) of
     None \<Rightarrow> (Inl record_missing, db)
   | Some u \<Rightarrow> (Inr (f u), db\<lparr>auth_users := update_rows au_id i f (auth_users db)\<rparr>))"

text \<open>\<^verbatim>\<open>update\<close> with a guard beside the id: a row that does not match the guard counts as missing.\<close>

definition update_verification :: "string \<Rightarrow> (Verification \<Rightarrow> bool) \<Rightarrow> (Verification \<Rightarrow> Verification) \<Rightarrow> (auth_db, thrown, Verification) act" where
  "update_verification i guard f = (\<lambda>db. case find_row vf_id i (verifications db) of
     None \<Rightarrow> (Inl record_missing, db)
   | Some v \<Rightarrow> (if guard v then (Inr (f v), db\<lparr>verifications := update_rows vf_id i f (verifications db)\<rparr>)
        else (Inl record_missing, db)))"

definition update_refresh_token :: "string \<Rightarrow> (RefreshToken \<Rightarrow> bool) \<Rightarrow> (RefreshToken \<Rightarrow> RefreshToken) \<Rightarrow> (auth_db, thrown, RefreshToken) act" where
  "update_refresh_token i guard f = (\<lambda>db. case find_row rt_id i (refresh_tokens db) of
     None \<Rightarrow> (Inl record_missing, db)
   | Some t \<Rightarrow> (if guard t then (Inr (f t), db\<lparr>refresh_tokens := update_rows rt_id i f (refresh_tokens db)\<rparr>)
        else (Inl record_missing, db)))"

text \<open>\<^verbatim>\<open>updateMany\<close> on live tokens; the number of rows is its result.\<close>

definition live :: "RefreshToken \<Rightarrow> bool" where
  "live t \<longleftrightarrow> revokedAt t = None"

definition revoke_row :: "int \<Rightarrow> RevokeReason \<Rightarrow> RefreshToken \<Rightarrow> RefreshToken" where
  "revoke_row at reason t = t\<lparr>revokedAt := Some at, revokedReason := Some reason\<rparr>"

definition revoke_where :: "(RefreshToken \<Rightarrow> bool) \<Rightarrow> int \<Rightarrow> RevokeReason \<Rightarrow> (auth_db, thrown, nat) act" where
  "revoke_where P at reason = (\<lambda>db.
     (Inr (length (filter (\<lambda>t. P t \<and> live t) (refresh_tokens db))),
      db\<lparr>refresh_tokens := map (\<lambda>t. if P t \<and> live t then revoke_row at reason t else t) (refresh_tokens db)\<rparr>))"

section \<open>Accounts\<close>

definition createAuthUserWithVerification ::
  "thrown option \<Rightarrow> string \<Rightarrow> string \<Rightarrow> int \<Rightarrow> NewAuthUserRecord \<Rightarrow> NewVerificationRecord
     \<Rightarrow> (auth_db, AppError, AuthUser \<times> Verification) act" where
  "createAuthUserWithVerification flt userUuid codeUuid now user v = db_call flt
     (and_then (insert_auth_user (new_auth_user userUuid now user)) (\<lambda>authUser.
      and_then (insert_verification (new_verification codeUuid now (au_id authUser) v)) (\<lambda>created.
      ret (authUser, created))))"

definition findAuthUserById :: "thrown option \<Rightarrow> string \<Rightarrow> (auth_db, AppError, AuthUser option) act" where
  "findAuthUserById flt i = db_call flt (gets (\<lambda>db. find_row au_id i (auth_users db)))"

definition findAuthUserByEmail :: "thrown option \<Rightarrow> string \<Rightarrow> (auth_db, AppError, AuthUser option) act" where
  "findAuthUserByEmail flt e = db_call flt (gets (\<lambda>db. find_row au_email e (auth_users db)))"

definition findAuthUserByUsername :: "thrown option \<Rightarrow> string \<Rightarrow> (auth_db, AppError, AuthUser option) act" where
  "findAuthUserByUsername flt u = db_call flt (gets (\<lambda>db. find_row au_username u (auth_users db)))"

definition attachProfile :: "thrown option \<Rightarrow> string \<Rightarrow> string \<Rightarrow> (auth_db, AppError, AuthUser) act" where
  "attachProfile flt i userId = db_call flt (\<lambda>db.
     case unique_violation [(''userId'', Some userId \<in> set (map au_userId (delete_rows au_id i (auth_users db))))] of
       Some e \<Rightarrow> (Inl e, db)
     | None \<Rightarrow> update_auth_user i (\<lambda>u. u\<lparr>au_userId := Some userId, pendingProfile := None\<rparr>) db)"

section \<open>Login accounting\<close>

definition recordLoginAttempt :: "thrown option \<Rightarrow> string \<Rightarrow> int \<Rightarrow> NewLoginHistoryRecord \<Rightarrow> (auth_db, AppError, LoginHistory) act" where
  "recordLoginAttempt flt uuid now input = db_call flt (\<lambda>db.
     let row = \<lparr>lh_id = uuid, lh_authUserId = nl_authUserId input, lh_email = nl_email input, lh_success = nl_success input,
           lh_outcome = nl_outcome input, lh_attempt = nl_attempt input, lh_ip = nl_ip input, lh_userAgent = nl_userAgent input,
           loginAt = now\<rparr>
     in case unique_violation [(''id'', uuid \<in> set (map lh_id (login_history db)))] of
          Some e \<Rightarrow> (Inl e, db)
        | None \<Rightarrow> (if (case nl_authUserId input of None \<Rightarrow> True | Some i \<Rightarrow> user_exists i db)
             then (Inr row, db\<lparr>login_history := login_history db @ [row]\<rparr>) else (Inl fk_violation, db)))"

definition failed_login_row :: "int option \<Rightarrow> AuthUser \<Rightarrow> AuthUser" where
  "failed_login_row lockUntil u = u\<lparr>failedLoginAttempts := failedLoginAttempts u + 1,
     lockedUntil := (case lockUntil of None \<Rightarrow> lockedUntil u | Some t \<Rightarrow> Some t)\<rparr>"

definition registerFailedLogin :: "thrown option \<Rightarrow> string \<Rightarrow> int option \<Rightarrow> (auth_db, AppError, AuthUser) act" where
  "registerFailedLogin flt i lockUntil = db_call flt (update_auth_user i (failed_login_row lockUntil))"

definition successful_login_row :: "int \<Rightarrow> AuthUser \<Rightarrow> AuthUser" where
  "successful_login_row at u = u\<lparr>failedLoginAttempts := 0, lockedUntil := None, lastLoginAt := Some at\<rparr>"

definition registerSuccessfulLogin :: "thrown option \<Rightarrow> string \<Rightarrow> int \<Rightarrow> (auth_db, AppError, AuthUser) act" where
  "registerSuccessfulLogin flt i at = db_call flt (update_auth_user i (successful_login_row at))"

record LoginHistoryQuery =
  hq_page :: nat
  hq_limit :: nat
  hq_success :: "bool option"
  hq_outcome :: "LoginOutcome option"

definition history_matches :: "string \<Rightarrow> LoginHistoryQuery \<Rightarrow> LoginHistory \<Rightarrow> bool" where
  "history_matches i q h \<longleftrightarrow> lh_authUserId h = Some i \<and> (hq_success q = None \<or> hq_success q = Some (lh_success h)) \<and>
     (hq_outcome q = None \<or> hq_outcome q = Some (lh_outcome h))"

text \<open>Newest first; rows of the same instant come in an order the database picks, here the table's.\<close>

definition repo_listLoginHistory :: "thrown option \<Rightarrow> string \<Rightarrow> LoginHistoryQuery \<Rightarrow> (auth_db, AppError, LoginHistory list \<times> nat) act" where
  "repo_listLoginHistory flt i q = db_call flt (gets (\<lambda>db.
     let rows = filter (history_matches i q) (login_history db)
     in (take (hq_limit q) (drop ((hq_page q - 1) * hq_limit q) (sort_key (\<lambda>h. - loginAt h) rows)), length rows)))"

section \<open>Codes\<close>

definition pending_of :: "string \<Rightarrow> VerificationType \<Rightarrow> Verification \<Rightarrow> bool" where
  "pending_of i ty v \<longleftrightarrow> vf_authUserId v = i \<and> vf_type v = ty \<and> vf_status v = V_PENDING"

definition newest_pending :: "string \<Rightarrow> VerificationType \<Rightarrow> auth_db \<Rightarrow> Verification option" where
  "newest_pending i ty db = (case sort_key (\<lambda>v. - issuedAt v) (filter (pending_of i ty) (verifications db)) of
     [] \<Rightarrow> None | v # _ \<Rightarrow> Some v)"

definition findActiveVerification :: "thrown option \<Rightarrow> string \<Rightarrow> VerificationType \<Rightarrow> (auth_db, AppError, Verification option) act" where
  "findActiveVerification flt i ty = db_call flt (gets (newest_pending i ty))"

definition revoke_pending :: "string \<Rightarrow> VerificationType \<Rightarrow> (auth_db, thrown, unit) act" where
  "revoke_pending i ty = modify (\<lambda>db. db\<lparr>verifications :=
     map (\<lambda>v. if pending_of i ty v then v\<lparr>vf_status := V_REVOKED\<rparr> else v) (verifications db)\<rparr>)"

text \<open>
  The transaction runs at the database's default isolation, Read Committed: \<open>between i ty\<close> is what
  others commit between its two statements. When the insert is refused, only the revocation is
  rolled back. (What others commit between the statements of the other transactions of this
  repository can be taken to commit before their first one or after their last: the first is an insert nobody
  else sees, or an update that locks the rows it changes until the end.)
\<close>

definition replaceVerification ::
  "thrown option \<Rightarrow> (string \<Rightarrow> VerificationType \<Rightarrow> auth_db \<Rightarrow> auth_db) \<Rightarrow> string \<Rightarrow> int \<Rightarrow> string
     \<Rightarrow> NewVerificationRecord \<Rightarrow> (auth_db, AppError, Verification) act" where
  "replaceVerification flt between uuid now i v = (\<lambda>db.
     case db_call flt
        (and_then (revoke_pending i (nv_type v)) (\<lambda>_.
         and_then (modify (between i (nv_type v))) (\<lambda>_.
         insert_verification (new_verification uuid now i v)))) db of
       (Inr created, db') \<Rightarrow> (Inr created, db')
     | (Inl e, _) \<Rightarrow> (Inl e, if flt = None then between i (nv_type v) db else db))"

definition attempt_row :: "bool \<Rightarrow> Verification \<Rightarrow> Verification" where
  "attempt_row exhausted v = v\<lparr>vf_attempts := vf_attempts v + 1, vf_status := (if exhausted then V_EXPIRED else vf_status v)\<rparr>"

definition registerVerificationAttempt :: "thrown option \<Rightarrow> string \<Rightarrow> bool \<Rightarrow> (auth_db, AppError, Verification) act" where
  "registerVerificationAttempt flt i exhausted = db_call flt (update_verification i (\<lambda>_. True) (attempt_row exhausted))"

definition attachVerificationEmail :: "thrown option \<Rightarrow> string \<Rightarrow> string \<Rightarrow> (auth_db, AppError, unit) act" where
  "attachVerificationEmail flt i messageId =
     and_then (db_call flt (update_verification i (\<lambda>_. True) (\<lambda>v. v\<lparr>vf_emailMessageId := Some messageId\<rparr>))) (\<lambda>_. ret ())"

definition used_row :: "int \<Rightarrow> Verification \<Rightarrow> Verification" where
  "used_row at v = v\<lparr>vf_status := V_VERIFIED, vf_verifiedAt := Some at\<rparr>"

definition consumeEmailVerification :: "thrown option \<Rightarrow> string \<Rightarrow> string \<Rightarrow> int \<Rightarrow> (auth_db, AppError, AuthUser) act" where
  "consumeEmailVerification flt vid i at = db_call flt
     (and_then (update_verification vid (\<lambda>v. vf_status v = V_PENDING) (used_row at)) (\<lambda>_.
      update_auth_user i (\<lambda>u. u\<lparr>au_verified := True, au_verifiedAt := Some at\<rparr>)))"

definition reset_row :: "string \<Rightarrow> int \<Rightarrow> AuthUser \<Rightarrow> AuthUser" where
  "reset_row h at u = u\<lparr>passwordHash := h, passwordChangedAt := Some at, au_verified := True, au_verifiedAt := Some at,
     failedLoginAttempts := 0, lockedUntil := None\<rparr>"

definition consumePasswordReset :: "thrown option \<Rightarrow> string \<Rightarrow> string \<Rightarrow> string \<Rightarrow> int \<Rightarrow> (auth_db, AppError, AuthUser) act" where
  "consumePasswordReset flt vid i h at = db_call flt
     (and_then (update_verification vid (\<lambda>v. vf_status v = V_PENDING) (used_row at)) (\<lambda>_.
      and_then (revoke_where (\<lambda>t. rt_authUserId t = i) at PASSWORD_CHANGED) (\<lambda>_.
      update_auth_user i (reset_row h at))))"

section \<open>Sessions\<close>

definition repo_createRefreshToken :: "thrown option \<Rightarrow> string \<Rightarrow> int \<Rightarrow> NewRefreshTokenRecord \<Rightarrow> (auth_db, AppError, RefreshToken) act" where
  "repo_createRefreshToken flt uuid now t = db_call flt (insert_refresh_token (new_refresh_token uuid now t))"

definition findRefreshTokenByHash :: "thrown option \<Rightarrow> string \<Rightarrow> (auth_db, AppError, RefreshToken option) act" where
  "findRefreshTokenByHash flt h = db_call flt (gets (\<lambda>db. find_row tokenHash h (refresh_tokens db)))"

definition rotated_row :: "int \<Rightarrow> string \<Rightarrow> RefreshToken \<Rightarrow> RefreshToken" where
  "rotated_row at successor t = t\<lparr>revokedAt := Some at, revokedReason := Some ROTATED, replacedById := Some successor\<rparr>"

definition rotateRefreshToken ::
  "thrown option \<Rightarrow> string \<Rightarrow> int \<Rightarrow> string \<Rightarrow> NewRefreshTokenRecord \<Rightarrow> (auth_db, AppError, RefreshToken) act" where
  "rotateRefreshToken flt uuid now currentId nxt = db_call flt
     (and_then (insert_refresh_token (new_refresh_token uuid now nxt)) (\<lambda>created.
      and_then (update_refresh_token currentId live (rotated_row now (rt_id created))) (\<lambda>_.
      ret created)))"

definition revokeRefreshToken :: "thrown option \<Rightarrow> int \<Rightarrow> string \<Rightarrow> RevokeReason \<Rightarrow> (auth_db, AppError, unit) act" where
  "revokeRefreshToken flt at i reason = and_then (db_call flt (revoke_where (\<lambda>t. rt_id t = i) at reason)) (\<lambda>_. ret ())"

definition revokeFamily :: "thrown option \<Rightarrow> int \<Rightarrow> string \<Rightarrow> RevokeReason \<Rightarrow> (auth_db, AppError, nat) act" where
  "revokeFamily flt at f reason = db_call flt (revoke_where (\<lambda>t. familyId t = f) at reason)"

definition revokeAllForUser :: "thrown option \<Rightarrow> int \<Rightarrow> string \<Rightarrow> RevokeReason \<Rightarrow> (auth_db, AppError, nat) act" where
  "revokeAllForUser flt at i reason = db_call flt (revoke_where (\<lambda>t. rt_authUserId t = i) at reason)"

definition listActiveSessions :: "thrown option \<Rightarrow> string \<Rightarrow> int \<Rightarrow> (auth_db, AppError, RefreshToken list) act" where
  "listActiveSessions flt i now = db_call flt (gets (\<lambda>db. sort_key (\<lambda>t. - rt_createdAt t)
     (filter (\<lambda>t. rt_authUserId t = i \<and> live t \<and> now < rt_expiresAt t) (refresh_tokens db))))"

definition updatePassword :: "thrown option \<Rightarrow> string \<Rightarrow> string \<Rightarrow> int \<Rightarrow> (auth_db, AppError, AuthUser) act" where
  "updatePassword flt i h at = db_call flt
     (and_then (revoke_where (\<lambda>t. rt_authUserId t = i) at PASSWORD_CHANGED) (\<lambda>_.
      update_auth_user i (\<lambda>u. u\<lparr>passwordHash := h, passwordChangedAt := Some at\<rparr>)))"

section \<open>Retention\<close>

text \<open>
  Each pass selects ids and then deletes them, two statements with other requests in between (\<open>meanwhile\<close>); a
  pass that fails leaves what earlier statements deleted.
\<close>

definition deleteRefreshTokensWhere ::
  "(nat \<Rightarrow> thrown option) \<Rightarrow> (auth_db \<Rightarrow> auth_db) \<Rightarrow> (RefreshToken \<Rightarrow> bool) \<Rightarrow> nat \<Rightarrow> (auth_db, thrown, nat) act" where
  "deleteRefreshTokensWhere flt meanwhile P limit =
     and_then (transaction (flt 0) (gets (\<lambda>db. map rt_id (take limit (filter P (refresh_tokens db)))))) (\<lambda>ids.
     if ids = [] then ret 0
     else
       and_then (modify meanwhile) (\<lambda>_.
       transaction (flt 1) (\<lambda>db. (Inr (length (filter (\<lambda>t. rt_id t \<in> set ids) (refresh_tokens db))),
         db\<lparr>refresh_tokens := filter (\<lambda>t. rt_id t \<notin> set ids) (refresh_tokens db)\<rparr>))))"

record RefreshTokenPurgeInput =
  expiredBefore :: int
  revokedBefore :: int
  purge_limit :: nat

definition purgeRefreshTokens ::
  "(nat \<Rightarrow> nat \<Rightarrow> thrown option) \<Rightarrow> (nat \<Rightarrow> auth_db \<Rightarrow> auth_db) \<Rightarrow> RefreshTokenPurgeInput \<Rightarrow> (auth_db, AppError, nat \<times> nat) act" where
  "purgeRefreshTokens flt meanwhile input = attempt
     (and_then (deleteRefreshTokensWhere (flt 0) (meanwhile 0) (\<lambda>t. rt_expiresAt t < expiredBefore input) (purge_limit input)) (\<lambda>expired.
      and_then (deleteRefreshTokensWhere (flt 1) (meanwhile 1)
        (\<lambda>t. (case revokedAt t of None \<Rightarrow> False | Some r \<Rightarrow> r < revokedBefore input) \<and> expiredBefore input \<le> rt_expiresAt t)
        (purge_limit input)) (\<lambda>revoked.
      ret (expired, revoked))))"

definition purgeVerifications :: "(nat \<Rightarrow> thrown option) \<Rightarrow> (auth_db \<Rightarrow> auth_db) \<Rightarrow> int \<Rightarrow> nat \<Rightarrow> (auth_db, AppError, nat) act" where
  "purgeVerifications flt meanwhile before limit = attempt
     (and_then (transaction (flt 0) (gets (\<lambda>db. map vf_id (take limit (filter (\<lambda>v. vf_status v \<in> {V_VERIFIED, V_EXPIRED, V_REVOKED} \<and>
          vf_expiresAt v < before) (verifications db)))))) (\<lambda>ids.
      if ids = [] then ret 0
      else
        and_then (modify meanwhile) (\<lambda>_.
        transaction (flt 1) (\<lambda>db. (Inr (length (filter (\<lambda>v. vf_id v \<in> set ids) (verifications db))),
          db\<lparr>verifications := filter (\<lambda>v. vf_id v \<notin> set ids) (verifications db)\<rparr>)))))"

definition purgeLoginHistory :: "(nat \<Rightarrow> thrown option) \<Rightarrow> (auth_db \<Rightarrow> auth_db) \<Rightarrow> int \<Rightarrow> nat \<Rightarrow> (auth_db, AppError, nat) act" where
  "purgeLoginHistory flt meanwhile before limit = attempt
     (and_then (transaction (flt 0) (gets (\<lambda>db. map lh_id (take limit (filter (\<lambda>h. loginAt h < before) (login_history db)))))) (\<lambda>ids.
      if ids = [] then ret 0
      else
        and_then (modify meanwhile) (\<lambda>_.
        transaction (flt 1) (\<lambda>db. (Inr (length (filter (\<lambda>h. lh_id h \<in> set ids) (login_history db))),
          db\<lparr>login_history := filter (\<lambda>h. lh_id h \<notin> set ids) (login_history db)\<rparr>)))))"

end
