(* ===== verification/AuthService.thy ===== *)
theory AuthService
  imports AuthStore
begin

text \<open>
  The auth service (\<^verbatim>\<open>services/auth/src/modules/auth/auth.service.ts\<close>) with its tokens (\<^verbatim>\<open>lib/tokens.ts\<close>), passwords
  (\<^verbatim>\<open>lib/password.ts\<close>), codes (\<^verbatim>\<open>utils/codes.ts\<close>, \<^verbatim>\<open>utils/hash.ts\<close>), mail texts (\<^verbatim>\<open>auth.templates.ts\<close>) and retention
  sweep (\<^verbatim>\<open>auth.reaper.ts\<close>). SHA-256, argon2, jose, the clock and the random sources are parameters. The state is
  the world of the two clients, \<open>'w\<close>, and the service's own tables. The repository calls of one operation are
  numbered; before each but the first, other requests may commit (\<open>ae_meanwhile\<close>), and the database may refuse
  each (\<open>ae_fault\<close>); the clock is read once per number.
\<close>

section \<open>Parameters\<close>

record AuthServiceOptions =
  verificationTtlMinutes :: int
  verificationMaxAttempts :: int
  resendCooldownSeconds :: int
  maxFailedLoginAttempts :: int
  lockDurationMinutes :: int

record auth_env =
  ae_fault :: "nat \<Rightarrow> thrown option"
  ae_meanwhile :: "nat \<Rightarrow> auth_db \<Rightarrow> auth_db"
  ae_between :: "string \<Rightarrow> VerificationType \<Rightarrow> auth_db \<Rightarrow> auth_db"
  ae_now :: "nat \<Rightarrow> int"
  ae_uuid :: "nat \<Rightarrow> string"
  ae_randomToken :: string
  ae_randomInt :: nat
  sha256 :: "string \<Rightarrow> string"
  argon2_hash :: "string \<Rightarrow> thrown + string"
  argon2_verify :: "string \<Rightarrow> string \<Rightarrow> thrown + bool"
  jwt_sign :: "(string \<times> json) list \<Rightarrow> string option"
  ACCESS_TOKEN_TTL_MINUTES :: int
  REFRESH_TOKEN_TTL_DAYS :: int
  JWT_ISSUER :: string
  JWT_AUDIENCE :: string
  APP_NAME :: string
  ae_options :: AuthServiceOptions

record EnqueueEmailInput =
  mail_recipient :: string
  mail_subject :: string
  mail_body :: string
  mail_source :: string

record CreateUserProfileInput =
  cp_authUserId :: string
  cp_name :: string
  cp_email :: string
  cp_address :: string
  cp_phone :: string

text \<open>The two clients: what \<^verbatim>\<open>EmailClient\<close> and \<^verbatim>\<open>UserClient\<close> offer, with ids for the rows they return.\<close>

record 'w auth_ports =
  mail_enqueue :: "EnqueueEmailInput \<Rightarrow> string option \<Rightarrow> ('w, AppError, string option) act"
  profile_create :: "CreateUserProfileInput \<Rightarrow> ('w, AppError, string) act"
  profile_find :: "string \<Rightarrow> ('w, AppError, string option) act"

definition at_db :: "(auth_db, AppError, 'a) act \<Rightarrow> ('w \<times> auth_db, AppError, 'a) act" where
  "at_db m = (\<lambda>(w, db). case m db of (r, db') \<Rightarrow> (r, (w, db')))"

definition at_world :: "('w, AppError, 'a) act \<Rightarrow> ('w \<times> auth_db, AppError, 'a) act" where
  "at_world m = (\<lambda>(w, db). case m w of (r, w') \<Rightarrow> (r, (w', db)))"

definition call :: "auth_env \<Rightarrow> nat \<Rightarrow> (thrown option \<Rightarrow> (auth_db, AppError, 'a) act) \<Rightarrow> ('w \<times> auth_db, AppError, 'a) act" where
  "call E n m = at_db (and_then (modify (if n = 0 then id else ae_meanwhile E n)) (\<lambda>_. m (ae_fault E n)))"

section \<open>Passwords, codes, tokens\<close>

definition hashPassword :: "auth_env \<Rightarrow> string \<Rightarrow> AppError + string" where
  "hashPassword E plaintext = (case argon2_hash E plaintext of Inl e \<Rightarrow> Inl (toAppError e) | Inr h \<Rightarrow> Inr h)"

definition verifyPassword :: "auth_env \<Rightarrow> string \<Rightarrow> string \<Rightarrow> AppError + bool" where
  "verifyPassword E digest plaintext = (case argon2_verify E digest plaintext of
     Inl e \<Rightarrow> Inl (InternalServerError ''Stored password hash could not be verified'') | Inr b \<Rightarrow> Inr b)"

definition CODE_LENGTH :: nat where
  "CODE_LENGTH = 6"

definition padStart :: "nat \<Rightarrow> char \<Rightarrow> string \<Rightarrow> string" where
  "padStart n c s = replicate (n - length s) c @ s"

definition generateCode :: "auth_env \<Rightarrow> string" where
  "generateCode E = padStart CODE_LENGTH CHR ''0'' (nat_digits (ae_randomInt E))"

definition hashCode :: "auth_env \<Rightarrow> string \<Rightarrow> string" where
  "hashCode E pin = sha256 E pin"

definition safeEqual :: "string \<Rightarrow> string \<Rightarrow> bool" where
  "safeEqual a b = (if length a \<noteq> length b then False else a = b)"

record RefreshTokenValue =
  rv_token :: string
  rv_tokenHash :: string
  rv_expiresAt :: int

definition createRefreshToken :: "auth_env \<Rightarrow> int \<Rightarrow> RefreshTokenValue" where
  "createRefreshToken E now = \<lparr>rv_token = ae_randomToken E, rv_tokenHash = sha256 E (ae_randomToken E),
     rv_expiresAt = now + REFRESH_TOKEN_TTL_DAYS E * 24 * 60 * 60 * 1000\<rparr>"

definition hashRefreshToken :: "auth_env \<Rightarrow> string \<Rightarrow> string" where
  "hashRefreshToken E token = sha256 E token"

record AccessToken =
  at_token :: string
  at_expiresIn :: int
  at_expiresAt :: int

fun role_text :: "Role \<Rightarrow> string" where
  "role_text USER = ''USER''"
| "role_text ADMIN = ''ADMIN''"

text \<open>The payload of the JWT: the custom claims, then the registered ones the builder adds.\<close>

definition jwt_payload :: "auth_env \<Rightarrow> AuthUser \<Rightarrow> string \<Rightarrow> int \<Rightarrow> (string \<times> json) list" where
  "jwt_payload E u sid now =
     (let iat = now div 1000 in
      [(''email'', JString (au_email u)), (''username'', JString (au_username u)), (''role'', JString (role_text (au_role u))),
       (''sid'', JString sid), (''sub'', JString (au_id u)), (''iss'', JString (JWT_ISSUER E)), (''aud'', JString (JWT_AUDIENCE E)),
       (''iat'', JInt iat), (''exp'', JInt (iat + ACCESS_TOKEN_TTL_MINUTES E * 60))])"

definition signAccessToken :: "auth_env \<Rightarrow> AuthUser \<Rightarrow> string \<Rightarrow> int \<Rightarrow> AppError + AccessToken" where
  "signAccessToken E u sid now = (case jwt_sign E (jwt_payload E u sid now) of
     None \<Rightarrow> Inl (InternalServerError ''Access token could not be issued'')
   | Some token \<Rightarrow> Inr \<lparr>at_token = token, at_expiresIn = ACCESS_TOKEN_TTL_MINUTES E * 60,
       at_expiresAt = (now div 1000 + ACCESS_TOKEN_TTL_MINUTES E * 60) * 1000\<rparr>)"

section \<open>Mail texts\<close>

text \<open>Lines joined by a line feed; the dash in three of them is one character, here a hyphen.\<close>

definition mail_lines :: "string list \<Rightarrow> string" where
  "mail_lines ls = join_with [CHR 0x0A] ls"

definition expiry_line :: "auth_env \<Rightarrow> string" where
  "expiry_line E = ''The code expires in '' @ int_str (verificationTtlMinutes (ae_options E)) @ '' minutes and can be used once.''"

definition verificationEmail :: "auth_env \<Rightarrow> string \<Rightarrow> string \<Rightarrow> EnqueueEmailInput" where
  "verificationEmail E to pin = \<lparr>mail_recipient = to,
     mail_subject = APP_NAME E @ '': your verification code is '' @ pin,
     mail_body = mail_lines [''Welcome to '' @ APP_NAME E @ ''.'', '''', ''Enter this code to finish setting up your account:'', '''',
       ''    '' @ pin, '''', expiry_line E, '''', ''If you did not create this account, you can ignore this message -'',
       ''nothing was set up and the address will not be contacted again.''],
     mail_source = ''auth.email-verification''\<rparr>"

definition passwordResetEmail :: "auth_env \<Rightarrow> string \<Rightarrow> string \<Rightarrow> EnqueueEmailInput" where
  "passwordResetEmail E to pin = \<lparr>mail_recipient = to,
     mail_subject = APP_NAME E @ '': your password reset code is '' @ pin,
     mail_body = mail_lines [''Someone asked to reset the password for your '' @ APP_NAME E @ '' account.'', '''',
       ''Enter this code to choose a new one:'', '''', ''    '' @ pin, '''', expiry_line E, '''',
       ''If this was not you, ignore this message. Your password has not been'', ''changed, and it will not change unless this code is used.''],
     mail_source = ''auth.password-reset''\<rparr>"

definition passwordChangedEmail :: "auth_env \<Rightarrow> string \<Rightarrow> EnqueueEmailInput" where
  "passwordChangedEmail E to = \<lparr>mail_recipient = to,
     mail_subject = APP_NAME E @ '': your password was changed'',
     mail_body = mail_lines [''The password for your '' @ APP_NAME E @ '' account was just changed.'', '''',
       ''Every device that was signed in has been signed out.'', '''',
       ''If this was not you, reset your password immediately - whoever made'', ''this change still knows the address of this mailbox.''],
     mail_source = ''auth.password-changed''\<rparr>"

section \<open>Shapes\<close>

record PublicAuthUser =
  pu_id :: string
  pu_email :: string
  pu_username :: string
  pu_role :: Role
  pu_status :: AuthUserStatus
  pu_verified :: bool
  pu_userId :: "string option"
  pu_lastLoginAt :: "int option"
  pu_createdAt :: int

definition toPublicAuthUser :: "AuthUser \<Rightarrow> PublicAuthUser" where
  "toPublicAuthUser u = \<lparr>pu_id = au_id u, pu_email = au_email u, pu_username = au_username u, pu_role = au_role u,
     pu_status = au_status u, pu_verified = au_verified u, pu_userId = au_userId u, pu_lastLoginAt = lastLoginAt u,
     pu_createdAt = au_createdAt u\<rparr>"

record AuthTokens =
  accessToken :: string
  refreshToken :: string
  expiresIn :: int

record RequestMeta =
  meta_ip :: "string option"
  meta_userAgent :: "string option"

record RegisterInput =
  reg_email :: string
  reg_username :: string
  reg_password :: string
  reg_profile :: json

record PendingProfile =
  pp_name :: string
  pp_address :: string
  pp_phone :: string

definition invalidCredentialsError :: AppError where
  "invalidCredentialsError = UnauthorizedError ''Invalid email or password''"

definition invalidCodeError :: AppError where
  "invalidCodeError = UnauthorizedError ''The code is invalid or has expired''"

definition invalidSessionError :: AppError where
  "invalidSessionError = UnauthorizedError ''Session is invalid or has expired. Please sign in again.''"

definition MINUTE_MS :: int where
  "MINUTE_MS = 60000"

section \<open>Internals\<close>

definition withinCooldown :: "auth_env \<Rightarrow> int \<Rightarrow> int \<Rightarrow> bool" where
  "withinCooldown E now issued \<longleftrightarrow> now - issued < resendCooldownSeconds (ae_options E) * 1000"

definition recordAttempt ::
  "auth_env \<Rightarrow> nat \<Rightarrow> string option \<Rightarrow> string \<Rightarrow> LoginOutcome \<Rightarrow> int \<Rightarrow> RequestMeta \<Rightarrow> ('w \<times> auth_db, AppError, LoginHistory) act" where
  "recordAttempt E n i email outcome att meta = call E n (\<lambda>flt. recordLoginAttempt flt (ae_uuid E n) (ae_now E n)
     \<lparr>nl_authUserId = i, nl_email = email, nl_success = (outcome = SUCCESS), nl_outcome = outcome, nl_attempt = att,
      nl_ip = meta_ip meta, nl_userAgent = meta_userAgent meta\<rparr>)"

definition session_record :: "AuthUser \<Rightarrow> string \<Rightarrow> RefreshTokenValue \<Rightarrow> RequestMeta \<Rightarrow> NewRefreshTokenRecord" where
  "session_record u family token meta = \<lparr>nr_authUserId = au_id u, nr_tokenHash = rv_tokenHash token, nr_familyId = family,
     nr_expiresAt = rv_expiresAt token, nr_ip = meta_ip meta, nr_userAgent = meta_userAgent meta\<rparr>"

definition token_pair :: "AccessToken \<Rightarrow> RefreshTokenValue \<Rightarrow> AuthTokens" where
  "token_pair access refresh = \<lparr>accessToken = at_token access, refreshToken = rv_token refresh, expiresIn = at_expiresIn access\<rparr>"

text \<open>The family is \<open>ae_uuid E (n + 1)\<close>, the row's id \<open>ae_uuid E n\<close>.\<close>

definition startSession ::
  "auth_env \<Rightarrow> nat \<Rightarrow> AuthUser \<Rightarrow> RequestMeta \<Rightarrow> int \<Rightarrow> ('w \<times> auth_db, AppError, PublicAuthUser \<times> AuthTokens) act" where
  "startSession E n u meta now =
     (let family = ae_uuid E (n + 1); refresh = createRefreshToken E now in
      and_then (call E n (\<lambda>flt. repo_createRefreshToken flt (ae_uuid E n) (ae_now E n) (session_record u family refresh meta))) (\<lambda>_.
      and_then (lift (signAccessToken E u family now)) (\<lambda>access.
      ret (toPublicAuthUser u, token_pair access refresh))))"

definition dispatchCode ::
  "auth_env \<Rightarrow> nat \<Rightarrow> 'w auth_ports \<Rightarrow> string \<Rightarrow> EnqueueEmailInput \<Rightarrow> string \<Rightarrow> ('w \<times> auth_db, AppError, bool) act" where
  "dispatchCode E n ports vid msg key =
     catching
       (and_then (at_world (mail_enqueue ports msg (Some key))) (\<lambda>enqueued. case enqueued of
          None \<Rightarrow> ret False
        | Some mid \<Rightarrow>
            catching (and_then (call E n (\<lambda>flt. attachVerificationEmail flt vid mid)) (\<lambda>_. ret True)) (\<lambda>_. ret True)))
       (\<lambda>_. ret False)"

fun type_text :: "VerificationType \<Rightarrow> string" where
  "type_text EMAIL_VERIFICATION = ''EMAIL_VERIFICATION''"
| "type_text PASSWORD_RESET = ''PASSWORD_RESET''"
| "type_text EMAIL_CHANGE = ''EMAIL_CHANGE''"

definition code_record :: "auth_env \<Rightarrow> VerificationType \<Rightarrow> string \<Rightarrow> int \<Rightarrow> NewVerificationRecord" where
  "code_record E ty pin now = \<lparr>nv_codeHash = hashCode E pin, nv_type = ty,
     nv_expiresAt = now + verificationTtlMinutes (ae_options E) * MINUTE_MS,
     nv_maxAttempts = verificationMaxAttempts (ae_options E), nv_newEmail = None\<rparr>"

definition issueCode ::
  "auth_env \<Rightarrow> nat \<Rightarrow> 'w auth_ports \<Rightarrow> AuthUser \<Rightarrow> VerificationType \<Rightarrow> ('w \<times> auth_db, AppError, unit) act" where
  "issueCode E n ports u ty =
     (let pin = generateCode E in
      and_then (call E n (\<lambda>flt. replaceVerification flt (ae_between E) (ae_uuid E n) (ae_now E n) (au_id u) (code_record E ty pin (ae_now E n)))) (\<lambda>v.
      and_then (dispatchCode E (n + 1) ports (vf_id v)
        (if ty = EMAIL_VERIFICATION then verificationEmail E (au_email u) pin else passwordResetEmail E (au_email u) pin)
        (type_text ty @ '':'' @ vf_id v)) (\<lambda>_.
      ret ())))"

definition consumeCode ::
  "auth_env \<Rightarrow> nat \<Rightarrow> string \<Rightarrow> VerificationType \<Rightarrow> string \<Rightarrow> ('w \<times> auth_db, AppError, string) act" where
  "consumeCode E n i ty pin =
     and_then (call E n (\<lambda>flt. findActiveVerification flt i ty)) (\<lambda>verification. case verification of
       None \<Rightarrow> throw invalidCodeError
     | Some v \<Rightarrow>
         (if vf_expiresAt v \<le> ae_now E n then throw invalidCodeError
          else if vf_attempts v \<ge> vf_maxAttempts v then throw invalidCodeError
          else if \<not> safeEqual (codeHash v) (hashCode E pin) then
            and_then (call E (n + 1) (\<lambda>flt. registerVerificationAttempt flt (vf_id v) (vf_attempts v + 1 \<ge> vf_maxAttempts v))) (\<lambda>_.
            throw invalidCodeError)
          else ret (vf_id v)))"

text \<open>Best effort: an error of the hand-off is dropped by both callers, so only the account comes back.\<close>

definition ensureProfile ::
  "auth_env \<Rightarrow> nat \<Rightarrow> (json \<Rightarrow> PendingProfile option) \<Rightarrow> 'w auth_ports \<Rightarrow> AuthUser \<Rightarrow> ('w \<times> auth_db, AppError, AuthUser) act" where
  "ensureProfile E n readPendingProfile ports u =
     (if au_userId u \<noteq> None \<and> au_userId u \<noteq> Some '''' then ret u
      else case Option.bind (pendingProfile u) readPendingProfile of
        None \<Rightarrow> ret u
      | Some p \<Rightarrow>
          catching
            (and_then
              (catching
                (at_world (profile_create ports \<lparr>cp_authUserId = au_id u, cp_name = pp_name p, cp_email = au_email u,
                   cp_address = pp_address p, cp_phone = pp_phone p\<rparr>))
                (\<lambda>createError.
                   if errname createError \<noteq> ''ConflictError'' then throw createError
                   else and_then (at_world (profile_find ports (au_id u))) (\<lambda>existing. case existing of
                     None \<Rightarrow> throw createError
                   | Some pid \<Rightarrow> ret pid)))
              (\<lambda>pid. call E n (\<lambda>flt. attachProfile flt (au_id u) pid)))
            (\<lambda>_. ret u))"

section \<open>Registration\<close>

definition register ::
  "auth_env \<Rightarrow> 'w auth_ports \<Rightarrow> RegisterInput \<Rightarrow> ('w \<times> auth_db, AppError, PublicAuthUser \<times> bool) act" where
  "register E ports input =
     and_then (call E 0 (\<lambda>flt. findAuthUserByEmail flt (reg_email input))) (\<lambda>byEmail.
     if byEmail \<noteq> None then throw (ConflictError (''An account with email '' @ quote (reg_email input) @ '' already exists'') None)
     else
     and_then (call E 1 (\<lambda>flt. findAuthUserByUsername flt (reg_username input))) (\<lambda>byUsername.
     if byUsername \<noteq> None then throw (ConflictError (''The username '' @ quote (reg_username input) @ '' is taken'') None)
     else
     and_then (lift (hashPassword E (reg_password input))) (\<lambda>h.
     let pin = generateCode E in
     and_then (call E 2 (\<lambda>flt. createAuthUserWithVerification flt (ae_uuid E 2) (ae_uuid E 3) (ae_now E 2)
         \<lparr>nu_email = reg_email input, nu_username = reg_username input, nu_passwordHash = h, nu_pendingProfile = reg_profile input\<rparr>
         (code_record E EMAIL_VERIFICATION pin (ae_now E 2)))) (\<lambda>(authUser, verification).
     and_then (dispatchCode E 3 ports (vf_id verification) (verificationEmail E (reg_email input) pin)
         (''verify:'' @ vf_id verification)) (\<lambda>emailQueued.
     ret (toPublicAuthUser authUser, emailQueued))))))"

definition resendVerification :: "auth_env \<Rightarrow> 'w auth_ports \<Rightarrow> string \<Rightarrow> ('w \<times> auth_db, AppError, unit) act" where
  "resendVerification E ports email =
     and_then (call E 0 (\<lambda>flt. findAuthUserByEmail flt email)) (\<lambda>authUser. case authUser of
       None \<Rightarrow> ret ()
     | Some u \<Rightarrow>
         (if au_verified u \<or> au_status u \<noteq> ACTIVE then ret ()
          else and_then (call E 1 (\<lambda>flt. findActiveVerification flt (au_id u) EMAIL_VERIFICATION)) (\<lambda>active.
            if (case active of None \<Rightarrow> False | Some v \<Rightarrow> withinCooldown E (ae_now E 1) (issuedAt v)) then ret ()
            else issueCode E 2 ports u EMAIL_VERIFICATION)))"

definition verifyEmail ::
  "auth_env \<Rightarrow> (json \<Rightarrow> PendingProfile option) \<Rightarrow> 'w auth_ports \<Rightarrow> string \<Rightarrow> string \<Rightarrow> RequestMeta
     \<Rightarrow> ('w \<times> auth_db, AppError, (PublicAuthUser \<times> AuthTokens) \<times> bool) act" where
  "verifyEmail E readPendingProfile ports email pin meta =
     and_then (call E 0 (\<lambda>flt. findAuthUserByEmail flt email)) (\<lambda>authUser. case authUser of
       None \<Rightarrow> throw invalidCodeError
     | Some u \<Rightarrow>
         (if au_status u \<noteq> ACTIVE then throw invalidCodeError
          else if au_verified u then throw (ConflictError ''This account has already been verified'' None)
          else
          and_then (consumeCode E 1 (au_id u) EMAIL_VERIFICATION pin) (\<lambda>vid.
          let now = ae_now E 3 in
          and_then (call E 3 (\<lambda>flt. consumeEmailVerification flt vid (au_id u) now)) (\<lambda>verified.
          and_then (ensureProfile E 4 readPendingProfile ports verified) (\<lambda>handedOff.
          and_then (startSession E 5 handedOff meta now) (\<lambda>session.
          and_then (recordAttempt E 7 (Some (au_id u)) (au_email u) SUCCESS 1 meta) (\<lambda>_.
          ret (session, au_userId handedOff \<noteq> None))))))))"

section \<open>Login and sessions\<close>

definition login ::
  "auth_env \<Rightarrow> (json \<Rightarrow> PendingProfile option) \<Rightarrow> 'w auth_ports \<Rightarrow> string \<Rightarrow> string \<Rightarrow> RequestMeta
     \<Rightarrow> ('w \<times> auth_db, AppError, PublicAuthUser \<times> AuthTokens) act" where
  "login E readPendingProfile ports email password meta =
     and_then (call E 0 (\<lambda>flt. findAuthUserByEmail flt email)) (\<lambda>authUser. case authUser of
       None \<Rightarrow>
         and_then (ret (hashPassword E password)) (\<lambda>_.
         and_then (recordAttempt E 1 None email UNKNOWN_EMAIL 1 meta) (\<lambda>_. throw invalidCredentialsError))
     | Some u \<Rightarrow>
         and_then (lift (verifyPassword E (passwordHash u) password)) (\<lambda>matches.
         if \<not> matches then
           (let attemptNumber = failedLoginAttempts u + 1;
                lockUntil = (if attemptNumber \<ge> maxFailedLoginAttempts (ae_options E)
                  then Some (ae_now E 1 + lockDurationMinutes (ae_options E) * MINUTE_MS) else None)
            in and_then (call E 1 (\<lambda>flt. registerFailedLogin flt (au_id u) lockUntil)) (\<lambda>_.
               and_then (recordAttempt E 2 (Some (au_id u)) email INVALID_CREDENTIALS attemptNumber meta) (\<lambda>_.
               throw invalidCredentialsError)))
         else if (case lockedUntil u of None \<Rightarrow> False | Some t \<Rightarrow> t > ae_now E 1) then
           and_then (recordAttempt E 1 (Some (au_id u)) email ACCOUNT_LOCKED (failedLoginAttempts u) meta) (\<lambda>_.
           throw (TooManyRequestsError (''Too many failed attempts. Try again after '' @ int_str (lockDurationMinutes (ae_options E)) @
             '' minutes, or reset your password.'')))
         else if au_status u \<noteq> ACTIVE then
           and_then (recordAttempt E 1 (Some (au_id u)) email ACCOUNT_INACTIVE (failedLoginAttempts u) meta) (\<lambda>_.
           throw (ForbiddenError ''This account is not active. Contact support.''))
         else if \<not> au_verified u then
           and_then (recordAttempt E 1 (Some (au_id u)) email NOT_VERIFIED (failedLoginAttempts u) meta) (\<lambda>_.
           throw (ForbiddenError ''Verify your email address before signing in. Request a new code.''))
         else
           (let now = ae_now E 1 in
            and_then (call E 1 (\<lambda>flt. registerSuccessfulLogin flt (au_id u) now)) (\<lambda>refreshed.
            and_then (recordAttempt E 2 (Some (au_id u)) email SUCCESS 1 meta) (\<lambda>_.
            and_then (ensureProfile E 3 readPendingProfile ports refreshed) (\<lambda>handedOff.
            startSession E 4 handedOff meta now))))))"

definition refresh_found :: "auth_env \<Rightarrow> RefreshToken \<Rightarrow> RequestMeta \<Rightarrow> ('w \<times> auth_db, AppError, AuthTokens) act" where
  "refresh_found E t meta =
     (if \<not> live t then
        and_then (call E 1 (\<lambda>flt. revokeFamily flt (ae_now E 1) (familyId t) REUSE_DETECTED)) (\<lambda>_.
        throw (UnauthorizedError ''This session was ended for security reasons. Please sign in again.''))
      else if rt_expiresAt t \<le> ae_now E 0 then throw invalidSessionError
      else and_then (call E 1 (\<lambda>flt. findAuthUserById flt (rt_authUserId t))) (\<lambda>authUser. case authUser of
        None \<Rightarrow> throw invalidSessionError
      | Some u \<Rightarrow>
          (if au_status u \<noteq> ACTIVE \<or> \<not> au_verified u then
             and_then (call E 2 (\<lambda>flt. revokeAllForUser flt (ae_now E 2) (au_id u) LOGOUT_ALL)) (\<lambda>_.
             throw (ForbiddenError ''This account is not active. Contact support.''))
           else
             (let nxt = createRefreshToken E (ae_now E 2) in
              and_then (call E 2 (\<lambda>flt. rotateRefreshToken flt (ae_uuid E 2) (ae_now E 2) (rt_id t)
                (session_record u (familyId t) nxt meta))) (\<lambda>_.
              and_then (lift (signAccessToken E u (familyId t) (ae_now E 2))) (\<lambda>access.
              ret (token_pair access nxt)))))))"

definition refresh :: "auth_env \<Rightarrow> string \<Rightarrow> RequestMeta \<Rightarrow> ('w \<times> auth_db, AppError, AuthTokens) act" where
  "refresh E token meta =
     and_then (call E 0 (\<lambda>flt. findRefreshTokenByHash flt (hashRefreshToken E token))) (\<lambda>found. case found of
       None \<Rightarrow> throw invalidSessionError
     | Some t \<Rightarrow> refresh_found E t meta)"

definition logout :: "auth_env \<Rightarrow> string \<Rightarrow> ('w \<times> auth_db, AppError, unit) act" where
  "logout E token =
     and_then (call E 0 (\<lambda>flt. findRefreshTokenByHash flt (hashRefreshToken E token))) (\<lambda>found. case found of
       None \<Rightarrow> ret ()
     | Some t \<Rightarrow> call E 1 (\<lambda>flt. revokeRefreshToken flt (ae_now E 1) (rt_id t) LOGOUT))"

definition logoutAll :: "auth_env \<Rightarrow> string \<Rightarrow> ('w \<times> auth_db, AppError, nat) act" where
  "logoutAll E i = call E 0 (\<lambda>flt. revokeAllForUser flt (ae_now E 0) i LOGOUT_ALL)"

section \<open>Passwords\<close>

definition forgotPassword :: "auth_env \<Rightarrow> 'w auth_ports \<Rightarrow> string \<Rightarrow> ('w \<times> auth_db, AppError, unit) act" where
  "forgotPassword E ports email =
     and_then (call E 0 (\<lambda>flt. findAuthUserByEmail flt email)) (\<lambda>authUser. case authUser of
       None \<Rightarrow> ret ()
     | Some u \<Rightarrow>
         (if au_status u \<noteq> ACTIVE then ret ()
          else and_then (call E 1 (\<lambda>flt. findActiveVerification flt (au_id u) PASSWORD_RESET)) (\<lambda>active.
            if (case active of None \<Rightarrow> False | Some v \<Rightarrow> withinCooldown E (ae_now E 1) (issuedAt v)) then ret ()
            else issueCode E 2 ports u PASSWORD_RESET)))"

text \<open>The notice is sent after the commit; whatever becomes of it is ignored.\<close>

definition notify :: "'w auth_ports \<Rightarrow> EnqueueEmailInput \<Rightarrow> ('w \<times> auth_db, AppError, unit) act" where
  "notify ports msg = catching (and_then (at_world (mail_enqueue ports msg None)) (\<lambda>_. ret ())) (\<lambda>_. ret ())"

definition resetPassword :: "auth_env \<Rightarrow> 'w auth_ports \<Rightarrow> string \<Rightarrow> string \<Rightarrow> string \<Rightarrow> ('w \<times> auth_db, AppError, unit) act" where
  "resetPassword E ports email pin password =
     and_then (call E 0 (\<lambda>flt. findAuthUserByEmail flt email)) (\<lambda>authUser. case authUser of
       None \<Rightarrow> throw invalidCodeError
     | Some u \<Rightarrow>
         (if au_status u \<noteq> ACTIVE then throw invalidCodeError
          else
          and_then (consumeCode E 1 (au_id u) PASSWORD_RESET pin) (\<lambda>vid.
          and_then (lift (hashPassword E password)) (\<lambda>h.
          and_then (call E 3 (\<lambda>flt. consumePasswordReset flt vid (au_id u) h (ae_now E 3))) (\<lambda>_.
          notify ports (passwordChangedEmail E (au_email u)))))))"

definition changePassword ::
  "auth_env \<Rightarrow> 'w auth_ports \<Rightarrow> string \<Rightarrow> string \<Rightarrow> string \<Rightarrow> RequestMeta \<Rightarrow> ('w \<times> auth_db, AppError, AuthTokens) act" where
  "changePassword E ports i currentPassword password meta =
     and_then (call E 0 (\<lambda>flt. findAuthUserById flt i)) (\<lambda>authUser. case authUser of
       None \<Rightarrow> throw (UnauthorizedError ''Authentication required'')
     | Some u \<Rightarrow>
         and_then (lift (verifyPassword E (passwordHash u) currentPassword)) (\<lambda>matches.
         if \<not> matches then throw (UnauthorizedError ''Current password is incorrect'')
         else
         and_then (lift (hashPassword E password)) (\<lambda>h.
         let now = ae_now E 1 in
         and_then (call E 1 (\<lambda>flt. updatePassword flt (au_id u) h now)) (\<lambda>updated.
         and_then (notify ports (passwordChangedEmail E (au_email u))) (\<lambda>_.
         and_then (startSession E 2 updated meta now) (\<lambda>(_, tokens). ret tokens))))))"

section \<open>Reads\<close>

definition auth_getById :: "auth_env \<Rightarrow> string \<Rightarrow> ('w \<times> auth_db, AppError, PublicAuthUser) act" where
  "auth_getById E i = and_then (call E 0 (\<lambda>flt. findAuthUserById flt i)) (\<lambda>authUser. case authUser of
     None \<Rightarrow> throw (UnauthorizedError ''Authentication required'')
   | Some u \<Rightarrow> ret (toPublicAuthUser u))"

record SessionView =
  sv_id :: string
  sv_ip :: "string option"
  sv_userAgent :: "string option"
  sv_createdAt :: int
  sv_expiresAt :: int
  sv_current :: bool

definition listSessions :: "auth_env \<Rightarrow> string \<Rightarrow> string option \<Rightarrow> ('w \<times> auth_db, AppError, SessionView list) act" where
  "listSessions E i currentSessionId = and_then (call E 0 (\<lambda>flt. listActiveSessions flt i (ae_now E 0))) (\<lambda>sessions.
     ret (map (\<lambda>t. \<lparr>sv_id = rt_id t, sv_ip = rt_ip t, sv_userAgent = rt_userAgent t, sv_createdAt = rt_createdAt t,
       sv_expiresAt = rt_expiresAt t, sv_current = (currentSessionId = Some (familyId t))\<rparr>) sessions))"

definition listLoginHistory :: "auth_env \<Rightarrow> string \<Rightarrow> LoginHistoryQuery \<Rightarrow> ('w \<times> auth_db, AppError, LoginHistory list \<times> nat) act" where
  "listLoginHistory E i q = call E 0 (\<lambda>flt. repo_listLoginHistory flt i q)"

section \<open>The reaper\<close>

record ReaperOptions =
  expiredGraceDays :: int
  revokedRetentionDays :: int
  verificationRetentionDays :: int
  loginHistoryRetentionDays :: int
  batchSize :: nat
  reap_intervalMs :: int

record ReapSummary =
  sum_expiredTokens :: nat
  sum_revokedTokens :: nat
  sum_verifications :: nat
  sum_loginHistory :: nat

definition MS_PER_DAY :: int where
  "MS_PER_DAY = 24 * 60 * 60 * 1000"

definition totalDeleted :: "ReapSummary \<Rightarrow> nat" where
  "totalDeleted s = sum_expiredTokens s + sum_revokedTokens s + sum_verifications s + sum_loginHistory s"

text \<open>\<open>flt p k\<close> is the verdict on statement \<open>k\<close> of pass \<open>p\<close>, \<open>meanwhile p\<close> what others commit inside pass \<open>p\<close>.\<close>

definition reap_runOnce ::
  "(nat \<Rightarrow> nat \<Rightarrow> thrown option) \<Rightarrow> (nat \<Rightarrow> auth_db \<Rightarrow> auth_db) \<Rightarrow> int \<Rightarrow> ReaperOptions \<Rightarrow> (auth_db, AppError, ReapSummary) act" where
  "reap_runOnce flt meanwhile now opts =
     and_then (purgeRefreshTokens flt meanwhile \<lparr>expiredBefore = now - expiredGraceDays opts * MS_PER_DAY,
         revokedBefore = now - revokedRetentionDays opts * MS_PER_DAY, purge_limit = batchSize opts\<rparr>) (\<lambda>(expired, revoked).
     and_then (if verificationRetentionDays opts > 0
         then purgeVerifications (flt 2) (meanwhile 2) (now - verificationRetentionDays opts * MS_PER_DAY) (batchSize opts)
         else ret 0) (\<lambda>vs.
     and_then (if loginHistoryRetentionDays opts > 0
         then purgeLoginHistory (flt 3) (meanwhile 3) (now - loginHistoryRetentionDays opts * MS_PER_DAY) (batchSize opts)
         else ret 0) (\<lambda>hs.
     ret \<lparr>sum_expiredTokens = expired, sum_revokedTokens = revoked, sum_verifications = vs, sum_loginHistory = hs\<rparr>)))"

text \<open>The loop's own state: whether it runs and the delay of the armed timer, if any.\<close>

record reaper =
  reaper_running :: bool
  reaper_timer :: "int option"

definition reaper_start :: "ReaperOptions \<Rightarrow> reaper \<Rightarrow> reaper" where
  "reaper_start opts r = (if reaper_running r then r else \<lparr>reaper_running = True, reaper_timer = Some (reap_intervalMs opts)\<rparr>)"

definition reaper_stop :: "reaper \<Rightarrow> reaper" where
  "reaper_stop r = (if \<not> reaper_running r then r else \<lparr>reaper_running = False, reaper_timer = None\<rparr>)"

text \<open>A tick sweeps and arms the next timer; \<open>stopped\<close> says whether \<^verbatim>\<open>stop\<close> was called during the sweep.\<close>

definition reaper_tick ::
  "(nat \<Rightarrow> nat \<Rightarrow> thrown option) \<Rightarrow> (nat \<Rightarrow> auth_db \<Rightarrow> auth_db) \<Rightarrow> int \<Rightarrow> ReaperOptions \<Rightarrow> bool \<Rightarrow> reaper \<times> auth_db \<Rightarrow> reaper \<times> auth_db" where
  "reaper_tick flt meanwhile now opts stopped = (\<lambda>(r, db).
     if \<not> reaper_running r then (r\<lparr>reaper_timer := None\<rparr>, db)
     else
       (let db' = snd (reap_runOnce flt meanwhile now opts db);
            r' = (if stopped then reaper_stop r else r)
        in (if reaper_running r' then r'\<lparr>reaper_timer := Some (reap_intervalMs opts)\<rparr> else r', db')))"

end
