(* ===== verification/AuthInvariant.thy ===== *)
theory AuthInvariant
  imports AuthService
begin

text \<open>
  What every operation of the auth service keeps: keys are unique, each family of refresh tokens has at most one
  live member, each account has at most one pending code of a type, and a token has a reason exactly when it is
  revoked. \<open>within A\<close> adds which family a token id may belong to; it is what one request relies on while others commit.
\<close>

section \<open>The invariant\<close>

definition one_live :: "auth_db \<Rightarrow> bool" where
  "one_live db \<longleftrightarrow> (\<forall>t \<in> set (refresh_tokens db). \<forall>t' \<in> set (refresh_tokens db).
     live t \<and> live t' \<and> familyId t = familyId t' \<longrightarrow> t = t')"

definition one_code :: "auth_db \<Rightarrow> bool" where
  "one_code db \<longleftrightarrow> (\<forall>v \<in> set (verifications db). \<forall>v' \<in> set (verifications db).
     vf_status v = V_PENDING \<and> vf_status v' = V_PENDING \<and> vf_authUserId v = vf_authUserId v' \<and> vf_type v = vf_type v' \<longrightarrow> v = v')"

definition keys_ok :: "auth_db \<Rightarrow> bool" where
  "keys_ok db \<longleftrightarrow> distinct (map rt_id (refresh_tokens db)) \<and> distinct (map tokenHash (refresh_tokens db)) \<and>
     distinct (map vf_id (verifications db)) \<and> distinct (map au_id (auth_users db)) \<and> distinct (map au_email (auth_users db)) \<and>
     distinct (map au_username (auth_users db))"

definition owned :: "auth_db \<Rightarrow> bool" where
  "owned db \<longleftrightarrow> (\<forall>v \<in> set (verifications db). user_exists (vf_authUserId v) db) \<and>
     (\<forall>t \<in> set (refresh_tokens db). user_exists (rt_authUserId t) db)"

definition reasons_ok :: "auth_db \<Rightarrow> bool" where
  "reasons_ok db \<longleftrightarrow> (\<forall>t \<in> set (refresh_tokens db). live t \<longleftrightarrow> revokedReason t = None)"

definition auth_ok :: "auth_db \<Rightarrow> bool" where
  "auth_ok db \<longleftrightarrow> keys_ok db \<and> owned db \<and> one_live db \<and> one_code db \<and> reasons_ok db"

lemmas auth_ok_defs = auth_ok_def keys_ok_def owned_def one_live_def one_code_def reasons_ok_def user_exists_def

definition id_families :: "auth_db \<Rightarrow> (string \<times> string) set" where
  "id_families db = (\<lambda>t. (rt_id t, familyId t)) ` set (refresh_tokens db)"

definition within :: "(string \<times> string) set \<Rightarrow> auth_db \<Rightarrow> bool" where
  "within A db \<longleftrightarrow> auth_ok db \<and> id_families db \<subseteq> A"

section \<open>Statements\<close>

lemma insert_auth_user_ok:
  assumes "within A db" and "insert_auth_user u db = (Inr x, db')"
  shows "within A db' \<and> x = u \<and> user_exists (au_id u) db' \<and> verifications db' = verifications db \<and> \<not> user_exists (au_id u) db"
  using assms by (auto simp: insert_auth_user_def unique_violation_None within_def auth_ok_defs id_families_def split: option.splits)

lemma insert_verification_ok:
  assumes "within A db" and "insert_verification v db = (Inr x, db')"
    and "\<And>v'. v' \<in> set (verifications db) \<Longrightarrow> \<not> pending_of (vf_authUserId v) (vf_type v) v'"
  shows "within A db'"
  using assms by (auto simp: insert_verification_def unique_violation_None within_def auth_ok_defs id_families_def pending_of_def
      split: option.splits if_splits)

lemma update_auth_user_ok:
  assumes "within A db" and "update_auth_user i f db = (Inr x, db')"
    and "\<And>u. au_id (f u) = au_id u" "\<And>u. au_email (f u) = au_email u" "\<And>u. au_username (f u) = au_username u"
  shows "within A db'"
proof -
  have db': "db' = db\<lparr>auth_users := update_rows au_id i f (auth_users db)\<rparr>"
    using assms(2) by (auto simp: update_auth_user_def split: option.splits)
  have "map g (update_rows au_id i f (auth_users db)) = map g (auth_users db)" if "\<And>u. g (f u) = g u" for g :: "AuthUser \<Rightarrow> string"
    using that by (rule map_key_update_rows)
  then show ?thesis using assms(1,3-5) unfolding db' by (simp add: within_def auth_ok_defs id_families_def del: set_map)
qed

lemma update_verification_ok:
  assumes "within A db" and "update_verification i g f db = (Inr x, db')"
    and "\<And>v. vf_id (f v) = vf_id v" "\<And>v. vf_authUserId (f v) = vf_authUserId v" "\<And>v. vf_type (f v) = vf_type v"
    and "\<And>v. vf_status (f v) = V_PENDING \<Longrightarrow> vf_status v = V_PENDING"
  shows "within A db'"
proof -
  have db': "db' = db\<lparr>verifications := update_rows vf_id i f (verifications db)\<rparr>"
    using assms(2) by (auto simp: update_verification_def split: option.splits if_splits)
  have "map vf_id (update_rows vf_id i f (verifications db)) = map vf_id (verifications db)"
    using assms(3) by (rule map_key_update_rows)
  moreover have "one_code db'"
    unfolding one_code_def db'
  proof (intro ballI impI)
    fix v v'
    assume "v \<in> set (verifications (db\<lparr>verifications := update_rows vf_id i f (verifications db)\<rparr>))"
      and "v' \<in> set (verifications (db\<lparr>verifications := update_rows vf_id i f (verifications db)\<rparr>))"
      and pend: "vf_status v = V_PENDING \<and> vf_status v' = V_PENDING \<and> vf_authUserId v = vf_authUserId v' \<and> vf_type v = vf_type v'"
    then obtain w w' where w: "w \<in> set (verifications db)" "v = (if vf_id w = i then f w else w)"
      and w': "w' \<in> set (verifications db)" "v' = (if vf_id w' = i then f w' else w')" by (auto simp: set_update_rows)
    have "w = w'"
      using assms(1) w w' pend assms(4-6) unfolding within_def auth_ok_def one_code_def by (metis (full_types))
    then show "v = v'" using w w' by simp
  qed
  moreover have "user_exists (vf_authUserId v) db" if "v \<in> set (update_rows vf_id i f (verifications db))" for v
    using that assms(1,4) by (auto simp: set_update_rows within_def auth_ok_def owned_def)
  ultimately show ?thesis using assms(1) unfolding db' by (simp add: within_def auth_ok_def keys_ok_def owned_def one_live_def
        reasons_ok_def user_exists_def id_families_def)
qed

text \<open>A change of token rows that keeps ids, hashes, owners and families and never revives one.\<close>

lemma map_tokens_ok:
  assumes "within A db" and "\<And>t. rt_id (f t) = rt_id t" "\<And>t. tokenHash (f t) = tokenHash t" "\<And>t. rt_authUserId (f t) = rt_authUserId t"
    and "\<And>t. familyId (f t) = familyId t" "\<And>t. live (f t) \<Longrightarrow> live t"
    and "\<And>t. (live t \<longleftrightarrow> revokedReason t = None) \<Longrightarrow> (live (f t) \<longleftrightarrow> revokedReason (f t) = None)"
  shows "within A (db\<lparr>refresh_tokens := map f (refresh_tokens db)\<rparr>)"
proof -
  have "one_live (db\<lparr>refresh_tokens := map f (refresh_tokens db)\<rparr>)"
    using assms(1,5,6) unfolding within_def auth_ok_def one_live_def by auto
  moreover have "map rt_id (map f ts) = map rt_id ts" "map tokenHash (map f ts) = map tokenHash ts" for ts
    using assms(2,3) by simp_all
  ultimately have "auth_ok (db\<lparr>refresh_tokens := map f (refresh_tokens db)\<rparr>)"
    using assms(1) assms(4) assms(7) unfolding within_def auth_ok_def
    by (auto simp: keys_ok_def owned_def one_code_def reasons_ok_def user_exists_def simp del: map_map)
  moreover have "id_families (db\<lparr>refresh_tokens := map f (refresh_tokens db)\<rparr>) = id_families db"
    using assms(2,5) by (simp add: id_families_def image_image)
  ultimately show ?thesis using assms(1) by (simp add: within_def)
qed

lemma filter_tokens_ok: "within A db \<Longrightarrow> within A (db\<lparr>refresh_tokens := filter P (refresh_tokens db)\<rparr>)"
  by (auto simp: within_def auth_ok_defs id_families_def distinct_map_filter)

lemma filter_codes_ok: "within A db \<Longrightarrow> within A (db\<lparr>verifications := filter P (verifications db)\<rparr>)"
  by (auto simp: within_def auth_ok_defs id_families_def distinct_map_filter)

lemma history_ok: "within A (db\<lparr>login_history := h\<rparr>) \<longleftrightarrow> within A db"
  by (simp add: within_def auth_ok_defs id_families_def)

lemma revoke_where_ok: "within A db \<Longrightarrow> revoke_where P at reason db = (Inr n, db') \<Longrightarrow> within A db'"
  unfolding revoke_where_def by (auto intro!: map_tokens_ok simp: revoke_row_def live_def split: if_splits)

section \<open>Repository calls\<close>

lemma keeps_reads [keeps_intros]:
  "keeps P (findAuthUserById flt i)" "keeps P (findAuthUserByEmail flt i)" "keeps P (findAuthUserByUsername flt i)"
  "keeps P (findActiveVerification flt i ty)" "keeps P (findRefreshTokenByHash flt i)" "keeps P (listActiveSessions flt i now)"
  "keeps P (repo_listLoginHistory flt i q)"
  by (simp_all add: findAuthUserById_def findAuthUserByEmail_def findAuthUserByUsername_def findActiveVerification_def
      findRefreshTokenByHash_def listActiveSessions_def repo_listLoginHistory_def db_call_read)

lemma fresh_owner: "within A db \<Longrightarrow> \<not> user_exists i db \<Longrightarrow> v \<in> set (verifications db) \<Longrightarrow> \<not> pending_of i ty v"
  by (auto simp: within_def auth_ok_def owned_def pending_of_def)

lemma keeps_createAuthUser [keeps_intros]: "keeps (within A) (createAuthUserWithVerification flt a b now user v)"
  unfolding createAuthUserWithVerification_def
proof (rule db_call_keeps)
  fix db r db'
  assume ok: "within A db"
    and "and_then (insert_auth_user (new_auth_user a now user)) (\<lambda>authUser.
      and_then (insert_verification (new_verification b now (au_id authUser) v)) (\<lambda>created. ret (authUser, created))) db = (Inr r, db')"
  then obtain u db1 w where u: "insert_auth_user (new_auth_user a now user) db = (Inr u, db1)"
    and w: "insert_verification (new_verification b now (au_id u) v) db1 = (Inr w, db')"
    by (auto simp: and_then_Inr_iff)
  note i = insert_auth_user_ok [OF ok u]
  show "within A db'"
  proof (rule insert_verification_ok [OF _ w])
    show "within A db1" using i by blast
    fix v' assume "v' \<in> set (verifications db1)"
    then show "\<not> pending_of (vf_authUserId (new_verification b now (au_id u) v)) (vf_type (new_verification b now (au_id u) v)) v'"
      using i fresh_owner [OF ok] by (auto simp: new_verification_def)
  qed
qed

lemma commits_user:
  "(\<And>u. au_id (f u) = au_id u) \<Longrightarrow> (\<And>u. au_email (f u) = au_email u) \<Longrightarrow> (\<And>u. au_username (f u) = au_username u) \<Longrightarrow>
   commits (within A) (update_auth_user i f)"
  by (rule commitsI) (rule update_auth_user_ok)

lemma commits_code:
  "(\<And>v. vf_id (f v) = vf_id v) \<Longrightarrow> (\<And>v. vf_authUserId (f v) = vf_authUserId v) \<Longrightarrow> (\<And>v. vf_type (f v) = vf_type v) \<Longrightarrow>
   (\<And>v. vf_status (f v) = V_PENDING \<Longrightarrow> vf_status v = V_PENDING) \<Longrightarrow> commits (within A) (update_verification i g f)"
  by (rule commitsI) (rule update_verification_ok)

lemma commits_revoke: "commits (within A) (revoke_where P at reason)"
  by (rule commitsI) (rule revoke_where_ok)

lemmas commits_intros = db_call_commits commits_and_then commits_ret commits_user commits_code commits_revoke

lemma keeps_attachProfile [keeps_intros]: "keeps (within A) (attachProfile flt i userId)"
  unfolding attachProfile_def
  by (rule db_call_keeps) (auto split: option.splits elim: update_auth_user_ok)

lemma keeps_recordLogin [keeps_intros]: "keeps (within A) (recordLoginAttempt flt uuid now input)"
  unfolding recordLoginAttempt_def
  by (rule db_call_keeps) (auto simp: Let_def history_ok split: option.splits if_splits)

lemma keeps_login_rows [keeps_intros]:
  "keeps (within A) (registerFailedLogin flt i lock)" "keeps (within A) (registerSuccessfulLogin flt i at)"
  unfolding registerFailedLogin_def registerSuccessfulLogin_def
  by (intro commits_intros; simp add: failed_login_row_def successful_login_row_def)+

lemma revoke_pending_ok:
  assumes "within A db" and "revoke_pending i ty db = (Inr x, db')"
  shows "within A db' \<and> (\<forall>v \<in> set (verifications db'). \<not> pending_of i ty v)"
proof -
  let ?f = "\<lambda>v. if pending_of i ty v then v\<lparr>vf_status := V_REVOKED\<rparr> else v"
  have db': "db' = db\<lparr>verifications := map ?f (verifications db)\<rparr>" using assms(2) by (simp add: revoke_pending_def)
  have "map vf_id (map ?f vs) = map vf_id vs" for vs by simp
  then have sel: "refresh_tokens db' = refresh_tokens db" "auth_users db' = auth_users db"
    "map vf_id (verifications db') = map vf_id (verifications db)" unfolding db' by simp_all
  have "vf_authUserId v \<in> vf_authUserId ` set (verifications db)" if "v \<in> set (verifications db')" for v
    using that unfolding db' by (auto split: if_splits)
  then have "owned db'" using assms(1) by (fastforce simp: within_def auth_ok_def owned_def user_exists_def sel)
  moreover have "one_code db'"
    unfolding one_code_def db'
  proof (intro ballI impI)
    fix v v'
    assume "v \<in> set (verifications (db\<lparr>verifications := map ?f (verifications db)\<rparr>))"
      and "v' \<in> set (verifications (db\<lparr>verifications := map ?f (verifications db)\<rparr>))"
      and pend: "vf_status v = V_PENDING \<and> vf_status v' = V_PENDING \<and> vf_authUserId v = vf_authUserId v' \<and> vf_type v = vf_type v'"
    then have "v \<in> set (verifications db)" "v' \<in> set (verifications db)" by (auto split: if_splits)
    moreover have "one_code db" using assms(1) by (simp add: within_def auth_ok_def)
    ultimately show "v = v'" using pend by (simp add: one_code_def)
  qed
  ultimately have "auth_ok db'"
    using assms(1) by (simp add: within_def auth_ok_def keys_ok_def one_live_def reasons_ok_def sel)
  moreover have "id_families db' = id_families db" by (simp add: sel id_families_def)
  moreover have "\<not> pending_of i ty v" if "v \<in> set (verifications db')" for v
  proof -
    have "v \<in> ?f ` set (verifications db)" using that unfolding db' by simp
    then obtain w where "v = ?f w" by blast
    then show ?thesis by (simp add: pending_of_def)
  qed
  ultimately show ?thesis using assms(1) by (simp add: within_def)
qed

text \<open>
  Others between the statements of a replacement: they keep the tables sound and leave the account
  whose code is being replaced without a pending one of that type.
\<close>

definition spares_codes ::
  "(string \<times> string) set \<Rightarrow> (string \<Rightarrow> VerificationType \<Rightarrow> auth_db \<Rightarrow> auth_db) \<Rightarrow> bool" where
  "spares_codes A between \<longleftrightarrow> (\<forall>i ty db. within A db \<longrightarrow> within A (between i ty db) \<and>
     ((\<forall>v \<in> set (verifications db). \<not> pending_of i ty v) \<longrightarrow>
      (\<forall>v \<in> set (verifications (between i ty db)). \<not> pending_of i ty v)))"

lemma keeps_replace [keeps_intros]:
  assumes "spares_codes A between"
  shows "keeps (within A) (replaceVerification flt between uuid now i v)"
proof (rule keepsI)
  fix db
  assume ok: "within A db"
  let ?between = "between i (nv_type v)"
  let ?body = "and_then (revoke_pending i (nv_type v)) (\<lambda>_. and_then (modify ?between) (\<lambda>_.
    insert_verification (new_verification uuid now i v)))"
  show "within A (snd (replaceVerification flt between uuid now i v db))"
  proof (cases "db_call flt ?body db")
    case (Pair r db')
    show ?thesis
    proof (cases r)
      case (Inl e)
      then show ?thesis using Pair ok assms by (simp add: replaceVerification_def spares_codes_def)
    next
      case (Inr x)
      then obtain y db1 where y: "revoke_pending i (nv_type v) db = (Inr y, db1)"
        and ins: "insert_verification (new_verification uuid now i v) (?between db1) = (Inr x, db')"
        using Pair by (auto simp: db_call_Inr and_then_Inr_iff modify_def)
      note spared = assms [unfolded spares_codes_def, rule_format, of db1 i "nv_type v"]
      have "within A db'"
        using revoke_pending_ok [OF ok y] spared
        by (intro insert_verification_ok [OF _ ins]) (auto simp: new_verification_def)
      then show ?thesis using Pair Inr by (simp add: replaceVerification_def)
    qed
  qed
qed

lemma keeps_code_rows [keeps_intros]:
  "keeps (within A) (registerVerificationAttempt flt i exhausted)" "keeps (within A) (attachVerificationEmail flt i m)"
  unfolding registerVerificationAttempt_def attachVerificationEmail_def
  by (intro keeps_and_then keeps_basic commits_intros; simp add: attempt_row_def split: if_splits)+

lemma keeps_consume [keeps_intros]:
  "keeps (within A) (consumeEmailVerification flt vid i at)" "keeps (within A) (consumePasswordReset flt vid i h at)"
  "keeps (within A) (updatePassword flt i h at)"
  unfolding consumeEmailVerification_def consumePasswordReset_def updatePassword_def
  by (intro commits_intros; simp add: used_row_def reset_row_def)+

lemma keeps_revoke [keeps_intros]:
  "keeps (within A) (revokeRefreshToken flt at i reason)" "keeps (within A) (revokeFamily flt at i reason)"
  "keeps (within A) (revokeAllForUser flt at i reason)"
  unfolding revokeRefreshToken_def revokeFamily_def revokeAllForUser_def
  by (intro keeps_and_then keeps_basic commits_intros)+

section \<open>New tokens\<close>

lemma insert_token_row:
  assumes "insert_refresh_token t db = (Inr x, db')"
  shows "x = t \<and> db' = db\<lparr>refresh_tokens := refresh_tokens db @ [t]\<rparr> \<and> rt_id t \<notin> rt_id ` set (refresh_tokens db) \<and>
    tokenHash t \<notin> tokenHash ` set (refresh_tokens db) \<and> user_exists (rt_authUserId t) db"
  using assms by (auto simp: insert_refresh_token_def unique_violation_None split: option.splits if_splits)

lemma append_token_ok:
  assumes "auth_ok db" and "insert_refresh_token t db = (Inr x, db')" and "live t \<longleftrightarrow> revokedReason t = None"
    and "\<And>t'. t' \<in> set (refresh_tokens db) \<Longrightarrow> live t' \<Longrightarrow> familyId t' \<noteq> familyId t"
  shows "auth_ok db'"
proof -
  note i = insert_token_row [OF assms(2)]
  then have db': "db' = db\<lparr>refresh_tokens := refresh_tokens db @ [t]\<rparr>" by blast
  have "one_live db" using assms(1) by (simp add: auth_ok_def)
  then have "one_live db'" using assms(4) unfolding db' one_live_def by simp metis
  moreover have "keys_ok db'" using assms(1) i unfolding db' by (simp add: auth_ok_def keys_ok_def)
  moreover have "owned db'" using assms(1) i unfolding db' by (simp add: auth_ok_def owned_def user_exists_def)
  ultimately show ?thesis using assms(1,3) unfolding db' by (simp add: auth_ok_def one_code_def reasons_ok_def)
qed

lemma within_families: "within A db \<Longrightarrow> t \<in> set (refresh_tokens db) \<Longrightarrow> (rt_id t, familyId t) \<in> A"
  by (auto simp: within_def id_families_def)

text \<open>A new session opens a family no token has; the successor in a rotation takes over from the only live one.\<close>

lemma create_session_ok:
  assumes "nr_familyId t \<notin> snd ` A"
  shows "ensures (within A) (repo_createRefreshToken flt uuid now t) auth_ok"
proof (rule ensuresI)
  fix db assume ok: "within A db"
  let ?t = "new_refresh_token uuid now t"
  show "auth_ok (snd (repo_createRefreshToken flt uuid now t db))"
  proof (cases "repo_createRefreshToken flt uuid now t db")
    case (Pair r db')
    show ?thesis
    proof (cases r)
      case (Inl e)
      then show ?thesis using Pair ok by (auto simp: repo_createRefreshToken_def within_def dest: db_call_Inl_unchanged)
    next
      case (Inr x)
      then have ins: "insert_refresh_token ?t db = (Inr x, db')" using Pair by (simp add: repo_createRefreshToken_def db_call_Inr)
      have "familyId t' \<noteq> familyId ?t" if "t' \<in> set (refresh_tokens db)" for t'
        using within_families [OF ok that] assms by (force simp: new_refresh_token_def)
      then have "auth_ok db'" using ok by (intro append_token_ok [OF _ ins]) (auto simp: within_def new_refresh_token_def live_def)
      then show ?thesis using Pair by simp
    qed
  qed
qed

lemma update_token_row:
  assumes "update_refresh_token i g f db = (Inr x, db')"
  shows "\<exists>t \<in> set (refresh_tokens db). rt_id t = i \<and> g t \<and> x = f t \<and>
    db' = db\<lparr>refresh_tokens := map (\<lambda>r. if rt_id r = i then f r else r) (refresh_tokens db)\<rparr>"
  using assms by (auto simp: update_refresh_token_def update_rows_def split: option.splits if_splits dest: find_row_Some)

lemma rotation_ok:
  assumes ok: "within A db" and fam: "\<And>g. (i, g) \<in> A \<Longrightarrow> g = nr_familyId nxt"
    and ins: "insert_refresh_token (new_refresh_token uuid now nxt) db = (Inr c, db1)"
    and upd: "update_refresh_token i live (rotated_row now uuid) db1 = (Inr x, db')"
  shows "auth_ok db'"
proof -
  let ?n = "new_refresh_token uuid now nxt" and ?f = "\<lambda>r. if rt_id r = i then rotated_row now uuid r else r"
  note i = insert_token_row [OF ins]
  obtain t where t: "t \<in> set (refresh_tokens db1)" "rt_id t = i" "live t"
    and db': "db' = db1\<lparr>refresh_tokens := map ?f (refresh_tokens db1)\<rparr>"
    using update_token_row [OF upd] by blast
  have ts: "refresh_tokens db1 = refresh_tokens db @ [?n]" using i by simp
  have old: "auth_ok db" using ok by (simp add: within_def)
  have lone: "t' = t" if "t' \<in> set (refresh_tokens db)" "live t'" "familyId t' = nr_familyId nxt" "t \<in> set (refresh_tokens db)" for t'
  proof -
    have "familyId t = nr_familyId nxt" using fam [of "familyId t"] within_families [OF ok that(4)] t(2) by simp
    then show ?thesis using old that t(3) unfolding auth_ok_def one_live_def by metis
  qed
  have "one_live db'"
    unfolding one_live_def
  proof (intro ballI impI)
    fix a b assume "a \<in> set (refresh_tokens db')" "b \<in> set (refresh_tokens db')"
      and ab: "live a \<and> live b \<and> familyId a = familyId b"
    then obtain r q where "r \<in> set (refresh_tokens db1)" "a = ?f r" "q \<in> set (refresh_tokens db1)" "b = ?f q" unfolding db' by auto
    with ab have rq: "a \<in> set (refresh_tokens db1)" "rt_id a \<noteq> i" "b \<in> set (refresh_tokens db1)" "rt_id b \<noteq> i"
      by (auto simp: live_def rotated_row_def split: if_splits)
    have new: "y = ?n" if "y \<in> set (refresh_tokens db1)" "rt_id y \<noteq> i" "live y" "familyId y = nr_familyId nxt" "?n \<in> {a, b}" for y
    proof (rule ccontr)
      assume "y \<noteq> ?n"
      then have y: "y \<in> set (refresh_tokens db)" using that(1) ts by auto
      have "t \<noteq> ?n" using that(5) rq t(2) by auto
      then have "t \<in> set (refresh_tokens db)" using t(1) ts by auto
      then show False using lone [OF y that(3,4)] that(2) t(2) by simp
    qed
    show "a = b"
    proof (cases "?n \<in> {a, b}")
      case True
      then have "familyId a = nr_familyId nxt" "familyId b = nr_familyId nxt" using ab by (auto simp: new_refresh_token_def)
      then show ?thesis using new [OF rq(1,2)] new [OF rq(3,4)] ab True by simp
    next
      case False
      then have "a \<in> set (refresh_tokens db)" "b \<in> set (refresh_tokens db)" using rq ts by auto
      then show ?thesis using old ab unfolding auth_ok_def one_live_def by blast
    qed
  qed
  note live = this
  have same: "map rt_id (map ?f rs) = map rt_id rs" "map tokenHash (map ?f rs) = map tokenHash rs" for rs
    by (simp_all add: rotated_row_def)
  have "map rt_id (refresh_tokens db') = map rt_id (refresh_tokens db @ [?n])"
    "map tokenHash (refresh_tokens db') = map tokenHash (refresh_tokens db @ [?n])"
    unfolding db' using same [of "refresh_tokens db1"] ts by simp_all
  moreover have "verifications db' = verifications db" "auth_users db' = auth_users db" using i by (simp_all add: db')
  ultimately have "keys_ok db'" using old i unfolding auth_ok_def keys_ok_def by simp
  moreover have "owned db'" using old i unfolding db'
    by (auto simp: auth_ok_def owned_def user_exists_def new_refresh_token_def rotated_row_def)
  moreover have "reasons_ok db'" using old i unfolding db'
    by (auto simp: auth_ok_def reasons_ok_def new_refresh_token_def rotated_row_def live_def)
  moreover have "one_code db'" using old i unfolding db' by (simp add: auth_ok_def one_code_def)
  ultimately show ?thesis using live by (simp add: auth_ok_def)
qed

end
