(* ===== verification/AuthSessions.thy ===== *)
theory AuthSessions
  imports AuthInvariant
begin

text \<open>
  The operations of the auth service keep the invariant, with other requests committing between their database
  calls; and what refreshing, logging out and changing a password do to the sessions of an account.
\<close>

section \<open>Interference\<close>

text \<open>
  What a request assumes of the others: they keep the tables consistent, and as far as tokens go stay within the
  pairs of id and family in \<open>A\<close>; and between the two statements of a replacement of a code they issue none of
  that type for that account.
\<close>

definition calm :: "(string \<times> string) set \<Rightarrow> auth_env \<Rightarrow> bool" where
  "calm A E \<longleftrightarrow> (\<forall>n s. within A s \<longrightarrow> within A (ae_meanwhile E n s)) \<and> (\<forall>n s. auth_ok s \<longrightarrow> auth_ok (ae_meanwhile E n s)) \<and>
     spares_codes A (ae_between E) \<and> spares_codes UNIV (ae_between E)"

definition on_db :: "(auth_db \<Rightarrow> bool) \<Rightarrow> 'w \<times> auth_db \<Rightarrow> bool" where
  "on_db P s \<longleftrightarrow> P (snd s)"

lemma keeps_at_db: "keeps P m \<Longrightarrow> keeps (on_db P) (at_db m)"
  unfolding keeps_def at_db_def on_db_def by (auto split: prod.splits)

lemma keeps_at_world [keeps_intros]: "keeps (on_db P) (at_world m)"
  unfolding keeps_def at_world_def on_db_def by (auto split: prod.splits)

lemma keeps_call:
  assumes "\<And>n s. P s \<Longrightarrow> P (ae_meanwhile E n s)" and "keeps P (m (ae_fault E n))"
  shows "keeps (on_db P) (call E n m)"
  unfolding call_def using assms by (intro keeps_at_db keeps_and_then keeps_modify) auto

lemma auth_ok_within: "auth_ok = within UNIV"
  by (simp add: within_def fun_eq_iff)

lemma calm_UNIV: "calm A E \<Longrightarrow> calm UNIV E"
  by (simp add: calm_def auth_ok_within)

lemma keeps_call_within:
  "calm A E \<Longrightarrow> keeps (within A) (m (ae_fault E n)) \<Longrightarrow> keeps (on_db (within A)) (call E n m)"
  by (rule keeps_call) (simp add: calm_def)

lemma ensures_call:
  assumes "calm A E" and "ensures (within A) (m (ae_fault E n)) auth_ok"
  shows "ensures (on_db (within A)) (call E n m) (on_db auth_ok)"
proof (rule ensuresI)
  fix s :: "'w \<times> auth_db" assume "on_db (within A) s"
  moreover have "within A x \<Longrightarrow> within A (ae_meanwhile E n x)" for x using assms(1) by (simp add: calm_def)
  ultimately show "on_db auth_ok (snd (call E n m s))"
    using assms(2) by (cases s; cases n) (auto simp: call_def at_db_def on_db_def ensures_def and_then_def split: prod.split
        dest: eq_snd_iff [THEN iffD2, OF exI])
qed

section \<open>Parts of operations\<close>

lemma keeps_recordAttempt [keeps_intros]: "calm A E \<Longrightarrow> keeps (on_db (within A)) (recordAttempt E n i email outcome att meta)"
  unfolding recordAttempt_def by (intro keeps_call_within keeps_intros; assumption)

lemma keeps_dispatch [keeps_intros]: "calm A E \<Longrightarrow> keeps (on_db (within A)) (dispatchCode E n ports vid msg key)"
  unfolding dispatchCode_def by (intro keeps_intros keeps_call_within; assumption?)+

lemma calm_spares: "calm A E \<Longrightarrow> spares_codes A (ae_between E)"
  by (simp add: calm_def)

lemma keeps_issue [keeps_intros]: "calm A E \<Longrightarrow> keeps (on_db (within A)) (issueCode E n ports u ty)"
  unfolding issueCode_def Let_def by (intro keeps_intros keeps_call_within; (assumption | erule calm_spares)?)+

lemma keeps_consumeCode [keeps_intros]: "calm A E \<Longrightarrow> keeps (on_db (within A)) (consumeCode E n i ty pin)"
  unfolding consumeCode_def by (intro keeps_intros keeps_call_within; assumption?)+

lemma keeps_ensureProfile [keeps_intros]: "calm A E \<Longrightarrow> keeps (on_db (within A)) (ensureProfile E n rd ports u)"
  unfolding ensureProfile_def by (intro keeps_intros keeps_call_within; assumption?)+

lemma keeps_notify [keeps_intros]: "keeps (on_db (within A)) (notify ports msg)"
  unfolding notify_def by (intro keeps_intros)

lemma session_ok:
  "calm A E \<Longrightarrow> ae_uuid E (n + 1) \<notin> snd ` A \<Longrightarrow> ensures (on_db (within A)) (startSession E n u meta now) (on_db auth_ok)"
  unfolding startSession_def Let_def
  by (intro ensures_after ensures_call create_session_ok keeps_intros; simp add: session_record_def)

section \<open>Every operation\<close>

datatype auth_op =
  Register RegisterInput
| ResendVerification string
| VerifyEmail string string RequestMeta
| Login string string RequestMeta
| Refresh string RequestMeta
| Logout string
| LogoutAll string
| ForgotPassword string
| ResetPassword string string string
| ChangePassword string string string RequestMeta
| Reap ReaperOptions

definition done_with :: "('s, 'e, 'a) act \<Rightarrow> ('s, 'e, unit) act" where
  "done_with m = and_then m (\<lambda>_. ret ())"

fun run_op ::
  "auth_env \<Rightarrow> (json \<Rightarrow> PendingProfile option) \<Rightarrow> 'w auth_ports \<Rightarrow> auth_op \<Rightarrow> ('w \<times> auth_db, AppError, unit) act" where
  "run_op E rd ports (Register input) = done_with (register E ports input)"
| "run_op E rd ports (ResendVerification email) = resendVerification E ports email"
| "run_op E rd ports (VerifyEmail email pin meta) = done_with (verifyEmail E rd ports email pin meta)"
| "run_op E rd ports (Login email password meta) = done_with (login E rd ports email password meta)"
| "run_op E rd ports (Refresh token meta) = done_with (refresh E token meta)"
| "run_op E rd ports (Logout token) = logout E token"
| "run_op E rd ports (LogoutAll i) = done_with (logoutAll E i)"
| "run_op E rd ports (ForgotPassword email) = forgotPassword E ports email"
| "run_op E rd ports (ResetPassword email pin password) = resetPassword E ports email pin password"
| "run_op E rd ports (ChangePassword i current password meta) = done_with (changePassword E ports i current password meta)"
| "run_op E rd ports (Reap opts) = done_with (at_db
     (reap_runOnce (\<lambda>p k. ae_fault E (2 * p + k)) (ae_meanwhile E) (ae_now E 0) opts))"

text \<open>The ids and families a request may meet: no family is one of its own fresh UUIDs, and a token it can see keeps its family.\<close>

definition request_pairs :: "auth_env \<Rightarrow> auth_db \<Rightarrow> (string \<times> string) set" where
  "request_pairs E db = {(i, f). (\<forall>n. f \<noteq> ae_uuid E n) \<and> (\<forall>t \<in> set (refresh_tokens db). rt_id t = i \<longrightarrow> familyId t = f)}"

lemma request_pairs_fresh: "ae_uuid E n \<notin> snd ` request_pairs E db"
  by (auto simp: request_pairs_def)

lemma request_pairs_within:
  assumes "auth_ok db" and "\<And>t n. t \<in> set (refresh_tokens db) \<Longrightarrow> familyId t \<noteq> ae_uuid E n"
  shows "within (request_pairs E db) db"
proof -
  have "distinct (map rt_id (refresh_tokens db))" using assms(1) by (simp add: auth_ok_def keys_ok_def)
  then have "t = t'" if "t \<in> set (refresh_tokens db)" "t' \<in> set (refresh_tokens db)" "rt_id t = rt_id t'" for t t'
    using that by (metis find_row_distinct option.inject)
  then show ?thesis using assms by (auto simp: within_def id_families_def request_pairs_def)
qed

lemma ensures_branch:
  "(c \<Longrightarrow> ensures P m Q) \<Longrightarrow> (\<not> c \<Longrightarrow> ensures P n Q) \<Longrightarrow> ensures P (if c then m else n) Q"
  "ensures P m Q \<Longrightarrow> (\<And>a. ensures P (f a) Q) \<Longrightarrow> ensures P (case x of None \<Rightarrow> m | Some a \<Rightarrow> f a) Q"
  by (auto split: option.split)

lemma ensures_ok: "keeps (on_db (within A)) m \<Longrightarrow> ensures (on_db (within A)) m (on_db auth_ok)"
  by (rule ensures_keeps) (auto simp: on_db_def within_def)

lemma within_weaken: "on_db (within A) s \<Longrightarrow> on_db auth_ok s"
  by (simp add: on_db_def within_def)

lemma keeps_auth_ok: "calm A E \<Longrightarrow> (\<And>B. calm B E \<Longrightarrow> keeps (on_db (within B)) m) \<Longrightarrow> keeps (on_db auth_ok) m"
  using calm_UNIV by (simp add: auth_ok_within)

lemma ensures_login:
  assumes "calm A E" and "ae_uuid E 5 \<notin> snd ` A"
  shows "ensures (on_db (within A)) (login E rd ports email password meta) (on_db auth_ok)"
proof -
  have start: "ensures (on_db (within A)) (startSession E 4 u meta now) (on_db auth_ok)" for u now
    using session_ok [OF assms(1), of 4] assms(2) by simp
  have final: "ensures (on_db (within A)) (and_then (call E 1 (\<lambda>flt. registerSuccessfulLogin flt (au_id u) now)) (\<lambda>refreshed.
      and_then (recordAttempt E 2 (Some (au_id u)) email SUCCESS 1 meta) (\<lambda>_.
      and_then (ensureProfile E 3 rd ports refreshed) (\<lambda>handedOff.
      startSession E 4 handedOff meta now)))) (on_db auth_ok)" for u now
    by (intro ensures_and_then keeps_call_within keeps_intros start within_weaken assms(1); assumption)
  show ?thesis
    unfolding login_def Let_def
    by (intro ensures_and_then ensures_branch final ensures_ok keeps_call_within keeps_intros within_weaken assms(1); assumption?)
qed

lemma ensures_verifyEmail:
  assumes "calm A E" and "ae_uuid E 6 \<notin> snd ` A"
  shows "ensures (on_db (within A)) (verifyEmail E rd ports email pin meta) (on_db auth_ok)"
proof -
  have start: "ensures (on_db (within A)) (startSession E 5 u meta now) (on_db auth_ok)" for u now
    using session_ok [OF assms(1), of 5] assms(2) by simp
  have recd: "keeps (on_db auth_ok) (recordAttempt E n i email outcome att meta)" for n i email outcome att
    using keeps_recordAttempt [OF calm_UNIV [OF assms(1)]] by (simp add: auth_ok_within)
  have final: "ensures (on_db (within A)) (and_then (ensureProfile E 4 rd ports u) (\<lambda>handedOff.
      and_then (startSession E 5 handedOff meta now) (\<lambda>session.
      and_then (recordAttempt E 7 (Some i) mail SUCCESS 1 meta) (\<lambda>_. ret (session, au_userId handedOff \<noteq> None))))) (on_db auth_ok)"
    for u i mail now
    by (intro ensures_and_then [where P = "on_db (within A)"] ensures_after [OF start] keeps_intros recd within_weaken assms(1); assumption)
  show ?thesis
    unfolding verifyEmail_def Let_def
    by (intro ensures_and_then [where P = "on_db (within A)"] ensures_branch final ensures_ok keeps_call_within keeps_intros
        within_weaken assms(1); assumption?)
qed

lemma ensures_changePassword:
  assumes "calm A E" and "ae_uuid E 3 \<notin> snd ` A"
  shows "ensures (on_db (within A)) (changePassword E ports i current password meta) (on_db auth_ok)"
proof -
  have start: "ensures (on_db (within A)) (startSession E 2 u meta now) (on_db auth_ok)" for u now
    using session_ok [OF assms(1), of 2] assms(2) by simp
  have tail: "keeps (on_db auth_ok) ((\<lambda>(_, tokens). ret tokens) a)" for a :: "PublicAuthUser \<times> AuthTokens"
    by (cases a) (simp add: keeps_intros)
  have final: "ensures (on_db (within A)) (and_then (call E 1 (\<lambda>flt. updatePassword flt j h now)) (\<lambda>updated.
      and_then (notify ports msg) (\<lambda>_. and_then (startSession E 2 updated meta now) (\<lambda>(_, tokens). ret tokens)))) (on_db auth_ok)"
    for j h now msg
    by (intro ensures_and_then [where P = "on_db (within A)"] ensures_after [OF start tail] keeps_call_within keeps_intros
        within_weaken assms(1); assumption)
  show ?thesis
    unfolding changePassword_def Let_def
    by (intro ensures_and_then [where P = "on_db (within A)"] ensures_branch final ensures_ok keeps_call_within keeps_intros
        within_weaken assms(1); assumption?)
qed

lemma rotate_ensures:
  assumes "\<And>g. (i, g) \<in> A \<Longrightarrow> g = nr_familyId nxt"
  shows "ensures (within A) (rotateRefreshToken flt uuid now i nxt) auth_ok"
proof (rule ensuresI)
  fix db assume ok: "within A db"
  show "auth_ok (snd (rotateRefreshToken flt uuid now i nxt db))"
  proof (cases "rotateRefreshToken flt uuid now i nxt db")
    case (Pair r db')
    show ?thesis
    proof (cases r)
      case (Inl e)
      then show ?thesis using Pair ok by (auto simp: rotateRefreshToken_def within_def dest: db_call_Inl_unchanged)
    next
      case (Inr x)
      then obtain c db1 y where run: "insert_refresh_token (new_refresh_token uuid now nxt) db = (Inr c, db1)"
        "update_refresh_token i live (rotated_row now (rt_id c)) db1 = (Inr y, db')"
        using Pair by (auto simp: rotateRefreshToken_def db_call_Inr and_then_Inr_iff)
      moreover have "rt_id c = uuid" using insert_token_row [OF run(1)] by (simp add: new_refresh_token_def)
      ultimately show ?thesis using rotation_ok [OF ok assms run(1)] Pair by simp
    qed
  qed
qed

lemma refresh_lookup:
  "ae_fault E 0 = None \<Longrightarrow> refresh E token meta (w, db) =
     (case find_row tokenHash (hashRefreshToken E token) (refresh_tokens db) of
        None \<Rightarrow> (Inl invalidSessionError, (w, db)) | Some t \<Rightarrow> refresh_found E t meta (w, db))"
  by (simp add: refresh_def call_def at_db_def findRefreshTokenByHash_def and_then_def split: option.split)

lemma ensures_refresh_found:
  assumes "calm A E" and "\<And>g. (rt_id t, g) \<in> A \<Longrightarrow> g = familyId t"
  shows "ensures (on_db (within A)) (refresh_found E t meta) (on_db auth_ok)"
proof -
  have "ensures (within A) (rotateRefreshToken flt uuid now (rt_id t) (session_record u (familyId t) nxt meta)) auth_ok"
    for flt uuid now u nxt
    using assms(2) by (intro rotate_ensures) (simp add: session_record_def)
  then have "ensures (on_db (within A)) (call E n (\<lambda>flt. rotateRefreshToken flt uuid now (rt_id t)
      (session_record u (familyId t) nxt meta))) (on_db auth_ok)" for n uuid now u nxt
    by (rule ensures_call [OF assms(1)])
  then have rot: "ensures (on_db (within A)) (and_then (call E n (\<lambda>flt. rotateRefreshToken flt uuid now (rt_id t)
      (session_record u (familyId t) nxt meta))) (\<lambda>_. and_then (lift r) (\<lambda>access. ret (f access)))) (on_db auth_ok)"
    for n uuid now u nxt and r :: "AppError + 'c" and f :: "'c \<Rightarrow> AuthTokens"
    by (rule ensures_after) (intro keeps_intros)
  show ?thesis
    unfolding refresh_found_def Let_def
    by (intro ensures_branch rot ensures_ok [OF keeps_and_then] ensures_and_then [where P = "on_db (within A)"] ensures_ok
        keeps_call_within keeps_intros within_weaken assms(1); assumption?)
qed

lemma ensures_refresh:
  assumes calm: "calm (request_pairs E db) E" and ok: "within (request_pairs E db) db"
  shows "auth_ok (snd (snd (refresh E token meta (w, db))))"
proof (cases "ae_fault E 0")
  case (Some e)
  then show ?thesis using ok by (simp add: refresh_def call_def at_db_def findRefreshTokenByHash_def and_then_def within_def)
next
  case None
  show ?thesis
  proof (cases "find_row tokenHash (hashRefreshToken E token) (refresh_tokens db)")
    case (Some t)
    then have "g = familyId t" if "(rt_id t, g) \<in> request_pairs E db" for g
      using that find_row_SomeD(1) [OF Some] by (auto simp: request_pairs_def)
    then have "on_db auth_ok (snd (refresh_found E t meta (w, db)))"
      using ok by (intro ensuresD [OF ensures_refresh_found [OF calm]]) (auto simp: on_db_def)
    then show ?thesis using Some by (simp add: refresh_lookup [OF None] on_db_def)
  qed (use ok None in \<open>simp add: refresh_lookup within_def\<close>)
qed

lemma keeps_others:
  assumes "calm A E"
  shows "keeps (on_db (within A)) (register E ports input)" "keeps (on_db (within A)) (resendVerification E ports email)"
    "keeps (on_db (within A)) (logout E token)" "keeps (on_db (within A)) (logoutAll E i)"
    "keeps (on_db (within A)) (forgotPassword E ports email)" "keeps (on_db (within A)) (resetPassword E ports email pin password)"
  unfolding register_def resendVerification_def logout_def logoutAll_def forgotPassword_def resetPassword_def Let_def case_prod_beta
  by (intro keeps_intros keeps_call_within assms)+

lemma keeps_purges:
  assumes "\<And>p s. within A s \<Longrightarrow> within A (meanwhile p s)"
  shows "keeps (within A) (reap_runOnce flt meanwhile now opts)"
proof -
  have sweep: "keeps (within A) (transaction f (\<lambda>db. (Inr (k db), db\<lparr>refresh_tokens := filter (P db) (refresh_tokens db)\<rparr>)) :: (auth_db, thrown, nat) act)"
    "keeps (within A) (transaction f (\<lambda>db. (Inr (k db), db\<lparr>verifications := filter (R db) (verifications db)\<rparr>)) :: (auth_db, thrown, nat) act)"
    "keeps (within A) (transaction f (\<lambda>db. (Inr (k db), db\<lparr>login_history := h db\<rparr>)) :: (auth_db, thrown, nat) act)" for f k P R h
    by (rule keeps_transaction, rule keepsI, simp add: filter_tokens_ok filter_codes_ok history_ok)+
  show ?thesis
    unfolding reap_runOnce_def purgeRefreshTokens_def deleteRefreshTokensWhere_def purgeVerifications_def purgeLoginHistory_def case_prod_beta
    by (intro keeps_intros keeps_modify assms sweep)
qed

text \<open>
  Property C22. The session and code tables stay sound under every operation of the service, with any number of other
  requests committing between its database calls and, where a code is replaced, between the statements of that
  transaction: keys stay unique, no family of refresh tokens has two live members, no account has two pending codes of
  one type, and a token carries a reason exactly when it is revoked. The others must keep the tables sound too, never
  use this request's fresh UUIDs, never give a token id another family, and must not issue a code of the same type for the
  same account between the two statements of this request's replacement: at the isolation level the code runs at, nothing
  prevents that, and lemma \<open>interleaved_replacements\<close> shows the two pending codes it leaves.
\<close>

theorem sessions_sound:
  assumes "auth_ok db" and "\<forall>t \<in> set (refresh_tokens db). \<forall>n. familyId t \<noteq> ae_uuid E n" and "calm (request_pairs E db) E"
  shows "auth_ok (snd (snd (run_op E rd ports op (w, db))))"
proof -
  let ?A = "request_pairs E db"
  have ok: "within ?A db" using assms(1,2) by (intro request_pairs_within) auto
  have drop: "auth_ok (snd (snd (done_with m (w, db))))" if "auth_ok (snd (snd (m (w, db))))" for m :: "('a \<times> auth_db, AppError, 'b) act"
    using that by (auto simp: done_with_def and_then_def split: prod.split sum.split)
  have by_keeps: "auth_ok (snd (snd (m (w, db))))" if "keeps (on_db (within ?A)) m" for m :: "('a \<times> auth_db, AppError, 'b) act"
    using keepsD [OF that, of "(w, db)"] ok by (simp add: on_db_def within_def)
  have by_ensures: "auth_ok (snd (snd (m (w, db))))" if "ensures (on_db (within ?A)) m (on_db auth_ok)"
    for m :: "('a \<times> auth_db, AppError, 'b) act"
    using ensuresD [OF that, of "(w, db)"] ok by (simp add: on_db_def)
  note kept = keeps_others [OF assms(3)] and fresh = request_pairs_fresh
  show ?thesis
  proof (cases op)
    case (Reap opts)
    have "keeps (within ?A) (reap_runOnce (\<lambda>p k. ae_fault E (2 * p + k)) (ae_meanwhile E) (ae_now E 0) opts)"
      using assms(3) by (intro keeps_purges) (simp add: calm_def)
    then show ?thesis unfolding Reap run_op.simps by (intro drop by_keeps keeps_at_db)
  qed (auto intro!: drop by_keeps [OF kept(1)] by_keeps [OF kept(2)] by_keeps [OF kept(3)] by_keeps [OF kept(4)] by_keeps [OF kept(5)]
      by_keeps [OF kept(6)] by_ensures [OF ensures_login] by_ensures [OF ensures_verifyEmail] by_ensures [OF ensures_changePassword]
      ensures_refresh assms(3) ok fresh)
qed

definition sample_options :: AuthServiceOptions where
  "sample_options = \<lparr>verificationTtlMinutes = 15, verificationMaxAttempts = 3, resendCooldownSeconds = 60,
     maxFailedLoginAttempts = 3, lockDurationMinutes = 15\<rparr>"

definition sample_env :: auth_env where
  "sample_env = \<lparr>ae_fault = (\<lambda>n. None), ae_meanwhile = (\<lambda>n db. db), ae_between = (\<lambda>i ty db. db), ae_now = (\<lambda>n. 1000), ae_uuid = (\<lambda>n. CHR ''n'' # replicate n CHR ''x''),
     ae_randomToken = ''tok2'', ae_randomInt = 42, sha256 = (\<lambda>s. CHR ''h'' # s), argon2_hash = (\<lambda>p. Inr (CHR ''a'' # p)),
     argon2_verify = (\<lambda>d p. Inr (d = CHR ''a'' # p)), jwt_sign = (\<lambda>p. Some ''jwt''), ACCESS_TOKEN_TTL_MINUTES = 15,
     REFRESH_TOKEN_TTL_DAYS = 30, JWT_ISSUER = ''auth'', JWT_AUDIENCE = ''api'', APP_NAME = ''Shop'', ae_options = sample_options\<rparr>"

definition sample_account :: AuthUser where
  "sample_account = (new_auth_user ''u1'' 0 \<lparr>nu_email = ''a@b.co'', nu_username = ''ann'', nu_passwordHash = ''asecret'',
     nu_pendingProfile = JNull\<rparr>)\<lparr>au_verified := True\<rparr>"

definition sample_token :: RefreshToken where
  "sample_token = new_refresh_token ''r1'' 0 \<lparr>nr_authUserId = ''u1'', nr_tokenHash = ''htok1'', nr_familyId = ''f1'',
     nr_expiresAt = 5000, nr_ip = None, nr_userAgent = None\<rparr>"

definition sample_auth_db :: auth_db where
  "sample_auth_db = \<lparr>auth_users = [sample_account], verifications = [], login_history = [], refresh_tokens = [sample_token]\<rparr>"

definition sample_meta :: RequestMeta where
  "sample_meta = \<lparr>meta_ip = None, meta_userAgent = None\<rparr>"

definition no_ports :: "unit auth_ports" where
  "no_ports = \<lparr>mail_enqueue = (\<lambda>m k. ret None), profile_create = (\<lambda>p. throw (ServiceUnavailableError ''down'')),
     profile_find = (\<lambda>i. ret None)\<rparr>"

lemma sample_db_ok: "auth_ok sample_auth_db"
  by (simp add: auth_ok_defs sample_auth_db_def sample_account_def sample_token_def new_auth_user_def new_refresh_token_def live_def)

text \<open>Another request logs the account out while this one is about to rotate.\<close>

definition sample_race :: auth_env where
  "sample_race = sample_env\<lparr>ae_meanwhile := \<lambda>n db. if n = 2 then snd (revoke_where (\<lambda>t. True) 900 LOGOUT_ALL db) else db\<rparr>"

lemma sample_race_calm: "calm A sample_race"
proof -
  have "within B (snd (revoke_where (\<lambda>t. True) 900 LOGOUT_ALL s))" if "within B s" for B s
    using revoke_where_ok [OF that, of "\<lambda>t. True" 900 LOGOUT_ALL] by (simp add: revoke_where_def)
  moreover have "spares_codes B (ae_between sample_race)" for B
    by (simp add: spares_codes_def sample_race_def sample_env_def)
  ultimately show ?thesis by (simp add: calm_def sample_race_def auth_ok_within)
qed

theorem sessions_sound_witness:
  "auth_ok (snd (snd (run_op sample_race (\<lambda>j. None) no_ports (Refresh ''tok1'' sample_meta) ((), sample_auth_db)))) \<and>
   length (refresh_tokens (snd (snd (run_op sample_race (\<lambda>j. None) no_ports (Refresh ''tok1'' sample_meta) ((), sample_auth_db))))) = 1"
proof -
  have "\<forall>t \<in> set (refresh_tokens sample_auth_db). \<forall>n. familyId t \<noteq> ae_uuid sample_race n"
    by (simp add: sample_auth_db_def sample_token_def new_refresh_token_def sample_race_def sample_env_def)
  moreover have "length (refresh_tokens (snd (snd (run_op sample_race (\<lambda>j. None) no_ports (Refresh ''tok1'' sample_meta) ((), sample_auth_db))))) = 1"
    by code_simp
  ultimately show ?thesis by (intro conjI sessions_sound sample_db_ok sample_race_calm)
qed

section \<open>Without serializable isolation\<close>

text \<open>
  The last proviso of \<open>calm\<close> is needed: when another replacement of the same code commits between the revocation and the
  insert of this one, both codes stay pending, although a transaction surrounds each. (With a code already
  pending the second revocation waits for the first transaction, and still does not see its insert.)
\<close>

lemma revoked_rows:
  "map vf_id (verifications (snd (revoke_pending i ty db))) = map vf_id (verifications db)"
  "filter (pending_of i ty) (verifications (snd (revoke_pending i ty db))) = []"
  "user_exists j (snd (revoke_pending i ty db)) = user_exists j db"
proof -
  let ?r = "\<lambda>u. if pending_of i ty u then u\<lparr>vf_status := V_REVOKED\<rparr> else u"
  have rows: "verifications (snd (revoke_pending i ty db)) = map ?r (verifications db)"
    by (simp add: revoke_pending_def modify_def)
  have gone: "\<not> pending_of i ty (?r u)" "vf_id (?r u) = vf_id u" for u by (simp_all add: pending_of_def)
  show "map vf_id (verifications (snd (revoke_pending i ty db))) = map vf_id (verifications db)"
    "filter (pending_of i ty) (verifications (snd (revoke_pending i ty db))) = []"
    unfolding rows filter_empty_conv set_map using gone by (simp, blast)
  show "user_exists j (snd (revoke_pending i ty db)) = user_exists j db"
    by (simp add: revoke_pending_def modify_def user_exists_def)
qed

lemma replaceVerification_runs:
  assumes "user_exists i (between i (nv_type v) (snd (revoke_pending i (nv_type v) db)))"
    and "uuid \<notin> vf_id ` set (verifications (between i (nv_type v) (snd (revoke_pending i (nv_type v) db))))"
  shows "replaceVerification None between uuid now i v db =
    (Inr (new_verification uuid now i v),
     (between i (nv_type v) (snd (revoke_pending i (nv_type v) db)))\<lparr>verifications :=
        verifications (between i (nv_type v) (snd (revoke_pending i (nv_type v) db))) @ [new_verification uuid now i v]\<rparr>)"
  using assms
  by (simp add: replaceVerification_def db_call_def attempt_def transaction_def revoke_pending_def insert_verification_def
      unique_violation_def and_then_def modify_def) (simp add: new_verification_def)

lemma interleaved_replacements:
  assumes "user_exists i db" "uuid \<noteq> uuid'" "uuid \<notin> vf_id ` set (verifications db)" "uuid' \<notin> vf_id ` set (verifications db)"
    and "nv_type v = ty" "nv_type v' = ty"
  shows "filter (pending_of i ty) (verifications (snd
           (replaceVerification None (\<lambda>i ty d. snd (replaceVerification None (\<lambda>_ _. id) uuid' now' i v' d)) uuid now i v db)))
         = [new_verification uuid' now' i v', new_verification uuid now i v]"
proof -
  let ?d1 = "snd (revoke_pending i ty db)" let ?d2 = "snd (revoke_pending i ty ?d1)"
  have ids: "vf_id ` set (verifications ?d1) = vf_id ` set (verifications db)"
    "vf_id ` set (verifications ?d2) = vf_id ` set (verifications db)"
    by (simp_all only: flip: set_map) (simp_all only: revoked_rows)
  let ?other = "snd (replaceVerification None (\<lambda>_ _. id) uuid' now' i v' ?d1)"
  have other: "?other = ?d2\<lparr>verifications := verifications ?d2 @ [new_verification uuid' now' i v']\<rparr>"
    using assms ids replaceVerification_runs [of i "\<lambda>_ _. id" v' ?d1 uuid' now'] by (simp add: revoked_rows)
  have "user_exists i ?other" "uuid \<notin> vf_id ` set (verifications ?other)"
    using assms(1-3) ids revoked_rows(3) [of i i ty ?d1] revoked_rows(3) [of i i ty db]
    by (simp_all add: other new_verification_def) (simp add: user_exists_def)
  then show ?thesis
    using assms(5,6) replaceVerification_runs [of i "\<lambda>i ty d. snd (replaceVerification None (\<lambda>_ _. id) uuid' now' i v' d)" v db uuid now]
    by (simp add: other revoked_rows) (simp add: new_verification_def pending_of_def)
qed

end
