(* ===== verification/AuthProperties.thy ===== *)
theory AuthProperties
  imports AuthSessions
begin

text \<open>
  What the auth service promises its users, on requests the database accepts and nobody interferes with (\<open>quiet\<close>):
  a stolen refresh token ends its family, a login is decided by password, lock, status and verification and
  accounted for, failures lock an account, wrong guesses burn a code, answers do not tell whether an address
  has an account, and a new password ends every other session.
\<close>

definition quiet :: "auth_env \<Rightarrow> bool" where
  "quiet E \<longleftrightarrow> (\<forall>n. ae_fault E n = None) \<and> (\<forall>n. ae_meanwhile E n = id) \<and> (\<forall>i ty. ae_between E i ty = id)"

lemma call_quiet: "quiet E \<Longrightarrow> call E n m (w, db) = (case m None db of (r, db') \<Rightarrow> (r, (w, db')))"
  by (simp add: call_def at_db_def quiet_def)

lemma call_read:
  "quiet E \<Longrightarrow> call E n (\<lambda>flt. findAuthUserByEmail flt e) (w, db) = (Inr (find_row au_email e (auth_users db)), (w, db))"
  "quiet E \<Longrightarrow> call E n (\<lambda>flt. findAuthUserById flt e) (w, db) = (Inr (find_row au_id e (auth_users db)), (w, db))"
  "quiet E \<Longrightarrow> call E n (\<lambda>flt. findActiveVerification flt e ty) (w, db) = (Inr (newest_pending e ty db), (w, db))"
  by (simp_all add: call_quiet findAuthUserByEmail_def findAuthUserById_def findActiveVerification_def)

section \<open>Refresh tokens\<close>









definition sample_thief :: auth_env where
  "sample_thief = sample_env\<lparr>ae_uuid := (\<lambda>n. CHR ''m'' # replicate n CHR ''x''), ae_randomToken := ''tok3'', ae_now := (\<lambda>n. 2000)\<rparr>"

lemma sample_quiet: "quiet sample_env" "quiet sample_thief"
  by (simp_all add: quiet_def sample_env_def sample_thief_def id_def fun_eq_iff)

lemma not_isl: "\<not> isl (fst r) \<Longrightarrow> \<exists>a w db. r = (Inr a, (w, db))"
  by (metis isl_def prod.collapse sum.exhaust)


section \<open>Logging in\<close>

text \<open>The cause a login ends with, read off the tables: the reference the audit trail is compared with.\<close>

definition login_outcome :: "auth_env \<Rightarrow> auth_db \<Rightarrow> string \<Rightarrow> string \<Rightarrow> LoginOutcome" where
  "login_outcome E db email password = (case find_row au_email email (auth_users db) of
     None \<Rightarrow> UNKNOWN_EMAIL
   | Some u \<Rightarrow>
       (if argon2_verify E (passwordHash u) password \<noteq> Inr True then INVALID_CREDENTIALS
        else if (case lockedUntil u of None \<Rightarrow> False | Some t \<Rightarrow> ae_now E 1 < t) then ACCOUNT_LOCKED
        else if au_status u \<noteq> ACTIVE then ACCOUNT_INACTIVE
        else if \<not> au_verified u then NOT_VERIFIED
        else SUCCESS))"

definition history_row :: "auth_env \<Rightarrow> nat \<Rightarrow> string option \<Rightarrow> string \<Rightarrow> LoginOutcome \<Rightarrow> int \<Rightarrow> RequestMeta \<Rightarrow> LoginHistory" where
  "history_row E n i email outcome att meta = \<lparr>lh_id = ae_uuid E n, lh_authUserId = i, lh_email = email,
     lh_success = (outcome = SUCCESS), lh_outcome = outcome, lh_attempt = att, lh_ip = meta_ip meta,
     lh_userAgent = meta_userAgent meta, loginAt = ae_now E n\<rparr>"

definition logged :: "LoginHistory \<Rightarrow> auth_db \<Rightarrow> auth_db" where
  "logged row db = db\<lparr>login_history := login_history db @ [row]\<rparr>"

lemma recordAttempt_run:
  assumes "quiet E" and "ae_uuid E n \<notin> lh_id ` set (login_history db)" and "i = None \<or> user_exists (the i) db"
  shows "recordAttempt E n i email outcome att meta (w, db) =
    (Inr (history_row E n i email outcome att meta), (w, logged (history_row E n i email outcome att meta) db))"
  using assms by (auto simp: recordAttempt_def call_quiet [OF assms(1)] recordLoginAttempt_def db_call_def attempt_def transaction_def
      unique_violation_def history_row_def logged_def Let_def split: option.split)

lemma logged_simps [simp]:
  "auth_users (logged row db) = auth_users db" "refresh_tokens (logged row db) = refresh_tokens db"
  "verifications (logged row db) = verifications db" "login_history (logged row db) = login_history db @ [row]"
  "user_exists i (logged row db) = user_exists i db"
  by (simp_all add: logged_def user_exists_def)

definition with_user :: "string \<Rightarrow> (AuthUser \<Rightarrow> AuthUser) \<Rightarrow> auth_db \<Rightarrow> auth_db" where
  "with_user i f db = db\<lparr>auth_users := update_rows au_id i f (auth_users db)\<rparr>"

lemma update_user_run:
  "find_row au_id i (auth_users db) = Some u \<Longrightarrow> db_call None (update_auth_user i f) db = (Inr (f u), with_user i f db)"
  by (simp add: db_call_def attempt_def transaction_def update_auth_user_def with_user_def)

lemma with_user_simps [simp]:
  "login_history (with_user i f db) = login_history db" "refresh_tokens (with_user i f db) = refresh_tokens db"
  "verifications (with_user i f db) = verifications db"
  by (simp_all add: with_user_def)

lemma with_user_exists [simp]: "(\<And>u. au_id (f u) = au_id u) \<Longrightarrow> user_exists j (with_user i f db) = user_exists j db"
  using map_key_update_rows [of au_id f au_id i "auth_users db"] by (simp add: user_exists_def with_user_def del: set_map)

lemma email_id:
  assumes "auth_ok db" and "find_row au_email e (auth_users db) = Some u"
  shows "find_row au_id (au_id u) (auth_users db) = Some u" and "user_exists (au_id u) db"
  using assms find_row_SomeD(1) [OF assms(2)] by (auto simp: auth_ok_def keys_ok_def user_exists_def intro: find_row_distinct)

text \<open>The hand-off touches nothing but the account's row, and never fails its caller.\<close>

lemma attachProfile_frame:
  assumes "attachProfile None i pid db = (Inr u, db')"
  shows "\<exists>us. db' = db\<lparr>auth_users := us\<rparr> \<and> map au_id us = map au_id (auth_users db) \<and> au_id u = i"
proof -
  let ?f = "\<lambda>u. u\<lparr>au_userId := Some pid, pendingProfile := None\<rparr>"
  have "update_auth_user i ?f db = (Inr u, db')"
    using assms by (auto simp: attachProfile_def db_call_Inr split: option.splits)
  moreover have "map au_id (update_rows au_id i ?f (auth_users db)) = map au_id (auth_users db)"
    by (rule map_key_update_rows) simp
  ultimately obtain x where "find_row au_id i (auth_users db) = Some x" and u: "u = ?f x"
    and "db' = db\<lparr>auth_users := update_rows au_id i ?f (auth_users db)\<rparr>"
    and "map au_id (update_rows au_id i ?f (auth_users db)) = map au_id (auth_users db)"
    by (auto simp: update_auth_user_def split: option.splits)
  moreover have "au_id u = i" using find_row_SomeD(2) [OF calculation(1)] by (simp add: u)
  ultimately show ?thesis by blast
qed

lemma ensureProfile_frame:
  assumes "quiet E"
  shows "\<exists>u' w' us. ensureProfile E n rd ports u (w, db) = (Inr u', (w', db\<lparr>auth_users := us\<rparr>)) \<and> au_id u' = au_id u \<and>
    map au_id us = map au_id (auth_users db)"
proof -
  have same: "\<exists>us. db = db\<lparr>auth_users := us\<rparr> \<and> map au_id us = map au_id (auth_users db)" by (intro exI [of _ "auth_users db"]) simp
  let ?attach = "\<lambda>pid. call E n (\<lambda>flt. attachProfile flt (au_id u) pid)"
  have att: "\<exists>us. db1 = db\<lparr>auth_users := us\<rparr> \<and> map au_id us = map au_id (auth_users db) \<and> w1 = w' \<and> (\<forall>u'. r = Inr u' \<longrightarrow> au_id u' = au_id u)"
    if "?attach pid (w', db) = (r, (w1, db1))" for pid w' r w1 db1
  proof (cases r)
    case (Inl e)
    then show ?thesis using that same assms
      by (auto simp: call_quiet attachProfile_def split: prod.splits dest!: db_call_Inl_unchanged)
  next
    case (Inr u')
    then show ?thesis using that attachProfile_frame [of "au_id u" pid db u' db1] assms by (auto simp: call_quiet split: prod.splits)
  qed
  have body: "\<exists>u' w' us. catching (and_then m ?attach) (\<lambda>_. ret u) (w, db) = (Inr u', (w', db\<lparr>auth_users := us\<rparr>)) \<and> au_id u' = au_id u \<and>
      map au_id us = map au_id (auth_users db)"
    if ex: "\<exists>r w1. m (w, db) = (r, (w1, db))" for m :: "('a \<times> auth_db, AppError, string) act"
  proof -
    obtain r w1 where m: "m (w, db) = (r, (w1, db))" using ex by blast
    show ?thesis
    proof (cases r)
      case (Inl e)
      then show ?thesis using m same by (auto simp: catching_def and_then_def)
    next
      case (Inr pid)
      obtain r' w2 db2 where c: "?attach pid (w1, db) = (r', (w2, db2))" by (cases "?attach pid (w1, db)") auto
      from att [OF c] show ?thesis using m Inr c by (cases r') (auto simp: catching_def and_then_def)
    qed
  qed
  have world: "\<exists>r w1. catching (at_world a) h (w, db) = (r, (w1, db))"
    if "\<And>e w. \<exists>r w1. h e (w, db) = (r, (w1, db))" for a :: "('a, AppError, string) act" and h
    using that by (auto simp: catching_def at_world_def split: prod.split sum.split)
  have find: "\<exists>r w1. (if c then throw e else and_then (at_world a) (\<lambda>ex. case ex of None \<Rightarrow> throw e | Some pid \<Rightarrow> ret pid)) (w2, db) = (r, (w1, db))"
    for c e w2 and a :: "('a, AppError, string option) act"
    by (auto simp: and_then_def at_world_def split: prod.split sum.split option.split)
  show ?thesis
  proof (cases "(au_userId u \<noteq> None \<and> au_userId u \<noteq> Some '''') \<or> Option.bind (pendingProfile u) rd = None")
    case True
    then show ?thesis using same by (auto simp: ensureProfile_def)
  next
    case False
    then obtain p where "Option.bind (pendingProfile u) rd = Some p" and "\<not> (au_userId u \<noteq> None \<and> au_userId u \<noteq> Some '''')" by blast
    then have shape: "ensureProfile E n rd ports u = catching (and_then (catching
        (at_world (profile_create ports \<lparr>cp_authUserId = au_id u, cp_name = pp_name p, cp_email = au_email u,
           cp_address = pp_address p, cp_phone = pp_phone p\<rparr>))
        (\<lambda>e. if errname e \<noteq> ''ConflictError'' then throw e
           else and_then (at_world (profile_find ports (au_id u))) (\<lambda>ex. case ex of None \<Rightarrow> throw e | Some pid \<Rightarrow> ret pid))) ?attach) (\<lambda>_. ret u)"
      unfolding ensureProfile_def by auto
    show ?thesis unfolding shape by (rule body, rule world, rule find)
  qed
qed

lemma startSession_run:
  assumes "quiet E" and "user_exists (au_id u) db" and "ae_uuid E n \<notin> rt_id ` set (refresh_tokens db)"
    and "sha256 E (ae_randomToken E) \<notin> tokenHash ` set (refresh_tokens db)"
    and "jwt_sign E (jwt_payload E u (ae_uuid E (n + 1)) now) = Some jwt"
  shows "startSession E n u meta now (w, db) =
    (Inr (toPublicAuthUser u, \<lparr>accessToken = jwt, refreshToken = ae_randomToken E, expiresIn = ACCESS_TOKEN_TTL_MINUTES E * 60\<rparr>),
     (w, db\<lparr>refresh_tokens := refresh_tokens db @
        [new_refresh_token (ae_uuid E n) (ae_now E n) (session_record u (ae_uuid E (n + 1)) (createRefreshToken E now) meta)]\<rparr>))"
proof -
  have "call E n (\<lambda>flt. repo_createRefreshToken flt (ae_uuid E n) (ae_now E n) (session_record u (ae_uuid E (n + 1)) (createRefreshToken E now) meta)) (w, db) =
      (Inr (new_refresh_token (ae_uuid E n) (ae_now E n) (session_record u (ae_uuid E (n + 1)) (createRefreshToken E now) meta)),
       (w, db\<lparr>refresh_tokens := refresh_tokens db @
        [new_refresh_token (ae_uuid E n) (ae_now E n) (session_record u (ae_uuid E (n + 1)) (createRefreshToken E now) meta)]\<rparr>))"
    using assms(2-4) by (simp add: call_quiet [OF assms(1)] repo_createRefreshToken_def db_call_def attempt_def transaction_def
        insert_refresh_token_def unique_violation_def new_refresh_token_def session_record_def createRefreshToken_def)
  then show ?thesis
    using assms(5) by (simp add: startSession_def Let_def and_then_def signAccessToken_def token_pair_def createRefreshToken_def)
qed

text \<open>How each way out of a login answers; an unknown address and a wrong password answer alike.\<close>

fun login_error :: "auth_env \<Rightarrow> LoginOutcome \<Rightarrow> AppError" where
  "login_error E ACCOUNT_LOCKED = TooManyRequestsError (''Too many failed attempts. Try again after '' @
     int_str (lockDurationMinutes (ae_options E)) @ '' minutes, or reset your password.'')"
| "login_error E ACCOUNT_INACTIVE = ForbiddenError ''This account is not active. Contact support.''"
| "login_error E NOT_VERIFIED = ForbiddenError ''Verify your email address before signing in. Request a new code.''"
| "login_error E _ = invalidCredentialsError"

definition lock_after :: "auth_env \<Rightarrow> AuthUser \<Rightarrow> int option" where
  "lock_after E u = (if failedLoginAttempts u + 1 \<ge> maxFailedLoginAttempts (ae_options E)
     then Some (ae_now E 1 + lockDurationMinutes (ae_options E) * MINUTE_MS) else None)"

abbreviation locked_at :: "AuthUser \<Rightarrow> int \<Rightarrow> bool" where
  "locked_at u now \<equiv> (case lockedUntil u of None \<Rightarrow> False | Some t \<Rightarrow> now < t)"

lemma login_unknown:
  assumes "quiet E" and "ae_uuid E 1 \<notin> lh_id ` set (login_history db)" and "find_row au_email email (auth_users db) = None"
  shows "login E rd ports email password meta (w, db) =
    (Inl invalidCredentialsError, (w, logged (history_row E 1 None email UNKNOWN_EMAIL 1 meta) db))"
  using assms(3) by (simp add: login_def and_then_step call_read [OF assms(1)] recordAttempt_run [OF assms(1,2)] del: One_nat_def)

lemma login_wrong:
  assumes "quiet E" and "find_row au_email email (auth_users db) = Some u" and "find_row au_id (au_id u) (auth_users db) = Some u"
    and "argon2_verify E (passwordHash u) password = Inr False"
  shows "login E rd ports email password meta (w, db) =
    and_then (recordAttempt E 2 (Some (au_id u)) email INVALID_CREDENTIALS (failedLoginAttempts u + 1) meta) (\<lambda>_. throw invalidCredentialsError)
      (w, with_user (au_id u) (failed_login_row (lock_after E u)) db)"
  using assms(2-4)
  by (simp add: login_def and_then_step call_read [OF assms(1)] verifyPassword_def call_quiet [OF assms(1)] registerFailedLogin_def
      update_user_run [OF assms(3)] lock_after_def Let_def del: One_nat_def)

lemma login_refused:
  assumes "quiet E" and "ae_uuid E 1 \<notin> lh_id ` set (login_history db)" and "user_exists (au_id u) db"
    and "find_row au_email email (auth_users db) = Some u" and "argon2_verify E (passwordHash u) password = Inr True"
    and "login_outcome E db email password \<noteq> SUCCESS"
  shows "login E rd ports email password meta (w, db) =
    (Inl (login_error E (login_outcome E db email password)),
     (w, logged (history_row E 1 (Some (au_id u)) email (login_outcome E db email password) (failedLoginAttempts u) meta) db))"
proof -
  have rec: "recordAttempt E 1 (Some (au_id u)) email out (failedLoginAttempts u) meta (w, db) =
      (Inr (history_row E 1 (Some (au_id u)) email out (failedLoginAttempts u) meta),
       (w, logged (history_row E 1 (Some (au_id u)) email out (failedLoginAttempts u) meta) db))" for out
    by (simp add: recordAttempt_run [OF assms(1,2)] assms(3) del: One_nat_def)
  show ?thesis
    using assms(4-6) by (simp add: login_def login_outcome_def and_then_step call_read [OF assms(1)] verifyPassword_def rec
        del: One_nat_def split: if_split_asm)
qed

lemma login_granted:
  assumes "quiet E" and "\<And>n. ae_uuid E n \<notin> lh_id ` set (login_history db)" and "auth_ok db"
    and "find_row au_email email (auth_users db) = Some u" and "login_outcome E db email password = SUCCESS"
    and "ae_uuid E 4 \<notin> rt_id ` set (refresh_tokens db)" and "sha256 E (ae_randomToken E) \<notin> tokenHash ` set (refresh_tokens db)"
    and "\<And>p. jwt_sign E p \<noteq> None"
  obtains v pair w' db' where "login E rd ports email password meta (w, db) = (Inr (v, pair), (w', db'))"
    "login_history db' = login_history db @ [history_row E 2 (Some (au_id u)) email SUCCESS 1 meta]"
    "refreshToken pair = ae_randomToken E"
    "refresh_tokens db' = refresh_tokens db @ [new_refresh_token (ae_uuid E 4) (ae_now E 4)
       (session_record u (ae_uuid E 5) (createRefreshToken E (ae_now E 1)) meta)]"
proof -
  note id = email_id [OF assms(3,4)]
  let ?u = "successful_login_row (ae_now E 1) u" and ?row = "history_row E 2 (Some (au_id u)) email SUCCESS 1 meta"
  let ?db1 = "with_user (au_id u) (successful_login_row (ae_now E 1)) db"
  have keep: "au_id (successful_login_row at x) = au_id x" for at x by (simp add: successful_login_row_def)
  have rec: "recordAttempt E 2 (Some (au_id u)) email SUCCESS 1 meta (w, ?db1) = (Inr ?row, (w, logged ?row ?db1))"
    by (rule recordAttempt_run [OF assms(1)]) (use assms(2) id(2) keep in simp_all)
  obtain u' w' us where prof: "ensureProfile E 3 rd ports ?u (w, logged ?row ?db1) = (Inr u', (w', (logged ?row ?db1)\<lparr>auth_users := us\<rparr>))"
    and u': "au_id u' = au_id u" and us: "map au_id us = map au_id (auth_users ?db1)"
    using ensureProfile_frame [OF assms(1), of 3 rd ports ?u w "logged ?row ?db1"] by (auto simp: keep)
  let ?db2 = "(logged ?row ?db1)\<lparr>auth_users := us\<rparr>"
  obtain jwt where jwt: "jwt_sign E (jwt_payload E u' (ae_uuid E (4 + 1)) (ae_now E 1)) = Some jwt" using assms(8) by blast
  have "user_exists (au_id u') ?db1" using id(2) keep u' by simp
  then have "user_exists (au_id u') ?db2" using us by (simp add: user_exists_def del: set_map)
  note start = startSession_run [OF assms(1) this, of 4, OF _ _ jwt, of meta w']
  have "login E rd ports email password meta (w, db) = startSession E 4 u' meta (ae_now E 1) (w', ?db2)"
    using assms(4,5) by (simp add: login_def login_outcome_def and_then_step call_read [OF assms(1)] verifyPassword_def Let_def
        call_quiet [OF assms(1)] registerSuccessfulLogin_def update_user_run [OF id(1)] rec prof del: One_nat_def split: if_splits option.splits)
  then show ?thesis using start assms(6,7) that u' by (simp add: session_record_def)
qed

text \<open>
  Property C25. Every login is decided and accounted for: with the database answering, exactly one row joins the login
  history, carrying the outcome that password, lock, status and verification determine, in that order, the address
  tried and the account if there is one. A login that does not succeed opens no session and answers with the
  outcome's error, the same one for an unknown address and for a wrong password; one that succeeds opens exactly one
  session, for that account and the token handed out.
\<close>

theorem login_accounted:
  assumes "quiet E" and "auth_ok db" and "\<forall>n. ae_uuid E n \<notin> lh_id ` set (login_history db) \<and> ae_uuid E n \<notin> rt_id ` set (refresh_tokens db)"
    and "\<forall>d. \<exists>b. argon2_verify E d password = Inr b"
    and "sha256 E (ae_randomToken E) \<notin> tokenHash ` set (refresh_tokens db)" and "\<forall>p. jwt_sign E p \<noteq> None"
  shows "\<exists>r w' db' row. login E rd ports email password meta (w, db) = (r, (w', db')) \<and>
    login_history db' = login_history db @ [row] \<and> lh_outcome row = login_outcome E db email password \<and> lh_email row = email \<and>
    lh_success row = (login_outcome E db email password = SUCCESS) \<and>
    lh_authUserId row = map_option au_id (find_row au_email email (auth_users db)) \<and>
    (if login_outcome E db email password \<noteq> SUCCESS
     then r = Inl (login_error E (login_outcome E db email password)) \<and> refresh_tokens db' = refresh_tokens db
     else \<exists>v pair t. r = Inr (v, pair) \<and> refresh_tokens db' = refresh_tokens db @ [t] \<and> live t \<and>
       tokenHash t = sha256 E (refreshToken pair) \<and> Some (rt_authUserId t) = lh_authUserId row)"
proof (cases "find_row au_email email (auth_users db)")
  case None
  then show ?thesis
    using login_unknown [OF assms(1) _ None, of rd ports password meta w] assms(3) by (simp add: login_outcome_def history_row_def)
next
  case (Some u)
  note id = email_id [OF assms(2) Some]
  obtain b where b: "argon2_verify E (passwordHash u) password = Inr b" using assms(4) by blast
  consider "\<not> b" | "b" "login_outcome E db email password \<noteq> SUCCESS" | "login_outcome E db email password = SUCCESS" by blast
  then show ?thesis
  proof cases
    case 1
    let ?db = "with_user (au_id u) (failed_login_row (lock_after E u)) db"
    have "recordAttempt E 2 (Some (au_id u)) email INVALID_CREDENTIALS a meta (w, ?db) =
        (Inr (history_row E 2 (Some (au_id u)) email INVALID_CREDENTIALS a meta),
         (w, logged (history_row E 2 (Some (au_id u)) email INVALID_CREDENTIALS a meta) ?db))" for a
      by (rule recordAttempt_run [OF assms(1)]) (use assms(3) id(2) in \<open>simp_all add: failed_login_row_def\<close>)
    then show ?thesis
      using 1 b Some login_wrong [OF assms(1) Some id(1), of password rd ports meta w]
      by (simp add: and_then_step login_outcome_def history_row_def)
  next
    case 2
    then show ?thesis
      using b Some login_refused [OF assms(1) _ id(2) Some, of password rd ports meta w] assms(3) by (simp add: history_row_def)
  next
    case 3
    show ?thesis
      by (rule login_granted [OF assms(1) _ assms(2) Some 3, of rd ports meta w])
        (use assms(3,5,6) Some 3 in \<open>simp_all add: history_row_def new_refresh_token_def session_record_def createRefreshToken_def live_def\<close>)
  qed
qed

theorem login_accounted_witness:
  "(\<exists>r w' db' row. login sample_env (\<lambda>j. None) no_ports ''a@b.co'' ''secret'' sample_meta ((), sample_auth_db) = (r, (w', db')) \<and>
     login_history db' = [row] \<and> lh_outcome row = SUCCESS \<and> \<not> isl r) \<and>
   (\<exists>r w' db' row. login sample_env (\<lambda>j. None) no_ports ''a@b.co'' ''guess'' sample_meta ((), sample_auth_db) = (r, (w', db')) \<and>
     login_history db' = [row] \<and> lh_outcome row = INVALID_CREDENTIALS \<and> r = Inl invalidCredentialsError)"
proof -
  have fresh: "\<forall>n. ae_uuid sample_env n \<notin> lh_id ` set (login_history sample_auth_db) \<and> ae_uuid sample_env n \<notin> rt_id ` set (refresh_tokens sample_auth_db)"
    "sha256 sample_env (ae_randomToken sample_env) \<notin> tokenHash ` set (refresh_tokens sample_auth_db)"
    by (simp_all add: sample_env_def sample_auth_db_def sample_token_def new_refresh_token_def)
  have total: "\<forall>d. \<exists>b. argon2_verify sample_env d p = Inr b" "\<forall>p. jwt_sign sample_env p \<noteq> None" for p
    by (simp_all add: sample_env_def)
  have out: "login_outcome sample_env sample_auth_db ''a@b.co'' ''secret'' = SUCCESS"
    "login_outcome sample_env sample_auth_db ''a@b.co'' ''guess'' = INVALID_CREDENTIALS" "login_history sample_auth_db = []"
    by code_simp+
  note run = login_accounted [OF sample_quiet(1) sample_db_ok fresh(1) total(1) fresh(2) total(2), of "\<lambda>j. None" no_ports "''a@b.co''" _ sample_meta "()"]
  show ?thesis using run [of "''secret''"] run [of "''guess''"] unfolding out by auto
qed

section \<open>Lockout\<close>

text \<open>Wrong passwords for one address, each request in its own environment.\<close>

fun guesses ::
  "(json \<Rightarrow> PendingProfile option) \<Rightarrow> 'w auth_ports \<Rightarrow> string \<Rightarrow> RequestMeta \<Rightarrow> (auth_env \<times> string) list \<Rightarrow> 'w \<times> auth_db \<Rightarrow> 'w \<times> auth_db" where
  "guesses rd ports email meta [] s = s"
| "guesses rd ports email meta ((E, p) # gs) s = guesses rd ports email meta gs (snd (login E rd ports email p meta s))"

lemma recordAttempt_frame:
  assumes "quiet E"
  shows "\<exists>r h. recordAttempt E n i email out att meta (w, db) = (r, (w, db\<lparr>login_history := h\<rparr>))"
proof -
  have "\<exists>h. db = db\<lparr>login_history := h\<rparr>" by (rule exI [of _ "login_history db"]) simp
  then show ?thesis
    by (auto simp: recordAttempt_def call_quiet [OF assms] recordLoginAttempt_def db_call_def attempt_def transaction_def Let_def
        split: option.split)
qed

lemma guess_step:
  assumes "quiet E" and "find_row au_email email (auth_users db) = Some u" and "find_row au_id (au_id u) (auth_users db) = Some u"
    and "argon2_verify E (passwordHash u) password = Inr False"
  shows "\<exists>e db'. login E rd ports email password meta (w, db) = (Inl e, (w, db')) \<and> refresh_tokens db' = refresh_tokens db \<and>
    find_row au_email email (auth_users db') = Some (failed_login_row (lock_after E u) u) \<and>
    find_row au_id (au_id u) (auth_users db') = Some (failed_login_row (lock_after E u) u)"
proof -
  let ?f = "failed_login_row (lock_after E u)" and ?db = "with_user (au_id u) (failed_login_row (lock_after E u)) db"
  obtain r h where "recordAttempt E 2 (Some (au_id u)) email INVALID_CREDENTIALS (failedLoginAttempts u + 1) meta (w, ?db) =
      (r, (w, ?db\<lparr>login_history := h\<rparr>))"
    using recordAttempt_frame [OF assms(1), of 2 "Some (au_id u)" email INVALID_CREDENTIALS "failedLoginAttempts u + 1" meta w ?db] by blast
  then have "\<exists>e. login E rd ports email password meta (w, db) = (Inl e, (w, ?db\<lparr>login_history := h\<rparr>))"
    unfolding login_wrong [OF assms] by (cases r) (simp_all add: and_then_step)
  moreover have "find_row au_email email (auth_users ?db) = Some (?f u)"
    using assms(2) by (simp add: with_user_def update_rows_def find_row_map failed_login_row_def)
  moreover have "find_row au_id (au_id u) (auth_users ?db) = Some (?f u)"
    using assms(3) by (simp add: with_user_def find_row_update failed_login_row_def)
  ultimately show ?thesis by auto
qed

lemma guesses_count:
  assumes "find_row au_email email (auth_users db) = Some u" and "find_row au_id (au_id u) (auth_users db) = Some u"
    and "\<forall>(E, p) \<in> set gs. quiet E \<and> ae_options E = opts \<and> argon2_verify E (passwordHash u) p = Inr False"
  shows "\<exists>db' u'. guesses rd ports email meta gs (w, db) = (w, db') \<and> refresh_tokens db' = refresh_tokens db \<and>
    find_row au_email email (auth_users db') = Some u' \<and> find_row au_id (au_id u) (auth_users db') = Some u' \<and> au_id u' = au_id u \<and>
    passwordHash u' = passwordHash u \<and> failedLoginAttempts u' = failedLoginAttempts u + int (length gs) \<and>
    lockedUntil u' = (if gs \<noteq> [] \<and> failedLoginAttempts u' \<ge> maxFailedLoginAttempts opts
      then Some (ae_now (fst (last gs)) 1 + lockDurationMinutes opts * MINUTE_MS) else lockedUntil u)"
  using assms
proof (induction gs arbitrary: db u)
  case (Cons g gs)
  obtain E p where g: "g = (E, p)" by (cases g)
  let ?u = "failed_login_row (lock_after E u) u"
  obtain e db1 where step: "login E rd ports email p meta (w, db) = (Inl e, (w, db1))" "refresh_tokens db1 = refresh_tokens db"
    and row: "find_row au_email email (auth_users db1) = Some ?u" "find_row au_id (au_id u) (auth_users db1) = Some ?u"
    using guess_step [of E email db u p rd ports meta w] Cons.prems g by auto
  have same: "au_id ?u = au_id u" "passwordHash ?u = passwordHash u" "failedLoginAttempts ?u = failedLoginAttempts u + 1"
    by (simp_all add: failed_login_row_def)
  have opts: "ae_options E = opts" using Cons.prems(3) g by simp
  have "\<forall>(E, p) \<in> set gs. quiet E \<and> ae_options E = opts \<and> argon2_verify E (passwordHash ?u) p = Inr False"
    using Cons.prems(3) same by simp
  from Cons.IH [OF row(1) _ this] obtain db' u' where IH: "guesses rd ports email meta gs (w, db1) = (w, db')" "refresh_tokens db' = refresh_tokens db1"
    "find_row au_email email (auth_users db') = Some u'" "find_row au_id (au_id ?u) (auth_users db') = Some u'" "au_id u' = au_id ?u"
    "passwordHash u' = passwordHash ?u" "failedLoginAttempts u' = failedLoginAttempts ?u + int (length gs)"
    "lockedUntil u' = (if gs \<noteq> [] \<and> failedLoginAttempts u' \<ge> maxFailedLoginAttempts opts
      then Some (ae_now (fst (last gs)) 1 + lockDurationMinutes opts * MINUTE_MS) else lockedUntil ?u)"
    using row(2) same(1) by auto
  have "lockedUntil u' = (if failedLoginAttempts u' \<ge> maxFailedLoginAttempts opts
      then Some (ae_now (fst (last (g # gs))) 1 + lockDurationMinutes opts * MINUTE_MS) else lockedUntil u)"
    using IH(7,8) by (cases gs) (auto simp: g opts failed_login_row_def lock_after_def)
  then show ?case using IH step same g by auto
qed simp

text \<open>
  Property C26. Guessing one after the other is bounded. For an account without a lock and with a zero counter, and
  guesses and login each undisturbed by other requests and faults: as many wrong passwords in a row as the
  configured maximum lock the account, so that within the lock's duration after the last of them the right password is answered
  429 and opens no session; any smaller number leaves the account unlocked. No number of such guesses opens a session. (Guesses
  made at the same time escape the bound: \<open>parallel_guesses_unlocked\<close>.)
\<close>

theorem guessing_locks:
  assumes "auth_ok db" and "find_row au_email email (auth_users db) = Some u" and "failedLoginAttempts u = 0" "lockedUntil u = None"
    and "\<forall>(E, p) \<in> set gs. quiet E \<and> ae_options E = opts \<and> argon2_verify E (passwordHash u) p = Inr False" and "gs \<noteq> []"
    and "guesses rd ports email meta gs (w, db) = (w', db')"
    and "quiet E" "ae_options E = opts" "argon2_verify E (passwordHash u) password = Inr True"
    and "ae_uuid E 1 \<notin> lh_id ` set (login_history db')" and "ae_now E 1 < ae_now (fst (last gs)) 1 + lockDurationMinutes opts * MINUTE_MS"
  shows "refresh_tokens db' = refresh_tokens db \<and>
    (if int (length gs) < maxFailedLoginAttempts opts then login_outcome E db' email password \<noteq> ACCOUNT_LOCKED
     else \<exists>e db''. login E rd ports email password meta (w', db') = (Inl e, (w', db'')) \<and> statusCode e = 429 \<and>
       refresh_tokens db'' = refresh_tokens db)"
proof -
  obtain u' where ts: "refresh_tokens db' = refresh_tokens db" and u': "find_row au_email email (auth_users db') = Some u'"
    "find_row au_id (au_id u) (auth_users db') = Some u'" "au_id u' = au_id u" "passwordHash u' = passwordHash u"
    and lock: "lockedUntil u' = (if int (length gs) \<ge> maxFailedLoginAttempts opts
      then Some (ae_now (fst (last gs)) 1 + lockDurationMinutes opts * MINUTE_MS) else None)"
    using guesses_count [OF assms(2) email_id(1) [OF assms(1,2)] assms(5), of rd ports meta w] assms(3,4,6,7) by auto
  have out: "login_outcome E db' email password = ACCOUNT_LOCKED \<longleftrightarrow> int (length gs) \<ge> maxFailedLoginAttempts opts"
    using u' lock assms(10,12) by (simp add: login_outcome_def)
  have "user_exists (au_id u') db'" using find_row_SomeD(1) [OF u'(2)] by (simp add: user_exists_def)
  from login_refused [OF assms(8,11) this u'(1), of password rd ports meta w'] show ?thesis
    using out ts u'(4) assms(10) by (cases "int (length gs) < maxFailedLoginAttempts opts") simp_all
qed

definition sample_guesses :: "(auth_env \<times> string) list" where
  "sample_guesses = map (\<lambda>p. (sample_env, p)) [''a'', ''b'', ''c'']"

lemma unit_state: "\<exists>db'. s = ((), db')"
  by (cases s) simp

theorem guessing_locks_witness:
  "\<exists>db' e db''. guesses (\<lambda>j. None) no_ports ''a@b.co'' sample_meta sample_guesses ((), sample_auth_db) = ((), db') \<and>
     login sample_thief (\<lambda>j. None) no_ports ''a@b.co'' ''secret'' sample_meta ((), db') = (Inl e, ((), db'')) \<and> statusCode e = 429"
proof -
  obtain db' where g: "guesses (\<lambda>j. None) no_ports ''a@b.co'' sample_meta sample_guesses ((), sample_auth_db) = ((), db')"
    by (rule exE [OF unit_state])
  have row: "find_row au_email ''a@b.co'' (auth_users sample_auth_db) = Some sample_account"
    by (simp add: sample_auth_db_def sample_account_def new_auth_user_def)
  have wrong: "\<forall>(E, p) \<in> set sample_guesses. quiet E \<and> ae_options E = sample_options \<and> argon2_verify E (passwordHash sample_account) p = Inr False"
    using sample_quiet by (simp add: sample_guesses_def sample_env_def sample_account_def new_auth_user_def)
  have "ae_uuid sample_thief 1 \<notin> lh_id ` set (login_history (snd (guesses (\<lambda>j. None) no_ports ''a@b.co'' sample_meta sample_guesses ((), sample_auth_db))))"
    by code_simp
  then have fresh: "ae_uuid sample_thief 1 \<notin> lh_id ` set (login_history db')" by (simp add: g)
  have "ae_now sample_thief 1 < ae_now (fst (last sample_guesses)) 1 + lockDurationMinutes sample_options * MINUTE_MS"
    "argon2_verify sample_thief (passwordHash sample_account) ''secret'' = Inr True" "ae_options sample_thief = sample_options"
    "failedLoginAttempts sample_account = 0" "lockedUntil sample_account = None" "sample_guesses \<noteq> []"
    "int (length sample_guesses) \<ge> maxFailedLoginAttempts sample_options"
    by (simp_all add: sample_guesses_def sample_thief_def sample_env_def sample_options_def sample_account_def new_auth_user_def MINUTE_MS_def)
  then show ?thesis
    using guessing_locks [OF sample_db_ok row _ _ wrong _ g sample_quiet(2) _ _ fresh, of "''secret''"] g by auto
qed

section \<open>One-time codes\<close>

lemma safeEqual_iff: "safeEqual a b \<longleftrightarrow> a = b"
  by (auto simp: safeEqual_def)

text \<open>The only pending code of an account and type: what the sorted query finds.\<close>

definition sole_code :: "string \<Rightarrow> VerificationType \<Rightarrow> auth_db \<Rightarrow> Verification list" where
  "sole_code i ty db = filter (pending_of i ty) (verifications db)"

lemma newest_sole: "sole_code i ty db = vs \<Longrightarrow> length vs \<le> 1 \<Longrightarrow> newest_pending i ty db = (case vs of [] \<Rightarrow> None | v # _ \<Rightarrow> Some v)"
  by (cases vs) (auto simp: newest_pending_def sole_code_def)

lemma newest_pending_sole:
  assumes "auth_ok db" and "newest_pending i ty db = Some v"
  shows "sole_code i ty db = [v]"
proof -
  have same: "x = y" if "x \<in> set (sole_code i ty db)" "y \<in> set (sole_code i ty db)" for x y
  proof -
    have "one_code db" using assms(1) by (simp add: auth_ok_def)
    then show ?thesis using that by (simp add: sole_code_def one_code_def pending_of_def)
  qed
  have "distinct (sole_code i ty db)"
    using assms(1) by (auto simp: sole_code_def auth_ok_def keys_ok_def distinct_map)
  then have "length (sole_code i ty db) = card (set (sole_code i ty db))" by (rule distinct_card [symmetric])
  also have "\<dots> \<le> Suc 0" unfolding card_le_Suc0_iff_eq [OF finite_set] using same by blast
  finally have "length (sole_code i ty db) \<le> 1" by simp
  then show ?thesis
    using assms(2) newest_sole [OF refl, of i ty db] by (cases "sole_code i ty db") (simp_all add: newest_sole)
qed

lemma update_rows_append: "update_rows key k f (xs @ ys) = update_rows key k f xs @ update_rows key k f ys"
  by (simp add: update_rows_def)

lemma filter_one_updated:
  assumes "filter P xs = [v]" and "distinct (map key xs)"
  shows "filter P (update_rows key (key v) f xs) = filter P [f v]"
proof -
  obtain ys zs where xs: "xs = ys @ v # zs" "\<forall>y \<in> set ys. \<not> P y" "filter P zs = []"
    using assms(1) by (auto simp: filter_eq_Cons_iff)
  then have "key v \<notin> key ` set ys" "key v \<notin> key ` set zs" using assms(2) by auto
  then have "update_rows key (key v) f xs = ys @ f v # zs"
    using update_rows_absent [of "key v" key ys f] update_rows_absent [of "key v" key zs f] by (simp add: xs(1) update_rows_append)
  then show ?thesis using xs(2,3) by (auto simp: filter_empty_conv)
qed

definition with_code :: "string \<Rightarrow> (Verification \<Rightarrow> Verification) \<Rightarrow> auth_db \<Rightarrow> auth_db" where
  "with_code i f db = db\<lparr>verifications := update_rows vf_id i f (verifications db)\<rparr>"

lemma with_code_simps [simp]:
  "auth_users (with_code i f db) = auth_users db" "refresh_tokens (with_code i f db) = refresh_tokens db"
  "verifications (with_code i f db) = update_rows vf_id i f (verifications db)"
  by (simp_all add: with_code_def)

lemma consumeCode_run:
  assumes "quiet E" and "sole_code i ty db = [v]" and "distinct (map vf_id (verifications db))"
  shows "consumeCode E n i ty pin (w, db) =
    (if vf_expiresAt v \<le> ae_now E n \<or> vf_maxAttempts v \<le> vf_attempts v then (Inl invalidCodeError, (w, db))
     else if codeHash v \<noteq> sha256 E pin
       then (Inl invalidCodeError, (w, with_code (vf_id v) (attempt_row (vf_attempts v + 1 \<ge> vf_maxAttempts v)) db))
     else (Inr (vf_id v), (w, db)))"
proof -
  have "v \<in> set (verifications db)" using assms(2) by (auto simp: sole_code_def filter_eq_Cons_iff)
  then have "find_row vf_id (vf_id v) (verifications db) = Some v" using assms(3) by (rule find_row_distinct [rotated])
  then have reg: "call E m (\<lambda>flt. registerVerificationAttempt flt (vf_id v) x) (w, db) = (Inr (attempt_row x v), (w, with_code (vf_id v) (attempt_row x) db))" for m x
    by (simp add: call_quiet [OF assms(1)] registerVerificationAttempt_def db_call_def attempt_def transaction_def update_verification_def with_code_def)
  show ?thesis
    using newest_sole [OF assms(2)] by (simp add: consumeCode_def and_then_step call_read [OF assms(1)] reg safeEqual_iff hashCode_def)
qed

lemma consumeCode_none:
  "quiet E \<Longrightarrow> sole_code i ty db = [] \<Longrightarrow> consumeCode E n i ty pin (w, db) = (Inl invalidCodeError, (w, db))"
  using newest_sole [of i ty db "[]"] by (simp add: consumeCode_def and_then_step call_read)

text \<open>Attempts to reset a password, each with a code and a new password, in its own environment.\<close>

fun reset_tries :: "'w auth_ports \<Rightarrow> string \<Rightarrow> (auth_env \<times> string \<times> string) list \<Rightarrow> 'w \<times> auth_db \<Rightarrow> 'w \<times> auth_db" where
  "reset_tries ports email [] s = s"
| "reset_tries ports email ((E, pin, pw) # ts) s = reset_tries ports email ts (snd (resetPassword E ports email pin pw s))"

lemma reset_refused:
  assumes "quiet E" and "find_row au_email email (auth_users db) = Some u"
    and "au_status u = ACTIVE \<Longrightarrow> consumeCode E 1 (au_id u) PASSWORD_RESET pin (w, db) = (Inl e, (w, db'))" and "au_status u \<noteq> ACTIVE \<Longrightarrow> db' = db \<and> e = invalidCodeError"
  shows "resetPassword E ports email pin pw (w, db) = (Inl e, (w, db'))"
  using assms by (cases "au_status u = ACTIVE") (simp_all add: resetPassword_def and_then_step call_read [OF assms(1)] del: One_nat_def)

text \<open>The tables after \<open>k\<close> wrong tries at a fresh code; one that allows none was never good.\<close>

definition burning :: "string \<Rightarrow> Verification \<Rightarrow> int \<Rightarrow> auth_db \<Rightarrow> bool" where
  "burning i v k db \<longleftrightarrow> distinct (map vf_id (verifications db)) \<and> sole_code i PASSWORD_RESET db =
     (if k < vf_maxAttempts v then [v\<lparr>vf_attempts := k\<rparr>] else if vf_maxAttempts v \<le> 0 then [v\<lparr>vf_attempts := 0\<rparr>] else [])"

lemma burning_refuses:
  assumes "quiet E" and "burning i v k db" and "vf_maxAttempts v \<le> k"
  shows "consumeCode E n i PASSWORD_RESET pin (w, db) = (Inl invalidCodeError, (w, db))"
proof (cases "vf_maxAttempts v \<le> 0")
  case True
  then show ?thesis using assms consumeCode_run [OF assms(1), of i PASSWORD_RESET db "v\<lparr>vf_attempts := 0\<rparr>"] by (simp add: burning_def)
next
  case False
  then show ?thesis using assms(2,3) by (simp add: burning_def consumeCode_none [OF assms(1)])
qed

lemma reset_try:
  assumes "quiet E" and "find_row au_email email (auth_users db) = Some u" "au_status u = ACTIVE" and "burning (au_id u) v k db"
    and "ae_now E 1 < vf_expiresAt v" and "sha256 E pin \<noteq> codeHash v" and "0 \<le> k"
  shows "\<exists>db'. resetPassword E ports email pin pw (w, db) = (Inl invalidCodeError, (w, db')) \<and> auth_users db' = auth_users db \<and>
    refresh_tokens db' = refresh_tokens db \<and> burning (au_id u) v (k + 1) db'"
proof (cases "vf_maxAttempts v \<le> k")
  case True
  then have "burning (au_id u) v (k + 1) db" using assms(4) by (simp add: burning_def)
  moreover have "resetPassword E ports email pin pw (w, db) = (Inl invalidCodeError, (w, db))"
    by (rule reset_refused [OF assms(1,2)]) (simp_all add: burning_refuses [OF assms(1,4) True])
  ultimately show ?thesis by blast
next
  case False
  let ?v = "v\<lparr>vf_attempts := k\<rparr>"
  let ?db = "with_code (vf_id ?v) (attempt_row (k + 1 \<ge> vf_maxAttempts v)) db"
  have sole: "sole_code (au_id u) PASSWORD_RESET db = [?v]" and ids: "distinct (map vf_id (verifications db))"
    using assms(4) False by (simp_all add: burning_def)
  have keep: "vf_id (attempt_row x y) = vf_id y" for x y by (simp add: attempt_row_def)
  have "pending_of (au_id u) PASSWORD_RESET ?v" using sole by (auto simp: sole_code_def filter_eq_Cons_iff)
  then have "sole_code (au_id u) PASSWORD_RESET ?db = (if k + 1 \<ge> vf_maxAttempts v then [] else [v\<lparr>vf_attempts := k + 1\<rparr>])"
    using filter_one_updated [OF sole [unfolded sole_code_def] ids] by (simp add: sole_code_def attempt_row_def pending_of_def)
  moreover have "distinct (map vf_id (verifications ?db))" using map_key_update_rows [of vf_id _ vf_id, OF keep] ids by simp
  ultimately have "burning (au_id u) v (k + 1) ?db" using False assms(7) by (simp add: burning_def)
  moreover have "consumeCode E 1 (au_id u) PASSWORD_RESET pin (w, db) = (Inl invalidCodeError, (w, ?db))"
    using consumeCode_run [OF assms(1) sole ids, of 1 pin w] assms(5,6) False by simp
  ultimately show ?thesis using reset_refused [OF assms(1,2), of pin w invalidCodeError ?db ports pw] assms(3) by auto
qed

lemma reset_tries_count:
  assumes "find_row au_email email (auth_users db) = Some u" "au_status u = ACTIVE" and "burning (au_id u) v k db" and "0 \<le> k"
    and "\<forall>(E, pin, pw) \<in> set ts. quiet E \<and> sha256 E pin \<noteq> codeHash v \<and> ae_now E 1 < vf_expiresAt v"
  shows "\<exists>db'. reset_tries ports email ts (w, db) = (w, db') \<and> auth_users db' = auth_users db \<and> refresh_tokens db' = refresh_tokens db \<and>
    burning (au_id u) v (k + int (length ts)) db'"
  using assms
proof (induction ts arbitrary: db k)
  case (Cons t ts)
  obtain E pin pw where t: "t = (E, pin, pw)" by (cases t) auto
  obtain db1 where step: "resetPassword E ports email pin pw (w, db) = (Inl invalidCodeError, (w, db1))" "auth_users db1 = auth_users db"
    "refresh_tokens db1 = refresh_tokens db" "burning (au_id u) v (k + 1) db1"
    using reset_try [of E email db u v k pin ports pw w] Cons.prems t by auto
  have "\<exists>db'. reset_tries ports email ts (w, db1) = (w, db') \<and> auth_users db' = auth_users db1 \<and> refresh_tokens db' = refresh_tokens db1 \<and>
      burning (au_id u) v (k + 1 + int (length ts)) db'"
    by (rule Cons.IH [OF _ Cons.prems(2) step(4)]) (use Cons.prems step in simp_all)
  then show ?case using step t by (simp add: add.assoc)
qed simp

text \<open>
  Property C27. A one-time code is good for a bounded number of guesses: once as many wrong codes have been tried as the
  code allows, every further reset is refused with the same error and changes nothing, whatever code it brings, the
  right one included; with fewer, the right code is still accepted while it has not expired. The tries themselves
  never touch an account or a session.
\<close>

theorem codes_burn:
  assumes "auth_ok db" and "find_row au_email email (auth_users db) = Some u" "au_status u = ACTIVE"
    and "newest_pending (au_id u) PASSWORD_RESET db = Some v" "vf_attempts v = 0"
    and "\<forall>(E, pin, pw) \<in> set ts. quiet E \<and> sha256 E pin \<noteq> codeHash v \<and> ae_now E 1 < vf_expiresAt v"
    and "reset_tries ports email ts (w, db) = (w', db')"
  shows "auth_users db' = auth_users db \<and> refresh_tokens db' = refresh_tokens db \<and>
    (if int (length ts) < vf_maxAttempts v
     then \<forall>E pin. quiet E \<and> sha256 E pin = codeHash v \<and> ae_now E 1 < vf_expiresAt v \<longrightarrow>
       consumeCode E 1 (au_id u) PASSWORD_RESET pin (w', db') = (Inr (vf_id v), (w', db'))
     else \<forall>E pin pw. quiet E \<longrightarrow> resetPassword E ports email pin pw (w', db') = (Inl invalidCodeError, (w', db')))"
proof -
  have "burning (au_id u) v 0 db"
    using newest_pending_sole [OF assms(1,4)] assms(1,5) by (cases v) (auto simp: burning_def auth_ok_def keys_ok_def)
  from reset_tries_count [OF assms(2,3) this _ assms(6), of ports w]
  have same: "auth_users db' = auth_users db" "refresh_tokens db' = refresh_tokens db" and burn: "burning (au_id u) v (int (length ts)) db'"
    using assms(7) by auto
  show ?thesis
  proof (cases "int (length ts) < vf_maxAttempts v")
    case True
    then have sole: "sole_code (au_id u) PASSWORD_RESET db' = [v\<lparr>vf_attempts := int (length ts)\<rparr>]" "distinct (map vf_id (verifications db'))"
      using burn by (simp_all add: burning_def)
    have "consumeCode E 1 (au_id u) PASSWORD_RESET pin (w', db') = (Inr (vf_id v), (w', db'))"
      if "quiet E" "sha256 E pin = codeHash v" "ae_now E 1 < vf_expiresAt v" for E pin
      using consumeCode_run [OF that(1) sole, of 1 pin w'] that True by simp
    then show ?thesis using same True by simp
  next
    case False
    have "resetPassword E ports email pin pw (w', db') = (Inl invalidCodeError, (w', db'))" if "quiet E" for E pin pw
      using assms(2) same(1) False by (intro reset_refused [OF that, of _ _ u]) (simp_all add: burning_refuses [OF that burn])
    then show ?thesis using same False by simp
  qed
qed

definition sample_code :: Verification where
  "sample_code = new_verification ''v1'' 0 ''u1'' \<lparr>nv_codeHash = ''h424242'', nv_type = PASSWORD_RESET, nv_expiresAt = 9000,
     nv_maxAttempts = 2, nv_newEmail = None\<rparr>"

definition sample_code_db :: auth_db where
  "sample_code_db = sample_auth_db\<lparr>verifications := [sample_code]\<rparr>"

lemma sample_code_ok: "auth_ok sample_code_db"
  by (simp add: auth_ok_defs sample_code_db_def sample_code_def new_verification_def sample_auth_db_def sample_account_def sample_token_def
      new_auth_user_def new_refresh_token_def live_def)

lemma sample_env_sel: "sha256 sample_env p = CHR ''h'' # p" "ae_now sample_env n = 1000"
  by (simp_all add: sample_env_def)

theorem codes_burn_witness:
  "\<exists>db'. reset_tries no_ports ''a@b.co'' [(sample_env, ''111111'', ''x''), (sample_env, ''222222'', ''x'')] ((), sample_code_db) = ((), db') \<and>
     resetPassword sample_env no_ports ''a@b.co'' ''424242'' ''x'' ((), db') = (Inl invalidCodeError, ((), db'))"
proof -
  let ?ts = "[(sample_env, ''111111'', ''x''), (sample_env, ''222222'', ''x'')]"
  obtain db' where r: "reset_tries no_ports ''a@b.co'' ?ts ((), sample_code_db) = ((), db')" by (rule exE [OF unit_state])
  have row: "find_row au_email ''a@b.co'' (auth_users sample_code_db) = Some sample_account" "au_status sample_account = ACTIVE"
    by (simp_all add: sample_code_db_def sample_auth_db_def sample_account_def new_auth_user_def)
  have code: "newest_pending (au_id sample_account) PASSWORD_RESET sample_code_db = Some sample_code" "vf_attempts sample_code = 0"
    "\<not> int (length ?ts) < vf_maxAttempts sample_code"
    by (simp_all add: newest_pending_def sample_code_db_def sample_code_def new_verification_def pending_of_def sample_account_def new_auth_user_def)
  have "\<forall>(E, pin, pw) \<in> set ?ts. quiet E \<and> sha256 E pin \<noteq> codeHash sample_code \<and> ae_now E 1 < vf_expiresAt sample_code"
    using sample_quiet by (simp add: sample_code_def new_verification_def sample_env_sel)
  from codes_burn [OF sample_code_ok row code(1,2) this r]
  have "resetPassword sample_env no_ports ''a@b.co'' ''424242'' ''x'' ((), db') = (Inl invalidCodeError, ((), db'))"
    unfolding if_not_P [OF code(3)] using sample_quiet(1) by blast
  then show ?thesis using r by blast
qed

section \<open>New passwords\<close>

lemma revoke_all_dead:
  assumes "revoke_where P at reason db = (Inr n, db')" and "t \<in> set (refresh_tokens db')" and "P t"
  shows "\<not> live t"
proof -
  have db': "db' = db\<lparr>refresh_tokens := map (\<lambda>t. if P t \<and> live t then revoke_row at reason t else t) (refresh_tokens db)\<rparr>"
    using arg_cong [OF assms(1), of snd] unfolding revoke_where_def snd_conv by (rule sym)
  have "t \<in> (\<lambda>t. if P t \<and> live t then revoke_row at reason t else t) ` set (refresh_tokens db)"
    using assms(2) unfolding db' by simp
  then obtain x where t: "t = (if P x \<and> live x then revoke_row at reason x else x)" by blast
  show ?thesis
  proof (cases "P x \<and> live x")
    case True
    then show ?thesis by (simp add: t revoke_row_def live_def)
  next
    case False
    then have "t = x" using t by (simp only: if_False)
    then show ?thesis using False assms(3) by blast
  qed
qed

lemma notify_frame: "\<exists>w'. notify ports msg (w, db) = (Inr (), (w', db))"
  by (auto simp: notify_def catching_def and_then_def at_world_def split: prod.split sum.split)

lemma reset_success:
  assumes "quiet E" and "resetPassword E ports email pin pw (w, db) = (Inr x, (w', db'))"
  obtains u vid w1 db1 h db2 n u' where "find_row au_email email (auth_users db) = Some u" "au_status u = ACTIVE"
    "consumeCode E 1 (au_id u) PASSWORD_RESET pin (w, db) = (Inr vid, (w1, db1))" "argon2_hash E pw = Inr h"
    "revoke_where (\<lambda>t. rt_authUserId t = au_id u) (ae_now E 3) PASSWORD_CHANGED (with_code vid (used_row (ae_now E 3)) db1) = (Inr n, db2)"
    "update_auth_user (au_id u) (reset_row h (ae_now E 3)) db2 = (Inr u', db')"
proof -
  obtain u where u: "find_row au_email email (auth_users db) = Some u" "au_status u = ACTIVE"
    and "and_then (consumeCode E 1 (au_id u) PASSWORD_RESET pin) (\<lambda>vid.
          and_then (lift (hashPassword E pw)) (\<lambda>h.
          and_then (call E 3 (\<lambda>flt. consumePasswordReset flt vid (au_id u) h (ae_now E 3))) (\<lambda>_.
          notify ports (passwordChangedEmail E (au_email u))))) (w, db) = (Inr x, (w', db'))"
    using assms(2) by (simp add: resetPassword_def and_then_step call_read [OF assms(1)] split: option.splits if_splits del: One_nat_def)
  then obtain vid w1 db1 h y w2 db3 where c: "consumeCode E 1 (au_id u) PASSWORD_RESET pin (w, db) = (Inr vid, (w1, db1))"
    and h: "hashPassword E pw = Inr h"
    and call: "call E 3 (\<lambda>flt. consumePasswordReset flt vid (au_id u) h (ae_now E 3)) (w1, db1) = (Inr y, (w2, db3))"
    and sent: "notify ports (passwordChangedEmail E (au_email u)) (w2, db3) = (Inr x, (w', db'))"
    by (auto simp: and_then_Inr_iff lift_def split: sum.splits)
  have "db3 = db'" using notify_frame [of ports "passwordChangedEmail E (au_email u)" w2 db3] sent by auto
  then have "consumePasswordReset None vid (au_id u) h (ae_now E 3) db1 = (Inr y, db')"
    using call by (auto simp: call_quiet [OF assms(1)] split: prod.splits)
  then obtain v db2 n where "update_verification vid (\<lambda>v. vf_status v = V_PENDING) (used_row (ae_now E 3)) db1 = (Inr v, with_code vid (used_row (ae_now E 3)) db1)"
    "revoke_where (\<lambda>t. rt_authUserId t = au_id u) (ae_now E 3) PASSWORD_CHANGED (with_code vid (used_row (ae_now E 3)) db1) = (Inr n, db2)"
    "update_auth_user (au_id u) (reset_row h (ae_now E 3)) db2 = (Inr y, db')"
    by (auto simp: consumePasswordReset_def db_call_Inr and_then_Inr_iff update_verification_def with_code_def split: option.splits if_splits)
  moreover have "argon2_hash E pw = Inr h" using h by (simp add: hashPassword_def split: sum.splits)
  ultimately show ?thesis using that [OF u c] by blast
qed

lemma change_success:
  assumes "quiet E" and "changePassword E ports i cur pw meta (w, db) = (Inr pair, (w', db'))"
  obtains u h n db1 u1 db2 w2 where "find_row au_id i (auth_users db) = Some u" "argon2_verify E (passwordHash u) cur = Inr True"
    "argon2_hash E pw = Inr h" "revoke_where (\<lambda>t. rt_authUserId t = au_id u) (ae_now E 1) PASSWORD_CHANGED db = (Inr n, db1)"
    "update_auth_user (au_id u) (\<lambda>u. u\<lparr>passwordHash := h, passwordChangedAt := Some (ae_now E 1)\<rparr>) db1 = (Inr u1, db2)"
    "\<exists>v. startSession E 2 u1 meta (ae_now E 1) (w2, db2) = (Inr (v, pair), (w', db'))"
proof -
  obtain u where u: "find_row au_id i (auth_users db) = Some u"
    and "and_then (lift (verifyPassword E (passwordHash u) cur)) (\<lambda>matches.
         if \<not> matches then throw (UnauthorizedError ''Current password is incorrect'')
         else and_then (lift (hashPassword E pw)) (\<lambda>h.
         and_then (call E 1 (\<lambda>flt. updatePassword flt (au_id u) h (ae_now E 1))) (\<lambda>updated.
         and_then (notify ports (passwordChangedEmail E (au_email u))) (\<lambda>_.
         and_then (startSession E 2 updated meta (ae_now E 1)) (\<lambda>(_, tokens). ret tokens))))) (w, db) = (Inr pair, (w', db'))"
    using assms(2) unfolding changePassword_def Let_def by (simp add: and_then_step call_read [OF assms(1)] split: option.splits del: One_nat_def)
  then obtain h u1 w1 db2 x w2 db3 v where m: "verifyPassword E (passwordHash u) cur = Inr True" and h: "hashPassword E pw = Inr h"
    and call: "call E 1 (\<lambda>flt. updatePassword flt (au_id u) h (ae_now E 1)) (w, db) = (Inr u1, (w1, db2))"
    and sent: "notify ports (passwordChangedEmail E (au_email u)) (w1, db2) = (Inr x, (w2, db3))"
    and start: "startSession E 2 u1 meta (ae_now E 1) (w2, db3) = (Inr (v, pair), (w', db'))"
    by (auto simp: and_then_Inr_iff lift_def split: sum.splits if_splits)
  have same: "db3 = db2" using notify_frame [of ports "passwordChangedEmail E (au_email u)" w1 db2] sent by auto
  have "updatePassword None (au_id u) h (ae_now E 1) db = (Inr u1, db2)"
    using call by (auto simp: call_quiet [OF assms(1)] split: prod.splits)
  then obtain n db1 where "revoke_where (\<lambda>t. rt_authUserId t = au_id u) (ae_now E 1) PASSWORD_CHANGED db = (Inr n, db1)"
    "update_auth_user (au_id u) (\<lambda>u. u\<lparr>passwordHash := h, passwordChangedAt := Some (ae_now E 1)\<rparr>) db1 = (Inr u1, db2)"
    by (auto simp: updatePassword_def db_call_Inr and_then_Inr_iff)
  moreover have "argon2_hash E pw = Inr h" "argon2_verify E (passwordHash u) cur = Inr True"
    using h m by (simp_all add: hashPassword_def verifyPassword_def split: sum.splits)
  ultimately show ?thesis using that [OF u] start same by blast
qed

lemma update_user_db:
  "update_auth_user i f db = (Inr u, db') \<Longrightarrow> db' = with_user i f db \<and> (\<exists>x. find_row au_id i (auth_users db) = Some x \<and> u = f x)"
  by (auto simp: update_auth_user_def with_user_def split: option.splits)

lemma revoke_where_frame:
  "revoke_where P at reason db = (Inr n, db') \<Longrightarrow> auth_users db' = auth_users db \<and> verifications db' = verifications db"
  by (auto simp: revoke_where_def)

lemma reset_ends_sessions:
  assumes "quiet E" and "auth_ok db" and "resetPassword E ports email pin pw (w, db) = (Inr (), (w', db'))"
  shows "\<exists>u u' h. find_row au_email email (auth_users db) = Some u \<and> (\<forall>t \<in> set (refresh_tokens db'). rt_authUserId t = au_id u \<longrightarrow> \<not> live t) \<and>
    find_row au_id (au_id u) (auth_users db') = Some u' \<and> argon2_hash E pw = Inr h \<and> passwordHash u' = h \<and> lockedUntil u' = None \<and>
    newest_pending (au_id u) PASSWORD_RESET db' = None"
proof -
  from assms(3) obtain u vid w1 db1 h db2 n u' where u: "find_row au_email email (auth_users db) = Some u" "au_status u = ACTIVE"
    and c: "consumeCode E 1 (au_id u) PASSWORD_RESET pin (w, db) = (Inr vid, (w1, db1))" and h: "argon2_hash E pw = Inr h"
    and rev: "revoke_where (\<lambda>t. rt_authUserId t = au_id u) (ae_now E 3) PASSWORD_CHANGED (with_code vid (used_row (ae_now E 3)) db1) = (Inr n, db2)"
    and upd: "update_auth_user (au_id u) (reset_row h (ae_now E 3)) db2 = (Inr u', db')"
    by (rule reset_success [OF assms(1)])
  note fin = update_user_db [OF upd] and frame = revoke_where_frame [OF rev]
  have keep: "au_id (reset_row h at x) = au_id x" for at x by (simp add: reset_row_def)
  have dead: "\<not> live t" if "t \<in> set (refresh_tokens db')" "rt_authUserId t = au_id u" for t
    using revoke_all_dead [OF rev, of t] that fin by simp
  have ids: "distinct (map vf_id (verifications db))" using assms(2) by (simp add: auth_ok_def keys_ok_def)
  obtain v where v: "sole_code (au_id u) PASSWORD_RESET db = [v]"
    using c newest_pending_sole [OF assms(2)] by (auto simp: consumeCode_def and_then_step call_read [OF assms(1)] split: option.splits)
  have "vid = vf_id v" "db1 = db" using c unfolding consumeCode_run [OF assms(1) v ids] by (auto split: if_splits)
  then have "sole_code (au_id u) PASSWORD_RESET db' = []"
    using filter_one_updated [OF v [unfolded sole_code_def] ids, of "used_row (ae_now E 3)"] fin frame
    by (simp add: sole_code_def pending_of_def used_row_def)
  then have "newest_pending (au_id u) PASSWORD_RESET db' = None" using newest_sole by fastforce
  moreover have "find_row au_id (au_id u) (auth_users db') = Some u'"
    using fin find_row_update [of au_id "reset_row h (ae_now E 3)", OF keep] by (auto simp: with_user_def)
  moreover have "passwordHash u' = h" "lockedUntil u' = None" using fin by (auto simp: reset_row_def)
  ultimately show ?thesis
    using u(1) dead h by blast
qed

lemma change_ends_sessions:
  assumes "quiet E" and "changePassword E ports i cur pw meta (w, db) = (Inr pair, (w', db'))"
  shows "(\<forall>t \<in> set (refresh_tokens db'). rt_authUserId t = i \<and> live t \<longrightarrow> tokenHash t = sha256 E (refreshToken pair)) \<and>
    (\<exists>t \<in> set (refresh_tokens db'). rt_authUserId t = i \<and> live t)"
proof -
  from assms(2) obtain u h n db1 u1 db2 w2 where u: "find_row au_id i (auth_users db) = Some u"
    and rev: "revoke_where (\<lambda>t. rt_authUserId t = au_id u) (ae_now E 1) PASSWORD_CHANGED db = (Inr n, db1)"
    and upd: "update_auth_user (au_id u) (\<lambda>u. u\<lparr>passwordHash := h, passwordChangedAt := Some (ae_now E 1)\<rparr>) db1 = (Inr u1, db2)"
    and start: "\<exists>v. startSession E 2 u1 meta (ae_now E 1) (w2, db2) = (Inr (v, pair), (w', db'))"
    by (rule change_success [OF assms(1)])
  have i: "au_id u = i" using find_row_SomeD(2) [OF u] .
  have "au_id u1 = i" using update_user_db [OF upd] i by (auto dest: find_row_SomeD)
  obtain x where ins: "insert_refresh_token (new_refresh_token (ae_uuid E 2) (ae_now E 2)
      (session_record u1 (ae_uuid E 3) (createRefreshToken E (ae_now E 1)) meta)) db2 = (Inr x, db')" and tok: "refreshToken pair = ae_randomToken E"
    using start by (auto simp: startSession_def Let_def and_then_Inr_iff lift_def call_quiet [OF assms(1)] repo_createRefreshToken_def db_call_Inr
        token_pair_def createRefreshToken_def split: prod.splits sum.splits)
  have ts: "refresh_tokens db' = refresh_tokens db1 @ [x]" and x: "rt_authUserId x = i" "live x" "tokenHash x = sha256 E (refreshToken pair)"
    using insert_token_row [OF ins] update_user_db [OF upd] \<open>au_id u1 = i\<close> tok
    by (auto simp: new_refresh_token_def session_record_def createRefreshToken_def live_def)
  have "\<not> live t" if "t \<in> set (refresh_tokens db1)" "rt_authUserId t = i" for t
    using revoke_all_dead [OF rev, of t] that i by simp
  then have "\<forall>t \<in> set (refresh_tokens db'). rt_authUserId t = i \<and> live t \<longrightarrow> tokenHash t = sha256 E (refreshToken pair)"
    using ts x by auto
  moreover have "\<exists>t \<in> set (refresh_tokens db'). rt_authUserId t = i \<and> live t" using ts x by auto
  ultimately show ?thesis by blast
qed

text \<open>
  Property C28. A new password ends the sessions opened under the old one, when no other request or fault comes in
  between. After a reset no refresh token of the account is live, the account carries the new hash and no lock, and no
  reset code of it is pending for a second reset (a pending code of another type is left alone); after a change made by a
  signed-in user the one live token of the account is the one the change answered with.
\<close>

theorem new_password_ends_sessions:
  assumes "quiet E" and "auth_ok db"
  shows "(resetPassword E ports email pin pw (w, db) = (Inr (), (w', db')) \<longrightarrow>
      (\<exists>u u' h. find_row au_email email (auth_users db) = Some u \<and> (\<forall>t \<in> set (refresh_tokens db'). rt_authUserId t = au_id u \<longrightarrow> \<not> live t) \<and>
        find_row au_id (au_id u) (auth_users db') = Some u' \<and> argon2_hash E pw = Inr h \<and> passwordHash u' = h \<and> lockedUntil u' = None \<and>
        newest_pending (au_id u) PASSWORD_RESET db' = None)) \<and>
    (changePassword E ports i cur pw meta (w, db) = (Inr pair, (w', db')) \<longrightarrow>
      (\<forall>t \<in> set (refresh_tokens db'). rt_authUserId t = i \<and> live t \<longrightarrow> tokenHash t = sha256 E (refreshToken pair)) \<and>
      (\<exists>t \<in> set (refresh_tokens db'). rt_authUserId t = i \<and> live t))"
  by (intro conjI impI) (rule reset_ends_sessions [OF assms], assumption, (drule change_ends_sessions [OF assms(1)], blast)+)

theorem new_password_ends_sessions_witness:
  "(\<exists>db'. resetPassword sample_env no_ports ''a@b.co'' ''424242'' ''newpass'' ((), sample_code_db) = (Inr (), ((), db')) \<and>
     (\<forall>t \<in> set (refresh_tokens db'). rt_authUserId t = ''u1'' \<longrightarrow> \<not> live t)) \<and>
   (\<exists>pair db'. changePassword sample_env no_ports ''u1'' ''secret'' ''newpass'' sample_meta ((), sample_code_db) = (Inr pair, ((), db')) \<and>
     (\<forall>t \<in> set (refresh_tokens db'). rt_authUserId t = ''u1'' \<and> live t \<longrightarrow> tokenHash t = sha256 sample_env (refreshToken pair)))"
proof -
  have "\<not> isl (fst (resetPassword sample_env no_ports ''a@b.co'' ''424242'' ''newpass'' ((), sample_code_db)))"
    "\<not> isl (fst (changePassword sample_env no_ports ''u1'' ''secret'' ''newpass'' sample_meta ((), sample_code_db)))" by code_simp+
  then obtain x w1 db1 pair w2 db2 where r: "resetPassword sample_env no_ports ''a@b.co'' ''424242'' ''newpass'' ((), sample_code_db) = (Inr x, (w1, db1))"
    "changePassword sample_env no_ports ''u1'' ''secret'' ''newpass'' sample_meta ((), sample_code_db) = (Inr pair, (w2, db2))"
    using not_isl by metis
  have acc: "find_row au_email ''a@b.co'' (auth_users sample_code_db) = Some u \<Longrightarrow> au_id u = ''u1''" for u
    by (auto simp: sample_code_db_def sample_auth_db_def sample_account_def new_auth_user_def)
  note cut = new_password_ends_sessions [OF sample_quiet(1) sample_code_ok]
  have "\<forall>t \<in> set (refresh_tokens db1). rt_authUserId t = ''u1'' \<longrightarrow> \<not> live t"
    using conjunct1 [OF cut, of no_ports "''a@b.co''" "''424242''" "''newpass''" "()" w1 db1] r(1) acc by auto
  moreover have "\<forall>t \<in> set (refresh_tokens db2). rt_authUserId t = ''u1'' \<and> live t \<longrightarrow> tokenHash t = sha256 sample_env (refreshToken pair)"
    using conjunct2 [OF cut, of no_ports "''u1''" "''secret''" "''newpass''" sample_meta "()" pair w2 db2] r(2) by blast
  ultimately show ?thesis using r by auto
qed

section \<open>What an answer tells\<close>

lemma dispatch_total: "\<exists>b w' db'. dispatchCode E n ports vid msg key (w, db) = (Inr b, (w', db'))"
  by (auto simp: dispatchCode_def catching_def and_then_def at_world_def call_def at_db_def split: prod.split sum.split option.split)

lemma issueCode_total:
  assumes "quiet E" and "user_exists (au_id u) db" and "ae_uuid E n \<notin> vf_id ` set (verifications db)"
  shows "\<exists>w' db'. issueCode E n ports u ty (w, db) = (Inr (), (w', db'))"
proof -
  have "map vf_id (map (\<lambda>v. if pending_of (au_id u) ty v then v\<lparr>vf_status := V_REVOKED\<rparr> else v) vs) = map vf_id vs" for vs by simp
  then have "\<exists>v db'. replaceVerification None (ae_between E) (ae_uuid E n) (ae_now E n) (au_id u) (code_record E ty (generateCode E) (ae_now E n)) db = (Inr v, db')"
    using assms by (simp add: quiet_def replaceVerification_def modify_def db_call_def attempt_def transaction_def revoke_pending_def insert_verification_def
        unique_violation_def new_verification_def code_record_def user_exists_def and_then_def del: set_map map_map flip: set_map)
  then obtain v db' where "call E n (\<lambda>flt. replaceVerification flt (ae_between E) (ae_uuid E n) (ae_now E n) (au_id u) (code_record E ty (generateCode E) (ae_now E n))) (w, db) =
      (Inr v, (w, db'))" by (auto simp: call_quiet [OF assms(1)])
  then show ?thesis
    using dispatch_total [of E "n + 1" ports "vf_id v" "if ty = EMAIL_VERIFICATION then verificationEmail E (au_email u) (generateCode E)
        else passwordResetEmail E (au_email u) (generateCode E)" "type_text ty @ '':'' @ vf_id v" w db']
    by (auto simp: issueCode_def Let_def and_then_step)
qed

text \<open>
  Property C29. Asking for a code tells nothing about an address: whether it has an account or not, whether the account
  is verified, suspended or has been mailed a moment ago, and whether the mail could be handed over, the two requests
  anyone may make (a password reset and a fresh verification code) answer with the same success.
\<close>

theorem answers_alike:
  assumes "quiet E" and "auth_ok db" and "ae_uuid E 2 \<notin> vf_id ` set (verifications db)"
  shows "fst (forgotPassword E ports email (w, db)) = Inr () \<and> fst (resendVerification E ports email (w, db)) = Inr ()"
proof (cases "find_row au_email email (auth_users db)")
  case None
  then show ?thesis by (simp add: forgotPassword_def resendVerification_def and_then_step call_read [OF assms(1)])
next
  case (Some u)
  have "fst (issueCode E 2 ports u ty (w, db)) = Inr ()" for ty
    using issueCode_total [OF assms(1) email_id(2) [OF assms(2) Some] assms(3), of ports ty w] by auto
  then show ?thesis using Some
    by (auto simp: forgotPassword_def resendVerification_def and_then_step call_read [OF assms(1)] simp del: One_nat_def split: option.split)
qed

theorem answers_alike_witness:
  "fst (forgotPassword sample_env no_ports ''a@b.co'' ((), sample_code_db)) = fst (forgotPassword sample_env no_ports ''no@b.co'' ((), sample_code_db))"
proof -
  have "ae_uuid sample_env 2 \<notin> vf_id ` set (verifications sample_code_db)"
    by (simp add: sample_env_def sample_code_db_def sample_code_def new_verification_def)
  then show ?thesis by (simp add: answers_alike [OF sample_quiet(1) sample_code_ok])
qed

section \<open>Where code and comments part\<close>

text \<open>While an account is locked a login still tells a wrong password from the right one.\<close>

lemma lock_tells_password:
  assumes "quiet E" and "\<And>n. ae_uuid E n \<notin> lh_id ` set (login_history db)" and "auth_ok db"
    and "find_row au_email email (auth_users db) = Some u" and "locked_at u (ae_now E 1)"
  shows "argon2_verify E (passwordHash u) password = Inr True \<Longrightarrow>
      fst (login E rd ports email password meta (w, db)) = Inl (login_error E ACCOUNT_LOCKED)"
    and "argon2_verify E (passwordHash u) password = Inr False \<Longrightarrow>
      fst (login E rd ports email password meta (w, db)) = Inl invalidCredentialsError"
proof -
  note id = email_id [OF assms(3,4)]
  show "fst (login E rd ports email password meta (w, db)) = Inl (login_error E ACCOUNT_LOCKED)"
    if "argon2_verify E (passwordHash u) password = Inr True"
    using login_refused [OF assms(1) assms(2) id(2) assms(4) that, of rd ports meta w] assms(4,5) that by (simp add: login_outcome_def)
  let ?db = "with_user (au_id u) (failed_login_row (lock_after E u)) db"
  have "recordAttempt E 2 (Some (au_id u)) email INVALID_CREDENTIALS a meta (w, ?db) =
      (Inr (history_row E 2 (Some (au_id u)) email INVALID_CREDENTIALS a meta),
       (w, logged (history_row E 2 (Some (au_id u)) email INVALID_CREDENTIALS a meta) ?db))" for a
    by (rule recordAttempt_run [OF assms(1)]) (use assms(2) id(2) in \<open>simp_all add: failed_login_row_def\<close>)
  then show "fst (login E rd ports email password meta (w, db)) = Inl invalidCredentialsError"
    if "argon2_verify E (passwordHash u) password = Inr False"
    using login_wrong [OF assms(1,4) id(1) that, of rd ports meta w] by (simp add: and_then_step)
qed

text \<open>Guesses that read the counter before any of them wrote it exhaust the attempts without setting the lock.\<close>

definition sample_burst :: auth_env where
  "sample_burst = sample_env\<lparr>ae_meanwhile := \<lambda>n db. if n = 1
     then snd (registerFailedLogin None ''u1'' None (snd (registerFailedLogin None ''u1'' None db))) else db\<rparr>"

lemma parallel_guesses_unlocked:
  "map (\<lambda>u. (failedLoginAttempts u, lockedUntil u)) (auth_users (snd (snd (login sample_burst (\<lambda>j. None) no_ports ''a@b.co'' ''guess'' sample_meta
     ((), sample_auth_db))))) = [(maxFailedLoginAttempts sample_options, None)]"
  by code_simp

text \<open>A revoked token is deleted with the expired ones, long before the retention of revoked tokens has passed.\<close>

definition sample_reaper :: ReaperOptions where
  "sample_reaper = \<lparr>expiredGraceDays = 1, revokedRetentionDays = 90, verificationRetentionDays = 0, loginHistoryRetentionDays = 0,
     batchSize = 10, reap_intervalMs = 1000\<rparr>"

lemma revoked_retention_cut_short:
  "refresh_tokens (snd (reap_runOnce (\<lambda>p k. None) (\<lambda>p db. db) (2 * MS_PER_DAY) sample_reaper
     (sample_auth_db\<lparr>refresh_tokens := [revoke_row (2 * MS_PER_DAY - 1) REUSE_DETECTED sample_token]\<rparr>))) = []"
  by code_simp

end
