(* ===== verification/AuthApi.thy ===== *)
theory AuthApi
  imports AuthProperties UserService Gateway
begin

text \<open>
  The HTTP side of the auth service: its request schemas (\<^verbatim>\<open>services/auth/src/modules/auth/auth.schema.ts\<close>), token
  checks (\<^verbatim>\<open>lib/tokens.ts\<close>, \<^verbatim>\<open>middlewares/authenticate.ts\<close>; the header is read as at the gateway), controller
  (\<^verbatim>\<open>auth.controller.ts\<close>) and routes (\<^verbatim>\<open>auth.routes.ts\<close>). \<^verbatim>\<open>z.email()\<close> and jose's \<^verbatim>\<open>jwtVerify\<close> are parameters.
\<close>

section \<open>Fields\<close>

record auth_config =
  ac_is_email :: "string \<Rightarrow> bool"
  PASSWORD_MIN_LENGTH :: nat
  PASSWORD_MAX_LENGTH :: nat
  ac_jwtVerify :: "string \<Rightarrow> (string \<times> json) list option"

definition auth_emailField :: "auth_config \<Rightarrow> json \<Rightarrow> string option" where
  "auth_emailField C v = (case v of
     JString s \<Rightarrow> (if ac_is_email C s \<and> length s \<le> 320 then Some (js_toLowerCase s) else None) | _ \<Rightarrow> None)"

definition username_char :: "char \<Rightarrow> bool" where
  "username_char c = (let v = of_char c :: nat in
     (97 \<le> v \<and> v \<le> 122) \<or> (65 \<le> v \<and> v \<le> 90) \<or> is_digit c \<or> c = CHR ''.'' \<or> c = CHR ''_'' \<or> c = CHR ''-'')"

definition usernameField :: "json \<Rightarrow> string option" where
  "usernameField v = (case trimmed_string 3 50 v of
     None \<Rightarrow> None | Some s \<Rightarrow> (if list_all username_char s then Some (js_toLowerCase s) else None))"

definition COMMON_PASSWORDS :: "string list" where
  "COMMON_PASSWORDS = [''password'', ''password1'', ''password123'', ''passw0rd'', ''12345678'', ''123456789'', ''1234567890'',
     ''qwertyuiop'', ''qwerty123'', ''letmein123'', ''iloveyou1'', ''admin123'', ''welcome123'', ''changeme'', ''secret123'']"

definition passwordField :: "auth_config \<Rightarrow> json \<Rightarrow> string option" where
  "passwordField C v = (case v of
     JString s \<Rightarrow> (if PASSWORD_MIN_LENGTH C \<le> length s \<and> length s \<le> PASSWORD_MAX_LENGTH C \<and>
        js_toLowerCase s \<notin> set COMMON_PASSWORDS then Some s else None)
   | _ \<Rightarrow> None)"

definition givenPassword :: "auth_config \<Rightarrow> json \<Rightarrow> string option" where
  "givenPassword C v = (case v of
     JString s \<Rightarrow> (if 1 \<le> length s \<and> length s \<le> PASSWORD_MAX_LENGTH C then Some s else None) | _ \<Rightarrow> None)"

definition codeField :: "json \<Rightarrow> string option" where
  "codeField v = (case trimmed_string CODE_LENGTH CODE_LENGTH v of
     None \<Rightarrow> None | Some s \<Rightarrow> (if list_all is_digit s then Some s else None))"

definition refreshTokenField :: "json \<Rightarrow> string option" where
  "refreshTokenField v = trimmed_string 20 512 v"

section \<open>Request schemas\<close>

text \<open>The profile's phone number follows the user service's pattern.\<close>

definition profileSchema :: "json \<Rightarrow> PendingProfile option" where
  "profileSchema v = (case v of
     JObject fs \<Rightarrow>
       (if \<not> strict_keys [''name'', ''address'', ''phone''] fs then None
        else case required (trimmed_string 1 150) (obj_get fs ''name'') of None \<Rightarrow> None | Some nm \<Rightarrow>
          (case required (trimmed_string 1 250) (obj_get fs ''address'') of None \<Rightarrow> None | Some ad \<Rightarrow>
          (case required phoneField (obj_get fs ''phone'') of None \<Rightarrow> None | Some ph \<Rightarrow>
             Some \<lparr>pp_name = nm, pp_address = ad, pp_phone = ph\<rparr>)))
   | _ \<Rightarrow> None)"

definition readPendingProfile :: "json \<Rightarrow> PendingProfile option" where
  "readPendingProfile v = profileSchema v"

text \<open>The parsed profile as it is stored in the JSON column.\<close>

definition profile_json :: "PendingProfile \<Rightarrow> json" where
  "profile_json p = JObject [(''name'', JString (pp_name p)), (''address'', JString (pp_address p)), (''phone'', JString (pp_phone p))]"

definition local_part :: "string \<Rightarrow> string" where
  "local_part email = takeWhile (\<lambda>c. c \<noteq> CHR ''@'') email"

definition registerSchema :: "auth_config \<Rightarrow> json \<Rightarrow> RegisterInput option" where
  "registerSchema C v = (case v of
     JObject fs \<Rightarrow>
       (if \<not> strict_keys [''email'', ''username'', ''password'', ''profile''] fs then None
        else case required (auth_emailField C) (obj_get fs ''email'') of None \<Rightarrow> None | Some em \<Rightarrow>
          (case required usernameField (obj_get fs ''username'') of None \<Rightarrow> None | Some un \<Rightarrow>
          (case required (passwordField C) (obj_get fs ''password'') of None \<Rightarrow> None | Some pw \<Rightarrow>
          (case required profileSchema (obj_get fs ''profile'') of None \<Rightarrow> None | Some p \<Rightarrow>
             (let password = js_toLowerCase pw; localPart = local_part em in
              if str_includes password un \<or> (localPart \<noteq> '''' \<and> str_includes password localPart) then None
              else Some \<lparr>reg_email = em, reg_username = un, reg_password = pw, reg_profile = profile_json p\<rparr>)))))
   | _ \<Rightarrow> None)"

definition verifyEmailSchema :: "auth_config \<Rightarrow> json \<Rightarrow> (string \<times> string) option" where
  "verifyEmailSchema C v = (case v of
     JObject fs \<Rightarrow>
       (if \<not> strict_keys [''email'', ''code''] fs then None
        else case required (auth_emailField C) (obj_get fs ''email'') of None \<Rightarrow> None | Some em \<Rightarrow>
          map_option (\<lambda>pin. (em, pin)) (required codeField (obj_get fs ''code'')))
   | _ \<Rightarrow> None)"

text \<open>\<^verbatim>\<open>resendVerificationSchema\<close> and \<^verbatim>\<open>forgotPasswordSchema\<close> are one shape, \<^verbatim>\<open>refreshSchema\<close> and \<^verbatim>\<open>logoutSchema\<close> another.\<close>

definition emailOnlySchema :: "auth_config \<Rightarrow> json \<Rightarrow> string option" where
  "emailOnlySchema C v = (case v of
     JObject fs \<Rightarrow> (if \<not> strict_keys [''email''] fs then None else required (auth_emailField C) (obj_get fs ''email''))
   | _ \<Rightarrow> None)"

definition refreshSchema :: "json \<Rightarrow> string option" where
  "refreshSchema v = (case v of
     JObject fs \<Rightarrow> (if \<not> strict_keys [''refreshToken''] fs then None else required refreshTokenField (obj_get fs ''refreshToken''))
   | _ \<Rightarrow> None)"

definition loginSchema :: "auth_config \<Rightarrow> json \<Rightarrow> (string \<times> string) option" where
  "loginSchema C v = (case v of
     JObject fs \<Rightarrow>
       (if \<not> strict_keys [''email'', ''password''] fs then None
        else case required (auth_emailField C) (obj_get fs ''email'') of None \<Rightarrow> None | Some em \<Rightarrow>
          map_option (\<lambda>pw. (em, pw)) (required (givenPassword C) (obj_get fs ''password'')))
   | _ \<Rightarrow> None)"

definition resetPasswordSchema :: "auth_config \<Rightarrow> json \<Rightarrow> (string \<times> string \<times> string) option" where
  "resetPasswordSchema C v = (case v of
     JObject fs \<Rightarrow>
       (if \<not> strict_keys [''email'', ''code'', ''password''] fs then None
        else case required (auth_emailField C) (obj_get fs ''email'') of None \<Rightarrow> None | Some em \<Rightarrow>
          (case required codeField (obj_get fs ''code'') of None \<Rightarrow> None | Some pin \<Rightarrow>
             map_option (\<lambda>pw. (em, pin, pw)) (required (passwordField C) (obj_get fs ''password''))))
   | _ \<Rightarrow> None)"

definition changePasswordSchema :: "auth_config \<Rightarrow> json \<Rightarrow> (string \<times> string) option" where
  "changePasswordSchema C v = (case v of
     JObject fs \<Rightarrow>
       (if \<not> strict_keys [''currentPassword'', ''password''] fs then None
        else case required (givenPassword C) (obj_get fs ''currentPassword'') of None \<Rightarrow> None | Some cur \<Rightarrow>
          (case required (passwordField C) (obj_get fs ''password'') of None \<Rightarrow> None | Some pw \<Rightarrow>
             (if cur \<noteq> pw then Some (cur, pw) else None)))
   | _ \<Rightarrow> None)"

fun outcome_text :: "LoginOutcome \<Rightarrow> string" where
  "outcome_text SUCCESS = ''SUCCESS''"
| "outcome_text INVALID_CREDENTIALS = ''INVALID_CREDENTIALS''"
| "outcome_text UNKNOWN_EMAIL = ''UNKNOWN_EMAIL''"
| "outcome_text NOT_VERIFIED = ''NOT_VERIFIED''"
| "outcome_text ACCOUNT_LOCKED = ''ACCOUNT_LOCKED''"
| "outcome_text ACCOUNT_INACTIVE = ''ACCOUNT_INACTIVE''"

definition LOGIN_OUTCOMES :: "LoginOutcome list" where
  "LOGIN_OUTCOMES = [SUCCESS, INVALID_CREDENTIALS, UNKNOWN_EMAIL, NOT_VERIFIED, ACCOUNT_LOCKED, ACCOUNT_INACTIVE]"

definition loginHistoryQuerySchema :: "(string \<times> string) list \<Rightarrow> LoginHistoryQuery option" where
  "loginHistoryQuerySchema q =
     (if \<not> list_all (\<lambda>(k, v). k \<in> {''page'', ''limit'', ''success'', ''outcome''}) q then None
      else case coerced_between 1 None 1 (map_of q ''page'') of None \<Rightarrow> None | Some page \<Rightarrow>
        (case coerced_between 1 (Some 100) 20 (map_of q ''limit'') of None \<Rightarrow> None | Some limit \<Rightarrow>
        (case query_optional successField (map_of q ''success'') of None \<Rightarrow> None | Some ok \<Rightarrow>
        (case query_optional (enumField outcome_text LOGIN_OUTCOMES) (map_of q ''outcome'') of None \<Rightarrow> None | Some out \<Rightarrow>
           Some \<lparr>hq_page = page, hq_limit = limit, hq_success = ok, hq_outcome = out\<rparr>))))"

section \<open>The caller\<close>

record http_call =
  hc_authorization :: "string option"
  hc_ip :: "string option"
  hc_userAgent :: "string option"

definition auth_verifyAccessToken :: "auth_config \<Rightarrow> string \<Rightarrow> AppError + AccessTokenClaims" where
  "auth_verifyAccessToken C token = (case ac_jwtVerify C token of
     None \<Rightarrow> Inl (UnauthorizedError ''Access token is invalid or has expired'')
   | Some payload \<Rightarrow>
       (case (string_claim payload ''sub'', string_claim payload ''email'', string_claim payload ''username'',
              string_claim payload ''role'', string_claim payload ''sid'') of
          (Some sub, Some email, Some username, Some role, Some sid) \<Rightarrow>
            Inr \<lparr>claim_sub = sub, claim_email = email, claim_username = username, claim_role = role, claim_sid = sid\<rparr>
        | _ \<Rightarrow> Inl (UnauthorizedError ''Access token is missing required claims'')))"

text \<open>\<^verbatim>\<open>authenticate\<close> in front of a handler, which gets the claims as its caller.\<close>

definition auth_authenticate :: "auth_config \<Rightarrow> http_call \<Rightarrow> AppError + AccessTokenClaims" where
  "auth_authenticate C req = (case extractBearerToken (hc_authorization req) of
     None \<Rightarrow> Inl (UnauthorizedError ''A bearer access token is required'')
   | Some token \<Rightarrow> auth_verifyAccessToken C token)"

definition USER_AGENT_MAX_LENGTH :: nat where
  "USER_AGENT_MAX_LENGTH = 512"

definition req_meta :: "http_call \<Rightarrow> RequestMeta" where
  "req_meta req = \<lparr>meta_ip = hc_ip req, meta_userAgent = map_option (take USER_AGENT_MAX_LENGTH) (hc_userAgent req)\<rparr>"

section \<open>Routes and controller\<close>

datatype AuthRequest =
  PostRegister json | PostVerifyEmail json | PostResendVerification json | PostLogin json | PostRefresh json | PostLogout json
| PostForgotPassword json | PostResetPassword json
| GetMe | PostChangePassword json | GetSessions | PostLogoutAll | GetLoginHistory "(string \<times> string) list"

datatype AuthReply =
  Registered PublicAuthUser bool
| SignedIn PublicAuthUser AuthTokens "bool option"
| Tokens AuthTokens
| Message string
| Revoked nat
| Account PublicAuthUser
| Sessions "SessionView list"
| History "LoginHistory paginated"
| NoContent

definition auth_invalid :: AppError where
  "auth_invalid = ValidationError ''Request validation failed'' None"

definition auth_validate :: "'i option \<Rightarrow> ('i \<Rightarrow> ('s, AppError, 'a) act) \<Rightarrow> ('s, AppError, 'a) act" where
  "auth_validate parsed handler = (case parsed of None \<Rightarrow> throw auth_invalid | Some input \<Rightarrow> handler input)"

definition for_caller :: "auth_config \<Rightarrow> http_call \<Rightarrow> (AccessTokenClaims \<Rightarrow> ('s, AppError, 'a) act) \<Rightarrow> ('s, AppError, 'a) act" where
  "for_caller C req handler = (case auth_authenticate C req of Inl e \<Rightarrow> throw e | Inr claims \<Rightarrow> handler claims)"

text \<open>The controller's handlers; the two 202 answers say the same whatever happened.\<close>

definition ctl_register :: "auth_env \<Rightarrow> 'w auth_ports \<Rightarrow> RegisterInput \<Rightarrow> ('w \<times> auth_db, AppError, int \<times> AuthReply) act" where
  "ctl_register E ports input = and_then (register E ports input) (\<lambda>(user, queued). ret (201, Registered user queued))"

definition ctl_verifyEmail :: "auth_env \<Rightarrow> 'w auth_ports \<Rightarrow> http_call \<Rightarrow> string \<times> string \<Rightarrow> ('w \<times> auth_db, AppError, int \<times> AuthReply) act" where
  "ctl_verifyEmail E ports req = (\<lambda>(email, pin).
     and_then (verifyEmail E readPendingProfile ports email pin (req_meta req)) (\<lambda>((user, tokens), created).
     ret (200, SignedIn user tokens (Some created))))"

definition ctl_resendVerification :: "auth_env \<Rightarrow> 'w auth_ports \<Rightarrow> string \<Rightarrow> ('w \<times> auth_db, AppError, int \<times> AuthReply) act" where
  "ctl_resendVerification E ports email = 
     and_then (resendVerification E ports email) (\<lambda>_. ret (202, Message ''If that address needs verifying, a new code is on its way.''))"

definition ctl_login :: "auth_env \<Rightarrow> 'w auth_ports \<Rightarrow> http_call \<Rightarrow> string \<times> string \<Rightarrow> ('w \<times> auth_db, AppError, int \<times> AuthReply) act" where
  "ctl_login E ports req = (\<lambda>(email, password).
     and_then (login E readPendingProfile ports email password (req_meta req)) (\<lambda>(user, tokens). ret (200, SignedIn user tokens None)))"

definition ctl_refresh :: "auth_env \<Rightarrow> http_call \<Rightarrow> string \<Rightarrow> ('w \<times> auth_db, AppError, int \<times> AuthReply) act" where
  "ctl_refresh E req token = and_then (refresh E token (req_meta req)) (\<lambda>tokens. ret (200, Tokens tokens))"

definition ctl_logout :: "auth_env \<Rightarrow> string \<Rightarrow> ('w \<times> auth_db, AppError, int \<times> AuthReply) act" where
  "ctl_logout E token = and_then (logout E token) (\<lambda>_. ret (204, NoContent))"

definition ctl_logoutAll :: "auth_env \<Rightarrow> AccessTokenClaims \<Rightarrow> ('w \<times> auth_db, AppError, int \<times> AuthReply) act" where
  "ctl_logoutAll E caller = and_then (logoutAll E (claim_sub caller)) (\<lambda>n. ret (200, Revoked n))"

definition ctl_forgotPassword :: "auth_env \<Rightarrow> 'w auth_ports \<Rightarrow> string \<Rightarrow> ('w \<times> auth_db, AppError, int \<times> AuthReply) act" where
  "ctl_forgotPassword E ports email = 
     and_then (forgotPassword E ports email) (\<lambda>_. ret (202, Message ''If that address has an account, a reset code is on its way.''))"

definition ctl_resetPassword :: "auth_env \<Rightarrow> 'w auth_ports \<Rightarrow> string \<times> string \<times> string \<Rightarrow> ('w \<times> auth_db, AppError, int \<times> AuthReply) act" where
  "ctl_resetPassword E ports = (\<lambda>(email, pin, password).
     and_then (resetPassword E ports email pin password) (\<lambda>_. ret (200, Message ''Password updated. All sessions have been signed out.'')))"

definition ctl_changePassword :: "auth_env \<Rightarrow> 'w auth_ports \<Rightarrow> http_call \<Rightarrow> AccessTokenClaims \<Rightarrow> string \<times> string \<Rightarrow> ('w \<times> auth_db, AppError, int \<times> AuthReply) act" where
  "ctl_changePassword E ports req caller = (\<lambda>(cur, password).
     and_then (changePassword E ports (claim_sub caller) cur password (req_meta req)) (\<lambda>tokens. ret (200, Tokens tokens)))"

definition ctl_me :: "auth_env \<Rightarrow> AccessTokenClaims \<Rightarrow> ('w \<times> auth_db, AppError, int \<times> AuthReply) act" where
  "ctl_me E caller = and_then (auth_getById E (claim_sub caller)) (\<lambda>user. ret (200, Account user))"

definition ctl_sessions :: "auth_env \<Rightarrow> AccessTokenClaims \<Rightarrow> ('w \<times> auth_db, AppError, int \<times> AuthReply) act" where
  "ctl_sessions E caller = 
     and_then (listSessions E (claim_sub caller) (Some (claim_sid caller))) (\<lambda>views. ret (200, Sessions views))"

definition ctl_loginHistory :: "auth_env \<Rightarrow> AccessTokenClaims \<Rightarrow> LoginHistoryQuery \<Rightarrow> ('w \<times> auth_db, AppError, int \<times> AuthReply) act" where
  "ctl_loginHistory E caller query = 
     and_then (listLoginHistory E (claim_sub caller) query) (\<lambda>(items, number).
     ret (200, History (sendPaginated items (hq_page query) (hq_limit query) number)))"

text \<open>The routes: validation in front of the public ones, \<open>authenticate\<close> in front of the rest.\<close>

fun auth_handle ::
  "auth_env \<Rightarrow> auth_config \<Rightarrow> 'w auth_ports \<Rightarrow> http_call \<Rightarrow> AuthRequest \<Rightarrow> ('w \<times> auth_db, AppError, int \<times> AuthReply) act" where
  "auth_handle E C ports req (PostRegister body) = auth_validate (registerSchema C body) (ctl_register E ports)"
| "auth_handle E C ports req (PostVerifyEmail body) = auth_validate (verifyEmailSchema C body) (ctl_verifyEmail E ports req)"
| "auth_handle E C ports req (PostResendVerification body) = auth_validate (emailOnlySchema C body) (ctl_resendVerification E ports)"
| "auth_handle E C ports req (PostLogin body) = auth_validate (loginSchema C body) (ctl_login E ports req)"
| "auth_handle E C ports req (PostRefresh body) = auth_validate (refreshSchema body) (ctl_refresh E req)"
| "auth_handle E C ports req (PostLogout body) = auth_validate (refreshSchema body) (ctl_logout E)"
| "auth_handle E C ports req (PostForgotPassword body) = auth_validate (emailOnlySchema C body) (ctl_forgotPassword E ports)"
| "auth_handle E C ports req (PostResetPassword body) = auth_validate (resetPasswordSchema C body) (ctl_resetPassword E ports)"
| "auth_handle E C ports req GetMe = for_caller C req (ctl_me E)"
| "auth_handle E C ports req (PostChangePassword body) = for_caller C req (\<lambda>caller.
     auth_validate (changePasswordSchema C body) (ctl_changePassword E ports req caller))"
| "auth_handle E C ports req GetSessions = for_caller C req (ctl_sessions E)"
| "auth_handle E C ports req PostLogoutAll = for_caller C req (ctl_logoutAll E)"
| "auth_handle E C ports req (GetLoginHistory q) = for_caller C req (\<lambda>caller.
     auth_validate (loginHistoryQuerySchema q) (ctl_loginHistory E caller))"

lemmas principal_handlers = ctl_me_def ctl_changePassword_def ctl_sessions_def ctl_logoutAll_def ctl_loginHistory_def

section \<open>Lemmas\<close>

lemma phone_again: "phoneField v = Some s \<Longrightarrow> phoneField (JString s) = Some s"
  by (auto simp: phoneField_def trimmed_again split: option.splits if_splits)

text \<open>What the registration stores is what the hand-off reads back.\<close>

lemma profile_roundtrip: "profileSchema v = Some p \<Longrightarrow> readPendingProfile (profile_json p) = Some p"
  by (auto simp: readPendingProfile_def profileSchema_def profile_json_def strict_keys_def obj_get_def required_def
      trimmed_again phone_again split: json.splits if_splits option.splits)

lemma registered_profile: "registerSchema C v = Some input \<Longrightarrow> \<exists>p. readPendingProfile (reg_profile input) = Some p"
  by (auto simp: registerSchema_def Let_def required_Some profile_roundtrip split: json.splits if_splits option.splits)

section \<open>Whose rows a request may touch\<close>

definition needs_caller :: "AuthRequest \<Rightarrow> bool" where
  "needs_caller r = (case r of GetMe \<Rightarrow> True | PostChangePassword _ \<Rightarrow> True | GetSessions \<Rightarrow> True | PostLogoutAll \<Rightarrow> True
     | GetLoginHistory _ \<Rightarrow> True | _ \<Rightarrow> False)"

text \<open>Rows of other accounts are as they were.\<close>

definition others_same :: "string \<Rightarrow> auth_db \<Rightarrow> auth_db \<Rightarrow> bool" where
  "others_same i db db' \<longleftrightarrow> filter (\<lambda>u. au_id u \<noteq> i) (auth_users db') = filter (\<lambda>u. au_id u \<noteq> i) (auth_users db) \<and>
     filter (\<lambda>t. rt_authUserId t \<noteq> i) (refresh_tokens db') = filter (\<lambda>t. rt_authUserId t \<noteq> i) (refresh_tokens db) \<and>
     verifications db' = verifications db \<and> login_history db' = login_history db"

lemma others_same_refl [simp]: "others_same i db db"
  by (simp add: others_same_def)

lemma keeps_others_same:
  "keeps (others_same i db) (db_call flt m)" if "\<And>s a t. others_same i db s \<Longrightarrow> m s = (Inr a, t) \<Longrightarrow> others_same i db t"
  using that by (rule db_call_keeps)

lemma filter_update_rows: "(\<And>r. key (f r) = key r) \<Longrightarrow> filter (\<lambda>r. key r \<noteq> i) (update_rows key i f rs) = filter (\<lambda>r. key r \<noteq> i) rs"
  by (induction rs) auto

lemma revoke_others: "revoke_where (\<lambda>t. rt_authUserId t = i) at why s = (Inr n, t) \<Longrightarrow> others_same i db s \<Longrightarrow> others_same i db t"
proof -
  have "filter (\<lambda>t. rt_authUserId t \<noteq> i) (map (\<lambda>t. if rt_authUserId t = i \<and> live t then revoke_row at why t else t) ts) =
      filter (\<lambda>t. rt_authUserId t \<noteq> i) ts" for ts
    by (induction ts) (auto simp: revoke_row_def)
  then show "revoke_where (\<lambda>t. rt_authUserId t = i) at why s = (Inr n, t) \<Longrightarrow> others_same i db s \<Longrightarrow> others_same i db t"
    by (auto simp: revoke_where_def others_same_def)
qed

lemma update_user_others:
  "update_auth_user i f s = (Inr u, t) \<Longrightarrow> (\<And>u. au_id (f u) = au_id u) \<Longrightarrow> others_same i db s \<Longrightarrow> others_same i db t"
  by (auto simp: update_auth_user_def others_same_def filter_update_rows split: option.splits)

text \<open>An action that keeps \<open>P\<close> and, when it succeeds, answers with a value satisfying \<open>Q\<close>.\<close>

definition delivers :: "('s \<Rightarrow> bool) \<Rightarrow> ('s, 'e, 'a) act \<Rightarrow> ('a \<Rightarrow> bool) \<Rightarrow> bool" where
  "delivers P m Q \<longleftrightarrow> keeps P m \<and> (\<forall>s a t. P s \<longrightarrow> m s = (Inr a, t) \<longrightarrow> Q a)"

lemma keeps_delivers: "delivers P m Q \<Longrightarrow> (\<And>a. Q a \<Longrightarrow> keeps P (f a)) \<Longrightarrow> keeps P (and_then m f)"
  unfolding delivers_def keeps_def and_then_def by (fastforce split: prod.splits sum.splits)

lemma delivers_call:
  assumes "\<And>n. ae_meanwhile E n = id" and "\<And>s. P s \<Longrightarrow> P (snd (m (ae_fault E n) s)) \<and> (\<forall>a t. m (ae_fault E n) s = (Inr a, t) \<longrightarrow> Q a)"
  shows "delivers (on_db P) (call E n m) Q"
  using assms by (auto simp: delivers_def keeps_def call_def at_db_def on_db_def and_then_def modify_def split: prod.splits if_splits)
    (metis snd_conv)+

lemma delivers_find: "(\<And>n. ae_meanwhile E n = id) \<Longrightarrow> delivers (on_db P) (call E n (\<lambda>flt. findAuthUserById flt i)) (\<lambda>u. \<forall>x. u = Some x \<longrightarrow> au_id x = i)"
  by (rule delivers_call) (auto simp: findAuthUserById_def db_call_Inr dest: find_row_SomeD split: option.splits
      intro: keepsD [OF db_call_read])

lemma delivers_updatePassword:
  assumes "\<And>n. ae_meanwhile E n = id"
  shows "delivers (on_db (others_same i db)) (call E n (\<lambda>flt. updatePassword flt i h at)) (\<lambda>u. au_id u = i)"
proof (rule delivers_call [OF assms])
  fix s assume "others_same i db s"
  moreover have "commits (others_same i db) (and_then (revoke_where (\<lambda>t. rt_authUserId t = i) at PASSWORD_CHANGED)
      (\<lambda>_. update_auth_user i (\<lambda>u. u\<lparr>passwordHash := h, passwordChangedAt := Some at\<rparr>)))"
    by (intro commits_and_then commitsI) (auto elim: revoke_others update_user_others)
  ultimately show "others_same i db (snd (updatePassword (ae_fault E n) i h at s)) \<and>
      (\<forall>a t. updatePassword (ae_fault E n) i h at s = (Inr a, t) \<longrightarrow> au_id a = i)"
    unfolding updatePassword_def by (auto simp: db_call_Inr and_then_Inr_iff update_auth_user_def intro: keepsD [OF db_call_commits]
        dest: find_row_SomeD split: option.splits)
qed

lemma keeps_startSession_others:
  assumes "\<And>n. ae_meanwhile E n = id" and "au_id u = i"
  shows "keeps (on_db (others_same i db)) (startSession E n u meta now)"
proof -
  have "keeps (others_same i db) (repo_createRefreshToken flt uuid at (session_record u f tok meta))" for flt uuid at f tok
    unfolding repo_createRefreshToken_def using assms(2)
    by (intro db_call_commits commitsI) (auto dest!: insert_token_row simp: others_same_def new_refresh_token_def session_record_def)
  then show ?thesis unfolding startSession_def Let_def by (intro keeps_and_then keeps_call keeps_intros) (simp_all add: assms(1))
qed

lemma keeps_changePassword_others:
  assumes "\<And>n. ae_meanwhile E n = id"
  shows "keeps (on_db (others_same i db)) (changePassword E ports i cur pw meta)"
proof -
  have notice: "keeps (on_db (others_same i db)) (notify ports msg)" for msg unfolding notify_def by (intro keeps_intros)
  have tail: "keeps (on_db (others_same i db)) (and_then (call E 1 (\<lambda>flt. updatePassword flt i h now)) (\<lambda>updated.
      and_then (notify ports msg) (\<lambda>_. and_then (startSession E 2 updated meta now) (\<lambda>(_, tokens). ret tokens))))" for h now msg
    by (rule keeps_delivers [OF delivers_updatePassword [OF assms]])
      (intro keeps_and_then notice keeps_startSession_others assms, simp_all add: case_prod_beta keeps_intros)
  have body: "keeps (on_db (others_same i db)) (and_then (lift a) (\<lambda>matches. if \<not> matches then throw e
      else and_then (lift b) (\<lambda>h. and_then (call E 1 (\<lambda>flt. updatePassword flt (au_id u) h now)) (\<lambda>updated.
      and_then (notify ports msg) (\<lambda>_. and_then (startSession E 2 updated meta now) (\<lambda>(_, tokens). ret tokens))))))"
    if "au_id u = i" for u a b e now msg
    unfolding that by (rule keeps_and_then [OF keeps_basic(3)], rule keeps_if, rule keeps_basic(2), rule keeps_and_then [OF keeps_basic(3)], rule tail)
  show ?thesis
    unfolding changePassword_def Let_def
    apply (rule keeps_delivers [OF delivers_find [OF assms]])
    subgoal for a by (cases a) (simp_all add: body keeps_basic del: One_nat_def)
    done
qed

text \<open>The rows a reply shows belong to account \<open>i\<close>.\<close>

definition reply_of :: "string \<Rightarrow> auth_db \<Rightarrow> AuthReply \<Rightarrow> bool" where
  "reply_of i db r = (case r of
     Account u \<Rightarrow> pu_id u = i
   | Sessions vs \<Rightarrow> (\<forall>v \<in> set vs. \<exists>t \<in> set (refresh_tokens db). rt_id t = sv_id v \<and> rt_authUserId t = i)
   | History p \<Rightarrow> (\<forall>h \<in> set (pg_items p). lh_authUserId h = Some i)
   | _ \<Rightarrow> True)"

lemma call_alone: "(\<And>n. ae_meanwhile E n = id) \<Longrightarrow> call E n m (w, db) = (case m (ae_fault E n) db of (r, db') \<Rightarrow> (r, (w, db')))"
  by (simp add: call_def at_db_def)

lemma caller_reads:
  assumes "\<And>n. ae_meanwhile E n = id"
  shows "auth_getById E i (w, db) = (Inr u, s) \<Longrightarrow> pu_id u = i"
    "listSessions E i sid (w, db) = (Inr vs, s) \<Longrightarrow> v \<in> set vs \<Longrightarrow> \<exists>t \<in> set (refresh_tokens db). rt_id t = sv_id v \<and> rt_authUserId t = i"
    "listLoginHistory E i q (w, db) = (Inr (hs, n), s) \<Longrightarrow> h \<in> set hs \<Longrightarrow> lh_authUserId h = Some i"
proof -
  assume "auth_getById E i (w, db) = (Inr u, s)"
  then obtain x where x: "find_row au_id i (auth_users db) = Some x" "u = toPublicAuthUser x"
    by (auto simp: auth_getById_def and_then_Inr_iff call_alone [OF assms] findAuthUserById_def db_call_Inr split: prod.splits option.splits)
  show "pu_id u = i" using find_row_SomeD(2) [OF x(1)] by (simp add: x(2) toPublicAuthUser_def)
next
  assume "listSessions E i sid (w, db) = (Inr vs, s)" "v \<in> set vs"
  then obtain t where "t \<in> set (refresh_tokens db)" "rt_id t = sv_id v" "rt_authUserId t = i"
    by (auto simp: listSessions_def and_then_Inr_iff call_alone [OF assms] listActiveSessions_def db_call_Inr split: prod.splits)
  then show "\<exists>t \<in> set (refresh_tokens db). rt_id t = sv_id v \<and> rt_authUserId t = i" by blast
next
  assume "listLoginHistory E i q (w, db) = (Inr (hs, n), s)" "h \<in> set hs"
  then show "lh_authUserId h = Some i"
    by (auto simp: listLoginHistory_def call_alone [OF assms] repo_listLoginHistory_def db_call_Inr Let_def history_matches_def
        split: prod.splits dest!: in_set_takeD in_set_dropD)
qed

text \<open>
  Property C30. The account routes act for their caller only. Without a bearer token that verifies they answer 401 and
  change nothing; with one, whatever the body and the query say, the accounts, sessions and history of everybody but
  the token's subject stay as they were, and the rows shown are the subject's.
\<close>

theorem callers_confined:
  assumes "needs_caller r" and "\<forall>n. ae_meanwhile E n = id"
  shows "case auth_authenticate C req of
      Inl e \<Rightarrow> statusCode e = 401 \<and> auth_handle E C ports req r (w, db) = (Inl e, (w, db))
    | Inr caller \<Rightarrow> (case auth_handle E C ports req r (w, db) of (out, (w', db')) \<Rightarrow>
        others_same (claim_sub caller) db db' \<and> (\<forall>status reply. out = Inr (status, reply) \<longrightarrow> reply_of (claim_sub caller) db reply))"
proof (cases "auth_authenticate C req")
  case (Inl e)
  then have "statusCode e = 401"
    by (auto simp: auth_authenticate_def auth_verifyAccessToken_def split: option.splits)
  moreover have "auth_handle E C ports req r (w, db) = (Inl e, (w, db))"
    using assms(1) Inl by (cases r) (simp_all add: needs_caller_def for_caller_def)
  ultimately show ?thesis using Inl by simp
next
  case (Inr caller)
  let ?i = "claim_sub caller"
  have alone: "\<And>n. ae_meanwhile E n = id" using assms(2) by blast
  have same: "others_same ?i db (snd (snd (m (w, db))))" if "keeps (on_db (others_same ?i db)) m" for m :: "('a \<times> auth_db, AppError, 'b) act"
    using keepsD [OF that, of "(w, db)"] by (simp add: on_db_def)
  have "keeps (on_db (others_same ?i db)) (auth_handle E C ports req r)"
  proof -
    have revoke: "keeps (others_same ?i db) (revokeAllForUser flt at ?i why)" for flt at why
      unfolding revokeAllForUser_def by (intro db_call_commits commitsI) (rule revoke_others)
    have reads: "keeps (on_db (others_same ?i db)) (auth_getById E ?i)" "keeps (on_db (others_same ?i db)) (listSessions E ?i sid)"
      "keeps (on_db (others_same ?i db)) (listLoginHistory E ?i q)" "keeps (on_db (others_same ?i db)) (logoutAll E ?i)" for sid q
      unfolding auth_getById_def listSessions_def listLoginHistory_def logoutAll_def
      by (intro keeps_intros keeps_call revoke; simp add: alone)+
    show ?thesis
      using assms(1) Inr
      by (cases r) (auto simp: needs_caller_def for_caller_def auth_validate_def principal_handlers case_prod_beta
          intro!: keeps_and_then reads keeps_changePassword_others [OF alone] keeps_basic split: option.split)
  qed
  moreover have "reply_of ?i db reply" if "auth_handle E C ports req r (w, db) = (Inr (status, reply), s)" for status reply s
    using that assms(1) Inr
    by (cases r) (auto simp: needs_caller_def for_caller_def auth_validate_def principal_handlers and_then_Inr_iff reply_of_def sendPaginated_def Let_def
        split: option.splits prod.splits dest: caller_reads [OF alone])
  ultimately show ?thesis using Inr same [of "auth_handle E C ports req r"] by (cases "auth_handle E C ports req r (w, db)") auto
qed

definition sample_config :: auth_config where
  "sample_config = \<lparr>ac_is_email = (\<lambda>s. CHR ''@'' \<in> set s), PASSWORD_MIN_LENGTH = 8, PASSWORD_MAX_LENGTH = 128,
     ac_jwtVerify = (\<lambda>t. if t = ''jwt'' then Some (jwt_payload sample_env sample_account ''f1'' 0) else None)\<rparr>"

definition sample_call :: "string option \<Rightarrow> http_call" where
  "sample_call a = \<lparr>hc_authorization = a, hc_ip = None, hc_userAgent = None\<rparr>"

theorem callers_confined_witness:
  "auth_handle sample_env sample_config no_ports (sample_call None) PostLogoutAll ((), sample_auth_db) =
     (Inl (UnauthorizedError ''A bearer access token is required''), ((), sample_auth_db)) \<and>
   others_same ''u1'' sample_auth_db (snd (snd (auth_handle sample_env sample_config no_ports (sample_call (Some ''Bearer jwt'')) PostLogoutAll ((), sample_auth_db)))) \<and>
   \<not> isl (fst (auth_handle sample_env sample_config no_ports (sample_call (Some ''Bearer jwt'')) PostLogoutAll ((), sample_auth_db)))"
proof -
  have alone: "\<forall>n. ae_meanwhile sample_env n = id" by (simp add: sample_env_def id_def)
  have none: "auth_authenticate sample_config (sample_call None) = Inl (UnauthorizedError ''A bearer access token is required'')"
    by (simp add: auth_authenticate_def extractBearerToken_def sample_call_def)
  have "map_sum id claim_sub (auth_authenticate sample_config (sample_call (Some ''Bearer jwt''))) = Inr ''u1''" by code_simp
  then obtain caller where caller: "auth_authenticate sample_config (sample_call (Some ''Bearer jwt'')) = Inr caller" "claim_sub caller = ''u1''"
    by (cases "auth_authenticate sample_config (sample_call (Some ''Bearer jwt''))") auto
  have "\<not> isl (fst (auth_handle sample_env sample_config no_ports (sample_call (Some ''Bearer jwt'')) PostLogoutAll ((), sample_auth_db)))" by code_simp
  moreover note callers_confined [OF _ alone, where r = PostLogoutAll and C = sample_config and req = "sample_call None" and ports = no_ports and db = sample_auth_db, unfolded none]
    callers_confined [OF _ alone, where r = PostLogoutAll and C = sample_config and req = "sample_call (Some ''Bearer jwt'')" and ports = no_ports and db = sample_auth_db,
      unfolded caller(1)]
  ultimately show ?thesis using caller(2) by (auto simp: needs_caller_def split: prod.splits)
qed

end
