(* ===== verification/AuthClients.thy ===== *)
theory AuthClients
  imports AuthApi EmailService
begin

text \<open>
  The auth service's clients of the user and email services (\<^verbatim>\<open>services/auth/src/clients/user.client.ts\<close>,
  \<^verbatim>\<open>email.client.ts\<close>), in front of those services' own routes: what a client sends is validated, handled and
  answered by \<open>user_handle\<close> and \<open>send_route\<close>, and the answer is translated back. Each request may be answered, never
  carried out, or carried out with its answer lost. Path parameters arrive as sent.
\<close>

section \<open>The wire\<close>

record client_env =
  cl_production :: bool
  cl_createNet :: net_verdict
  cl_findNet :: net_verdict
  cl_mailNet :: net_verdict
  cl_createEnv :: user_env
  cl_findEnv :: user_env
  cl_mailReq :: email_request
  cl_is_email :: "string \<Rightarrow> bool"
  cl_maxBody :: nat
  cl_maxAttempts :: int
  cl_sha256 :: "string \<Rightarrow> string"

record auth_world =
  profiles :: user_db
  outbox :: email_db

text \<open>Status, data and error message of an answer, as the error handlers of both services render it.\<close>

definition answered :: "bool \<Rightarrow> AppError + (int \<times> 'a) \<Rightarrow> int \<times> 'a option \<times> string option" where
  "answered production r = (case r of
     Inr (status, body) \<Rightarrow> (status, Some body, None)
   | Inl e \<Rightarrow> (case snd (errorHandler production False None (ThrownApp e)) of
        Some (status, body) \<Rightarrow> (status, None, Some (body_message body))
      | None \<Rightarrow> (500, None, None)))"

definition wire_text :: "int \<Rightarrow> string option \<Rightarrow> string" where
  "wire_text status msg = (case msg of None \<Rightarrow> ''HTTP '' @ int_str status | Some m \<Rightarrow> m)"

section \<open>The user client\<close>

definition user_toError :: "int \<Rightarrow> string option \<Rightarrow> AppError" where
  "user_toError status msg =
     (if status \<ge> 500 then ServiceUnavailableError (''User service failed: '' @ wire_text status msg)
      else if status = 409 then ConflictError (wire_text status msg) None
      else if status = 404 then ServiceUnavailableError (''User record is missing: '' @ wire_text status msg)
      else BadRequestError (''User service rejected the request: '' @ wire_text status msg) None)"

definition user_request ::
  "bool \<Rightarrow> net_verdict \<Rightarrow> user_env \<Rightarrow> bool \<Rightarrow> UserRequest \<Rightarrow> (user_db, AppError, User option) act" where
  "user_request production net E nullOn404 req = (\<lambda>db.
     let (r, db') = user_handle E req db; (status, body, msg) = answered production r
     in case net of
          Unreachable \<Rightarrow> (Inl (ServiceUnavailableError ''User service is unreachable''), db)
        | ReplyLost \<Rightarrow> (Inl (ServiceUnavailableError ''User service is unreachable''), db')
        | Delivered \<Rightarrow>
            (if status = 204 then Inr None
             else if 200 \<le> status \<and> status < 300 then Inr (case body of None \<Rightarrow> None | Some u \<Rightarrow> u)
             else if status = 404 \<and> nullOn404 then Inr None
             else Inl (user_toError status msg), db'))"

definition profile_body :: "CreateUserProfileInput \<Rightarrow> json" where
  "profile_body input = JObject [(''authUserId'', JString (cp_authUserId input)), (''email'', JString (cp_email input)),
     (''name'', JString (cp_name input)), (''address'', JString (cp_address input)), (''phone'', JString (cp_phone input))]"

text \<open>A created profile always comes with its row; the other branch stands for reading the id of nothing.\<close>

definition createProfile :: "client_env \<Rightarrow> CreateUserProfileInput \<Rightarrow> (user_db, AppError, string) act" where
  "createProfile K input = and_then
     (user_request (cl_production K) (cl_createNet K) (cl_createEnv K) False (PostUser (profile_body input))) (\<lambda>profile.
     case profile of None \<Rightarrow> throw (InternalServerError ''Internal server error'') | Some u \<Rightarrow> ret (usr_id u))"

definition findByAuthUserId :: "client_env \<Rightarrow> string \<Rightarrow> (user_db, AppError, string option) act" where
  "findByAuthUserId K i = and_then
     (user_request (cl_production K) (cl_findNet K) (cl_findEnv K) True (GetUserByAuth i)) (\<lambda>profile. ret (map_option usr_id profile))"

section \<open>The email client\<close>

definition email_toError :: "int \<Rightarrow> string option \<Rightarrow> AppError" where
  "email_toError status msg = ServiceUnavailableError (''Email service rejected the message: '' @ wire_text status msg)"

definition mail_json :: "EnqueueEmailInput \<Rightarrow> json" where
  "mail_json m = JObject [(''recipient'', JString (mail_recipient m)), (''subject'', JString (mail_subject m)),
     (''body'', JString (mail_body m)), (''source'', JString (mail_source m))]"

definition client_enqueue :: "client_env \<Rightarrow> EnqueueEmailInput \<Rightarrow> string option \<Rightarrow> (email_db, AppError, string option) act" where
  "client_enqueue K m key = (\<lambda>db.
     let (r, db') = send_route (cl_is_email K) (cl_maxBody K) (cl_sha256 K) (cl_maxAttempts K) (cl_mailReq K) (mail_json m)
           (if key = Some '''' then None else key) db;
         (status, body, msg) = answered (cl_production K) r
     in case cl_mailNet K of
          Unreachable \<Rightarrow> (Inl (ServiceUnavailableError ''Email service is unreachable''), db)
        | ReplyLost \<Rightarrow> (Inl (ServiceUnavailableError ''Email service is unreachable''), db')
        | Delivered \<Rightarrow>
            (if 200 \<le> status \<and> status < 300 then Inr (map_option em_id body) else Inl (email_toError status msg), db'))"

section \<open>The ports\<close>

definition at_profiles :: "(user_db, AppError, 'a) act \<Rightarrow> (auth_world, AppError, 'a) act" where
  "at_profiles m = (\<lambda>w. case m (profiles w) of (r, d) \<Rightarrow> (r, w\<lparr>profiles := d\<rparr>))"

definition at_outbox :: "(email_db, AppError, 'a) act \<Rightarrow> (auth_world, AppError, 'a) act" where
  "at_outbox m = (\<lambda>w. case m (outbox w) of (r, d) \<Rightarrow> (r, w\<lparr>outbox := d\<rparr>))"

definition auth_http_ports :: "client_env \<Rightarrow> auth_world auth_ports" where
  "auth_http_ports K = \<lparr>mail_enqueue = (\<lambda>m key. at_outbox (client_enqueue K m key)),
     profile_create = (\<lambda>input. at_profiles (createProfile K input)), profile_find = (\<lambda>i. at_profiles (findByAuthUserId K i))\<rparr>"

section \<open>What reaches the user service\<close>

text \<open>A login id the user service reads as it is sent; ids here are UUIDs.\<close>

definition plain_id :: "string \<Rightarrow> bool" where
  "plain_id i \<longleftrightarrow> trimmed_string 1 191 (JString i) = Some i"

definition profile_input :: "AuthUser \<Rightarrow> PendingProfile \<Rightarrow> CreateUserProfileInput" where
  "profile_input u p = \<lparr>cp_authUserId = au_id u, cp_name = pp_name p, cp_email = au_email u, cp_address = pp_address p, cp_phone = pp_phone p\<rparr>"

definition accepted_profile :: "AuthUser \<Rightarrow> PendingProfile \<Rightarrow> CreateUserInput" where
  "accepted_profile u p = \<lparr>cu_authUserId = au_id u, cu_name = pp_name p, cu_email = au_email u, cu_address = pp_address p, cu_phone = pp_phone p\<rparr>"

text \<open>
  A profile collected at registration passes the user service's own schema, as long as the address is one of its
  addresses and fits its 150 characters (the auth service takes 320).
\<close>

lemma profile_accepted:
  assumes "readPendingProfile j = Some p" and "is_email (au_email u)" and "length (au_email u) \<le> 150" and "lower (au_email u)"
    and "plain_id (au_id u)"
  shows "createUserSchema is_email (profile_body (profile_input u p)) = Some (accepted_profile u p)"
  using assms
  by (auto simp: readPendingProfile_def profileSchema_def createUserSchema_def profile_body_def profile_input_def accepted_profile_def
      plain_id_def strict_keys_def obj_get_def required_def user_emailField_def lower_def trimmed_again phone_again
      split: json.splits if_splits option.splits)

definition calm_users :: "user_env \<Rightarrow> bool" where
  "calm_users E \<longleftrightarrow> (\<forall>n. ue_meanwhile E n = id)"

lemma user_create_run:
  assumes "calm_users E"
  shows "user_create E input db = (r, db') \<Longrightarrow>
     (db' = db \<and> isl r) \<or> (db' = db @ [user_row (ue_uuid E) (ue_now E) input] \<and> r = Inr (user_row (ue_uuid E) (ue_now E) input))"
  using assms by (auto simp: user_create_def calm_users_def getUserByAuthUserId_def getUserByEmail_def createUser_def insert_user_def
      and_then_def db_call_def attempt_def transaction_def split: option.splits if_splits)

abbreviation new_profile :: "client_env \<Rightarrow> AuthUser \<Rightarrow> PendingProfile \<Rightarrow> User" where
  "new_profile K u p \<equiv> user_row (ue_uuid (cl_createEnv K)) (ue_now (cl_createEnv K)) (accepted_profile u p)"

lemma answered_Inl: "\<exists>m. answered production (Inl e) = (statusCode e, None, Some m)"
  by (simp add: answered_def errorHandler_def Let_def)

lemma create_unique:
  "user_create E input db = (Inr u, db') \<Longrightarrow> users_unique db \<Longrightarrow> calm_users E \<Longrightarrow> users_unique db'"
  by (auto simp: user_create_def calm_users_def getUserByAuthUserId_def getUserByEmail_def and_then_Inr_iff db_call_Inr
      split: if_splits intro: keeps_result [OF keeps_unique_create])

lemma createProfile_effect:
  assumes "calm_users (cl_createEnv K)" and "createUserSchema (ue_is_email (cl_createEnv K)) (profile_body (profile_input u p)) = Some (accepted_profile u p)"
    and "createProfile K (profile_input u p) db = (r, db')" and "users_unique db"
  shows "users_unique db' \<and> (db' = db \<and> isl r \<or> db' = db @ [new_profile K u p] \<and> (r = Inr (usr_id (new_profile K u p)) \<or> isl r))"
proof -
  let ?E = "cl_createEnv K" and ?input = "accepted_profile u p"
  obtain x d where c: "user_create ?E ?input db = (x, d)" by fastforce
  have h: "user_handle ?E (PostUser (profile_body (profile_input u p))) db = (case x of Inl e \<Rightarrow> (Inl e, d) | Inr row \<Rightarrow> (Inr (201, Some row), d))"
    using c assms(2) by (simp add: create_user_route_def and_then_def split: sum.split)
  from user_create_run [OF assms(1) c] show ?thesis
  proof
    assume old: "d = db \<and> isl x"
    then obtain e where e: "x = Inl e" by (cases x) auto
    obtain m where "answered (cl_production K) (Inl e :: AppError + int \<times> User option) = (statusCode e, None, Some m)"
      using answered_Inl by blast
    then have "db' = db \<and> isl r"
      using assms(3) old e h by (auto simp: createProfile_def user_request_def and_then_def split: net_verdict.splits if_splits prod.splits)
    then show ?thesis using assms(4) by simp
  next
    assume new: "d = db @ [new_profile K u p] \<and> x = Inr (new_profile K u p)"
    then have "users_unique d" using create_unique [OF _ assms(4,1)] c by blast
    then show ?thesis
      using assms(3,4) new h by (auto simp: createProfile_def user_request_def and_then_def answered_def split: net_verdict.splits)
  qed
qed

lemma find_effect:
  assumes "plain_id i" and "findByAuthUserId K i db = (r, db')"
  shows "db' = db \<and> (\<forall>pid. r = Inr (Some pid) \<longrightarrow> (\<exists>q \<in> set db. usr_authUserId q = i \<and> usr_id q = pid))"
proof -
  obtain x d where h: "user_handle (cl_findEnv K) (GetUserByAuth i) db = (x, d)" by fastforce
  have x: "d = db" "\<forall>status u. x = Inr (status, Some u) \<longrightarrow> u \<in> set db \<and> usr_authUserId u = i"
    using h assms(1) by (auto simp: get_by_auth_route_def authUserIdParamsSchema_def plain_id_def user_getByAuthUserId_def getUserByAuthUserId_def
        and_then_def db_call_def attempt_def transaction_def dest: find_row_SomeD split: option.splits)
  show ?thesis
  proof (cases x)
    case (Inl e)
    obtain m where "answered (cl_production K) (Inl e :: AppError + int \<times> User option) = (statusCode e, None, Some m)"
      using answered_Inl by blast
    then show ?thesis
      using assms(2) h x(1) Inl by (auto simp: findByAuthUserId_def user_request_def and_then_def split: net_verdict.splits if_splits prod.splits)
  next
    case (Inr y)
    then show ?thesis
      using assms(2) h x by (cases y) (auto simp: findByAuthUserId_def user_request_def and_then_def answered_def
          split: net_verdict.splits if_splits option.splits)
  qed
qed

section \<open>The hand-off\<close>

text \<open>The part of \<open>ensureProfile\<close> that talks to the user service.\<close>

definition resolve_profile :: "'w auth_ports \<Rightarrow> AuthUser \<Rightarrow> PendingProfile \<Rightarrow> ('w \<times> auth_db, AppError, string) act" where
  "resolve_profile ports u p = catching (at_world (profile_create ports (profile_input u p))) (\<lambda>createError.
     if errname createError \<noteq> ''ConflictError'' then throw createError
     else and_then (at_world (profile_find ports (au_id u))) (\<lambda>existing. case existing of None \<Rightarrow> throw createError | Some pid \<Rightarrow> ret pid))"

lemma ensureProfile_shape:
  "au_userId u = None \<Longrightarrow> pendingProfile u = Some j \<Longrightarrow> rd j = Some p \<Longrightarrow>
   ensureProfile E n rd ports u = catching (and_then (resolve_profile ports u p) (\<lambda>pid. call E n (\<lambda>flt. attachProfile flt (au_id u) pid))) (\<lambda>_. ret u)"
  by (simp add: ensureProfile_def resolve_profile_def profile_input_def)

lemma ensureProfile_linked: "au_userId u = Some pid \<Longrightarrow> pid \<noteq> '''' \<Longrightarrow> ensureProfile E n rd ports u = ret u"
  by (simp add: ensureProfile_def)

text \<open>
  What the auth service relies on in its user client: creating a profile that fits adds that one row or nothing and
  answers with its id or fails, and a lookup changes nothing and finds only the account's own profile.
\<close>

locale user_port =
  fixes ports :: "'w auth_ports" and book :: "'w \<Rightarrow> user_db"
    and fit :: "AuthUser \<Rightarrow> PendingProfile \<Rightarrow> bool" and draft :: "AuthUser \<Rightarrow> PendingProfile \<Rightarrow> User"
  assumes draft_login: "usr_authUserId (draft u p) = au_id u"
    and create_law: "fit u p \<Longrightarrow> users_unique (book w) \<Longrightarrow> profile_create ports (profile_input u p) w = (r, w') \<Longrightarrow>
      users_unique (book w') \<and> (book w' = book w \<and> isl r \<or> book w' = book w @ [draft u p] \<and> (r = Inr (usr_id (draft u p)) \<or> isl r))"
    and find_law: "fit u p \<Longrightarrow> profile_find ports (au_id u) w = (found, w') \<Longrightarrow>
      book w' = book w \<and> (\<forall>pid. found = Inr (Some pid) \<longrightarrow> (\<exists>q \<in> set (book w). usr_authUserId q = au_id u \<and> usr_id q = pid))"
begin

lemma resolve_effect:
  assumes "fit u p" and "users_unique (book w)" and "resolve_profile ports u p (w, db) = (r, (w', db'))"
  shows "db' = db \<and> users_unique (book w') \<and> (book w' = book w \<or> book w' = book w @ [draft u p]) \<and>
    (\<forall>pid. r = Inr pid \<longrightarrow> (\<exists>q \<in> set (book w'). usr_authUserId q = au_id u \<and> usr_id q = pid))"
proof -
  obtain x w1 where c: "profile_create ports (profile_input u p) w = (x, w1)" by fastforce
  note eff = create_law [OF assms(1,2) c]
  show ?thesis
  proof (cases x)
    case (Inr pid)
    then have "r = Inr pid" "w' = w1" "db' = db" using assms(3) c by (simp_all add: resolve_profile_def catching_def at_world_def)
    then show ?thesis using eff Inr draft_login by (auto intro!: bexI [of _ "draft u p"])
  next
    case (Inl e)
    obtain y w2 where f: "profile_find ports (au_id u) w1 = (y, w2)" by fastforce
    from find_law [OF assms(1) f] show ?thesis
      using assms(3) c f eff Inl
      by (auto simp: resolve_profile_def catching_def at_world_def and_then_def split: if_splits sum.splits option.splits)
  qed
qed

end

definition usable :: "AuthUser \<Rightarrow> client_env \<Rightarrow> bool" where
  "usable u K \<longleftrightarrow> calm_users (cl_createEnv K) \<and> ue_is_email (cl_createEnv K) (au_email u)"

definition fitting :: "client_env \<Rightarrow> AuthUser \<Rightarrow> PendingProfile \<Rightarrow> bool" where
  "fitting K u p \<longleftrightarrow> usable u K \<and> (\<exists>j. readPendingProfile j = Some p) \<and> length (au_email u) \<le> 150 \<and> lower (au_email u) \<and> plain_id (au_id u)"

lemma fitting_accepted:
  "fitting K u p \<Longrightarrow> createUserSchema (ue_is_email (cl_createEnv K)) (profile_body (profile_input u p)) = Some (accepted_profile u p)"
  by (auto simp: fitting_def usable_def intro: profile_accepted)

interpretation http_user: user_port "auth_http_ports K" profiles "fitting K" "\<lambda>u p. new_profile K u p" for K
proof
  fix u p r and w w' :: auth_world
  show "usr_authUserId (new_profile K u p) = au_id u" by (simp add: user_row_def accepted_profile_def)
  show "users_unique (profiles w') \<and> (profiles w' = profiles w \<and> isl r \<or>
      profiles w' = profiles w @ [new_profile K u p] \<and> (r = Inr (usr_id (new_profile K u p)) \<or> isl r))"
    if fit: "fitting K u p" and ok: "users_unique (profiles w)" and run: "profile_create (auth_http_ports K) (profile_input u p) w = (r, w')"
  proof -
    have "createProfile K (profile_input u p) (profiles w) = (r, profiles w')"
      using run by (auto simp: auth_http_ports_def at_profiles_def split: prod.splits)
    moreover have "calm_users (cl_createEnv K)" using fit by (simp add: fitting_def usable_def)
    ultimately show ?thesis using createProfile_effect fitting_accepted [OF fit] ok by blast
  qed
next
  fix u p r and w w' :: auth_world
  assume "fitting K u p" and "profile_find (auth_http_ports K) (au_id u) w = (r, w')"
  then show "profiles w' = profiles w \<and> (\<forall>pid. r = Inr (Some pid) \<longrightarrow> (\<exists>q \<in> set (profiles w). usr_authUserId q = au_id u \<and> usr_id q = pid))"
    using find_effect [of "au_id u" K "profiles w" r "profiles w'"]
    by (auto simp: auth_http_ports_def at_profiles_def fitting_def split: prod.splits)
qed

text \<open>
  Where the hand-off of account \<open>i\<close> stands: nothing yet, a profile without a pointer, or both. \<open>N\<close> are the ids
  the user service may still draw.
\<close>

definition handing :: "string \<Rightarrow> string \<Rightarrow> json \<Rightarrow> string set \<Rightarrow> auth_world \<times> auth_db \<Rightarrow> bool" where
  "handing i e j N = (\<lambda>(w, db). users_unique (profiles w) \<and> (\<forall>q \<in> set (profiles w). usr_email q = e \<longrightarrow> usr_authUserId q = i) \<and>
     (\<forall>q \<in> set (profiles w). if usr_authUserId q = i then usr_id q \<noteq> '''' else usr_id q \<notin> N) \<and>
     (\<exists>u. find_row au_id i (auth_users db) = Some u \<and> au_email u = e \<and>
        (au_userId u = None \<and> pendingProfile u = Some j \<or>
         pendingProfile u = None \<and> (\<exists>q \<in> set (profiles w). usr_authUserId q = i \<and> au_userId u = Some (usr_id q)))) \<and>
     (\<forall>x \<in> set (auth_users db). au_id x \<noteq> i \<longrightarrow> au_userId x \<notin> Some ` N \<and>
        (\<forall>q \<in> set (profiles w). usr_authUserId q = i \<longrightarrow> au_userId x \<noteq> Some (usr_id q))))"

lemma attach_run:
  assumes "find_row au_id i (auth_users db) = Some u" and "\<forall>x \<in> set (auth_users db). au_id x \<noteq> i \<longrightarrow> au_userId x \<noteq> Some pid"
  shows "attachProfile flt i pid db = (case flt of
      None \<Rightarrow> (Inr (u\<lparr>au_userId := Some pid, pendingProfile := None\<rparr>), with_user i (\<lambda>u. u\<lparr>au_userId := Some pid, pendingProfile := None\<rparr>) db)
    | Some e \<Rightarrow> (Inl (toAppError e), db))"
proof -
  have "unique_violation [(''userId'', Some pid \<in> set (map au_userId (delete_rows au_id i (auth_users db))))] = None"
    using assms(2) by (auto simp: unique_violation_None)
  then show ?thesis using assms(1)
    by (simp add: attachProfile_def db_call_def attempt_def transaction_def update_auth_user_def with_user_def split: option.split)
qed

lemma handing_linked:
  assumes "handing i e j N (w, db)" and "q \<in> set (profiles w)" "usr_authUserId q = i"
  shows "handing i e j N (w, with_user i (\<lambda>u. u\<lparr>au_userId := Some (usr_id q), pendingProfile := None\<rparr>) db)"
proof -
  let ?f = "\<lambda>u. u\<lparr>au_userId := Some (usr_id q), pendingProfile := None\<rparr>"
  have "find_row au_id i (update_rows au_id i ?f us) = map_option ?f (find_row au_id i us)" for us
    by (simp add: find_row_update)
  moreover have "x \<in> set us" if "x \<in> set (update_rows au_id i ?f us)" "au_id x \<noteq> i" for x us
    using that by (auto simp: set_update_rows split: if_splits)
  ultimately have rows: "find_row au_id i (update_rows au_id i ?f (auth_users db)) = map_option ?f (find_row au_id i (auth_users db))"
    "\<And>x. x \<in> set (update_rows au_id i ?f (auth_users db)) \<Longrightarrow> au_id x \<noteq> i \<Longrightarrow> x \<in> set (auth_users db)" by blast+
  obtain u where "find_row au_id i (auth_users db) = Some u" "au_email u = e" using assms(1) by (auto simp: handing_def)
  then have "\<exists>u. find_row au_id i (update_rows au_id i ?f (auth_users db)) = Some u \<and> au_email u = e \<and> pendingProfile u = None \<and>
      (\<exists>q \<in> set (profiles w). usr_authUserId q = i \<and> au_userId u = Some (usr_id q))"
    using rows(1) assms(2,3) by (intro exI [of _ "?f u"]) auto
  then show ?thesis using assms(1) rows(2) unfolding handing_def with_user_def by simp blast
qed

lemma handing_grows:
  assumes "handing i e j N (w, db)" and "find_row au_id i (auth_users db) = Some u" and "users_unique (profiles w')"
    and "profiles w' = profiles w \<or> profiles w' = profiles w @ [new_profile K u p]" and "ue_uuid (cl_createEnv K) \<in> N" and "'''' \<notin> N"
    and "au_userId u = None"
  shows "handing i e j N (w', db)"
proof -
  have "au_id u = i" using find_row_SomeD(2) [OF assms(2)] .
  moreover have "usr_id (new_profile K u p) = ue_uuid (cl_createEnv K)" "usr_authUserId (new_profile K u p) = au_id u"
    by (simp_all add: user_row_def accepted_profile_def)
  moreover have "au_userId x \<noteq> Some (ue_uuid (cl_createEnv K))" if "x \<in> set (auth_users db)" "au_id x \<noteq> i" for x
    using assms(1,5) that unfolding handing_def by force
  ultimately show ?thesis using assms unfolding handing_def by auto
qed

lemma handing_step:
  assumes "handing i e j N (w, db)" and "find_row au_id i (auth_users db) = Some u" and "\<And>n. ae_meanwhile E n = id" and "usable u K"
    and "readPendingProfile j = Some p" and "length e \<le> 150" "lower e" "plain_id i" and "ue_uuid (cl_createEnv K) \<in> N" "'''' \<notin> N"
  shows "handing i e j N (snd (ensureProfile E n readPendingProfile (auth_http_ports K) u (w, db)))"
proof -
  have u: "au_id u = i" "au_email u = e" using find_row_SomeD(2) [OF assms(2)] assms(1,2) by (auto simp: handing_def)
  consider pid where "au_userId u = Some pid" "pid \<noteq> ''''" | "au_userId u = None" "pendingProfile u = Some j"
    using assms(1,2) by (auto simp: handing_def)
  then show ?thesis
  proof cases
    case 1
    then show ?thesis using assms(1) by (simp add: ensureProfile_linked)
  next
    case 2
    obtain r w' db' where res: "resolve_profile (auth_http_ports K) u p (w, db) = (r, (w', db'))" by (metis prod.exhaust)
    have ok: "users_unique (profiles w)" using assms(1) by (simp add: handing_def)
    have "fitting K u p" using assms(4-8) u by (auto simp: fitting_def)
    note eff = http_user.resolve_effect [OF this ok res]
    have eff': "db' = db" "users_unique (profiles w')" "profiles w' = profiles w \<or> profiles w' = profiles w @ [new_profile K u p]"
      "\<forall>pid. r = Inr pid \<longrightarrow> (\<exists>q \<in> set (profiles w'). usr_authUserId q = i \<and> usr_id q = pid)"
      using eff u by simp_all
    have h: "handing i e j N (w', db)" using handing_grows [OF assms(1,2) eff'(2,3) assms(9,10) 2(1)] .
    show ?thesis
    proof (cases r)
      case (Inl x)
      then show ?thesis using res eff'(1) h 2 assms(5) by (simp add: ensureProfile_shape catching_def and_then_def)
    next
      case (Inr pid)
      then obtain q where q: "q \<in> set (profiles w')" "usr_authUserId q = i" "usr_id q = pid" using eff'(4) by blast
      then have "\<forall>x \<in> set (auth_users db). au_id x \<noteq> i \<longrightarrow> au_userId x \<noteq> Some pid" using h by (auto simp: handing_def)
      note att = attach_run [OF assms(2) this]
      have "snd (ensureProfile E n readPendingProfile (auth_http_ports K) u (w, db)) =
          (w', case ae_fault E n of None \<Rightarrow> with_user i (\<lambda>u. u\<lparr>au_userId := Some pid, pendingProfile := None\<rparr>) db | Some e \<Rightarrow> db)"
        using res Inr eff'(1) 2 assms(5) u att
        by (simp add: ensureProfile_shape catching_def and_then_def call_alone [OF assms(3)] split: option.split)
      then show ?thesis using h handing_linked [OF h q(1,2)] q(3) by (simp split: option.split)
    qed
  qed
qed

definition delivered :: "client_env \<Rightarrow> bool" where
  "delivered K \<longleftrightarrow> cl_createNet K = Delivered \<and> cl_findNet K = Delivered \<and> (\<forall>n. ue_fault (cl_createEnv K) n = None) \<and>
     ue_fault (cl_findEnv K) 0 = None"

lemma resolve_delivered:
  assumes "handing i e j N (w, db)" and "find_row au_id i (auth_users db) = Some u" and "delivered K" "usable u K"
    and "readPendingProfile j = Some p" and "length e \<le> 150" "lower e" "plain_id i" and "ue_uuid (cl_createEnv K) \<in> N"
  shows "\<exists>pid s. resolve_profile (auth_http_ports K) u p (w, db) = (Inr pid, s)"
proof -
  have u: "au_id u = i" "au_email u = e" using find_row_SomeD(2) [OF assms(2)] assms(1,2) by (auto simp: handing_def)
  have acc: "createUserSchema (ue_is_email (cl_createEnv K)) (profile_body (profile_input u p)) = Some (accepted_profile u p)"
    using assms(4-8) u by (intro profile_accepted) (simp_all add: usable_def)
  have net: "cl_createNet K = Delivered" "cl_findNet K = Delivered" "ue_fault (cl_createEnv K) n = None" "ue_fault (cl_findEnv K) 0 = None"
    "ue_meanwhile (cl_createEnv K) n = id" for n using assms(3,4) by (simp_all add: delivered_def usable_def calm_users_def)
  show ?thesis
  proof (cases "find_row usr_authUserId i (profiles w)")
    case None
    then have "usr_authUserId q \<noteq> i" if "q \<in> set (profiles w)" for q using that by (auto simp: find_row_None_iff)
    then have "usr_email q \<noteq> e" "usr_id q \<noteq> ue_uuid (cl_createEnv K)" if "q \<in> set (profiles w)" for q
      using that assms(1,9) unfolding handing_def by auto
    then have free: "find_row usr_email e (profiles w) = None" "ue_uuid (cl_createEnv K) \<notin> usr_id ` set (profiles w)"
      unfolding find_row_None_iff by (metis imageE)+
    have "user_create (cl_createEnv K) (accepted_profile u p) (profiles w) = (Inr (new_profile K u p), profiles w @ [new_profile K u p])"
      using None free u by (simp add: user_create_def getUserByAuthUserId_def getUserByEmail_def createUser_def insert_user_def and_then_step net
          accepted_profile_def user_row_def unique_violation_def db_call_def attempt_def transaction_def find_row_None_iff)
    then show ?thesis
      by (simp add: resolve_profile_def catching_def at_world_def auth_http_ports_def at_profiles_def createProfile_def user_request_def net acc
          create_user_route_def and_then_def answered_def)
  next
    case (Some q)
    let ?c = "ConflictError (''A user for authUserId '' @ quote i @ '' already exists'') None"
    have clash: "user_handle (cl_createEnv K) (PostUser (profile_body (profile_input u p))) (profiles w) = (Inl ?c, profiles w)"
      using Some u by (simp add: create_user_route_def acc user_create_def getUserByAuthUserId_def and_then_step net accepted_profile_def)
    obtain m where m: "answered (cl_production K) (Inl ?c :: AppError + int \<times> User option) = (409, None, Some m)"
      using answered_Inl [of "cl_production K" ?c, where 'a = "User option"] by auto
    have hit: "user_handle (cl_findEnv K) (GetUserByAuth i) (profiles w) = (Inr (200, Some q), profiles w)"
      using Some assms(8) by (simp add: get_by_auth_route_def authUserIdParamsSchema_def plain_id_def user_getByAuthUserId_def
          getUserByAuthUserId_def and_then_step net)
    have "createProfile K (profile_input u p) (profiles w) = (Inl (ConflictError m None), profiles w)"
      using clash m by (simp add: createProfile_def user_request_def net user_toError_def wire_text_def and_then_def)
    moreover have "findByAuthUserId K i (profiles w) = (Inr (Some (usr_id q)), profiles w)"
      using hit by (simp add: findByAuthUserId_def user_request_def net answered_def and_then_def)
    ultimately show ?thesis
      using u by (simp add: resolve_profile_def catching_def at_world_def auth_http_ports_def at_profiles_def and_then_def)
  qed
qed

lemma filter_key_one: "distinct (map key xs) \<Longrightarrow> q \<in> set xs \<Longrightarrow> filter (\<lambda>x. key x = key q) xs = [q]"
proof (induction xs)
  case (Cons x xs)
  have "filter (\<lambda>y. key y = key x) xs = []" using Cons.prems(1) unfolding filter_empty_conv by (simp add: image_iff) metis
  then show ?case using Cons by auto
qed simp

lemma linked_after_delivery:
  assumes "handing i e j N (w, db)" and "find_row au_id i (auth_users db) = Some u" and "\<And>n. ae_meanwhile E n = id" "ae_fault E n = None"
    and "usable u K" "delivered K" and "readPendingProfile j = Some p" and "length e \<le> 150" "lower e" "plain_id i"
    and "ue_uuid (cl_createEnv K) \<in> N" "'''' \<notin> N"
  shows "\<exists>u' pid. find_row au_id i (auth_users (snd (snd (ensureProfile E n readPendingProfile (auth_http_ports K) u (w, db))))) = Some u' \<and>
    au_userId u' = Some pid"
proof (cases "au_userId u")
  case (Some pid)
  then have "pid \<noteq> ''''" using assms(1,2) by (auto simp: handing_def)
  then show ?thesis using assms(2) Some by (simp add: ensureProfile_linked)
next
  case None
  then have pend: "pendingProfile u = Some j" "au_id u = i" using assms(1) find_row_SomeD(2) [OF assms(2)] assms(2) by (auto simp: handing_def)
  obtain pid w' db' where res: "resolve_profile (auth_http_ports K) u p (w, db) = (Inr pid, (w', db'))"
    using resolve_delivered [OF assms(1,2,6,5,7-11)] by (metis prod.exhaust)
  have "users_unique (profiles w)" "au_email u = e" using assms(1,2) by (auto simp: handing_def)
  moreover have "fitting K u p" using calculation assms(5,7-10) pend(2) by (auto simp: fitting_def)
  ultimately have eff: "db' = db" "users_unique (profiles w')" "profiles w' = profiles w \<or> profiles w' = profiles w @ [new_profile K u p]"
    "\<exists>q \<in> set (profiles w'). usr_authUserId q = i \<and> usr_id q = pid"
    using http_user.resolve_effect [OF _ _ res] pend(2) by simp_all
  have "handing i e j N (w', db)" using handing_grows [OF assms(1,2) eff(2,3) assms(11,12) None] .
  then have "\<forall>x \<in> set (auth_users db). au_id x \<noteq> i \<longrightarrow> au_userId x \<noteq> Some pid" using eff(4) by (auto simp: handing_def)
  note att = attach_run [OF assms(2) this, of None]
  show ?thesis
    using res eff(1) None pend assms(2,7) att
    by (simp add: ensureProfile_shape catching_def and_then_def call_alone [OF assms(3)] assms(4) with_user_def find_row_update)
qed

text \<open>The attempts of a hand-off, each from the account as it is stored: at verification, then at every login.\<close>

fun handoffs :: "string \<Rightarrow> (auth_env \<times> client_env) list \<Rightarrow> auth_world \<times> auth_db \<Rightarrow> auth_world \<times> auth_db" where
  "handoffs i [] s = s"
| "handoffs i ((E, K) # ks) s = handoffs i ks (case find_row au_id i (auth_users (snd s)) of
     None \<Rightarrow> s | Some u \<Rightarrow> snd (ensureProfile E 3 readPendingProfile (auth_http_ports K) u s))"

lemma handoffs_append: "handoffs i (ks @ ls) s = handoffs i ls (handoffs i ks s)"
  by (induction i ks s rule: handoffs.induct) auto

definition fair_attempt :: "string \<Rightarrow> string set \<Rightarrow> auth_env \<times> client_env \<Rightarrow> bool" where
  "fair_attempt e N = (\<lambda>(E, K). (\<forall>n. ae_meanwhile E n = id) \<and> calm_users (cl_createEnv K) \<and> ue_is_email (cl_createEnv K) e \<and>
     ue_uuid (cl_createEnv K) \<in> N)"

lemma handing_row: "handing i e j N s \<Longrightarrow> \<exists>u. find_row au_id i (auth_users (snd s)) = Some u \<and> au_email u = e"
  by (auto simp: handing_def)

lemma handoffs_keep:
  assumes "handing i e j N s" and "list_all (fair_attempt e N) ks" and "readPendingProfile j = Some p" and "length e \<le> 150" "lower e" "plain_id i" "'''' \<notin> N"
  shows "handing i e j N (handoffs i ks s)"
  using assms
proof (induction i ks s rule: handoffs.induct)
  case (2 i E K ks s)
  obtain u where u: "find_row au_id i (auth_users (snd s)) = Some u" "au_email u = e" using handing_row [OF 2(2)] by blast
  have "handing i e j N (snd (ensureProfile E 3 readPendingProfile (auth_http_ports K) u (fst s, snd s)))"
    using 2(2-) u by (intro handing_step [where p = p]) (simp_all add: fair_attempt_def usable_def)
  then show ?case using 2 u(1) by simp
qed simp

text \<open>
  Property C31. An account gets exactly one profile. However many hand-offs were attempted before, and whatever became
  of their messages, be it that a request never arrived, that its answer was lost after the profile was written, or
  that either database refused, one attempt that gets through leaves exactly one profile for the account and the
  account pointing to it, with nothing left to hand over.
\<close>

theorem handoff_exactly_once:
  assumes "handing i e j N (w, db)" and "list_all (fair_attempt e N) (ks @ [(E, K)])" and "ae_fault E 3 = None" "delivered K"
    and "readPendingProfile j = Some p" and "length e \<le> 150" "lower e" "plain_id i" "'''' \<notin> N"
  shows "\<exists>w' db' q u. handoffs i (ks @ [(E, K)]) (w, db) = (w', db') \<and> filter (\<lambda>q. usr_authUserId q = i) (profiles w') = [q] \<and>
    find_row au_id i (auth_users db') = Some u \<and> au_userId u = Some (usr_id q) \<and> pendingProfile u = None"
proof -
  obtain w1 db1 where mid: "handoffs i ks (w, db) = (w1, db1)" by fastforce
  have h1: "handing i e j N (w1, db1)" using handoffs_keep [OF assms(1) _ assms(5-9), of ks] assms(2) mid by simp
  obtain u1 where u1: "find_row au_id i (auth_users db1) = Some u1" "au_email u1 = e" using handing_row [OF h1] by auto
  obtain w' db' where fin: "handoffs i (ks @ [(E, K)]) (w, db) = (w', db')" by fastforce
  then have run: "snd (ensureProfile E 3 readPendingProfile (auth_http_ports K) u1 (w1, db1)) = (w', db')" using u1 mid by (simp add: handoffs_append)
  have h': "handing i e j N (w', db')" using handoffs_keep [OF assms(1,2,5-9)] fin by simp
  have "\<exists>u' pid. find_row au_id i (auth_users db') = Some u' \<and> au_userId u' = Some pid"
    using linked_after_delivery [OF h1 u1(1) _ assms(3) _ assms(4,5,6-8) _ assms(9)] assms(2) u1(2) run by (simp add: fair_attempt_def usable_def)
  then obtain u q where u: "find_row au_id i (auth_users db') = Some u" "pendingProfile u = None"
    and q: "q \<in> set (profiles w')" "usr_authUserId q = i" "au_userId u = Some (usr_id q)"
    using h' by (auto simp: handing_def)
  have "distinct (map usr_authUserId (profiles w'))" using h' by (simp add: handing_def users_unique_def)
  then have "filter (\<lambda>x. usr_authUserId x = usr_authUserId q) (profiles w') = [q]" using q(1) by (rule filter_key_one)
  then show ?thesis using fin u q by auto
qed

definition sample_profile :: json where
  "sample_profile = JObject [(''name'', JString ''Ann''), (''address'', JString ''there''), (''phone'', JString ''+1 234567'')]"

definition sample_client :: "net_verdict \<Rightarrow> client_env" where
  "sample_client net = \<lparr>cl_production = True, cl_createNet = net, cl_findNet = Delivered, cl_mailNet = Delivered,
     cl_createEnv = sample_user_env\<lparr>ue_meanwhile := \<lambda>n. id, ue_uuid := ''p1''\<rparr>, cl_findEnv = sample_user_env\<lparr>ue_meanwhile := \<lambda>n. id\<rparr>,
     cl_mailReq = EmailService.sample_request, cl_is_email = (\<lambda>s. True), cl_maxBody = 1000, cl_maxAttempts = 5, cl_sha256 = id\<rparr>"

definition sample_world :: auth_world where
  "sample_world = \<lparr>profiles = [], outbox = empty_outbox\<rparr>"

definition sample_pending_db :: auth_db where
  "sample_pending_db = sample_auth_db\<lparr>auth_users := [sample_account\<lparr>pendingProfile := Some sample_profile\<rparr>]\<rparr>"

text \<open>The first attempt creates the profile and loses the answer; the second finds it.\<close>

theorem handoff_exactly_once_witness:
  "\<exists>w' db' q u. handoffs ''u1'' [(sample_env, sample_client ReplyLost), (sample_env, sample_client Delivered)] (sample_world, sample_pending_db) = (w', db') \<and>
     filter (\<lambda>q. usr_authUserId q = ''u1'') (profiles w') = [q] \<and> find_row au_id ''u1'' (auth_users db') = Some u \<and>
     au_userId u = Some (usr_id q) \<and> pendingProfile u = None"
proof -
  obtain p where p: "readPendingProfile sample_profile = Some p"
  proof -
    have "readPendingProfile sample_profile \<noteq> None" by code_simp
    then show thesis using that by blast
  qed
  have h: "handing ''u1'' ''a@b.co'' sample_profile {''p1''} (sample_world, sample_pending_db)"
    by (simp add: handing_def sample_world_def sample_pending_db_def sample_auth_db_def sample_account_def new_auth_user_def users_unique_def)
  have fair: "list_all (fair_attempt ''a@b.co'' {''p1''}) ([(sample_env, sample_client ReplyLost)] @ [(sample_env, sample_client Delivered)])"
    by (simp add: fair_attempt_def sample_env_def sample_client_def calm_users_def sample_user_env_def fun_eq_iff)
  have "delivered (sample_client Delivered)" by (simp add: delivered_def sample_client_def sample_user_env_def)
  moreover have "ae_fault sample_env 3 = None" by (simp add: sample_env_def)
  moreover have "length ''a@b.co'' \<le> 150" "lower ''a@b.co''" "plain_id ''u1''" by code_simp+
  ultimately show ?thesis using handoff_exactly_once [OF h fair _ _ p] by simp
qed

section \<open>From login to the edge\<close>

lemma payload_claims:
  "string_claim (jwt_payload E u sid now) ''sub'' = Some (au_id u)" "string_claim (jwt_payload E u sid now) ''email'' = Some (au_email u)"
  "string_claim (jwt_payload E u sid now) ''username'' = Some (au_username u)" "string_claim (jwt_payload E u sid now) ''role'' = Some (role_text (au_role u))"
  "string_claim (jwt_payload E u sid now) ''sid'' = Some sid"
  by (simp_all add: string_claim_def jwt_payload_def Let_def obj_get_def)

lemma issued_claims:
  "string_claim (jwt_payload E u sid now) ''iss'' = Some (JWT_ISSUER E)"
  "string_claim (jwt_payload E u sid now) ''aud'' = Some (JWT_AUDIENCE E)"
  "obj_get (jwt_payload E u sid now) ''exp'' = Some (JInt (now div 1000 + ACCESS_TOKEN_TTL_MINUTES E * 60))"
  by (simp_all add: string_claim_def jwt_payload_def Let_def obj_get_def)

text \<open>
  jose's promise, for two services that share the secret: a signed token is a word without blanks; verifying it for an
  issuer and an audience answers its payload when these are the payload's \<open>iss\<close> and \<open>aud\<close> and the clock, in whole
  seconds, has not reached its \<open>exp\<close>, and throws otherwise.
\<close>

definition shared_key :: "auth_env \<Rightarrow> gw_env \<Rightarrow> bool" where
  "shared_key E G \<longleftrightarrow> (\<forall>p token i a x. jwt_sign E p = Some token \<and> string_claim p ''iss'' = Some i \<and>
       string_claim p ''aud'' = Some a \<and> obj_get p ''exp'' = Some (JInt x) \<longrightarrow>
     token \<noteq> '''' \<and> list_all (\<lambda>c. \<not> is_blank c) token \<and>
     (\<forall>iss aud now. jwtVerify G iss aud now token = (if iss = i \<and> aud = a \<and> now div 1000 < x then Some p else None)))"

lemma words_from_word: "list_all (\<lambda>c. \<not> is_blank c) cs \<Longrightarrow> words_from acc cs = [rev acc @ cs]"
  by (induction cs arbitrary: acc) (auto simp: is_space_def)

lemma bearer_word:
  assumes "token \<noteq> ''''" and "list_all (\<lambda>c. \<not> is_blank c) token"
  shows "extractBearerToken (Some (''Bearer '' @ token)) = Some token"
proof -
  have "dropWhile is_blank (rev token @ xs) = rev token @ xs" for xs
    using assms by (intro dropWhile_hd) (cases "rev token", auto simp: list_all_iff)
  then have "js_trim (''Bearer '' @ token) = ''Bearer '' @ token" by (simp add: js_trim_def is_blank_def)
  moreover have "words_from [] (''Bearer '' @ token) = [''Bearer'', token]"
    using words_from_word [OF assms(2), of "[]"] by (simp add: is_space_def is_blank_def)
  moreover have "js_toLowerCase ''Bearer'' = ''bearer''" by code_simp
  ultimately show ?thesis using assms(1) by (simp add: extractBearerToken_def)
qed

lemma startSession_success:
  assumes "quiet E" and "startSession E n u meta now (w, db) = (Inr (v, pair), (w', db'))"
  shows "v = toPublicAuthUser u \<and> jwt_sign E (jwt_payload E u (ae_uuid E (n + 1)) now) = Some (accessToken pair) \<and>
    (\<exists>t \<in> set (refresh_tokens db'). live t \<and> familyId t = ae_uuid E (n + 1) \<and> rt_authUserId t = au_id u \<and> tokenHash t = sha256 E (refreshToken pair))"
proof -
  obtain x where ins: "insert_refresh_token (new_refresh_token (ae_uuid E n) (ae_now E n)
      (session_record u (ae_uuid E (n + 1)) (createRefreshToken E now) meta)) db = (Inr x, db')"
    and rest: "refreshToken pair = ae_randomToken E" "v = toPublicAuthUser u" "jwt_sign E (jwt_payload E u (ae_uuid E (n + 1)) now) = Some (accessToken pair)"
    using assms(2) by (auto simp: startSession_def Let_def and_then_Inr_iff lift_def call_quiet [OF assms(1)] repo_createRefreshToken_def db_call_Inr
        signAccessToken_def token_pair_def createRefreshToken_def split: prod.splits sum.splits option.splits)
  moreover have "\<exists>t \<in> set (refresh_tokens db'). live t \<and> familyId t = ae_uuid E (n + 1) \<and> rt_authUserId t = au_id u \<and> tokenHash t = sha256 E (refreshToken pair)"
    using insert_token_row [OF ins] rest(1)
    by (intro bexI [of _ x]) (simp_all add: new_refresh_token_def session_record_def createRefreshToken_def live_def)
  ultimately show ?thesis by blast
qed

lemma login_session:
  assumes "quiet E" and "login E rd ports email password meta (w, db) = (Inr (v, pair), s)"
  shows "\<exists>u s1. startSession E 4 u meta (ae_now E 1) s1 = (Inr (v, pair), s)"
proof (cases "find_row au_email email (auth_users db)")
  case None
  then show ?thesis using assms(2) by (simp add: login_def and_then_step call_read [OF assms(1)] and_then_Inr_iff [of "recordAttempt E _ _ _ _ _ _"])
next
  case (Some u)
  then show ?thesis using assms(2)
    by (auto simp: login_def Let_def and_then_step call_read [OF assms(1)] and_then_Inr_iff lift_def split: if_splits sum.splits)
qed

text \<open>
  Property C32. What the auth service hands out is what the edge accepts, for as long as it is valid. After an undisturbed
  login, a request carrying the access token as its bearer passes the gateway's authentication in the name of that
  account and with its role, and names the live refresh-token family the login opened, exactly while
  the gateway's clock has not reached the second the token expires at (the time of the login plus the configured lifetime) and
  both services are configured with the same issuer and audience; from then on, and with another issuer or audience,
  it is answered 401.
\<close>

theorem login_reaches_edge:
  assumes "quiet E" and "shared_key E G" and "login E rd ports email password meta (w, db) = (Inr (v, pair), (w', db'))"
    and "gw_headers req ''authorization'' = Some (''Bearer '' @ accessToken pair)"
  shows "if gw_issuer G = JWT_ISSUER E \<and> gw_audience G = JWT_AUDIENCE E \<and>
        gw_now G div 1000 < ae_now E 1 div 1000 + ACCESS_TOKEN_TTL_MINUTES E * 60
    then \<exists>req' claims. authenticate G req = Inr req' \<and> gw_headers req' ACTOR_HEADER = Some (pu_id v) \<and> gw_auth req' = Some claims \<and>
      claim_sub claims = pu_id v \<and> claim_role claims = role_text (pu_role v) \<and>
      (\<exists>t \<in> set (refresh_tokens db'). live t \<and> familyId t = claim_sid claims \<and> rt_authUserId t = pu_id v \<and> tokenHash t = sha256 E (refreshToken pair))
    else \<exists>e. authenticate G req = Inl e \<and> gwe_status e = 401"
proof -
  obtain u w1 db1 where "startSession E 4 u meta (ae_now E 1) (w1, db1) = (Inr (v, pair), (w', db'))"
    using login_session [OF assms(1,3)] by (metis prod.exhaust)
  note s = startSession_success [OF assms(1) this]
  let ?token = "accessToken pair" and ?p = "jwt_payload E u (ae_uuid E (4 + 1)) (ae_now E 1)"
  let ?good = "\<lambda>iss aud now. iss = JWT_ISSUER E \<and> aud = JWT_AUDIENCE E \<and>
      now div 1000 < ae_now E 1 div 1000 + ACCESS_TOKEN_TTL_MINUTES E * 60"
  have "jwt_sign E ?p = Some ?token" using s by blast
  note key = assms(2) [unfolded shared_key_def, rule_format, OF conjI [OF this conjI [OF issued_claims(1) conjI [OF issued_claims(2,3)]]]]
  have word: "?token \<noteq> ''''" "list_all (\<lambda>c. \<not> is_blank c) ?token" using key by blast+
  have verify: "jwtVerify G iss aud now ?token = (if ?good iss aud now then Some ?p else None)" for iss aud now
    using key by blast
  have v: "pu_id v = au_id u" "pu_role v = au_role u" using s by (simp_all add: toPublicAuthUser_def)
  show ?thesis
  proof (cases "?good (gw_issuer G) (gw_audience G) (gw_now G)")
    case True
    then have "authenticate G req = Inr (req\<lparr>gw_auth := Some \<lparr>claim_sub = au_id u, claim_email = au_email u, claim_username = au_username u,
        claim_role = role_text (au_role u), claim_sid = ae_uuid E (4 + 1)\<rparr>, gw_actor := Some (au_id u),
        gw_headers := (gw_headers req)(ACTOR_HEADER \<mapsto> au_id u)\<rparr>)"
      unfolding authenticate_def verifyAccessToken_def assms(4) bearer_word [OF word] option.case verify if_P [OF True] payload_claims prod.case by simp
    then show ?thesis using True s v by auto
  next
    case False
    have "authenticate G req = Inl (gw_error 401 ''UNAUTHORIZED'' ''Access token is invalid or has expired'')"
      unfolding authenticate_def verifyAccessToken_def assms(4) bearer_word [OF word] option.case verify if_not_P [OF False] ..
    then show ?thesis unfolding if_not_P [OF False] by (simp add: gw_error_def)
  qed
qed

definition sample_payload :: "(string \<times> json) list" where
  "sample_payload = jwt_payload sample_env sample_account (ae_uuid sample_env 5) 1000"

definition sample_issuer :: auth_env where
  "sample_issuer = sample_env\<lparr>jwt_sign := \<lambda>p. if p = sample_payload then Some ''jwt'' else None\<rparr>"

text \<open>The edge at time \<open>t\<close>; the token is good for fifteen minutes from second 1.\<close>

definition sample_edge :: "int \<Rightarrow> gw_env" where
  "sample_edge at = sample_gateway\<lparr>gw_now := at, jwtVerify := \<lambda>iss aud now t.
     if t = ''jwt'' \<and> iss = ''auth'' \<and> aud = ''api'' \<and> now div 1000 < 901 then Some sample_payload else None\<rparr>"

lemma sample_shared: "shared_key sample_issuer (sample_edge t)"
proof -
  have "string_claim sample_payload ''iss'' = Some ''auth''" "string_claim sample_payload ''aud'' = Some ''api''"
    "obj_get sample_payload ''exp'' = Some (JInt 901)"
    unfolding sample_payload_def issued_claims by (simp_all add: sample_env_def)
  then show ?thesis by (auto simp: shared_key_def sample_issuer_def sample_edge_def is_blank_def)
qed

theorem login_reaches_edge_witness:
  "\<exists>v pair db' req' e. login sample_issuer (\<lambda>j. None) no_ports ''a@b.co'' ''secret'' sample_meta ((), sample_auth_db) = (Inr (v, pair), ((), db')) \<and>
     authenticate (sample_edge 900999) (Gateway.sample_request ''GET'' ''/api/v1/users'' (Some (''Bearer '' @ accessToken pair))) = Inr req' \<and>
     gw_headers req' ACTOR_HEADER = Some (pu_id v) \<and> pu_id v = ''u1'' \<and>
     authenticate (sample_edge 901000) (Gateway.sample_request ''GET'' ''/api/v1/users'' (Some (''Bearer '' @ accessToken pair))) = Inl e \<and>
     gwe_status e = 401"
proof -
  let ?r = "login sample_issuer (\<lambda>j. None) no_ports ''a@b.co'' ''secret'' sample_meta ((), sample_auth_db)"
  have "map_sum id (\<lambda>(v, pair). pu_id v) (fst ?r) = Inr ''u1''" by code_simp
  then obtain v pair w' db' where r: "?r = (Inr (v, pair), (w', db'))" and v: "pu_id v = ''u1''"
    by (cases ?r; cases "fst ?r") auto
  let ?req = "Gateway.sample_request ''GET'' ''/api/v1/users'' (Some (''Bearer '' @ accessToken pair))"
  have quiet: "quiet sample_issuer" using sample_quiet(1) by (simp add: quiet_def sample_issuer_def)
  have head: "gw_headers ?req ''authorization'' = Some (''Bearer '' @ accessToken pair)"
    by (simp add: Gateway.sample_request_def)
  note edge = login_reaches_edge [OF quiet sample_shared r head]
  have set: "gw_issuer (sample_edge t) = JWT_ISSUER sample_issuer" "gw_audience (sample_edge t) = JWT_AUDIENCE sample_issuer"
    "gw_now (sample_edge t) = t" "ae_now sample_issuer 1 div 1000 + ACCESS_TOKEN_TTL_MINUTES sample_issuer * 60 = 901" for t
    by (simp_all add: sample_edge_def sample_gateway_def sample_issuer_def sample_env_def)
  have "\<exists>req'. authenticate (sample_edge 900999) ?req = Inr req' \<and> gw_headers req' ACTOR_HEADER = Some (pu_id v)"
    using edge [of 900999] unfolding set by auto
  moreover have "\<exists>e. authenticate (sample_edge 901000) ?req = Inl e \<and> gwe_status e = 401"
    using edge [of 901000] unfolding set by auto
  ultimately show ?thesis using r v by auto
qed

end
