(* ===== verification/Spec2Isabelle.thy ===== *)
theory Spec2Isabelle
  imports InventoryProperties InventoryQueries InventoryDispatch BrokerConsumer PublisherTopology ProductProperties EmailDispatcher Gateway
    UserService AuthClients
begin

text \<open>
  Verification of practical-microservice: an API gateway and six services (inventory, cart, product, email, user, auth)
  in TypeScript, over PostgreSQL, Redis and RabbitMQ. Paths below are relative to \<^verbatim>\<open>src/\<close>.

  \<^bold>\<open>The system.\<close> The gateway (\<^verbatim>\<open>api-gateway\<close>) verifies access tokens, applies a table of route policies and relays a
  request to one service. Inventory owns the stock: levels, a movement ledger, an audit log. Cart holds quantities in
  Redis and keeps them reserved at inventory, by HTTP when it needs the answer and through RabbitMQ when an expired cart
  gives its units back. Product owns the catalogue and creates, renames and deletes the stock record of each product by
  HTTP. Auth owns accounts, sessions and codes; it hands the profile to the user service and mail to the email service
  by HTTP. Email writes a transactional outbox that a dispatcher drains to a mail provider.

  \<^bold>\<open>How code becomes definitions.\<close> A method that awaits and may throw is an action (\<open>act\<close> in \<open>Prelude\<close>): from the state it
  can change to what it throws or resolves with, and the state left behind; \<open>and_then\<close> is \<^verbatim>\<open>await\<close>, \<open>catching\<close> is
  \<^verbatim>\<open>try/catch\<close>, \<open>transaction\<close> rolls back. A table is the list of its rows. What surrounds the program is a parameter, with a
  verdict for each call an operation makes, in program order: a statement or transaction commits or the database
  refuses it; an HTTP or Redis call is answered, fails, or is carried out with the answer lost. The user, auth, email
  and product models let other requests commit between two calls of one operation (the \<open>meanwhile\<close> fields). Where
  processes run side by side for long, a step relation gives every interleaving: clients of a lock, workers of the
  outbox, items of the bounded pool, the events of the two broker connections.

  \<^bold>\<open>Theories.\<close>

  \<^item> \<open>Prelude\<close>, \<open>AppError\<close>, \<open>Results\<close>, \<open>Zod\<close>: actions, tables, ordering and pages, JavaScript's text and number conversions;
    \<^verbatim>\<open>errors/app-error.ts\<close> with \<^verbatim>\<open>middlewares/error-handler.ts\<close> (an unexpected error never shows its text in production);
    \<^verbatim>\<open>utils/result.ts\<close>; JSON and the schema combinators in use.
  \<^item> Inventory (\<^verbatim>\<open>services/inventory\<close>). \<open>InventoryRules\<close>: \<^verbatim>\<open>inventory.rules.ts\<close>, the planners, each exact about what it accepts.
    \<open>InventoryRepository\<close>: \<^verbatim>\<open>prisma/schema.prisma\<close> and \<^verbatim>\<open>inventory.repository.ts\<close>. \<open>InventoryService\<close>, \<open>InventorySchema\<close>,
    \<open>InventoryApi\<close>: the operations, the body schemas, controller and routes. \<open>InventoryQueries\<close>: the paginated reads; the pages
    put together are the matching rows, once each and in order, when sort keys differ. \<open>InventoryConsumer\<close>: the stock event
    and its handler. \<open>InventoryInvariant\<close>: no reachable state is oversold, and the ledger replays to the quantity
    (an adjustment's direction is read from the next recorded level, since its row does not store it).
    \<open>InventoryProperties\<close>: bulk transitions are all or nothing with exact reports, a reservation can be undone, redelivery is
    harmless, a patch is audited. \<open>InventoryWire\<close>: the envelope HTTP clients read. \<open>BrokerConsumer\<close>: \<^verbatim>\<open>rabbitmq.consumer.ts\<close> as
    an event loop; no message leaves the broker without a handler's word, and a lost broker is found again.
  \<^item> Cart (\<^verbatim>\<open>services/cart\<close>). \<open>CartPlanner\<close>: \<^verbatim>\<open>cart.planner.ts\<close>, exact plans within the bulk limits. \<open>CartStore\<close>: \<^verbatim>\<open>cart.keys.ts\<close>, the
    Lua scripts, the repository; a commit refines the update of the cart. \<open>RedisLock\<close>: \<^verbatim>\<open>redis.lock.ts\<close>, mutual exclusion
    within the lifetime. \<open>CartService\<close>: \<^verbatim>\<open>cart.service.ts\<close>, the controller, the expiry watcher; a cart with lines is always
    on the sweeper's queue. \<open>InventoryClient\<close>: \<^verbatim>\<open>inventory.http.adapter.ts\<close> against inventory's own routes; an undisturbed update realises the
    request in both services or changes neither, and what a lost reply does. \<open>InventoryDispatch\<close>: \<^verbatim>\<open>inventory.messages.ts\<close>,
    \<^verbatim>\<open>inventory.amqp.adapter.ts\<close>; for messages the consumer can read, the broker's way has the effect of the HTTP way. \<open>BrokerTopology\<close>: what both services declare on
    the broker. \<open>BrokerPublisher\<close>: \<^verbatim>\<open>rabbitmq.client.ts\<close> as an event loop with a clock. \<open>PublisherContract\<close>: a publish is settled once and
    in time, and resolves only on a confirm. \<open>PublisherTopology\<close>: what is registered is declared before a message goes out, and
    a lost connection is replaced; with the runs in which that fails.
  \<^item> Product (\<^verbatim>\<open>services/product\<close>). \<open>ProductService\<close>: table, schemas, operations, routes and the inventory client, against
    inventory's own routes. \<open>ProductClient\<close>: what each call does to inventory. \<open>ProductProperties\<close>: creating is all or nothing,
    SKUs stay together, a page shows the stock or says it is unknown; with the runs (a crossing rename, a late call) that need
    the provisos.
  \<^item> Email (\<^verbatim>\<open>services/email\<close>). \<open>EmailOutbox\<close>: tables and repository. \<open>EmailService\<close>: fingerprint, schemas, idempotent enqueue,
    routes. \<open>EmailDispatcher\<close>: \<^verbatim>\<open>email.dispatcher.ts\<close>, \<^verbatim>\<open>backoff.ts\<close>; claims are exclusive while
    deliveries are punctual and a worker's cycles apart, a relay that keeps up settles every message, the pool completes within its
    limit; with the runs that show why the provisos are there.
  \<^item> User (\<^verbatim>\<open>services/user\<close>). \<open>UserService\<close>: table, repository, operations, schemas, routes; profiles stay unique and typed.
  \<^item> Auth (\<^verbatim>\<open>services/auth\<close>). \<open>AuthStore\<close>, \<open>AuthService\<close>: tables, repository, every operation, tokens, codes, mails, the reaper.
    \<open>AuthInvariant\<close>, \<open>AuthSessions\<close>: what every operation keeps, others committing in between. \<open>AuthProperties\<close>: stolen
    tokens, accounting of logins, locking, codes, new passwords, answers that do not tell who has an account.
    \<open>AuthApi\<close>: schemas, controller, routes; callers are confined to their own rows. \<open>AuthClients\<close>: both HTTP clients against
    the user and email services' own routes; the hand-off of a profile happens exactly once, and the gateway accepts
    the token of a login until it expires.
  \<^item> \<open>Gateway\<close> (\<^verbatim>\<open>api-gateway\<close>): routing and policy tables, authentication, request context, limits; what reaches which service,
    and with which actor header.

  \<^bold>\<open>Interfaces.\<close> Each is a locale, interpreted on the model's own definitions: \<open>stock_planner\<close> and \<open>ledger_planner\<close> (the planners,
  for the repository's bulk loop and the ledger), \<open>stock_store\<close> (the inventory table), \<open>stock_ports\<close> (what the cart service
  asks of inventory; the HTTP adapter), \<open>stock_port\<close> (what creating a product asks of it; the product's client), \<open>user_port\<close>
  (what registration asks of the user service; the auth client).

  \<^bold>\<open>Assumptions and bounds.\<close> A transaction of inventory runs alone, as the serializable isolation it asks for guarantees. The other
  services leave it at Read Committed: the replacement of a code, the one place where that shows in the invariant, has what others
  commit between its two statements as a parameter (\<open>ae_between\<close>; \<open>interleaved_replacements\<close> in \<open>AuthSessions\<close>), and for the other
  transactions interference can be taken to come before their first statement or after their last. Several statements without
  a transaction are separate calls. Redis runs a script alone; the cart's hosts read a clock of their own (\<open>host_clock\<close>), all
  workers of the outbox one clock. A call whose reply is lost has been carried out when its caller goes on; that a timed-out
  call lands later is expressed as an unreachable call followed by interference (\<open>late_provision_orphans\<close> in
  \<open>ProductProperties\<close>), which the theorems that say undisturbed exclude. UUIDs are compared as the texts they are, so they are
  taken to arrive in PostgreSQL's canonical lower-case spelling, as the services generate them. jose is taken at its documented
  word on \<open>exp\<close>, \<open>iss\<close> and \<open>aud\<close> (\<open>shared_key\<close> in \<open>AuthClients\<close>). Identifiers a generator returns are
  not in use yet where a theorem needs it, and says so. SHA-256, argon2, jose, \<^verbatim>\<open>z.uuid()\<close>, \<^verbatim>\<open>z.email()\<close>, collation, clocks and
  random numbers are parameters; the theorems name what they need of them. Numbers are unbounded, with the limits of columns
  and schemas written out where the code has them; strings are ASCII characters. All functions are total: loops
  over data are recursive on it, the lock's retries on what is left of them; the dispatcher's liveness counts
  undisturbed cycles, and the pool has a measure. A property with hypotheses is followed by a run on which they hold.

  \<^bold>\<open>Not modelled.\<close> Process glue (start-up, shutdown, environment parsing, dependency injection, logging, health probes), which
  is input and output without state; the OpenAPI documents, which are constants; the mail providers, whose answers are a
  parameter; the text of broker URLs; the
  adapter's two read-only lookups; the query schema of the mail listing; the text of validation issues; the counting
  inside the rate limiters and the relaying of bytes, which are the libraries'.
\<close>

end
